(* ===== verification/Prelude.thy ===== *)
theory Prelude
  imports Main "HOL-Library.Word" "HOL-Library.AList"
begin

text \<open>
  What every component shares: the effect type of an \<open>async\<close> method (state plus thrown
  exception), the outcome of one remote call, the small pieces of the JavaScript standard
  library the sources use (trimming, lower case, splitting, identifier patterns, objects with
  insertion-ordered keys), HTTP replies, and the proof rules for "this operation keeps this
  property of the state".
\<close>

named_theorems eff_simps \<open>evaluation of the effect combinators\<close>
named_theorems keeps_intros \<open>rules that an operation keeps a property of the state\<close>

section \<open>Thrown values\<close>

datatype mutation_code = IMMUTABLE_OWNER | MISSING_TENANT

text \<open>
  A thrown value: a transport failure of a remote service, an \<open>Error\<close> with its message, the
  object that \<open>validateRequest\<close> throws (status 400), the two named error classes of the
  sources, a service error that carries a numeric \<open>code\<close>, and a failed HTTP call (status if there
  was a response, the error message, the message in the response body).
\<close>

datatype exn =
    IoErr
  | Err string
  | Invalid "string list"
  | MutationErr string mutation_code
  | BadResourceId string
  | CodeErr int
  | HttpErr "nat option" string "string option"

definition message_of :: "exn \<Rightarrow> string" where
  "message_of e = (case e of
     IoErr \<Rightarrow> ''io''
   | Err m \<Rightarrow> m
   | Invalid _ \<Rightarrow> ''Validation failed''
   | MutationErr m _ \<Rightarrow> m
   | BadResourceId m \<Rightarrow> m
   | CodeErr _ \<Rightarrow> ''service error''
   | HttpErr _ m _ \<Rightarrow> m)"

section \<open>Effects\<close>

text \<open>
  An asynchronous method is a function from the world to its outcome (a thrown value or a
  result) and the new world.
\<close>

type_synonym ('s, 'a) eff = "'s \<Rightarrow> (exn + 'a) \<times> 's"

definition ret :: "'a \<Rightarrow> ('s, 'a) eff" where
  "ret a = (\<lambda>s. (Inr a, s))"

definition throw :: "exn \<Rightarrow> ('s, 'a) eff" where
  "throw e = (\<lambda>s. (Inl e, s))"

definition bnd :: "('s, 'a) eff \<Rightarrow> ('a \<Rightarrow> ('s, 'b) eff) \<Rightarrow> ('s, 'b) eff" where
  "bnd m f = (\<lambda>s. case m s of (Inl e, t) \<Rightarrow> (Inl e, t) | (Inr a, t) \<Rightarrow> f a t)"

definition catch :: "('s, 'a) eff \<Rightarrow> (exn \<Rightarrow> ('s, 'a) eff) \<Rightarrow> ('s, 'a) eff" where
  "catch m h = (\<lambda>s. case m s of (Inl e, t) \<Rightarrow> h e t | (Inr a, t) \<Rightarrow> (Inr a, t))"

definition gets :: "('s \<Rightarrow> 'a) \<Rightarrow> ('s, 'a) eff" where
  "gets f = (\<lambda>s. (Inr (f s), s))"

definition modify :: "('s \<Rightarrow> 's) \<Rightarrow> ('s, unit) eff" where
  "modify f = (\<lambda>s. (Inr (), f s))"

text \<open>\<open>await p.catch(log)\<close>: the failure is logged and dropped.\<close>

definition swallow :: "('s, unit) eff \<Rightarrow> ('s, unit) eff" where
  "swallow m = catch m (\<lambda>_. ret ())"

text \<open>\<open>for (const x of xs) await body(x)\<close>, stopping at the first throw.\<close>

fun forEach :: "('a \<Rightarrow> ('s, unit) eff) \<Rightarrow> 'a list \<Rightarrow> ('s, unit) eff" where
  "forEach f [] = ret ()"
| "forEach f (x # xs) = bnd (f x) (\<lambda>_. forEach f xs)"

text \<open>The results of the calls, in order, stopping at the first throw.\<close>

fun mapEff :: "('a \<Rightarrow> ('s, 'b) eff) \<Rightarrow> 'a list \<Rightarrow> ('s, 'b list) eff" where
  "mapEff f [] = ret []"
| "mapEff f (x # xs) = bnd (f x) (\<lambda>y. bnd (mapEff f xs) (\<lambda>ys. ret (y # ys)))"

text \<open>
  \<open>Promise.all(xs.map(f))\<close>: every call runs to its end, also when another one has thrown; the
  result is the list of results, or the first throw. The calls are taken one after the other.
\<close>

fun settleAll :: "('a \<Rightarrow> ('s, 'b) eff) \<Rightarrow> 'a list \<Rightarrow> 's \<Rightarrow> (exn + 'b) list \<times> 's" where
  "settleAll f [] s = ([], s)"
| "settleAll f (x # xs) s = (let (r, t) = f x s; (rs, u) = settleAll f xs t in (r # rs, u))"

fun allInr :: "(exn + 'b) list \<Rightarrow> exn + 'b list" where
  "allInr [] = Inr []"
| "allInr (Inl e # rs) = Inl e"
| "allInr (Inr b # rs) = (case allInr rs of Inl e \<Rightarrow> Inl e | Inr bs \<Rightarrow> Inr (b # bs))"

definition promiseAll :: "('a \<Rightarrow> ('s, 'b) eff) \<Rightarrow> 'a list \<Rightarrow> ('s, 'b list) eff" where
  "promiseAll f xs = (\<lambda>s. let (rs, t) = settleAll f xs s in (allInr rs, t))"

text \<open>A validation outcome as an effect.\<close>

definition lift :: "exn + 'a \<Rightarrow> ('s, 'a) eff" where
  "lift r = (\<lambda>s. (r, s))"

lemma ret_apply [eff_simps, simp]: "ret a s = (Inr a, s)"
  by (simp add: ret_def)

lemma throw_apply [eff_simps, simp]: "throw e s = (Inl e, s)"
  by (simp add: throw_def)

lemma gets_apply [eff_simps, simp]: "gets f s = (Inr (f s), s)"
  by (simp add: gets_def)

lemma modify_apply [eff_simps, simp]: "modify f s = (Inr (), f s)"
  by (simp add: modify_def)

lemma bnd_apply [eff_simps]:
  "bnd m f s = (case m s of (Inl e, t) \<Rightarrow> (Inl e, t) | (Inr a, t) \<Rightarrow> f a t)"
  by (simp add: bnd_def)

lemma catch_apply [eff_simps]:
  "catch m h s = (case m s of (Inl e, t) \<Rightarrow> h e t | (Inr a, t) \<Rightarrow> (Inr a, t))"
  by (simp add: catch_def)

lemma bnd_ret [simp]: "bnd (ret a) f = f a"
  by (rule ext) (simp add: bnd_apply)

lemma bnd_throw [simp]: "bnd (throw e) f = throw e"
  by (rule ext) (simp add: bnd_apply)

lemma bnd_gets [simp]: "bnd (gets g) f = (\<lambda>s. f (g s) s)"
  by (rule ext) (simp add: bnd_apply)

lemma bnd_assoc: "bnd (bnd m f) g = bnd m (\<lambda>x. bnd (f x) g)"
  by (rule ext) (auto simp: bnd_apply split: prod.splits sum.splits)

text \<open>Inversion: a sequence returned because both halves did.\<close>

lemma bnd_InrE:
  assumes "bnd m f s = (Inr b, t)"
  obtains a u where "m s = (Inr a, u)" and "f a u = (Inr b, t)"
  using assms by (auto simp: bnd_apply split: prod.splits sum.splits)

lemma bnd_InlE:
  assumes "bnd m f s = (Inl e, t)"
  obtains "m s = (Inl e, t)" | a u where "m s = (Inr a, u)" and "f a u = (Inl e, t)"
  using assms by (auto simp: bnd_apply split: prod.splits sum.splits)

lemma swallow_total: "\<exists>t. swallow m s = (Inr (), t)"
  by (cases "m s") (auto simp: swallow_def catch_apply split: sum.splits)

lemma swallow_apply: "swallow m s = (Inr (), snd (m s))"
  by (auto simp: swallow_def catch_apply split: sum.splits prod.splits)

lemma bnd_swallow: "bnd (swallow m) f s = f () (snd (m s))"
  by (simp add: bnd_apply swallow_apply)

section \<open>Operations that keep a property\<close>

definition keeps :: "('s \<Rightarrow> bool) \<Rightarrow> ('s, 'a) eff \<Rightarrow> bool" where
  "keeps P m \<longleftrightarrow> (\<forall>s. P s \<longrightarrow> P (snd (m s)))"

lemma keepsI: "(\<And>s. P s \<Longrightarrow> P (snd (m s))) \<Longrightarrow> keeps P m"
  by (simp add: keeps_def)

lemma keepsD: "keeps P m \<Longrightarrow> P s \<Longrightarrow> P (snd (m s))"
  by (simp add: keeps_def)

lemma keepsE: "keeps P m \<Longrightarrow> P s \<Longrightarrow> m s = (r, t) \<Longrightarrow> P t"
  by (metis keepsD snd_conv)

lemma keeps_ret [keeps_intros]: "keeps P (ret a)"
  by (simp add: keeps_def)

lemma keeps_throw [keeps_intros]: "keeps P (throw e)"
  by (simp add: keeps_def)

lemma keeps_gets [keeps_intros]: "keeps P (gets f)"
  by (simp add: keeps_def)

lemma keeps_modify: "(\<And>s. P s \<Longrightarrow> P (f s)) \<Longrightarrow> keeps P (modify f)"
  by (simp add: keeps_def)

lemma keeps_bnd [keeps_intros]:
  assumes "keeps P m" and "\<And>a. keeps P (f a)"
  shows "keeps P (bnd m f)"
proof (rule keepsI)
  fix s assume P: "P s"
  obtain r t where m: "m s = (r, t)" by (cases "m s")
  with assms(1) P have "P t" by (metis keepsE)
  with m assms(2) show "P (snd (bnd m f s))"
    by (cases r) (auto simp: bnd_apply dest: keepsD)
qed

lemma keeps_catch [keeps_intros]:
  assumes "keeps P m" and "\<And>e. keeps P (h e)"
  shows "keeps P (catch m h)"
proof (rule keepsI)
  fix s assume P: "P s"
  obtain r t where m: "m s = (r, t)" by (cases "m s")
  with assms(1) P have "P t" by (metis keepsE)
  with m assms(2) show "P (snd (catch m h s))"
    by (cases r) (auto simp: catch_apply dest: keepsD)
qed

lemma keeps_swallow [keeps_intros]: "keeps P m \<Longrightarrow> keeps P (swallow m)"
  by (simp add: swallow_def keeps_catch keeps_ret)

lemma keeps_read: "(\<And>a. keeps P (f a)) \<Longrightarrow> keeps P (\<lambda>s. f (g s) s)"
  by (simp add: keeps_def)

lemma keeps_if [keeps_intros]:
  "(b \<Longrightarrow> keeps P m) \<Longrightarrow> (\<not> b \<Longrightarrow> keeps P n) \<Longrightarrow> keeps P (if b then m else n)"
  by simp

lemma keeps_option [keeps_intros]:
  "(x = None \<Longrightarrow> keeps P m) \<Longrightarrow> (\<And>a. x = Some a \<Longrightarrow> keeps P (f a)) \<Longrightarrow>
   keeps P (case x of None \<Rightarrow> m | Some a \<Rightarrow> f a)"
  by (cases x) auto

lemma keeps_prod [keeps_intros]:
  "(\<And>a b. x = (a, b) \<Longrightarrow> keeps P (f a b)) \<Longrightarrow> keeps P (case x of (a, b) \<Rightarrow> f a b)"
  by (cases x) auto

lemma keeps_sum [keeps_intros]:
  "(\<And>a. x = Inl a \<Longrightarrow> keeps P (f a)) \<Longrightarrow> (\<And>b. x = Inr b \<Longrightarrow> keeps P (g b)) \<Longrightarrow>
   keeps P (case x of Inl a \<Rightarrow> f a | Inr b \<Rightarrow> g b)"
  by (cases x) auto

lemma keeps_forEach [keeps_intros]: "(\<And>x. keeps P (f x)) \<Longrightarrow> keeps P (forEach f xs)"
  by (induction xs) (auto intro: keeps_intros)

lemma keeps_mapEff [keeps_intros]: "(\<And>x. keeps P (f x)) \<Longrightarrow> keeps P (mapEff f xs)"
  by (induction xs) (auto intro: keeps_intros)

lemma keeps_settleAll: "(\<And>x. keeps P (f x)) \<Longrightarrow> P s \<Longrightarrow> P (snd (settleAll f xs s))"
proof (induction xs arbitrary: s)
  case (Cons x xs)
  have "P (snd (f x s))" using Cons.prems by (auto dest: keepsD)
  with Cons.IH[OF Cons.prems(1)] show ?case
    by (auto simp: Let_def split: prod.splits) (metis snd_conv)
qed simp

lemma keeps_promiseAll [keeps_intros]: "(\<And>x. keeps P (f x)) \<Longrightarrow> keeps P (promiseAll f xs)"
  by (rule keepsI) (use keeps_settleAll[of P f] in \<open>auto simp: promiseAll_def Let_def split_beta\<close>)

lemma keeps_lift [keeps_intros]: "keeps P (lift r)"
  by (simp add: keeps_def lift_def)

lemma lift_apply [simp]: "lift r s = (r, s)"
  by (simp add: lift_def)

lemma length_allInr: "allInr rs = Inr bs \<Longrightarrow> length bs = length rs"
  by (induction rs arbitrary: bs rule: allInr.induct) (auto split: sum.splits)

lemma length_settleAll: "length (fst (settleAll f xs s)) = length xs"
  by (induction xs arbitrary: s) (simp_all add: Let_def split_beta)

section \<open>The world: clock and remote calls\<close>

text \<open>
  The outcome of one remote call: it succeeds, it fails without effect, or it takes effect and
  the acknowledgement is lost, so the caller sees a failure. Every call also takes some time.
  The world carries the outcomes of the calls still to come (an exhausted list means success),
  so a statement about every world is a statement about every pattern of failures.
\<close>

datatype outcome = Ok | Lost | Unacked

record env =
  now :: int
  outcomes :: "(outcome \<times> nat) list"

definition next_call :: "'z env_scheme \<Rightarrow> outcome \<times> 'z env_scheme" where
  "next_call s = (case outcomes s of
     [] \<Rightarrow> (Ok, s)
   | (oc, dt) # ocs \<Rightarrow> (oc, s\<lparr>outcomes := ocs, now := now s + int dt\<rparr>))"

text \<open>A remote read: its value, or a transport failure.\<close>

definition rread :: "('z env_scheme \<Rightarrow> 'a) \<Rightarrow> ('z env_scheme, 'a) eff" where
  "rread f s = (case next_call s of
     (Ok, t) \<Rightarrow> (Inr (f t), t)
   | (_, t) \<Rightarrow> (Inl IoErr, t))"

text \<open>
  A remote write or transaction: the body decides the result and the new state; a body that
  throws aborts and has no effect.
\<close>

definition rtxn :: "('z env_scheme \<Rightarrow> (exn + 'a) \<times> 'z env_scheme) \<Rightarrow> ('z env_scheme, 'a) eff" where
  "rtxn f s = (case next_call s of
     (Ok, t) \<Rightarrow> (case f t of (Inl e, u) \<Rightarrow> (Inl e, t) | (Inr a, u) \<Rightarrow> (Inr a, u))
   | (Lost, t) \<Rightarrow> (Inl IoErr, t)
   | (Unacked, t) \<Rightarrow> (case f t of (Inl e, u) \<Rightarrow> (Inl IoErr, t) | (Inr a, u) \<Rightarrow> (Inl IoErr, u)))"

definition rwrite :: "('z env_scheme \<Rightarrow> 'z env_scheme) \<Rightarrow> ('z env_scheme, unit) eff" where
  "rwrite f = rtxn (\<lambda>s. (Inr (), f s))"

text \<open>A remote call that changes nothing and may be refused by the service.\<close>

definition rcall :: "('z env_scheme \<Rightarrow> exn + 'a) \<Rightarrow> ('z env_scheme, 'a) eff" where
  "rcall f = rtxn (\<lambda>s. (f s, s))"

text \<open>A property that neither the clock nor the pending outcomes enter.\<close>

definition timeless :: "('z env_scheme \<Rightarrow> bool) \<Rightarrow> bool" where
  "timeless P \<longleftrightarrow> (\<forall>s n ocs. P (s\<lparr>outcomes := ocs, now := n\<rparr>) = P s)"

lemma timelessI: "(\<And>s n ocs. P (s\<lparr>outcomes := ocs, now := n\<rparr>) = P s) \<Longrightarrow> timeless P"
  by (simp add: timeless_def)

lemma next_call_timeless: "timeless P \<Longrightarrow> P (snd (next_call s)) = P s"
  by (auto simp: next_call_def timeless_def split: list.splits)

lemma rread_snd: "snd (rread f s) = snd (next_call s)"
  by (auto simp: rread_def split: prod.splits outcome.splits)

lemma rtxn_cases:
  "snd (rtxn f s) = snd (next_call s) \<or>
   (\<exists>a. f (snd (next_call s)) = (Inr a, snd (rtxn f s)))"
  by (auto simp: rtxn_def split: prod.splits outcome.splits sum.splits)

lemma keeps_rread [keeps_intros]: "timeless P \<Longrightarrow> keeps P (rread f)"
  by (rule keepsI) (simp add: rread_snd next_call_timeless)

lemma keeps_rtxn:
  assumes t: "timeless P" and f: "\<And>s a t. P s \<Longrightarrow> f s = (Inr a, t) \<Longrightarrow> P t"
  shows "keeps P (rtxn f)"
proof (rule keepsI)
  fix s assume "P s"
  then have P: "P (snd (next_call s))" by (simp add: next_call_timeless t)
  from rtxn_cases[of f s] show "P (snd (rtxn f s))"
    by (metis P f)
qed

lemma keeps_rwrite:
  assumes "timeless P" and "\<And>s. P s \<Longrightarrow> P (f s)"
  shows "keeps P (rwrite f)"
  unfolding rwrite_def using assms by (auto intro!: keeps_rtxn)

lemma rread_Inr:
  assumes "rread f s = (Inr a, t)"
  shows "a = f t \<and> t = snd (next_call s)"
  using assms by (auto simp: rread_def split: prod.splits outcome.splits)

lemma rtxn_Inr:
  assumes "rtxn f s = (Inr a, t)"
  shows "f (snd (next_call s)) = (Inr a, t)"
  using assms by (auto simp: rtxn_def split: prod.splits outcome.splits sum.splits)

lemma rwrite_Inr:
  assumes "rwrite f s = (Inr u, t)"
  shows "t = f (snd (next_call s))"
  using rtxn_Inr[OF assms[unfolded rwrite_def]] by simp

lemma keeps_rcall [keeps_intros]: "timeless P \<Longrightarrow> keeps P (rcall f)"
  unfolding rcall_def by (auto intro!: keeps_rtxn)

lemma rcall_Inr:
  assumes "rcall f s = (Inr a, t)"
  shows "f t = Inr a \<and> t = snd (next_call s)"
  using rtxn_Inr[OF assms[unfolded rcall_def]] by auto

text \<open>Time never runs backwards.\<close>

lemma next_call_clock: "now s \<le> now (snd (next_call s))"
  by (auto simp: next_call_def split: list.splits)

lemma clock_rtxn:
  fixes f :: "'a env_scheme \<Rightarrow> (exn + 'b) \<times> 'a env_scheme"
  assumes "\<And>s a t. f s = (Inr a, t) \<Longrightarrow> now s \<le> now t"
  shows "keeps (\<lambda>s. T \<le> now s) (rtxn f)"
proof (rule keepsI)
  fix s :: "'a env_scheme" assume "T \<le> now s"
  then show "T \<le> now (snd (rtxn f s))"
    using rtxn_cases[of f s] next_call_clock[of s] assms by (metis order_trans)
qed

lemma clock_rread: "keeps (\<lambda>s. T \<le> now s) (rread f)"
  by (rule keepsI) (metis next_call_clock order_trans rread_snd)

text \<open>The value a read returns was read in a state with the property.\<close>

lemma keeps_bnd_rread:
  assumes t: "timeless P" and g: "\<And>w. P w \<Longrightarrow> keeps P (g (f w))"
  shows "keeps P (bnd (rread f) g)"
proof (rule keepsI)
  fix s assume "P s"
  obtain r w where rd: "rread f s = (r, w)" by (cases "rread f s")
  have w: "P w" using keepsE[OF keeps_rread[OF t] \<open>P s\<close> rd] .
  show "P (snd (bnd (rread f) g s))"
    using rd w g[OF w] rread_Inr[of f s] by (cases r) (auto simp: bnd_apply dest: keepsD)
qed

lemma next_call_no_faults [simp]:
  "outcomes s = [] \<Longrightarrow> next_call s = (Ok, s)"
  by (simp add: next_call_def)

lemma rread_no_faults: "outcomes s = [] \<Longrightarrow> rread f s = (Inr (f s), s)"
  by (simp add: rread_def)

lemma rtxn_no_faults:
  "outcomes s = [] \<Longrightarrow> rtxn f s = (case f s of (Inl e, u) \<Rightarrow> (Inl e, s) | (Inr a, u) \<Rightarrow> (Inr a, u))"
  by (simp add: rtxn_def)

lemma rcall_no_faults: "outcomes s = [] \<Longrightarrow> rcall f s = (f s, s)"
  by (simp add: rcall_def rtxn_def split: sum.splits)

lemma rwrite_no_faults: "outcomes s = [] \<Longrightarrow> rwrite f s = (Inr (), f s)"
  by (simp add: rwrite_def rtxn_no_faults)

lemmas no_faults = rread_no_faults rtxn_no_faults rwrite_no_faults rcall_no_faults

section \<open>Strings and objects of the language\<close>

text \<open>\<open>a || b\<close> on optional strings: the empty string is falsy.\<close>

definition truthy :: "string option \<Rightarrow> bool" where
  "truthy v = (case v of None \<Rightarrow> False | Some x \<Rightarrow> x \<noteq> [])"

definition or_else :: "string option \<Rightarrow> string \<Rightarrow> string" where
  "or_else v d = (case v of None \<Rightarrow> d | Some x \<Rightarrow> if x = [] then d else x)"

text \<open>\<open>a || b\<close> where both may be absent.\<close>

definition or_opt :: "string option \<Rightarrow> string option \<Rightarrow> string option" where
  "or_opt v w = (if truthy v then v else w)"

definition is_space :: "char \<Rightarrow> bool" where
  "is_space c = (c \<in> {CHR '' '', CHR 0x09, CHR 0x0A, CHR 0x0B, CHR 0x0C, CHR 0x0D})"

definition trim :: "string \<Rightarrow> string" where
  "trim s = rev (dropWhile is_space (rev (dropWhile is_space s)))"

definition char_code :: "char \<Rightarrow> nat" where
  "char_code c = of_char c"

definition between :: "char \<Rightarrow> char \<Rightarrow> char \<Rightarrow> bool" where
  "between lo hi c = (char_code lo \<le> char_code c \<and> char_code c \<le> char_code hi)"

definition is_lower :: "char \<Rightarrow> bool" where
  "is_lower c = between (CHR ''a'') (CHR ''z'') c"

definition is_upper :: "char \<Rightarrow> bool" where
  "is_upper c = between (CHR ''A'') (CHR ''Z'') c"

definition is_digit :: "char \<Rightarrow> bool" where
  "is_digit c = between (CHR ''0'') (CHR ''9'') c"

definition lower_char :: "char \<Rightarrow> char" where
  "lower_char c = (if is_upper c then char_of (char_code c + 32) else c)"

definition toLowerCase :: "string \<Rightarrow> string" where
  "toLowerCase s = map lower_char s"

text \<open>\<open>s.split(c)\<close> for a one-character separator.\<close>

fun split_on :: "char \<Rightarrow> string \<Rightarrow> string list" where
  "split_on c [] = [[]]"
| "split_on c (x # xs) =
     (if x = c then [] # split_on c xs
      else case split_on c xs of [] \<Rightarrow> [[x]] | y # ys \<Rightarrow> (x # y) # ys)"

text \<open>\<open>[...new Set(xs)]\<close>: the elements in the order of their first occurrences.\<close>

definition uniq :: "'a list \<Rightarrow> 'a list" where
  "uniq xs = rev (remdups (rev xs))"

lemma uniq_simps [simp]: "set (uniq xs) = set xs" "distinct (uniq xs)" "uniq xs = [] \<longleftrightarrow> xs = []"
  by (simp_all add: uniq_def)

text \<open>\<open>xs.join(c)\<close>.\<close>

fun join_with :: "string \<Rightarrow> string list \<Rightarrow> string" where
  "join_with sep [] = []"
| "join_with sep [x] = x"
| "join_with sep (x # y # ys) = x @ sep @ join_with sep (y # ys)"

definition startsWith :: "string \<Rightarrow> string \<Rightarrow> bool" where
  "startsWith p s = (take (length p) s = p)"

fun includesStr :: "string \<Rightarrow> string \<Rightarrow> bool" where
  "includesStr p [] = (p = [])"
| "includesStr p (x # xs) = (startsWith p (x # xs) \<or> includesStr p xs)"

lemma split_on_nonempty [simp]: "split_on c s \<noteq> []"
  by (cases s) (auto split: list.splits)

lemma split_on_no_sep: "c \<notin> set s \<Longrightarrow> split_on c s = [s]"
  by (induction s) auto

lemma split_on_append:
  "c \<notin> set s \<Longrightarrow> split_on c (s @ c # t) = s # split_on c t"
  by (induction s) auto

lemma join_split: "join_with [c] (split_on c s) = s"
proof (induction s)
  case Nil
  then show ?case by simp
next
  case (Cons x xs)
  obtain y ys where "split_on c xs = y # ys"
    by (cases "split_on c xs") auto
  with Cons show ?case by (cases ys) auto
qed

text \<open>\<open>xs[i]\<close>, undefined out of range.\<close>

definition nth_opt :: "'a list \<Rightarrow> nat \<Rightarrow> 'a option" where
  "nth_opt xs i = (if i < length xs then Some (xs ! i) else None)"

text \<open>\<open>/^[a-zA-Z_][a-zA-Z0-9_]*$/\<close>\<close>

definition is_ident_start :: "char \<Rightarrow> bool" where
  "is_ident_start c = (is_lower c \<or> is_upper c \<or> c = CHR ''_'')"

definition is_ident_char :: "char \<Rightarrow> bool" where
  "is_ident_char c = (is_ident_start c \<or> is_digit c)"

definition is_identifier :: "string \<Rightarrow> bool" where
  "is_identifier s = (case s of [] \<Rightarrow> False | c # cs \<Rightarrow> is_ident_start c \<and> list_all is_ident_char cs)"

text \<open>The decimal numeral of a natural number, as a template literal prints it.\<close>

fun nat_str :: "nat \<Rightarrow> string" where
  "nat_str n = (if n < 10 then [char_of (48 + n)] else nat_str (n div 10) @ [char_of (48 + n mod 10)])"

declare nat_str.simps [simp del]

text \<open>Reading a decimal numeral back, so that numerals of different numbers differ.\<close>

definition nat_of_str :: "string \<Rightarrow> nat" where
  "nat_of_str = foldl (\<lambda>a c. a * 10 + (char_code c - 48)) 0"

lemma nat_of_str_digit: "d < 10 \<Longrightarrow> char_code (char_of (48 + d :: nat)) = 48 + d"
  by (simp add: char_code_def of_char_of)

lemma nat_of_nat_str [simp]: "nat_of_str (nat_str n) = n"
proof (induction n rule: nat_str.induct)
  case (1 n)
  show ?case
  proof (cases "n < 10")
    case True
    then show ?thesis by (simp add: nat_str.simps[of n] nat_of_str_def nat_of_str_digit)
  next
    case False
    then have "nat_of_str (nat_str (n div 10)) = n div 10" using 1 by blast
    with False show ?thesis
      using nat_of_str_digit[of "n mod 10"]
      by (simp add: nat_str.simps[of n] nat_of_str_def)
  qed
qed

lemma nat_str_eq [simp]: "nat_str m = nat_str n \<longleftrightarrow> m = n"
  by (metis nat_of_nat_str)

lemma nat_str_nonempty [simp]: "nat_str n \<noteq> []"
  by (simp add: nat_str.simps[of n])

text \<open>Writing a new key of an object appends it; writing an old one keeps the order.\<close>

lemma alist_update_new: "k \<notin> fst ` set xs \<Longrightarrow> AList.update k v xs = xs @ [(k, v)]"
  by (induction xs) auto

section \<open>HTTP replies\<close>

text \<open>A JSON value; \<open>JDec\<close> is a number given by its text.\<close>

datatype json =
    JNull
  | JDec string
  | JBool bool
  | JNum int
  | JStr string
  | JArr "json list"
  | JObj "(string \<times> json) list"

record reply =
  code :: nat
  body :: json

definition send :: "nat \<Rightarrow> (string \<times> json) list \<Rightarrow> reply" where
  "send c fs = \<lparr>code = c, body = JObj fs\<rparr>"

definition field :: "string \<Rightarrow> reply \<Rightarrow> json option" where
  "field f r = (case body r of JObj fs \<Rightarrow> map_of fs f | _ \<Rightarrow> None)"

definition jopt :: "string option \<Rightarrow> json" where
  "jopt v = (case v of None \<Rightarrow> JNull | Some x \<Rightarrow> JStr x)"

text \<open>\<open>JSON.stringify\<close>\<close>

definition json_char :: "char \<Rightarrow> string" where
  "json_char c =
     (if c = CHR 0x22 then [CHR 0x5C, CHR 0x22] else if c = CHR 0x5C then [CHR 0x5C, CHR 0x5C]
      else if c = CHR 0x08 then [CHR 0x5C, CHR ''b''] else if c = CHR 0x0C then [CHR 0x5C, CHR ''f'']
      else if c = CHR 0x0A then [CHR 0x5C, CHR ''n''] else if c = CHR 0x0D then [CHR 0x5C, CHR ''r'']
      else if c = CHR 0x09 then [CHR 0x5C, CHR ''t'']
      else if char_code c < 32 then
        (let d = (\<lambda>n. if n < 10 then char_of (48 + n) else char_of (87 + n :: nat)) in
         [CHR 0x5C, CHR ''u'', CHR ''0'', CHR ''0'', d (char_code c div 16), d (char_code c mod 16)])
      else [c])"

definition json_quote :: "string \<Rightarrow> string" where
  "json_quote s = CHR 0x22 # concat (map json_char s) @ [CHR 0x22]"

definition int_str :: "int \<Rightarrow> string" where
  "int_str i = (if i < 0 then CHR ''-'' # nat_str (nat (- i)) else nat_str (nat i))"

fun stringify :: "json \<Rightarrow> string" where
  "stringify JNull = ''null''"
| "stringify (JBool b) = (if b then ''true'' else ''false'')"
| "stringify (JNum i) = int_str i"
| "stringify (JDec t) = t"
| "stringify (JStr s) = json_quote s"
| "stringify (JArr js) = ''['' @ join_with '','' (map stringify js) @ '']''"
| "stringify (JObj fs) =
     [CHR 0x7B] @ join_with '','' (map (\<lambda>(k, v). json_quote k @ '':'' @ stringify v) fs) @ [CHR 0x7D]"

lemma code_send [simp]: "code (send c fs) = c"
  by (simp add: send_def)

lemma field_send [simp]: "field f (send c fs) = map_of fs f"
  by (simp add: field_def send_def)

end
