(* ===== verification/Base64.thy ===== *)
theory Base64
  imports Prelude
begin

text \<open>
  \<open>Buffer.toString('base64')\<close> and \<open>Buffer.from(s, 'base64')\<close>, which the key registry, the two
  ciphers and the encryption-context routes use to keep key material and ciphertext in text.
  Bytes are \<open>8 word\<close>. Decoding follows Node: characters outside the two base64 alphabets
  (padding included) are skipped, and a trailing partial byte is dropped.
\<close>

type_synonym bytes = "8 word list"

definition b64_digit :: "nat \<Rightarrow> char" where
  "b64_digit d =
     (if d < 26 then char_of (65 + d)
      else if d < 52 then char_of (97 + (d - 26))
      else if d < 62 then char_of (48 + (d - 52))
      else if d = 62 then CHR ''+'' else CHR ''/'')"

definition b64_value :: "char \<Rightarrow> nat option" where
  "b64_value c =
     (if is_upper c then Some (char_code c - 65)
      else if is_lower c then Some (char_code c - 97 + 26)
      else if is_digit c then Some (char_code c - 48 + 52)
      else if c = CHR ''+'' \<or> c = CHR ''-'' then Some 62
      else if c = CHR ''/'' \<or> c = CHR ''_'' then Some 63
      else None)"

fun b64_encode :: "bytes \<Rightarrow> string" where
  "b64_encode [] = []"
| "b64_encode [a] =
     [b64_digit (unat a div 4), b64_digit (unat a mod 4 * 16), CHR ''='', CHR ''='']"
| "b64_encode [a, b] =
     [b64_digit (unat a div 4), b64_digit (unat a mod 4 * 16 + unat b div 16),
      b64_digit (unat b mod 16 * 4), CHR ''='']"
| "b64_encode (a # b # c # r) =
     [b64_digit (unat a div 4), b64_digit (unat a mod 4 * 16 + unat b div 16),
      b64_digit (unat b mod 16 * 4 + unat c div 64), b64_digit (unat c mod 64)] @ b64_encode r"

fun b64_bytes :: "nat list \<Rightarrow> bytes" where
  "b64_bytes (a # b # c # d # r) =
     [of_nat (a * 4 + b div 16), of_nat (b mod 16 * 16 + c div 4), of_nat (c mod 4 * 64 + d)] @ b64_bytes r"
| "b64_bytes [a, b, c] = [of_nat (a * 4 + b div 16), of_nat (b mod 16 * 16 + c div 4)]"
| "b64_bytes [a, b] = [of_nat (a * 4 + b div 16)]"
| "b64_bytes _ = []"

definition b64_decode :: "string \<Rightarrow> bytes" where
  "b64_decode s = b64_bytes (List.map_filter b64_value s)"

lemma char_code_of: "n < 256 \<Longrightarrow> char_code (char_of n) = n"
  by (simp add: char_code_def of_char_of)

lemmas char_ranges = is_upper_def is_lower_def is_digit_def between_def char_code_def

lemma b64_value_digit [simp]: "d < 64 \<Longrightarrow> b64_value (b64_digit d) = Some d"
  by (auto simp: b64_value_def b64_digit_def char_ranges of_char_of)

lemma b64_value_pad [simp]: "b64_value (CHR ''='') = None"
  by (simp add: b64_value_def char_ranges)

lemma unat_byte: "unat (a :: 8 word) < 256"
  using unsigned_less[of a] by simp

lemma byte_hi: "x < 256 \<Longrightarrow> x div 4 < (64::nat)"
  by (simp add: less_mult_imp_div_less)

lemma byte_mid: "y < 256 \<Longrightarrow> x mod 4 * 16 + y div 16 < (64::nat)"
proof -
  assume "y < 256"
  then have "y div 16 < 16" by (simp add: less_mult_imp_div_less)
  moreover have "x mod 4 < (4::nat)" by simp
  ultimately show ?thesis by linarith
qed

lemma byte_lo: "y < 256 \<Longrightarrow> x mod 16 * 4 + y div 64 < (64::nat)"
proof -
  assume "y < 256"
  then have "y div 64 < 4" by (simp add: less_mult_imp_div_less)
  moreover have "x mod 16 < (16::nat)" by simp
  ultimately show ?thesis by linarith
qed

lemma byte_pad: "x mod 4 * 16 < (64::nat)" "x mod 16 * 4 < (64::nat)"
proof -
  have "x mod 4 < (4::nat)" "x mod 16 < (16::nat)" by simp_all
  then show "x mod 4 * 16 < (64::nat)" "x mod 16 * 4 < (64::nat)" by linarith+
qed

lemma byte_split_mid:
  assumes "y < 256"
  shows "(x mod 4 * 16 + y div 16) div 16 = x mod (4::nat)"
    and "(x mod 4 * 16 + y div 16) mod 16 = y div 16"
proof -
  have "y div 16 < 16" using assms by (simp add: less_mult_imp_div_less)
  then show "(x mod 4 * 16 + y div 16) div 16 = x mod (4::nat)"
    and "(x mod 4 * 16 + y div 16) mod 16 = y div 16" by simp_all
qed

lemma byte_split_lo:
  assumes "y < 256"
  shows "(x mod 16 * 4 + y div 64) div 4 = x mod (16::nat)"
    and "(x mod 16 * 4 + y div 64) mod 4 = y div 64"
proof -
  have "y div 64 < 4" using assms by (simp add: less_mult_imp_div_less)
  then show "(x mod 16 * 4 + y div 64) div 4 = x mod (16::nat)"
    and "(x mod 16 * 4 + y div 64) mod 4 = y div 64" by simp_all
qed

lemmas byte_ranges = byte_hi[OF unat_byte] byte_mid[OF unat_byte] byte_lo[OF unat_byte] byte_pad

lemmas byte_splits = byte_split_mid[OF unat_byte] byte_split_lo[OF unat_byte]

lemma unat_back: "(of_nat (unat a) :: 8 word) = a"
  by simp

lemma byte_back:
  "(of_nat (unat a div 4 * 4 + unat a mod 4) :: 8 word) = a"
  "(of_nat (unat a mod 16 + unat a div 16 * 16) :: 8 word) = a"
  "(of_nat (unat a div 16 * 16 + unat a mod 16) :: 8 word) = a"
  "(of_nat (unat a div 64 * 64 + unat a mod 64) :: 8 word) = a"
  by (simp_all only: div_mult_mod_eq mod_div_mult_eq unat_back)

lemma map_filter_hit: "f x = Some y \<Longrightarrow> List.map_filter f (x # xs) = y # List.map_filter f xs"
  by (simp add: List.map_filter_simps)

lemma map_filter_miss: "f x = None \<Longrightarrow> List.map_filter f (x # xs) = List.map_filter f xs"
  by (simp add: List.map_filter_simps)

lemma map_filter_empty: "List.map_filter f [] = []"
  by (simp add: List.map_filter_simps)

text \<open>Decoding inverts encoding, for every byte string.\<close>

lemma b64_decode_encode [simp]: "b64_decode (b64_encode bs) = bs"
proof (induction bs rule: b64_encode.induct)
  case 1
  then show ?case by (simp add: b64_decode_def map_filter_empty)
next
  case (2 a)
  show ?case
    by (simp only: b64_decode_def b64_encode.simps map_filter_hit map_filter_miss map_filter_empty
        b64_value_digit b64_value_pad byte_ranges)
      (simp add: byte_back unat_back del: of_nat_add of_nat_mult of_nat_unat)
next
  case (3 a b)
  show ?case
    by (simp only: b64_decode_def b64_encode.simps map_filter_hit map_filter_miss map_filter_empty
        b64_value_digit b64_value_pad byte_ranges b64_bytes.simps byte_splits byte_back append.simps)
      (simp add: byte_back unat_back del: of_nat_add of_nat_mult of_nat_unat)
next
  case (4 a b c r)
  have m: "unat c mod 64 < 64" by simp
  from 4 show ?case
    by (simp only: b64_decode_def b64_encode.simps map_filter_hit append.simps m
        b64_value_digit byte_ranges b64_bytes.simps byte_splits byte_back)
qed

lemma b64_encode_inj: "b64_encode a = b64_encode b \<longleftrightarrow> a = b"
  by (metis b64_decode_encode)

lemma b64_encode_Nil [simp]: "b64_encode a = [] \<longleftrightarrow> a = []"
  by (cases a rule: b64_encode.cases) auto

text \<open>The text of a byte string contains no colon, so it can sit in a colon-separated bundle.\<close>

lemma b64_digit_colon: "char_code (b64_digit d) \<noteq> char_code (CHR '':'')"
  by (auto simp: b64_digit_def char_code_def of_char_of)

lemma b64_digit_no_colon [simp]: "b64_digit d \<noteq> CHR '':''" "CHR '':'' \<noteq> b64_digit d"
  using b64_digit_colon by metis+

lemma b64_encode_no_colon [simp]: "CHR '':'' \<notin> set (b64_encode bs)"
  by (induction bs rule: b64_encode.induct) simp_all

end
