(* ===== verification/KeyRegistry.thy ===== *)
theory KeyRegistry
  imports Base64
begin

text \<open>
  The per-user key registry, \<open>src/gcp/firestore-registry.ts\<close>: one Firestore document per
  tenant and user that holds the wrapped data-encryption keys (DEKs) by version, the active
  version and the life-cycle status. The collection is the map \<open>keys\<close> of the world. A
  Firestore \<open>set\<close> without merge replaces the document, \<open>set\<close> with merge writes only the
  fields it names (an empty map replaces the map it meets), \<open>update\<close> fails on a missing
  document with code 5 (NOT_FOUND). The locale \<open>key_store\<close> is the contract the users of the
  registry rely on; it is interpreted on the registry's own operations at the end.
\<close>

section \<open>Documents\<close>

datatype key_status = ACTIVE | ROTATED | SHREDDED | DELETED

record token_config =
  tc_algorithm :: string
  tc_tokenKeyId :: string

record key_doc =
  kd_userId :: "string option"
  kd_deks :: "(string \<times> string) list"
  kd_activeDekId :: "string option"
  kd_status :: key_status
  kd_createdAt :: "int option"
  kd_shredAt :: "int option"
  kd_rotatedAt :: "int option"
  kd_encryptionVersion :: "string option"
  kd_tokenization :: "token_config option"
  kd_deletionRequestId :: "string option"
  kd_destinations :: "string list option"

record key_material =
  encryptedDek :: bytes
  km_activeDekId :: "string option"
  km_encryptionVersion :: string

record key_status_view =
  ks_status :: key_status
  ks_created_at :: int
  ks_shred_at :: "int option"
  ks_rotated_at :: "int option"
  ks_active_dek_id :: "string option"
  ks_encryption_version :: "string option"
  ks_destinations :: "string list option"

record kworld = env +
  keys :: "string \<rightharpoonup> key_doc"

definition status_str :: "key_status \<Rightarrow> string" where
  "status_str st = (case st of ACTIVE \<Rightarrow> ''ACTIVE'' | ROTATED \<Rightarrow> ''ROTATED''
     | SHREDDED \<Rightarrow> ''SHREDDED'' | DELETED \<Rightarrow> ''DELETED'')"

definition getDocId :: "string \<Rightarrow> string \<Rightarrow> string" where
  "getDocId tenantId userId = tenantId @ '':'' @ userId"

section \<open>Operations\<close>

text \<open>What \<open>getKeyForUser\<close> reads off the document it fetched.\<close>

definition read_material :: "key_doc option \<Rightarrow> string option \<Rightarrow> key_material option" where
  "read_material doc keyVersionId =
     (case doc of
        None \<Rightarrow> None
      | Some data \<Rightarrow>
          if kd_status data = SHREDDED \<or> kd_status data = DELETED \<or> kd_deks data = [] then None
          else
            (let targetDekId = or_opt keyVersionId (kd_activeDekId data) in
             if \<not> truthy targetDekId then None
             else
               (let dekBase64 = map_of (kd_deks data) (the targetDekId) in
                if \<not> truthy dekBase64 then None
                else Some \<lparr>encryptedDek = b64_decode (the dekBase64),
                           km_activeDekId = kd_activeDekId data,
                           km_encryptionVersion = or_else (kd_encryptionVersion data) ''v1''\<rparr>)))"

definition getKeyForUser ::
  "string \<Rightarrow> string \<Rightarrow> string option \<Rightarrow> ('z kworld_scheme, key_material option) eff" where
  "getKeyForUser userId tenantId keyVersionId =
     bnd (rread (\<lambda>s. keys s (getDocId tenantId userId)))
       (\<lambda>doc. ret (read_material doc keyVersionId))"

definition new_key_doc :: "string \<Rightarrow> bytes \<Rightarrow> int \<Rightarrow> key_doc" where
  "new_key_doc userId dek t =
     \<lparr>kd_userId = Some userId, kd_deks = [(''v1'', b64_encode dek)], kd_activeDekId = Some ''v1'',
      kd_status = ACTIVE, kd_createdAt = Some t, kd_shredAt = None, kd_rotatedAt = None,
      kd_encryptionVersion = Some ''v2'',
      kd_tokenization = Some \<lparr>tc_algorithm = ''HMAC-SHA256'', tc_tokenKeyId = ''chameleon-token-key-v1''\<rparr>,
      kd_deletionRequestId = None, kd_destinations = None\<rparr>"

definition setKeyForUser :: "string \<Rightarrow> bytes \<Rightarrow> string \<Rightarrow> ('z kworld_scheme, unit) eff" where
  "setKeyForUser userId dek tenantId =
     bnd (gets now) (\<lambda>t.
       rwrite (\<lambda>s. s\<lparr>keys := (keys s)(getDocId tenantId userId \<mapsto> new_key_doc userId dek t)\<rparr>))"

definition version_id :: "nat \<Rightarrow> string" where
  "version_id n = ''v'' @ nat_str n"

definition rotate_commit ::
  "string \<Rightarrow> (string \<times> string) list \<Rightarrow> string \<Rightarrow> int \<Rightarrow> ('z kworld_scheme, unit) eff" where
  "rotate_commit docId updatedDeks newVersionId t =
     rtxn (\<lambda>s. case keys s docId of
         None \<Rightarrow> (Inl (CodeErr 5), s)
       | Some d \<Rightarrow> (Inr (), s\<lparr>keys := (keys s)(docId \<mapsto>
            d\<lparr>kd_deks := updatedDeks, kd_activeDekId := Some newVersionId, kd_status := ACTIVE,
              kd_rotatedAt := Some t\<rparr>)\<rparr>))"

definition rotateKeyForUser :: "string \<Rightarrow> bytes \<Rightarrow> string \<Rightarrow> ('z kworld_scheme, string) eff" where
  "rotateKeyForUser userId newDek tenantId =
     (let docId = getDocId tenantId userId in
      bnd (rread (\<lambda>s. keys s docId)) (\<lambda>doc.
        case doc of
          None \<Rightarrow> throw (Err ''User key not found for rotation'')
        | Some data \<Rightarrow>
            if kd_status data = SHREDDED \<or> kd_activeDekId data = None
            then throw (Err ''Cannot rotate a shredded key'')
            else
              (let newVersionId = version_id (length (kd_deks data) + 1);
                   updatedDeks = AList.update newVersionId (b64_encode newDek) (kd_deks data) in
               bnd (gets now) (\<lambda>t.
               bnd (rotate_commit docId updatedDeks newVersionId t) (\<lambda>_.
               ret newVersionId)))))"

definition blank_key_doc :: key_doc where
  "blank_key_doc =
     \<lparr>kd_userId = None, kd_deks = [], kd_activeDekId = None, kd_status = SHREDDED,
      kd_createdAt = None, kd_shredAt = None, kd_rotatedAt = None, kd_encryptionVersion = None,
      kd_tokenization = None, kd_deletionRequestId = None, kd_destinations = None\<rparr>"

definition shred_doc :: "key_doc option \<Rightarrow> int \<Rightarrow> string option \<Rightarrow> key_doc" where
  "shred_doc old t deletionRequestId =
     (let d = (case old of None \<Rightarrow> blank_key_doc | Some d \<Rightarrow> d) in
      d\<lparr>kd_deks := [], kd_activeDekId := None, kd_status := SHREDDED, kd_shredAt := Some t,
        kd_deletionRequestId :=
          (if truthy deletionRequestId then deletionRequestId else kd_deletionRequestId d)\<rparr>)"

definition shredKeyForUser ::
  "string \<Rightarrow> string \<Rightarrow> string option \<Rightarrow> ('z kworld_scheme, unit) eff" where
  "shredKeyForUser userId tenantId deletionRequestId =
     (let docId = getDocId tenantId userId in
      bnd (gets now) (\<lambda>t.
        rwrite (\<lambda>s. s\<lparr>keys := (keys s)(docId \<mapsto> shred_doc (keys s docId) t deletionRequestId)\<rparr>)))"

definition doc_has_material :: "key_doc option \<Rightarrow> bool" where
  "doc_has_material doc =
     (case doc of
        None \<Rightarrow> False
      | Some data \<Rightarrow> (kd_status data = ACTIVE \<or> kd_status data = ROTATED) \<and> kd_deks data \<noteq> [])"

definition hasActiveKeyMaterial :: "string \<Rightarrow> string \<Rightarrow> ('z kworld_scheme, bool) eff" where
  "hasActiveKeyMaterial userId tenantId =
     bnd (rread (\<lambda>s. keys s (getDocId tenantId userId))) (\<lambda>doc. ret (doc_has_material doc))"

definition status_view :: "key_doc \<Rightarrow> int \<Rightarrow> key_status_view" where
  "status_view data t =
     \<lparr>ks_status = kd_status data,
      ks_created_at = (case kd_createdAt data of None \<Rightarrow> t | Some c \<Rightarrow> c),
      ks_shred_at = kd_shredAt data, ks_rotated_at = kd_rotatedAt data,
      ks_active_dek_id = kd_activeDekId data, ks_encryption_version = None,
      ks_destinations = kd_destinations data\<rparr>"

definition getKeyStatus :: "string \<Rightarrow> string \<Rightarrow> ('z kworld_scheme, key_status_view option) eff" where
  "getKeyStatus userId tenantId =
     bnd (rread (\<lambda>s. keys s (getDocId tenantId userId))) (\<lambda>doc.
       case doc of
         None \<Rightarrow> ret None
       | Some data \<Rightarrow> bnd (gets now) (\<lambda>t. ret (Some (status_view data t))))"

definition array_union :: "string \<Rightarrow> string list option \<Rightarrow> string list" where
  "array_union x xs = (case xs of None \<Rightarrow> [x] | Some ys \<Rightarrow> if x \<in> set ys then ys else ys @ [x])"

definition addDestinationToUser :: "string \<Rightarrow> string \<Rightarrow> string \<Rightarrow> ('z kworld_scheme, unit) eff" where
  "addDestinationToUser userId destination tenantId =
     (let docId = getDocId tenantId userId in
      swallow (rtxn (\<lambda>s. case keys s docId of
          None \<Rightarrow> (Inl (CodeErr 5), s)
        | Some d \<Rightarrow> (Inr (), s\<lparr>keys := (keys s)(docId \<mapsto>
             d\<lparr>kd_destinations := Some (array_union destination (kd_destinations d))\<rparr>)\<rparr>))))"

text \<open>\<open>GET /health\<close>'s reachability check: any answer to the query is success.\<close>

definition ping_registry :: "('z kworld_scheme, unit) eff" where
  "ping_registry = bnd (rread (\<lambda>s. ())) (\<lambda>_. ret ())"


section \<open>Well-formed documents\<close>

text \<open>
  A document is well formed when a shredded one holds no key material at all, and an active one
  holds the versions \<open>v1\<close> to \<open>vn\<close> in order with the last one active.
\<close>

definition versions :: "nat \<Rightarrow> string list" where
  "versions n = map version_id [1..<Suc n]"

definition doc_ok :: "key_doc \<Rightarrow> bool" where
  "doc_ok d = (case kd_status d of
      SHREDDED \<Rightarrow> kd_deks d = [] \<and> kd_activeDekId d = None
    | ACTIVE \<Rightarrow> kd_deks d \<noteq> [] \<and> map fst (kd_deks d) = versions (length (kd_deks d))
               \<and> kd_activeDekId d = Some (version_id (length (kd_deks d)))
    | _ \<Rightarrow> False)"

definition registry_ok :: "'z kworld_scheme \<Rightarrow> bool" where
  "registry_ok s \<longleftrightarrow> (\<forall>i d. keys s i = Some d \<longrightarrow> doc_ok d)"

lemma registry_ok_timeless: "timeless registry_ok"
  by (rule timelessI) (simp add: registry_ok_def)

lemma registry_okD: "registry_ok s \<Longrightarrow> keys s i = Some d \<Longrightarrow> doc_ok d"
  by (simp add: registry_ok_def)

lemma registry_ok_upd: "registry_ok s \<Longrightarrow> doc_ok d \<Longrightarrow> registry_ok (s\<lparr>keys := (keys s)(i \<mapsto> d)\<rparr>)"
  by (auto simp: registry_ok_def split: if_splits)

lemma version_id_inj [simp]: "version_id m = version_id n \<longleftrightarrow> m = n"
  by (simp add: version_id_def)

lemma version_id_1: "version_id (Suc 0) = ''v1''"
proof -
  have "CHR ''1'' = char_of (49 :: nat)" by code_simp
  then show ?thesis by (simp add: version_id_def nat_str.simps)
qed

lemma versions_Suc: "versions (Suc n) = versions n @ [version_id (Suc n)]"
  by (simp add: versions_def)

lemma versions_fresh: "version_id (Suc n) \<notin> set (versions n)"
  by (auto simp: versions_def)

lemma doc_ok_new: "doc_ok (new_key_doc u dek t)"
  by (simp add: doc_ok_def new_key_doc_def versions_def version_id_1)

lemma doc_ok_shred: "doc_ok (shred_doc old t r)"
  by (simp add: doc_ok_def shred_doc_def Let_def)

lemma fresh_version:
  assumes "map fst deks = versions (length deks)"
  shows "AList.update (version_id (length deks + 1)) v deks = deks @ [(version_id (length deks + 1), v)]"
proof -
  have "fst ` set deks = set (versions (length deks))"
    by (metis assms list.set_map)
  then show ?thesis using versions_fresh by (simp add: alist_update_new)
qed

lemma doc_ok_rotate:
  assumes "map fst deks = versions (length deks)"
  shows "doc_ok (d\<lparr>kd_deks := AList.update (version_id (length deks + 1)) v deks,
                   kd_activeDekId := Some (version_id (length deks + 1)),
                   kd_status := ACTIVE, kd_rotatedAt := t\<rparr>)"
  unfolding fresh_version[OF assms] using assms by (simp add: doc_ok_def versions_Suc)

lemma doc_ok_keys: "doc_ok d \<Longrightarrow> map fst (kd_deks d) = versions (length (kd_deks d))"
  by (cases "kd_status d") (simp_all add: doc_ok_def versions_def del: upt_Suc)

lemma doc_ok_destinations: "doc_ok d \<Longrightarrow> doc_ok (d\<lparr>kd_destinations := x\<rparr>)"
  by (simp add: doc_ok_def split: key_status.splits)

section \<open>Every operation keeps the registry well formed\<close>

lemma keeps_getKeyForUser [keeps_intros]: "timeless P \<Longrightarrow> keeps P (getKeyForUser u t v)"
  unfolding getKeyForUser_def by (intro keeps_intros)

lemma keeps_hasActiveKeyMaterial [keeps_intros]: "timeless P \<Longrightarrow> keeps P (hasActiveKeyMaterial u t)"
  unfolding hasActiveKeyMaterial_def by (intro keeps_intros)

lemma keeps_getKeyStatus [keeps_intros]: "timeless P \<Longrightarrow> keeps P (getKeyStatus u t)"
  unfolding getKeyStatus_def by (intro keeps_intros)

lemma keeps_setKeyForUser [keeps_intros]: "keeps registry_ok (setKeyForUser u dek t)"
  unfolding setKeyForUser_def
  by (intro keeps_intros keeps_rwrite registry_ok_timeless registry_ok_upd doc_ok_new)

lemma keeps_shredKeyForUser [keeps_intros]: "keeps registry_ok (shredKeyForUser u t r)"
  unfolding shredKeyForUser_def Let_def
  by (intro keeps_intros keeps_rwrite registry_ok_timeless registry_ok_upd doc_ok_shred)

lemma keeps_addDestinationToUser [keeps_intros]: "keeps registry_ok (addDestinationToUser u x t)"
  unfolding addDestinationToUser_def Let_def
  by (intro keeps_intros keeps_rtxn registry_ok_timeless)
    (auto split: option.splits intro!: registry_ok_upd doc_ok_destinations dest: registry_okD)

lemma keeps_rotate_commit:
  assumes "map fst deks = versions (length deks)"
  shows "keeps registry_ok (rotate_commit i (AList.update (version_id (length deks + 1)) v deks)
           (version_id (length deks + 1)) t)"
  unfolding rotate_commit_def
  by (intro keeps_rtxn registry_ok_timeless)
    (auto split: option.splits intro!: registry_ok_upd doc_ok_rotate[OF assms, simplified])

lemma keeps_rotateKeyForUser [keeps_intros]: "keeps registry_ok (rotateKeyForUser u dek t)"
  unfolding rotateKeyForUser_def Let_def
proof (rule keeps_bnd_rread[OF registry_ok_timeless], rule keeps_option)
  fix w :: "'a kworld_scheme" and d
  assume "registry_ok w" and "keys w (getDocId t u) = Some d"
  then have "map fst (kd_deks d) = versions (length (kd_deks d))"
    by (metis doc_ok_keys registry_okD)
  note commit = keeps_rotate_commit[OF this]
  show "keeps registry_ok
     (if kd_status d = SHREDDED \<or> kd_activeDekId d = None
      then throw (Err ''Cannot rotate a shredded key'')
      else bnd (gets now) (\<lambda>n. bnd (rotate_commit (getDocId t u)
             (AList.update (version_id (length (kd_deks d) + 1)) (b64_encode dek) (kd_deks d))
             (version_id (length (kd_deks d) + 1)) n)
             (\<lambda>_. ret (version_id (length (kd_deks d) + 1)))))"
    by (intro keeps_intros commit)
qed (intro keeps_intros)


section \<open>Other documents are left alone\<close>

lemma docId_inj:
  assumes "CHR '':'' \<notin> set u" and "CHR '':'' \<notin> set u'"
  shows "getDocId t u = getDocId t' u' \<longleftrightarrow> t = t' \<and> u = u'"
proof
  assume "getDocId t u = getDocId t' u'"
  then have "rev u @ CHR '':'' # rev t = rev u' @ CHR '':'' # rev t'"
    by (simp add: getDocId_def) (metis append.assoc append_Cons append_Nil rev_append rev_singleton_conv rev_rev_ident rev.simps(2))
  moreover have "CHR '':'' \<notin> set (rev u)" "CHR '':'' \<notin> set (rev u')" using assms by simp_all
  ultimately have "rev u # split_on CHR '':'' (rev t) = rev u' # split_on CHR '':'' (rev t')"
    by (metis split_on_append)
  then show "t = t' \<and> u = u'" by (metis join_split list.inject rev_rev_ident)
qed simp

lemma keys_at_timeless: "timeless (\<lambda>s. keys s i = x)"
  by (rule timelessI) simp

lemma frame_getKeyForUser: "keeps (\<lambda>s. keys s i = x) (getKeyForUser u t v)"
  by (rule keeps_getKeyForUser[OF keys_at_timeless])

lemma frame_setKeyForUser: "i \<noteq> getDocId t u \<Longrightarrow> keeps (\<lambda>s. keys s i = x) (setKeyForUser u dek t)"
  unfolding setKeyForUser_def by (intro keeps_intros keeps_rwrite keys_at_timeless) simp

lemma frame_shredKeyForUser: "i \<noteq> getDocId t u \<Longrightarrow> keeps (\<lambda>s. keys s i = x) (shredKeyForUser u t r)"
  unfolding shredKeyForUser_def Let_def by (intro keeps_intros keeps_rwrite keys_at_timeless) simp

lemma frame_addDestination: "i \<noteq> getDocId t u \<Longrightarrow> keeps (\<lambda>s. keys s i = x) (addDestinationToUser u d t)"
  unfolding addDestinationToUser_def Let_def
  by (intro keeps_intros keeps_rtxn keys_at_timeless) (auto split: option.splits)

lemma frame_rotate_commit: "i \<noteq> j \<Longrightarrow> keeps (\<lambda>s. keys s i = x) (rotate_commit j ds v n)"
  unfolding rotate_commit_def
  by (intro keeps_rtxn keys_at_timeless) (auto split: option.splits)

lemma frame_rotateKeyForUser: "i \<noteq> getDocId t u \<Longrightarrow> keeps (\<lambda>s. keys s i = x) (rotateKeyForUser u dek t)"
  unfolding rotateKeyForUser_def Let_def
  by (intro keeps_intros keys_at_timeless frame_rotate_commit)

section \<open>What the operations return\<close>

lemma keys_next_call [simp]: "keys (snd (next_call s)) = keys s"
  by (auto simp: next_call_def split: list.splits)

lemma getKeyForUser_Inr:
  "getKeyForUser u t v s = (Inr m, s1) \<Longrightarrow> m = read_material (keys s (getDocId t u)) v \<and> keys s1 = keys s"
  by (auto simp: getKeyForUser_def elim!: bnd_InrE dest!: rread_Inr)

lemma hasActiveKeyMaterial_Inr:
  "hasActiveKeyMaterial u t s = (Inr b, s1) \<Longrightarrow> b = doc_has_material (keys s (getDocId t u)) \<and> keys s1 = keys s"
  by (auto simp: hasActiveKeyMaterial_def elim!: bnd_InrE dest!: rread_Inr)

lemma getKeyStatus_Inr:
  "getKeyStatus u t s = (Inr v, s1) \<Longrightarrow>
   keys s1 = keys s \<and> (v = None \<longleftrightarrow> keys s (getDocId t u) = None) \<and>
   (\<forall>d. keys s (getDocId t u) = Some d \<longrightarrow> v = Some (status_view d (now s1)))"
  by (auto simp: getKeyStatus_def elim!: bnd_InrE dest!: rread_Inr split: option.splits)

lemma setKeyForUser_Inr:
  "setKeyForUser u dek t s = (Inr x, s1) \<Longrightarrow>
   keys s1 = (keys s)(getDocId t u \<mapsto> new_key_doc u dek (now s))"
  by (auto simp: setKeyForUser_def dest!: rwrite_Inr)

lemma shredKeyForUser_Inr:
  "shredKeyForUser u t r s = (Inr x, s1) \<Longrightarrow>
   keys s1 = (keys s)(getDocId t u \<mapsto> shred_doc (keys s (getDocId t u)) (now s) r)"
  by (auto simp: shredKeyForUser_def Let_def dest!: rwrite_Inr)

text \<open>A failed call either had no effect or took the whole effect and lost the answer.\<close>

lemma rwrite_any:
  "rwrite f s = (r, s1) \<Longrightarrow>
   (s1 = snd (next_call s) \<and> r = Inl IoErr) \<or> (s1 = f (snd (next_call s)))"
  by (auto simp: rwrite_def rtxn_def split: prod.splits outcome.splits)

lemma shredKeyForUser_any:
  assumes "shredKeyForUser u t r s = (x, s1)"
  shows "(keys s1 = keys s \<and> x = Inl IoErr) \<or>
         keys s1 = (keys s)(getDocId t u \<mapsto> shred_doc (keys s (getDocId t u)) (now s) r)"
  using assms by (auto simp: shredKeyForUser_def Let_def dest!: rwrite_any)

lemma read_material_shred [simp]: "read_material (Some (shred_doc old t r)) v = None"
  by (simp add: read_material_def shred_doc_def Let_def)

lemma doc_has_material_shred [simp]: "\<not> doc_has_material (Some (shred_doc old t r))"
  by (simp add: doc_has_material_def shred_doc_def Let_def)

lemma read_material_new:
  "dek \<noteq> [] \<Longrightarrow> read_material (Some (new_key_doc u dek t)) None =
     Some \<lparr>encryptedDek = dek, km_activeDekId = Some ''v1'', km_encryptionVersion = ''v2''\<rparr>"
  by (simp add: read_material_def new_key_doc_def or_opt_def truthy_def or_else_def)

lemma rotateKeyForUser_Inr:
  assumes "rotateKeyForUser u dek t s = (Inr vn, s1)"
  obtains d n where "keys s (getDocId t u) = Some d" and "kd_status d \<noteq> SHREDDED"
    and "kd_activeDekId d \<noteq> None" and "vn = version_id (length (kd_deks d) + 1)"
    and "keys s1 = (keys s)(getDocId t u \<mapsto>
           d\<lparr>kd_deks := AList.update vn (b64_encode dek) (kd_deks d), kd_activeDekId := Some vn,
             kd_status := ACTIVE, kd_rotatedAt := Some n\<rparr>)"
  using assms unfolding rotateKeyForUser_def Let_def
  by (elim bnd_InrE; auto dest!: rread_Inr rtxn_Inr simp: rotate_commit_def elim!: bnd_InrE
      split: option.splits if_splits intro: that)

section \<open>The contract of a key store\<close>

text \<open>
  What the users of the registry rely on: a read returns the material held for the user, a read
  changes nothing, storing makes the stored key the default one, and after a shred there is no
  version left to read.
\<close>

locale key_store =
  fixes getKey :: "string \<Rightarrow> string \<Rightarrow> string option \<Rightarrow> ('s, key_material option) eff"
    and setKey :: "string \<Rightarrow> bytes \<Rightarrow> string \<Rightarrow> ('s, unit) eff"
    and shredKey :: "string \<Rightarrow> string \<Rightarrow> string option \<Rightarrow> ('s, unit) eff"
    and material :: "'s \<Rightarrow> string \<Rightarrow> string \<Rightarrow> string option \<Rightarrow> key_material option"
  assumes get_law: "getKey u t v s = (Inr m, s1) \<Longrightarrow> m = material s u t v"
    and get_frame: "material (snd (getKey u t v s)) = material s"
    and set_law: "setKey u dek t s = (Inr (), s1) \<Longrightarrow> dek \<noteq> [] \<Longrightarrow>
      \<exists>m. material s1 u t None = Some m \<and> encryptedDek m = dek"
    and shred_law: "shredKey u t r s = (Inr (), s1) \<Longrightarrow> material s1 u t v = None"
begin

lemma get_after_shred:
  assumes "shredKey u t r s = (Inr (), s1)" and "getKey u t v s1 = (Inr m, s2)"
  shows "m = None"
  using get_law[OF assms(2)] shred_law[OF assms(1)] by simp

lemma get_after_set:
  assumes "setKey u dek t s = (Inr (), s1)" and "dek \<noteq> []" and "getKey u t None s1 = (Inr m, s2)"
  shows "\<exists>k. m = Some k \<and> encryptedDek k = dek"
  using get_law[OF assms(3)] set_law[OF assms(1,2)] by auto

lemma get_twice:
  assumes "getKey u t v s = (Inr m, s1)" and "getKey u t v s1 = (Inr m', s2)"
  shows "m' = m"
  by (metis assms get_frame get_law snd_conv)

text \<open>A computation that needs the key first cannot return after a shred.\<close>

lemma needs_key_after_shred:
  assumes "shredKey u t r s = (Inr (), s1)"
    and "\<And>w. f None w = (Inl e, w)"
  shows "fst (bnd (getKey u t v) f s1) \<noteq> Inr x"
proof
  assume "fst (bnd (getKey u t v) f s1) = Inr x"
  then obtain s3 where "bnd (getKey u t v) f s1 = (Inr x, s3)" by (metis surjective_pairing)
  then obtain m s2 where g: "getKey u t v s1 = (Inr m, s2)" "f m s2 = (Inr x, s3)" by (elim bnd_InrE)
  have "m = None" using get_after_shred[OF assms(1) g(1)] .
  with g(2) assms(2) show False by simp
qed

end

lemma keys_getKeyForUser [simp]: "keys (snd (getKeyForUser u t v s)) = keys s"
  by (auto simp: getKeyForUser_def bnd_apply rread_def split: prod.splits sum.splits outcome.splits)
    (metis keys_next_call snd_conv)+

interpretation kr: key_store getKeyForUser setKeyForUser shredKeyForUser
  "\<lambda>s u t v. read_material (keys s (getDocId t u)) v"
  by unfold_locales
    (auto dest!: getKeyForUser_Inr setKeyForUser_Inr shredKeyForUser_Inr simp: read_material_new)


section \<open>Properties\<close>

definition no_keys :: kworld where
  "no_keys = \<lparr>now = 1000, outcomes = [], keys = Map.empty\<rparr>"

text \<open>
  Crypto-shredding is irreversible for the holder of the document: whatever the remote call
  reports, either nothing happened and the caller saw a failure, or in every later state with that
  document no version of the key can be read and the auditor's check answers false.
\<close>

theorem shred_irrecoverable:
  fixes s s1 :: "'z kworld_scheme"
  assumes "shredKeyForUser userId tenantId reqId s = (r, s1)"
  shows "(r = Inl IoErr \<and> keys s1 = keys s) \<or>
    (\<forall>(w :: 'z kworld_scheme) v. keys w (getDocId tenantId userId) = keys s1 (getDocId tenantId userId) \<longrightarrow>
       (\<forall>m. fst (getKeyForUser userId tenantId v w) \<noteq> Inr (Some m)) \<and>
       fst (hasActiveKeyMaterial userId tenantId w) \<noteq> Inr True)"
proof -
  have "fst (getKeyForUser userId tenantId v w) \<noteq> Inr (Some m) \<and>
        fst (hasActiveKeyMaterial userId tenantId w) \<noteq> Inr True"
    if "keys w (getDocId tenantId userId) = Some (shred_doc old t reqId)" for w :: "'z kworld_scheme" and v m old t
    using that getKeyForUser_Inr hasActiveKeyMaterial_Inr
    by (metis doc_has_material_shred option.distinct(1) prod.collapse read_material_shred)
  with shredKeyForUser_any[OF assms] show ?thesis by fastforce
qed

lemma shred_irrecoverable_witness:
  "\<forall>m. fst (getKeyForUser ''u'' ''t'' (Some ''v1'')
     (snd (shredKeyForUser ''u'' ''t'' None (snd (setKeyForUser ''u'' [7] ''t'' no_keys))))) \<noteq> Inr (Some m)"
  using shred_irrecoverable[of "''u''" "''t''" None "snd (setKeyForUser ''u'' [7] ''t'' no_keys)"
      "Inr ()" "snd (shredKeyForUser ''u'' ''t'' None (snd (setKeyForUser ''u'' [7] ''t'' no_keys)))"]
  by (auto simp: shredKeyForUser_def setKeyForUser_def no_keys_def no_faults Let_def)

text \<open>
  C39. Every operation of the registry, under every pattern of lost and unacknowledged calls, keeps
  the documents well formed: a shredded document holds no key material, an active one holds
  exactly the versions v1 to vn with the newest active.
\<close>

theorem registry_invariant:
  "keeps registry_ok (setKeyForUser u dek t) \<and> keeps registry_ok (rotateKeyForUser u dek t) \<and>
   keeps registry_ok (shredKeyForUser u t r) \<and> keeps registry_ok (addDestinationToUser u d t) \<and>
   keeps registry_ok (getKeyForUser u t v) \<and> keeps registry_ok (getKeyStatus u t) \<and>
   keeps registry_ok (hasActiveKeyMaterial u t)"
  by (intro conjI keeps_intros registry_ok_timeless)

text \<open>
  Rotation adds a version and keeps the old ones: after a rotation that returns, the default
  read yields the new key under the returned version name, and every version that could be read
  before still yields the same key.
\<close>

theorem rotate_keeps_versions:
  assumes ok: "registry_ok s" and rot: "rotateKeyForUser u dek t s = (Inr vn, s1)" and dek: "dek \<noteq> []"
  shows "(\<exists>m. read_material (keys s1 (getDocId t u)) None = Some m \<and> encryptedDek m = dek
              \<and> km_activeDekId m = Some vn) \<and>
    (\<forall>v m. truthy v \<and> read_material (keys s (getDocId t u)) v = Some m \<longrightarrow>
       (\<exists>m'. read_material (keys s1 (getDocId t u)) v = Some m' \<and> encryptedDek m' = encryptedDek m))"
proof -
  let ?i = "getDocId t u"
  obtain d n where d: "keys s ?i = Some d" "kd_status d \<noteq> SHREDDED"
    and vn: "vn = version_id (length (kd_deks d) + 1)"
    and s1: "keys s1 = (keys s)(?i \<mapsto>
           d\<lparr>kd_deks := AList.update vn (b64_encode dek) (kd_deks d), kd_activeDekId := Some vn,
             kd_status := ACTIVE, kd_rotatedAt := Some n\<rparr>)"
    by (rule rotateKeyForUser_Inr[OF rot])
  have ks: "map fst (kd_deks d) = versions (length (kd_deks d))"
    using doc_ok_keys registry_okD[OF ok d(1)] by blast
  have "vn \<notin> fst ` set (kd_deks d)"
    unfolding vn by (metis Suc_eq_plus1 ks list.set_map versions_fresh)
  then have old: "map_of (kd_deks d) v = Some x \<Longrightarrow> v \<noteq> vn" for v x
    by (metis domI dom_map_of_conv_image_fst)
  have tr: "truthy (Some vn)" by (simp add: vn version_id_def truthy_def)
  define d1 where "d1 = the (keys s1 ?i)"
  have k1: "keys s1 ?i = Some d1" and d1: "kd_deks d1 = AList.update vn (b64_encode dek) (kd_deks d)"
      "kd_activeDekId d1 = Some vn" "kd_status d1 = ACTIVE"
    by (simp_all add: d1_def s1)
  show ?thesis
    unfolding k1 d(1) using d(2) d1 dek tr old
    by (auto simp: read_material_def Let_def update_conv' or_opt_def update_nonempty
         truthy_def split: if_splits option.splits)
qed

definition one_key :: kworld where
  "one_key = \<lparr>now = 2000, outcomes = [], keys = [getDocId ''t'' ''u'' \<mapsto> new_key_doc ''u'' [7] 1000]\<rparr>"

lemma registry_ok_one_key: "registry_ok one_key"
  by (simp add: registry_ok_def one_key_def doc_ok_new)

lemma rotate_keeps_versions_witness:
  "\<exists>m. read_material (keys (snd (rotateKeyForUser ''u'' [9] ''t'' one_key)) (getDocId ''t'' ''u'')) None = Some m
       \<and> encryptedDek m = [9] \<and> km_activeDekId m = Some (version_id 2)"
proof -
  have "rotateKeyForUser ''u'' [9] ''t'' one_key =
     (Inr (version_id 2), snd (rotateKeyForUser ''u'' [9] ''t'' one_key))"
    by (simp add: rotateKeyForUser_def rotate_commit_def one_key_def no_faults bnd_apply Let_def
        new_key_doc_def numeral_2_eq_2)
  from rotate_keeps_versions[OF registry_ok_one_key this] show ?thesis by blast
qed

text \<open>
  Tenant isolation: no operation on one tenant's user touches the document of another tenant
  or another user, provided user ids have no colon (the request schemas reject it).
\<close>

theorem registry_tenant_isolation:
  assumes "CHR '':'' \<notin> set u" and "CHR '':'' \<notin> set u'" and "(t, u) \<noteq> (t', u')"
  shows "keeps (\<lambda>s. keys s (getDocId t' u') = x) (setKeyForUser u dek t)
       \<and> keeps (\<lambda>s. keys s (getDocId t' u') = x) (rotateKeyForUser u dek t)
       \<and> keeps (\<lambda>s. keys s (getDocId t' u') = x) (shredKeyForUser u t r)
       \<and> keeps (\<lambda>s. keys s (getDocId t' u') = x) (addDestinationToUser u d t)"
proof -
  have ne: "getDocId t' u' \<noteq> getDocId t u"
    using assms(3) docId_inj[OF assms(2) assms(1), of t' t] by auto
  show ?thesis
    by (simp add: frame_setKeyForUser[OF ne] frame_rotateKeyForUser[OF ne] frame_shredKeyForUser[OF ne]
        frame_addDestination[OF ne])
qed

lemma registry_tenant_isolation_witness:
  "keys (snd (shredKeyForUser ''u'' ''a'' None one_key)) (getDocId ''t'' ''u'') = Some (new_key_doc ''u'' [7] 1000)"
proof -
  have "keeps (\<lambda>s :: kworld. keys s (getDocId ''t'' ''u'') = Some (new_key_doc ''u'' [7] 1000))
          (shredKeyForUser ''u'' ''a'' None)"
    by (rule registry_tenant_isolation[THEN conjunct2, THEN conjunct2, THEN conjunct1]) simp_all
  then show ?thesis by (rule keepsD) (simp add: one_key_def)
qed

end
