(* ===== verification/Crypto.thy ===== *)
theory Crypto
  imports Base64
begin

text \<open>
  The two ciphers: \<open>src/crypto/deterministic-aes.ts\<close> (IV derived from the user id) and
  \<open>src/crypto/chameleon-aes-gcm.ts\<close> (random IV, the format of the data pipelines). AES-256-GCM and
  SHA-256 themselves are parameters: \<open>gcm_seal\<close> and \<open>gcm_open\<close> stand for the cipher objects of
  Node's \<open>crypto\<close>, and \<open>gcm_ok\<close> says what the sources rely on, that opening succeeds exactly on what
  sealing makes under the same key, IV and associated data, with a tag of 16 bytes. A string is
  the sequence of its UTF-8 bytes.
\<close>

record gcm =
  gcm_seal :: "bytes \<Rightarrow> bytes \<Rightarrow> bytes \<Rightarrow> bytes \<Rightarrow> bytes \<times> bytes"
  gcm_open :: "bytes \<Rightarrow> bytes \<Rightarrow> bytes \<Rightarrow> bytes \<Rightarrow> bytes \<Rightarrow> bytes option"

definition gcm_ok :: "gcm \<Rightarrow> bool" where
  "gcm_ok G \<longleftrightarrow> (\<forall>k iv aad p c t. gcm_open G k iv aad c t = Some p \<longleftrightarrow> gcm_seal G k iv aad p = (c, t)) \<and>
     (\<forall>k iv aad p. length (snd (gcm_seal G k iv aad p)) = 16)"

definition utf8 :: "string \<Rightarrow> bytes" where
  "utf8 s = map (\<lambda>c. of_nat (char_code c)) s"

definition of_utf8 :: "bytes \<Rightarrow> string" where
  "of_utf8 bs = map (\<lambda>b. char_of (unat b)) bs"

lemma of_utf8_utf8 [simp]: "of_utf8 (utf8 s) = s"
proof -
  have "char_of (unat (of_nat (char_code c) :: 8 word)) = c" for c
  proof -
    have "char_code c < 256" by (simp add: char_code_def)
    then have "unat (of_nat (char_code c) :: 8 word) = char_code c"
      by (simp add: unsigned_of_nat take_bit_nat_eq_self)
    then show ?thesis by (simp add: char_code_def)
  qed
  then show ?thesis by (induction s) (simp_all add: of_utf8_def utf8_def)
qed

definition KEY_SIZE :: nat where "KEY_SIZE = 32"
definition IV_SIZE :: nat where "IV_SIZE = 12"
definition AUTH_TAG_SIZE :: nat where "AUTH_TAG_SIZE = 16"

definition dek_size_error :: "bytes \<Rightarrow> exn" where
  "dek_size_error dek =
     Err (''DEK must be '' @ nat_str KEY_SIZE @ '' bytes, got '' @ nat_str (length dek))"

record EncryptionResult =
  er_ciphertext :: string
  er_userId :: string
  er_timestamp :: int

record DecryptionResult =
  dr_plaintext :: string
  dr_userId :: string
  dr_timestamp :: int

record ChameleonEncryptionResult =
  ivB64 :: string
  ciphertextB64 :: string

section \<open>Deterministic AES\<close>

definition generateDeterministicIV :: "(bytes \<Rightarrow> bytes) \<Rightarrow> string \<Rightarrow> bytes" where
  "generateDeterministicIV sha userId = take IV_SIZE (sha (utf8 userId))"

definition det_encrypt ::
  "gcm \<Rightarrow> (bytes \<Rightarrow> bytes) \<Rightarrow> string \<Rightarrow> string \<Rightarrow> bytes \<Rightarrow> int \<Rightarrow> exn + EncryptionResult" where
  "det_encrypt G sha plaintext userId dek t =
     (if length dek \<noteq> KEY_SIZE then Inl (dek_size_error dek)
      else
        (let iv = generateDeterministicIV sha userId;
             aad = utf8 userId;
             (ciphertext, authTag) = gcm_seal G dek iv aad (utf8 plaintext);
             combined = ciphertext @ authTag in
         Inr \<lparr>er_ciphertext = b64_encode combined, er_userId = userId, er_timestamp = t\<rparr>))"

definition split_tag :: "bytes \<Rightarrow> bytes \<times> bytes" where
  "split_tag combined =
     (take (length combined - AUTH_TAG_SIZE) combined, drop (length combined - AUTH_TAG_SIZE) combined)"

definition det_decrypt ::
  "gcm \<Rightarrow> (bytes \<Rightarrow> bytes) \<Rightarrow> string \<Rightarrow> string \<Rightarrow> bytes \<Rightarrow> int \<Rightarrow> exn + DecryptionResult" where
  "det_decrypt G sha ct64 userId dek t =
     (if length dek \<noteq> KEY_SIZE then Inl (dek_size_error dek)
      else
        (let combined = b64_decode ct64 in
         if length combined < AUTH_TAG_SIZE then Inl (Err ''Invalid ciphertext: too short'')
         else
           (let (ciphertext, authTag) = split_tag combined;
                iv = generateDeterministicIV sha userId;
                aad = utf8 userId in
            case gcm_open G dek iv aad ciphertext authTag of
              None \<Rightarrow> Inl (Err ''Unsupported state or unable to authenticate data'')
            | Some plaintext \<Rightarrow>
                Inr \<lparr>dr_plaintext = of_utf8 plaintext, dr_userId = userId, dr_timestamp = t\<rparr>)))"

text \<open>\<open>randomBytes(KEY_SIZE)\<close>; the random source is a parameter, indexed by the draw.\<close>

definition generateRandomDEK :: "(nat \<Rightarrow> nat \<Rightarrow> bytes) \<Rightarrow> nat \<Rightarrow> bytes" where
  "generateRandomDEK rand n = rand n KEY_SIZE"

section \<open>Randomized AES-GCM\<close>

definition gcm_encrypt ::
  "gcm \<Rightarrow> string \<Rightarrow> string \<Rightarrow> bytes \<Rightarrow> bytes \<Rightarrow> exn + ChameleonEncryptionResult" where
  "gcm_encrypt G plaintext userId dek iv =
     (if length dek \<noteq> KEY_SIZE then Inl (dek_size_error dek)
      else
        (let aad = utf8 userId;
             (ciphertext, authTag) = gcm_seal G dek iv aad (utf8 plaintext) in
         Inr \<lparr>ivB64 = b64_encode iv, ciphertextB64 = b64_encode (ciphertext @ authTag)\<rparr>))"

definition gcm_decrypt :: "gcm \<Rightarrow> string \<Rightarrow> string \<Rightarrow> string \<Rightarrow> bytes \<Rightarrow> exn + string" where
  "gcm_decrypt G iv64 ciphertext64 userId dek =
     (if length dek \<noteq> KEY_SIZE then Inl (dek_size_error dek)
      else
        (let iv = b64_decode iv64;
             combined = b64_decode ciphertext64 in
         if length combined < AUTH_TAG_SIZE then Inl (Err ''Invalid ciphertext: too short'')
         else
           (let (ciphertext, authTag) = split_tag combined;
                aad = utf8 userId in
            case gcm_open G dek iv aad ciphertext authTag of
              None \<Rightarrow> Inl (Err ''Unsupported state or unable to authenticate data'')
            | Some plaintext \<Rightarrow> Inr (of_utf8 plaintext))))"

section \<open>Lemmas\<close>

lemma gcm_ok_open: "gcm_ok G \<Longrightarrow> gcm_open G k iv aad c t = Some p \<longleftrightarrow> gcm_seal G k iv aad p = (c, t)"
  by (simp add: gcm_ok_def)

lemma gcm_ok_tag:
  assumes "gcm_ok G" and "gcm_seal G k iv aad p = (c, t)"
  shows "length t = AUTH_TAG_SIZE"
proof -
  have "length (snd (gcm_seal G k iv aad p)) = 16" using assms(1) by (simp add: gcm_ok_def)
  with assms(2) show ?thesis by (simp add: AUTH_TAG_SIZE_def)
qed

lemma split_tag_append [simp]: "length t = AUTH_TAG_SIZE \<Longrightarrow> split_tag (c @ t) = (c, t)"
  by (simp add: split_tag_def)

lemma split_tag_join: "split_tag b = (c, t) \<Longrightarrow> b = c @ t"
  by (auto simp: split_tag_def)

lemma det_decrypt_encrypt:
  assumes "gcm_ok G" and "det_encrypt G sha p u k t = Inr r"
  shows "det_decrypt G sha (er_ciphertext r) u k t' = Inr \<lparr>dr_plaintext = p, dr_userId = u, dr_timestamp = t'\<rparr>"
proof -
  obtain c a where s: "gcm_seal G k (generateDeterministicIV sha u) (utf8 u) (utf8 p) = (c, a)"
    by fastforce
  have a: "length a = AUTH_TAG_SIZE" by (rule gcm_ok_tag[OF assms(1) s])
  have o: "gcm_open G k (generateDeterministicIV sha u) (utf8 u) c a = Some (utf8 p)"
    using s by (simp add: gcm_ok_open[OF assms(1)])
  show ?thesis
    using assms(2)
    by (cases "length k = KEY_SIZE") (simp_all only: det_encrypt_def det_decrypt_def s o Let_def if_True if_False
        not_False_eq_True not_True_eq_False simp_thms prod.case, auto simp: a o)
qed

lemma gcm_decrypt_encrypt:
  assumes "gcm_ok G" and "gcm_encrypt G p u k iv = Inr r"
  shows "gcm_decrypt G (ivB64 r) (ciphertextB64 r) u k = Inr p"
proof -
  obtain c a where s: "gcm_seal G k iv (utf8 u) (utf8 p) = (c, a)" by fastforce
  have a: "length a = AUTH_TAG_SIZE" by (rule gcm_ok_tag[OF assms(1) s])
  have o: "gcm_open G k iv (utf8 u) c a = Some (utf8 p)" using s by (simp add: gcm_ok_open[OF assms(1)])
  show ?thesis
    using assms(2)
    by (cases "length k = KEY_SIZE") (simp_all only: gcm_encrypt_def gcm_decrypt_def s o Let_def if_True if_False
        not_False_eq_True not_True_eq_False simp_thms prod.case, auto simp: a o)
qed

lemma gcm_decrypt_Inr:
  assumes "gcm_ok G" and "gcm_decrypt G iv64 ct64 u k = Inr p"
  shows "\<exists>q. p = of_utf8 q \<and> (\<exists>c a. gcm_seal G k (b64_decode iv64) (utf8 u) q = (c, a) \<and> b64_decode ct64 = c @ a)"
proof -
  obtain c a where s: "split_tag (b64_decode ct64) = (c, a)" by fastforce
  from assms(2) obtain q where "gcm_open G k (b64_decode iv64) (utf8 u) c a = Some q" and "p = of_utf8 q"
    by (simp add: gcm_decrypt_def s Let_def split: if_splits option.splits)
  with split_tag_join[OF s] show ?thesis using gcm_ok_open[OF assms(1)] by blast
qed

lemma det_decrypt_Inr:
  assumes "gcm_ok G" and "det_decrypt G sha ct64 u k t = Inr r"
  shows "\<exists>q. dr_plaintext r = of_utf8 q \<and>
    (\<exists>c a. gcm_seal G k (generateDeterministicIV sha u) (utf8 u) q = (c, a) \<and> b64_decode ct64 = c @ a)"
proof -
  obtain c a where s: "split_tag (b64_decode ct64) = (c, a)" by fastforce
  from assms(2) obtain q where "gcm_open G k (generateDeterministicIV sha u) (utf8 u) c a = Some q"
      and "dr_plaintext r = of_utf8 q"
    by (auto simp: det_decrypt_def s Let_def split: if_splits option.splits)
  with split_tag_join[OF s] show ?thesis using gcm_ok_open[OF assms(1)] by blast
qed

lemma det_encrypt_total:
  "length k = KEY_SIZE \<Longrightarrow> \<exists>r. det_encrypt G sha p u k t = Inr r \<and> er_userId r = u"
  by (simp add: det_encrypt_def Let_def split_beta)

section \<open>Properties\<close>

text \<open>A cipher for the witnesses: the plaintext in the clear under a constant tag.\<close>

definition clear_gcm :: gcm where
  "clear_gcm = \<lparr>gcm_seal = (\<lambda>k iv aad p. (p, replicate 16 0)),
     gcm_open = (\<lambda>k iv aad c t. if t = replicate 16 0 then Some c else None)\<rparr>"

lemma clear_gcm_ok: "gcm_ok clear_gcm"
  by (auto simp: gcm_ok_def clear_gcm_def)

text \<open>
  Both ciphers round trip, and both refuse a key that is not 32 bytes long: with a 32-byte key
  encryption never throws and decryption under the same user and key gives the plaintext back;
  with any other key both directions throw.
\<close>

theorem cipher_roundtrip:
  assumes G: "gcm_ok G"
  shows "(length k = KEY_SIZE \<longrightarrow>
            (\<exists>r. det_encrypt G sha p u k t = Inr r \<and>
               det_decrypt G sha (er_ciphertext r) u k t' = Inr \<lparr>dr_plaintext = p, dr_userId = u, dr_timestamp = t'\<rparr>) \<and>
            (\<exists>r. gcm_encrypt G p u k iv = Inr r \<and> gcm_decrypt G (ivB64 r) (ciphertextB64 r) u k = Inr p)) \<and>
         (length k \<noteq> KEY_SIZE \<longrightarrow>
            det_encrypt G sha p u k t = Inl (dek_size_error k) \<and> det_decrypt G sha c u k t = Inl (dek_size_error k) \<and>
            gcm_encrypt G p u k iv = Inl (dek_size_error k) \<and> gcm_decrypt G i c u k = Inl (dek_size_error k))"
proof -
  show ?thesis
  proof (cases "length k = KEY_SIZE")
    case True
    obtain r where r: "det_encrypt G sha p u k t = Inr r" using det_encrypt_total[OF True] by blast
    obtain r' where r': "gcm_encrypt G p u k iv = Inr r'"
      using True by (auto simp: gcm_encrypt_def Let_def split_beta)
    show ?thesis
      using True r r' det_decrypt_encrypt[OF G r, of t'] gcm_decrypt_encrypt[OF G r'] by simp
  next
    case False
    then show ?thesis by (simp add: det_encrypt_def det_decrypt_def gcm_encrypt_def gcm_decrypt_def)
  qed
qed

lemma cipher_roundtrip_witness:
  "\<exists>r. gcm_encrypt clear_gcm ''secret'' ''u'' (replicate 32 1) (replicate 12 5) = Inr r \<and>
       gcm_decrypt clear_gcm (ivB64 r) (ciphertextB64 r) ''u'' (replicate 32 1) = Inr ''secret''"
  using cipher_roundtrip[OF clear_gcm_ok, of "replicate 32 1" "\<lambda>_. []" "''secret''" "''u''" 0 0 "replicate 12 5"]
  by (simp add: KEY_SIZE_def)

text \<open>
  Ciphertexts are authentic and bound to the user: whatever text is submitted, when either
  cipher decrypts it to a plaintext, its decoded bytes are exactly the ones that sealing under
  that key, IV and user id produces; a changed ciphertext, tag, IV or user is refused.
\<close>

theorem decrypt_authentic:
  assumes "gcm_ok G"
  shows "(gcm_decrypt G iv64 ct64 u k = Inr p \<longrightarrow>
            (\<exists>q. p = of_utf8 q \<and> (\<exists>c a. gcm_seal G k (b64_decode iv64) (utf8 u) q = (c, a) \<and> b64_decode ct64 = c @ a))) \<and>
         (det_decrypt G sha ct64 u k t = Inr r \<longrightarrow>
            (\<exists>q. dr_plaintext r = of_utf8 q \<and>
               (\<exists>c a. gcm_seal G k (generateDeterministicIV sha u) (utf8 u) q = (c, a) \<and> b64_decode ct64 = c @ a)))"
  using gcm_decrypt_Inr[OF assms] det_decrypt_Inr[OF assms] by blast

lemma decrypt_authentic_witness:
  "\<exists>q. ''x'' = of_utf8 q \<and> (\<exists>c a. gcm_seal clear_gcm (replicate 32 1) (b64_decode ''AAAA'') (utf8 ''u'') q = (c, a) \<and>
       b64_decode (b64_encode (utf8 ''x'' @ replicate 16 0)) = c @ a)"
proof -
  have "gcm_decrypt clear_gcm ''AAAA'' (b64_encode (utf8 ''x'' @ replicate 16 0)) ''u'' (replicate 32 1) = Inr ''x''"
    by (simp add: gcm_decrypt_def KEY_SIZE_def AUTH_TAG_SIZE_def clear_gcm_def Let_def
        split_tag_append)
  then show ?thesis using decrypt_authentic[OF clear_gcm_ok] by blast
qed

end
