(* ===== verification/Kms.thy ===== *)
theory Kms
  imports KeyRegistry Crypto
begin

text \<open>
  \<open>src/gcp/cloud-kms.ts\<close>, the client of Cloud KMS that wraps and unwraps DEKs and signs
  certificates, and the stripped client of the certificate signer,
  \<open>src/certificate-signer/kms-client.ts\<close>. The service itself is the parameter \<open>kms_service\<close>:
  encryption under a named key with a nonce of its own, decryption, the random source of the
  process, signing and public keys. The world keeps the names of the existing tenant keys and
  counts the draws of randomness. Logging and the zeroing of buffers have no counterpart: a value
  of the model is not a memory region.
\<close>

record kms_service =
  kms_encrypt :: "string \<Rightarrow> nat \<Rightarrow> bytes \<Rightarrow> bytes option"
  kms_decrypt :: "string \<Rightarrow> bytes \<Rightarrow> exn + bytes option"
  kms_random :: "nat \<Rightarrow> nat \<Rightarrow> bytes"
  kms_sign :: "string \<Rightarrow> bytes \<Rightarrow> bytes option"
  kms_pem :: "string \<Rightarrow> string option"

text \<open>What the sources rely on: unwrapping undoes wrapping under the same key, and
  \<open>randomBytes(n)\<close> yields n bytes.\<close>

definition kms_ok :: "kms_service \<Rightarrow> bool" where
  "kms_ok K \<longleftrightarrow> (\<forall>p n d c. kms_encrypt K p n d = Some c \<longrightarrow> c \<noteq> [] \<and> kms_decrypt K p c = Inr (Some d)) \<and>
     (\<forall>i n. length (kms_random K i n) = n)"

record kmsworld = kworld +
  kms_keys :: "string list"
  draws :: nat

record kms_client =
  projectId :: string
  region :: string
  keyRing :: string
  keyName :: string

section \<open>Key names\<close>

definition keyRingPath :: "string \<Rightarrow> string \<Rightarrow> string \<Rightarrow> string" where
  "keyRingPath p r k = ''projects/'' @ p @ ''/locations/'' @ r @ ''/keyRings/'' @ k"

definition cryptoKeyPath :: "string \<Rightarrow> string \<Rightarrow> string \<Rightarrow> string \<Rightarrow> string" where
  "cryptoKeyPath p r k n = keyRingPath p r k @ ''/cryptoKeys/'' @ n"

definition default_tenant :: string where
  "default_tenant = ''default-tenant''"

definition getKeyPath :: "kms_client \<Rightarrow> string option \<Rightarrow> string" where
  "getKeyPath c tenantId =
     (if truthy tenantId \<and> tenantId \<noteq> Some default_tenant
      then cryptoKeyPath (projectId c) (region c) (keyRing c) (the tenantId)
      else cryptoKeyPath (projectId c) (region c) (keyRing c) (keyName c))"

definition getCryptoKeyPath :: "kms_client \<Rightarrow> string" where
  "getCryptoKeyPath c = getKeyPath c None"

section \<open>Tenant keys and DEKs\<close>

definition key_exists :: "string \<Rightarrow> 'z kmsworld_scheme \<Rightarrow> exn + unit" where
  "key_exists path s = (if path \<in> set (kms_keys s) then Inr () else Inl (CodeErr 5))"

definition ping_kms :: "kms_client \<Rightarrow> ('z kmsworld_scheme, unit) eff" where
  "ping_kms c = rcall (key_exists (getKeyPath c None))"

definition createCryptoKey :: "string \<Rightarrow> ('z kmsworld_scheme, unit) eff" where
  "createCryptoKey path = rtxn (\<lambda>s.
     if path \<in> set (kms_keys s) then (Inl (CodeErr 6), s)
     else (Inr (), s\<lparr>kms_keys := path # kms_keys s\<rparr>))"

definition ensureTenantKey :: "kms_client \<Rightarrow> string \<Rightarrow> ('z kmsworld_scheme, string) eff" where
  "ensureTenantKey c tenantId =
     (let keyPath = getKeyPath c (Some tenantId) in
      catch
        (bnd (rcall (key_exists keyPath)) (\<lambda>_. ret keyPath))
        (\<lambda>err.
          if err = CodeErr 5 then
            bnd (createCryptoKey (cryptoKeyPath (projectId c) (region c) (keyRing c) tenantId)) (\<lambda>_.
            ret keyPath)
          else throw err))"

definition encryptDataEncryptionKey ::
  "kms_service \<Rightarrow> kms_client \<Rightarrow> bytes \<Rightarrow> string option \<Rightarrow> ('z kmsworld_scheme, bytes) eff" where
  "encryptDataEncryptionKey K c dek tenantId =
     bnd (rtxn (\<lambda>s.
       if getKeyPath c tenantId \<notin> set (kms_keys s) then (Inl (CodeErr 5), s)
       else (Inr (kms_encrypt K (getKeyPath c tenantId) (draws s) dek), s\<lparr>draws := draws s + 1\<rparr>)))
     (\<lambda>ciphertext. case ciphertext of
         None \<Rightarrow> throw (Err ''Cloud KMS encryption failed: no ciphertext returned'')
       | Some b \<Rightarrow> ret b)"

definition decryptDataEncryptionKey ::
  "kms_service \<Rightarrow> kms_client \<Rightarrow> bytes \<Rightarrow> string option \<Rightarrow> ('z kmsworld_scheme, bytes) eff" where
  "decryptDataEncryptionKey K c enc tenantId =
     bnd (rcall (\<lambda>s.
       if getKeyPath c tenantId \<notin> set (kms_keys s) then Inl (CodeErr 5)
       else kms_decrypt K (getKeyPath c tenantId) enc))
     (\<lambda>plaintext. case plaintext of
         None \<Rightarrow> throw (Err ''Cloud KMS decryption failed: no plaintext returned'')
       | Some b \<Rightarrow> ret b)"

definition generateAndEncryptDek ::
  "kms_service \<Rightarrow> kms_client \<Rightarrow> string option \<Rightarrow> ('z kmsworld_scheme, bytes) eff" where
  "generateAndEncryptDek K c tenantId =
     bnd (gets draws) (\<lambda>n.
     bnd (modify (\<lambda>s. s\<lparr>draws := n + 1\<rparr>)) (\<lambda>_.
       (let newDek = generateRandomDEK (kms_random K) n in
        catch (encryptDataEncryptionKey K c newDek tenantId)
          (\<lambda>_. throw (Err ''Failed to generate and encrypt new DEK'')))))"

section \<open>Signing and key versions\<close>

definition asymmetricSign ::
  "kms_service \<Rightarrow> (bytes \<Rightarrow> bytes) \<Rightarrow> string \<Rightarrow> string \<Rightarrow> ('z kmsworld_scheme, bytes) eff" where
  "asymmetricSign K sha payload keyVersionPath =
     (let digest = sha (utf8 payload) in
      bnd (rcall (\<lambda>_. Inr (kms_sign K keyVersionPath digest)))
        (\<lambda>signature. case signature of
            None \<Rightarrow> throw (Err ''Cloud KMS asymmetric signing failed'')
          | Some b \<Rightarrow> ret b))"

definition getPublicKey :: "kms_service \<Rightarrow> string \<Rightarrow> ('z kmsworld_scheme, string) eff" where
  "getPublicKey K keyVersionPath =
     bnd (rcall (\<lambda>_. Inr (kms_pem K keyVersionPath))) (\<lambda>pem. ret (or_else pem []))"

datatype version_state = ENABLED | PENDING_GENERATION | GENERATION_FAILED | DISABLED | DESTROYED

record key_version =
  kv_name :: "string option"
  kv_state :: version_state

text \<open>
  \<open>Number(name.split('/').pop())\<close>: a decimal numeral is its value, the empty string is 0, anything
  else is read as NaN (None). Key management names end in a decimal integer.
\<close>

definition versionNumber :: "string \<Rightarrow> nat option" where
  "versionNumber name =
     (let w = last (split_on CHR ''/'' name) in
      if list_all is_digit w then Some (nat_of_str w) else None)"

definition version_gt :: "string \<Rightarrow> string \<Rightarrow> bool" where
  "version_gt a b = (case (versionNumber a, versionNumber b) of
      (Some m, Some n) \<Rightarrow> m > n | _ \<Rightarrow> False)"

definition listEnabledVersions :: "key_version list \<Rightarrow> string list" where
  "listEnabledVersions vs =
     map (\<lambda>v. the (kv_name v)) (filter (\<lambda>v. kv_state v = ENABLED \<and> truthy (kv_name v)) vs)"

definition version_state_str :: "version_state \<Rightarrow> string" where
  "version_state_str st = (case st of ENABLED \<Rightarrow> ''ENABLED'' | PENDING_GENERATION \<Rightarrow> ''PENDING_GENERATION''
     | GENERATION_FAILED \<Rightarrow> ''GENERATION_FAILED'' | DISABLED \<Rightarrow> ''DISABLED'' | DESTROYED \<Rightarrow> ''DESTROYED'')"

fun reduce1 :: "('a \<Rightarrow> 'a \<Rightarrow> 'a) \<Rightarrow> 'a list \<Rightarrow> 'a option" where
  "reduce1 f [] = None"
| "reduce1 f (x # xs) = Some (foldl f x xs)"

definition getNewestEnabledVersion :: "string \<Rightarrow> key_version list \<Rightarrow> exn + string" where
  "getNewestEnabledVersion keyPath vs =
     (case reduce1 (\<lambda>a b. if version_gt a b then a else b) (listEnabledVersions vs) of
        None \<Rightarrow> Inl (Err (''CryptoKey '' @ keyPath @ '' has no ENABLED versions''))
      | Some v \<Rightarrow> Inr v)"

text \<open>
  The signer's own client sorts instead (a stable sort by the version number, last element); on an
  empty list the result is \<open>undefined\<close> (None). Names without a numeral are outside what the model
  of the comparison says.
\<close>

definition local_getNewestEnabledVersion :: "key_version list \<Rightarrow> string option" where
  "local_getNewestEnabledVersion vs =
     (let sorted = sort_key (\<lambda>n. the (versionNumber n)) (listEnabledVersions vs) in
      if sorted = [] then None else Some (last sorted))"

definition createKeyVersion :: "string \<Rightarrow> string option \<Rightarrow> exn + string" where
  "createKeyVersion keyPath name =
     (if truthy name then Inr (the name) else Inl (Err (''Failed to create a new version for '' @ keyPath)))"

text \<open>
  \<open>waitForVersionEnabled\<close>: the i-th poll is a remote call that the service answers with \<open>obs i\<close>, a state or an
  error; like every call it may fail on the way, and it takes time. The pause between polls is 3000 ms. The loop ends
  because the clock passes the deadline.
\<close>

lemma rcall_clock: "rcall f s = (r, t) \<Longrightarrow> now s \<le> now t"
  using next_call_clock[of s] rtxn_cases[of "\<lambda>s. (f s, s)" s] unfolding rcall_def by fastforce

function wait_poll :: "(nat \<Rightarrow> exn + version_state) \<Rightarrow> string \<Rightarrow> int \<Rightarrow> nat \<Rightarrow> 'z env_scheme \<Rightarrow> (exn + unit) \<times> 'z env_scheme" where
  "wait_poll obs versionName deadline i s =
     (case rcall (\<lambda>_. obs i) s of
        (Inl e, t) \<Rightarrow> (Inl e, t)
      | (Inr st, t) \<Rightarrow>
          if st = ENABLED then (Inr (), t)
          else if st = GENERATION_FAILED
            then (Inl (Err (''Key version '' @ versionName @ '' failed to generate'')), t)
          else if now t \<ge> deadline
            then (Inl (Err (''Timed out waiting for key version '' @ versionName @ '' to become ENABLED (last state: ''
              @ version_state_str st @ '')'')), t)
          else wait_poll obs versionName deadline (i + 1) (t\<lparr>now := now t + 3000\<rparr>))"
  by pat_completeness auto

termination
  by (relation "measure (\<lambda>(_, _, deadline, _, s). nat (deadline - now s))") (auto dest!: rcall_clock[OF sym])

declare wait_poll.simps [simp del]

definition waitForVersionEnabled :: "(nat \<Rightarrow> exn + version_state) \<Rightarrow> string \<Rightarrow> int \<Rightarrow> ('z env_scheme, unit) eff" where
  "waitForVersionEnabled obs versionName timeoutMs = (\<lambda>s. wait_poll obs versionName (now s + timeoutMs) 0 s)"

section \<open>Lemmas\<close>

text \<open>The client touches nothing but the key names and the draw counter.\<close>

definition kms_free :: "('z kmsworld_scheme \<Rightarrow> bool) \<Rightarrow> bool" where
  "kms_free P \<longleftrightarrow> timeless P \<and> (\<forall>s ks n. P (s\<lparr>kms_keys := ks, draws := n\<rparr>) = P s)"

lemma kms_free_timeless: "kms_free P \<Longrightarrow> timeless P"
  by (simp add: kms_free_def)

lemma kms_free_keys: "kms_free P \<Longrightarrow> P (s\<lparr>kms_keys := ks\<rparr>) = P s"
  unfolding kms_free_def by (metis kmsworld.surjective kmsworld.update_convs(1) kmsworld.update_convs(2))

lemma kms_free_draws: "kms_free P \<Longrightarrow> P (s\<lparr>draws := n\<rparr>) = P s"
  unfolding kms_free_def by (metis kmsworld.surjective kmsworld.update_convs(1) kmsworld.update_convs(2))

lemma keeps_ensureTenantKey [keeps_intros]: "kms_free P \<Longrightarrow> keeps P (ensureTenantKey c t)"
  unfolding ensureTenantKey_def Let_def createCryptoKey_def
  by (intro keeps_intros kms_free_timeless keeps_rtxn) (auto split: if_splits simp: kms_free_keys)

lemma keeps_encryptDek [keeps_intros]: "kms_free P \<Longrightarrow> keeps P (encryptDataEncryptionKey K c d t)"
  unfolding encryptDataEncryptionKey_def
  by (intro keeps_intros kms_free_timeless keeps_rtxn) (auto split: if_splits simp: kms_free_draws)

lemma keeps_decryptDek [keeps_intros]: "kms_free P \<Longrightarrow> keeps P (decryptDataEncryptionKey K c e t)"
  unfolding decryptDataEncryptionKey_def by (intro keeps_intros kms_free_timeless)

lemma keeps_generateDek [keeps_intros]: "kms_free P \<Longrightarrow> keeps P (generateAndEncryptDek K c t)"
  unfolding generateAndEncryptDek_def Let_def
  by (intro keeps_intros keeps_modify) (auto simp: kms_free_draws)

lemma decryptDek_Inr:
  "decryptDataEncryptionKey K c e t s = (Inr d, s1) \<Longrightarrow> kms_decrypt K (getKeyPath c t) e = Inr (Some d)"
  by (auto simp: decryptDataEncryptionKey_def elim!: bnd_InrE dest!: rcall_Inr split: option.splits if_splits)

lemma encryptDek_Inr:
  assumes "kms_ok K" and "encryptDataEncryptionKey K c d t s = (Inr e, s1)"
  shows "e \<noteq> [] \<and> kms_decrypt K (getKeyPath c t) e = Inr (Some d)"
proof -
  from assms(2) obtain n where "kms_encrypt K (getKeyPath c t) n d = Some e"
    by (auto simp: encryptDataEncryptionKey_def elim!: bnd_InrE dest!: rtxn_Inr split: option.splits if_splits)
  then show ?thesis using assms(1) by (auto simp: kms_ok_def)
qed

text \<open>What a new wrapped DEK unwraps to, with the client's own decryption path.\<close>

lemma generateDek_Inr:
  assumes "kms_ok K" and "generateAndEncryptDek K c t s = (Inr e, s1)"
  shows "e \<noteq> [] \<and> (\<exists>d. length d = KEY_SIZE \<and> kms_decrypt K (getKeyPath c t) e = Inr (Some d))"
proof -
  from assms(2) obtain n w where
    "encryptDataEncryptionKey K c (generateRandomDEK (kms_random K) n) t w = (Inr e, s1)"
    by (auto simp: generateAndEncryptDek_def Let_def catch_apply bnd_apply split: prod.splits sum.splits)
  from encryptDek_Inr[OF assms(1) this] show ?thesis
    using assms(1) by (auto simp: kms_ok_def generateRandomDEK_def)
qed

lemma ensureTenantKey_Inr:
  assumes "ensureTenantKey c t s = (Inr p, s1)"
  shows "p = getKeyPath c (Some t) \<and> (p \<in> set (kms_keys s1) \<or> cryptoKeyPath (projectId c) (region c) (keyRing c) t \<in> set (kms_keys s1))"
  using assms
  by (auto simp: ensureTenantKey_def Let_def catch_apply key_exists_def createCryptoKey_def bnd_apply
      dest!: rcall_Inr rtxn_Inr split: prod.splits sum.splits if_splits)

section \<open>The newest version\<close>

definition later :: "('a \<Rightarrow> nat) \<Rightarrow> 'a \<Rightarrow> 'a \<Rightarrow> 'a" where
  "later g a b = (if g a > g b then a else b)"

lemma later_assoc: "later g (later g a b) c = later g a (later g b c)"
  by (auto simp: later_def)

lemma foldl_later: "foldl (later g) (later g x y) ys = later g x (foldl (later g) y ys)"
  by (induction ys arbitrary: y) (simp_all add: later_assoc)

lemma last_insort:
  "sorted (map g ys) \<Longrightarrow> ys \<noteq> [] \<Longrightarrow> last (insort_key g x ys) = later g x (last ys)"
proof (induction ys)
  case (Cons y ys)
  show ?case
  proof (cases "ys = []")
    case True
    then show ?thesis by (simp add: later_def)
  next
    case False
    have "last ys \<in> set ys" using False by simp
    moreover have "sorted (map g ys)" and "\<forall>z \<in> set ys. g y \<le> g z" using Cons.prems(1) by simp_all
    ultimately have "g y \<le> g (last ys)" and "last (insort_key g x ys) = later g x (last ys)"
      using Cons.IH False by simp_all
    then show ?thesis
      using False insort_not_Nil[of g x ys] by (cases "g x \<le> g y") (simp_all add: later_def)
  qed
qed simp

lemma reduce_is_last_sorted: "foldl (later g) x xs = last (sort_key g (x # xs))"
proof (induction xs arbitrary: x)
  case (Cons y ys)
  have "sort_key g (y # ys) \<noteq> []" by (metis list.distinct(1) sort_key_simps(1) length_sort length_0_conv)
  then have "last (sort_key g (x # y # ys)) = later g x (last (sort_key g (y # ys)))"
    using last_insort[of g "sort_key g (y # ys)" x] by (simp del: sort_key_simps add: sort_key_simps(2)[of g x])
  then show ?case using Cons by (simp add: foldl_later)
qed simp

lemma later_max: "foldl (later g) x xs \<in> set (x # xs) \<and> (\<forall>y \<in> set (x # xs). g y \<le> g (foldl (later g) x xs))"
proof (induction xs arbitrary: x)
  case (Cons y ys)
  have "g x \<le> g (later g x y)" and "g y \<le> g (later g x y)" and "later g x y = x \<or> later g x y = y"
    by (auto simp: later_def)
  with Cons[of "later g x y"] show ?case by fastforce
qed simp

lemma version_gt_later:
  assumes "\<forall>n \<in> set (x # xs). versionNumber n \<noteq> None"
  shows "foldl (\<lambda>a b. if version_gt a b then a else b) x xs = foldl (later (\<lambda>n. the (versionNumber n))) x xs"
  using assms
proof (induction xs arbitrary: x)
  case (Cons y ys)
  have "(if version_gt x y then x else y) = later (\<lambda>n. the (versionNumber n)) x y"
    using Cons.prems by (auto simp: version_gt_def later_def)
  with Cons show ?case by (auto simp: later_def)
qed simp

section \<open>Properties\<close>

text \<open>
  The two implementations of "the version to sign with" agree: when some version is enabled and
  the names carry numerals, both return the same enabled version and no enabled version has a
  higher number; with none enabled the main client throws while the signer's own client silently
  returns undefined.
\<close>

theorem newest_version_agree:
  assumes "\<forall>n \<in> set (listEnabledVersions vs). versionNumber n \<noteq> None"
  shows "(listEnabledVersions vs \<noteq> [] \<longrightarrow>
      (\<exists>v. getNewestEnabledVersion path vs = Inr v \<and> local_getNewestEnabledVersion vs = Some v \<and>
         v \<in> set (listEnabledVersions vs) \<and>
         (\<forall>w \<in> set (listEnabledVersions vs). the (versionNumber w) \<le> the (versionNumber v)))) \<and>
    (listEnabledVersions vs = [] \<longrightarrow>
      (\<exists>m. getNewestEnabledVersion path vs = Inl (Err m)) \<and> local_getNewestEnabledVersion vs = None)"
proof (cases "listEnabledVersions vs")
  case Nil
  then show ?thesis by (simp add: getNewestEnabledVersion_def local_getNewestEnabledVersion_def)
next
  case (Cons x xs)
  let ?g = "\<lambda>n. the (versionNumber n)"
  have "getNewestEnabledVersion path vs = Inr (foldl (later ?g) x xs)"
    using version_gt_later[of x xs] assms Cons by (simp add: getNewestEnabledVersion_def)
  moreover have "local_getNewestEnabledVersion vs = Some (foldl (later ?g) x xs)"
    using reduce_is_last_sorted[of ?g x xs] insort_not_Nil[of ?g x "sort_key ?g xs"]
    by (simp add: local_getNewestEnabledVersion_def Cons)
  ultimately show ?thesis using later_max[of ?g x xs] Cons by simp
qed

lemma newest_version_agree_witness:
  "\<exists>v. getNewestEnabledVersion ''k'' [\<lparr>kv_name = Some ''k/9'', kv_state = ENABLED\<rparr>, \<lparr>kv_name = Some ''k/10'', kv_state = ENABLED\<rparr>] = Inr v"
proof -
  let ?vs = "[\<lparr>kv_name = Some ''k/9'', kv_state = ENABLED\<rparr>, \<lparr>kv_name = Some ''k/10'', kv_state = ENABLED\<rparr>]"
  have l: "listEnabledVersions ?vs = [''k/9'', ''k/10'']" by (simp add: listEnabledVersions_def truthy_def)
  then have "\<forall>n \<in> set (listEnabledVersions ?vs). versionNumber n \<noteq> None"
    by (simp add: versionNumber_def is_digit_def between_def char_code_def)
  from newest_version_agree[OF this, of "''k''"] l show ?thesis by auto
qed

text \<open>Waiting touches nothing but the clock and the outcomes.\<close>

lemma keeps_waitForVersionEnabled [keeps_intros]:
  fixes P :: "'z env_scheme \<Rightarrow> bool"
  assumes t: "timeless P"
  shows "keeps P (waitForVersionEnabled obs v ms)"
proof -
  have pause: "P (s\<lparr>now := n\<rparr>) = P s" for s :: "'z env_scheme" and n
    using t[unfolded timeless_def, rule_format, of n "outcomes s" s] by simp
  have "P s \<Longrightarrow> P (snd (wait_poll obs v dl i s))" for dl i and s :: "'z env_scheme"
  proof (induction obs v dl i s rule: wait_poll.induct)
    case (1 obs v dl i s)
    obtain r u where c: "rcall (\<lambda>_. obs i) s = (r, u)" by fastforce
    have u: "P u" by (rule keepsE[OF keeps_rcall[OF t] 1(2) c])
    show ?case using 1(1)[OF c[symmetric]] u by (subst wait_poll.simps) (auto simp: c pause split: sum.split)
  qed
  then show ?thesis by (simp add: keeps_def waitForVersionEnabled_def)
qed

lemma rcall_time:
  assumes "rcall (\<lambda>_. v) s = (r, t)" and "\<forall>x \<in> set (outcomes s). snd x \<le> L"
  shows "now t \<le> now s + int L" and "set (outcomes t) \<subseteq> set (outcomes s)"
    and "r = v \<or> r = Inl IoErr \<and> outcomes s \<noteq> []"
  using assms by (auto simp: rcall_def rtxn_def next_call_def split: list.splits outcome.splits sum.splits)

text \<open>The verdict that the n-th poll calls for, when the earlier ones called for another.\<close>

definition verdict_at :: "(nat \<Rightarrow> exn + version_state) \<Rightarrow> string \<Rightarrow> bool \<Rightarrow> bool \<Rightarrow> nat \<Rightarrow> exn + unit \<Rightarrow> bool" where
  "verdict_at obs name lossy late n r \<longleftrightarrow>
     r = Inr () \<and> obs n = Inr ENABLED \<or>
     r = Inl (Err (''Key version '' @ name @ '' failed to generate'')) \<and> obs n = Inr GENERATION_FAILED \<or>
     (\<exists>st. r = Inl (Err (''Timed out waiting for key version '' @ name @ '' to become ENABLED (last state: '' @ version_state_str st @ '')'')) \<and>
        obs n = Inr st \<and> st \<notin> {ENABLED, GENERATION_FAILED} \<and> late) \<or>
     (\<exists>e. r = Inl e \<and> obs n = Inl e) \<or> r = Inl IoErr \<and> lossy"

text \<open>
  C40. Waiting for a key version ends: for every sequence of answers to the polls and every pattern of latencies and
  failures the loop returns no later than one poll interval and one call after the deadline. The verdict is that of the last
  poll, all earlier ones having seen a version neither enabled nor failed: success if it saw ENABLED; the error of a
  failed generation if it saw GENERATION_FAILED; the timeout, naming the state it saw, only when the deadline has passed;
  the error of the service, or of the transport, if the poll itself failed.
\<close>

theorem wait_terminates:
  fixes s :: "'z env_scheme"
  assumes L: "\<forall>x \<in> set (outcomes s). snd x \<le> L" and "0 \<le> timeoutMs"
  shows "\<exists>r t n. waitForVersionEnabled obs name timeoutMs s = (r, t) \<and> now t < now s + timeoutMs + 3000 + int L \<and>
     (\<forall>i < n. obs i \<notin> {Inr ENABLED, Inr GENERATION_FAILED} \<and> \<not> isl (obs i)) \<and>
     verdict_at obs name (outcomes s \<noteq> []) (now s + timeoutMs \<le> now t) n r"
proof -
  let ?open = "\<lambda>i. obs i \<notin> {Inr ENABLED, Inr GENERATION_FAILED} \<and> \<not> isl (obs i)"
  have "\<exists>r t n. wait_poll obs name dl m u = (r, t) \<and> now t < dl + 3000 + int L \<and> m \<le> n \<and> (\<forall>i \<in> {m..<n}. ?open i) \<and>
     verdict_at obs name (outcomes u \<noteq> []) (dl \<le> now t) n r"
    if "now u < dl + 3000" and "\<forall>x \<in> set (outcomes u). snd x \<le> L" for dl m and u :: "'z env_scheme"
    using that
  proof (induction obs name dl m u rule: wait_poll.induct)
    case (1 obs name dl m u)
    obtain c w where c: "rcall (\<lambda>_. obs m) u = (c, w)" by fastforce
    note T = rcall_time[OF c 1(3)]
    show ?case
    proof (cases "\<exists>st. c = Inr st \<and> st \<notin> {ENABLED, GENERATION_FAILED} \<and> now w < dl")
      case False
      have "\<exists>r. wait_poll obs name dl m u = (r, w) \<and> verdict_at obs name (outcomes u \<noteq> []) (dl \<le> now w) m r"
      proof (cases c)
        case (Inl e)
        then have "wait_poll obs name dl m u = (Inl e, w)" by (subst wait_poll.simps) (simp add: c)
        then show ?thesis using T(3) Inl by (auto simp: verdict_at_def)
      next
        case (Inr st)
        then have run: "wait_poll obs name dl m u = (if st = ENABLED then Inr ()
            else if st = GENERATION_FAILED then Inl (Err (''Key version '' @ name @ '' failed to generate''))
            else Inl (Err (''Timed out waiting for key version '' @ name @ '' to become ENABLED (last state: '' @ version_state_str st @ '')'')), w)"
          using False by (subst wait_poll.simps) (auto simp: c)
        have "obs m = Inr st" using T(3) Inr by auto
        then show ?thesis using False Inr unfolding run verdict_at_def by auto
      qed
      then show ?thesis using T(1) 1(2) by fastforce
    next
      case True
      then obtain st where st: "c = Inr st" "st \<notin> {ENABLED, GENERATION_FAILED}" "now w < dl" by blast
      let ?w = "w\<lparr>now := now w + 3000\<rparr>"
      have run: "wait_poll obs name dl m u = wait_poll obs name dl (m + 1) ?w"
        using st by (subst wait_poll.simps) (simp add: c)
      have obs: "obs m = Inr st" using T(3) st(1) by auto
      have "\<forall>x \<in> set (outcomes w). snd x \<le> L" using T(2) 1(3) by blast
      then have "\<exists>r t n. wait_poll obs name dl (m + 1) ?w = (r, t) \<and> now t < dl + 3000 + int L \<and> m + 1 \<le> n \<and>
          (\<forall>i \<in> {m + 1..<n}. obs i \<notin> {Inr ENABLED, Inr GENERATION_FAILED} \<and> \<not> isl (obs i)) \<and>
          verdict_at obs name (outcomes ?w \<noteq> []) (dl \<le> now t) n r"
        using 1(1)[OF c[symmetric] st(1)] st(2,3) by auto
      then obtain r t n where n: "wait_poll obs name dl (m + 1) ?w = (r, t)" "now t < dl + 3000 + int L" "m + 1 \<le> n"
        "\<forall>i \<in> {m + 1..<n}. obs i \<notin> {Inr ENABLED, Inr GENERATION_FAILED} \<and> \<not> isl (obs i)"
        "verdict_at obs name (outcomes ?w \<noteq> []) (dl \<le> now t) n r" by blast
      have "verdict_at obs name (outcomes u \<noteq> []) (dl \<le> now t) n r"
        using n(5) T(2) by (auto simp: verdict_at_def)
      moreover have "\<forall>i \<in> {m..<n}. obs i \<notin> {Inr ENABLED, Inr GENERATION_FAILED} \<and> \<not> isl (obs i)"
      proof
        fix i assume "i \<in> {m..<n}"
        then show "obs i \<notin> {Inr ENABLED, Inr GENERATION_FAILED} \<and> \<not> isl (obs i)"
          using n(4) obs st(2) by (cases "i = m") auto
      qed
      ultimately show ?thesis using run n by (intro exI[of _ r] exI[of _ t] exI[of _ n]) simp
    qed
  qed
  from this[of s "now s + timeoutMs" 0] L assms(2)
  obtain r t n where "wait_poll obs name (now s + timeoutMs) 0 s = (r, t)" "now t < now s + timeoutMs + 3000 + int L"
    "\<forall>i \<in> {0..<n}. ?open i" "verdict_at obs name (outcomes s \<noteq> []) (now s + timeoutMs \<le> now t) n r" by auto
  then show ?thesis unfolding waitForVersionEnabled_def by (intro exI[of _ r] exI[of _ t] exI[of _ n]) simp
qed

lemma wait_terminates_witness:
  "\<exists>r t. waitForVersionEnabled (\<lambda>i. Inr (if i < 2 then PENDING_GENERATION else ENABLED)) ''k/2'' 120000
      \<lparr>now = 0, outcomes = [(Ok, 10), (Ok, 10), (Lost, 10)]\<rparr> = (r, t) \<and> now t < 123010 \<and> (r = Inr () \<or> r = Inl IoErr)"
proof -
  let ?obs = "\<lambda>i. Inr (if i < 2 then PENDING_GENERATION else ENABLED) :: exn + version_state"
  let ?s = "\<lparr>now = 0, outcomes = [(Ok, 10), (Ok, 10), (Lost, 10)]\<rparr> :: env"
  obtain r t n where run: "waitForVersionEnabled ?obs ''k/2'' 120000 ?s = (r, t)" "now t < 123010"
    and v: "verdict_at ?obs ''k/2'' True (120000 \<le> now t) n r"
    using wait_terminates[of ?s 10 120000 ?obs "''k/2''"] by auto
  have "now t < 120000" using run(1) by (auto simp: waitForVersionEnabled_def wait_poll.simps rcall_def rtxn_def next_call_def)
  then show ?thesis using run v by (auto simp: verdict_at_def split: if_splits)
qed

text \<open>
  For the default tenant \<open>ensureTenantKey\<close> looks up the configured key but, when that is missing,
  creates one named after the tenant: the call succeeds and the key it returns does not exist.
\<close>

lemma ensure_default_creates_wrong_key:
  assumes "outcomes s = []" and "kms_keys s = []" and "keyName c \<noteq> default_tenant"
  shows "fst (ensureTenantKey c default_tenant s) = Inr (getKeyPath c None) \<and>
     getKeyPath c None \<notin> set (kms_keys (snd (ensureTenantKey c default_tenant s)))"
  using assms
  by (auto simp: ensureTenantKey_def catch_apply bnd_apply createCryptoKey_def key_exists_def no_faults
      getKeyPath_def cryptoKeyPath_def truthy_def Let_def)

end
