(* ===== verification/Lineage.thy ===== *)
theory Lineage
  imports Complex_Main Kms
begin

text \<open>
  \<open>src/gcp/bigquery-lineage.ts\<close> and \<open>src/types/lineage.ts\<close>: the audit trail. \<open>recordEvent\<close>
  publishes an event to Pub/Sub and falls back to the structured log when publishing fails; the
  readers query the events table, which a subscription outside the program fills, so the rows of
  the warehouse are part of the world (\<open>bq_events\<close>, and the answers of the two JSON queries).
\<close>

record lineage_event =
  le_userId :: "string option"
  le_user_id :: "string option"
  le_tenantId :: "string option"
  le_tenant_id :: "string option"
  le_operationId :: "string option"
  le_operation_id :: "string option"
  le_source :: string
  le_destination :: string
  le_eventType :: "string option"
  le_event_type :: "string option"
  le_deletionRequestId :: "string option"
  le_deletion_request_id :: "string option"
  le_context :: "(string \<times> json) list option"
  le_metadata :: "(string \<times> json) list option"
  le_dataClassification :: "string option"
  le_data_classification :: "string option"
  le_retentionPolicy :: "string option"
  le_retention_policy :: "string option"

record lineage_payload =
  lp_event_id :: string
  lp_tenant_id :: string
  lp_user_id :: string
  lp_source :: string
  lp_destination :: string
  lp_timestamp :: int
  lp_context :: "(string \<times> json) list"

record bq_event =
  be_tenant :: string
  be_user :: string
  be_destination :: string
  be_timestamp :: int

record LineageDestination =
  ld_name :: string
  ld_lastSeen :: int

record UserLineage =
  ul_userId :: string
  ul_destinations :: "LineageDestination list"

datatype ghost_scope = USER_LINKED | RESOURCE_LEVEL

record ghost_row =
  gr_user_id :: string
  gr_destination :: string
  gr_resource_id :: "string option"
  gr_system :: "string option"
  gr_column_name :: "string option"
  gr_pattern :: "string option"
  gr_finding_count :: "int option"
  gr_confidence :: "rat option"
  gr_scanner :: "string option"
  gr_last_seen :: "int option"

record GhostDataSummary =
  gd_scope :: ghost_scope
  gd_resourceId :: string
  gd_system :: string
  gd_column :: "string option"
  gd_pattern :: "string option"
  gd_count :: "int option"
  gd_confidence :: "rat option"
  gd_scanner :: "string option"
  gd_lastSeen :: int

record discovery_row =
  wr_resource_id :: string
  wr_system :: "string option"
  wr_dataset_id :: "string option"
  wr_table_id :: "string option"
  wr_registry_status :: "string option"
  wr_new_columns :: "string list option"
  wr_recommended_action :: "string option"
  wr_last_seen :: "int option"

record WarehouseDiscoveryFinding =
  wf_resourceId :: string
  wf_system :: string
  wf_datasetId :: "string option"
  wf_tableId :: "string option"
  wf_registryStatus :: string
  wf_columns :: "string list"
  wf_recommendedAction :: "string option"
  wf_lastSeen :: int

record lworld = kmsworld +
  published :: "lineage_payload list"
  logged :: "lineage_payload list"
  bq_events :: "bq_event list"
  ghost_rows :: "string \<Rightarrow> string \<Rightarrow> ghost_row list"
  discovery_rows :: "string \<Rightarrow> discovery_row list"

text \<open>The repository: the topic (empty when unset), whether the Avro type loaded, the id source.\<close>

record lineage_repo =
  topicId :: string
  avroLoaded :: bool
  ulid :: "nat \<Rightarrow> string"

definition default_tenant_or :: "string option \<Rightarrow> string" where
  "default_tenant_or t = or_else t default_tenant"

text \<open>\<open>\{...base, ...over\}\<close>\<close>

definition spread :: "(string \<times> json) list \<Rightarrow> (string \<times> json) list \<Rightarrow> (string \<times> json) list" where
  "spread base over = foldl (\<lambda>acc (k, v). AList.update k v acc) base over"

definition avroPayload :: "string \<Rightarrow> int \<Rightarrow> lineage_event \<Rightarrow> lineage_payload" where
  "avroPayload eventId timestampMicros event =
     \<lparr>lp_event_id = eventId,
      lp_tenant_id = or_else (or_opt (le_tenantId event) (le_tenant_id event)) default_tenant,
      lp_user_id = or_else (or_opt (le_userId event) (le_user_id event)) ''UNKNOWN'',
      lp_source = or_else (Some (le_source event)) ''UNKNOWN'',
      lp_destination = or_else (Some (le_destination event)) ''UNKNOWN'',
      lp_timestamp = timestampMicros,
      lp_context = spread
        [(''event_type'', JStr (or_else (or_opt (le_eventType event) (le_event_type event)) ''UNKNOWN'')),
         (''operation_id'', JStr (or_else (or_opt (le_operationId event) (le_operation_id event)) eventId)),
         (''deletion_request_id'',
            JStr (or_else (or_opt (le_deletionRequestId event) (le_deletion_request_id event)) ''NONE'')),
         (''data_classification'',
            JStr (or_else (or_opt (le_dataClassification event) (le_data_classification event)) ''UNKNOWN'')),
         (''retention_policy'',
            JStr (or_else (or_opt (le_retentionPolicy event) (le_retention_policy event)) ''UNKNOWN''))]
        (case le_context event of Some c \<Rightarrow> c
         | None \<Rightarrow> (case le_metadata event of Some m \<Rightarrow> m | None \<Rightarrow> []))\<rparr>"

definition publishMessage :: "lineage_payload \<Rightarrow> ('z lworld_scheme, unit) eff" where
  "publishMessage p = rwrite (\<lambda>s. s\<lparr>published := published s @ [p]\<rparr>)"

definition log_event :: "lineage_payload \<Rightarrow> ('z lworld_scheme, unit) eff" where
  "log_event p = modify (\<lambda>s. s\<lparr>logged := logged s @ [p]\<rparr>)"

definition recordEvent :: "lineage_repo \<Rightarrow> lineage_event \<Rightarrow> ('z lworld_scheme, string) eff" where
  "recordEvent L event =
     bnd (gets draws) (\<lambda>n.
     bnd (modify (\<lambda>s. s\<lparr>draws := n + 1\<rparr>)) (\<lambda>_.
     bnd (gets now) (\<lambda>t.
       (let eventId = ulid L n; payload = avroPayload eventId (t * 1000) event in
        bnd (catch
              (if topicId L = [] \<or> \<not> avroLoaded L then throw (Err ''Lineage misconfigured'')
               else publishMessage payload)
              (\<lambda>_. log_event payload))
            (\<lambda>_. ret eventId)))))"

text \<open>The grouped query: the destinations of the user's events with the latest instant, newest first.\<close>

definition last_seen_of :: "bq_event list \<Rightarrow> string \<Rightarrow> int" where
  "last_seen_of es d = Max (be_timestamp ` {e \<in> set es. be_destination e = d})"

definition lineage_query :: "string \<Rightarrow> string \<Rightarrow> bq_event list \<Rightarrow> LineageDestination list" where
  "lineage_query userId tenantId es =
     (let mine = filter (\<lambda>e. be_user e = userId \<and> be_tenant e = tenantId) es in
      sort_key (\<lambda>d. - ld_lastSeen d)
        (map (\<lambda>d. \<lparr>ld_name = d, ld_lastSeen = last_seen_of mine d\<rparr>) (remdups (map be_destination mine))))"

definition getUserLineage :: "string \<Rightarrow> string \<Rightarrow> ('z lworld_scheme, UserLineage) eff" where
  "getUserLineage userId tenantId =
     catch
       (bnd (rread (\<lambda>s. lineage_query userId tenantId (bq_events s)))
         (\<lambda>rows. ret \<lparr>ul_userId = userId, ul_destinations = rows\<rparr>))
       (\<lambda>_. ret \<lparr>ul_userId = userId, ul_destinations = []\<rparr>)"

definition ghost_summary :: "int \<Rightarrow> ghost_row \<Rightarrow> GhostDataSummary" where
  "ghost_summary t row =
     \<lparr>gd_scope = (if gr_user_id row = ''UNKNOWN'' then RESOURCE_LEVEL else USER_LINKED),
      gd_resourceId = or_else (gr_resource_id row) (gr_destination row),
      gd_system = or_else (gr_system row) (gr_destination row),
      gd_column = or_opt (gr_column_name row) None,
      gd_pattern = or_opt (gr_pattern row) None,
      gd_count = gr_finding_count row,
      gd_confidence = gr_confidence row,
      gd_scanner = or_opt (gr_scanner row) None,
      gd_lastSeen = (case gr_last_seen row of Some l \<Rightarrow> l | None \<Rightarrow> t)\<rparr>"

definition getGhostDataFindings :: "string \<Rightarrow> string \<Rightarrow> ('z lworld_scheme, GhostDataSummary list) eff" where
  "getGhostDataFindings userId tenantId =
     catch
       (bnd (rread (\<lambda>s. ghost_rows s tenantId userId)) (\<lambda>rows.
        bnd (gets now) (\<lambda>t. ret (map (ghost_summary t) rows))))
       (\<lambda>_. ret [])"

definition discovery_finding :: "int \<Rightarrow> discovery_row \<Rightarrow> WarehouseDiscoveryFinding" where
  "discovery_finding t row =
     \<lparr>wf_resourceId = wr_resource_id row,
      wf_system = or_else (wr_system row) ''bigquery'',
      wf_datasetId = or_opt (wr_dataset_id row) None,
      wf_tableId = or_opt (wr_table_id row) None,
      wf_registryStatus = or_else (wr_registry_status row) ''UNREGISTERED'',
      wf_columns = (case wr_new_columns row of Some c \<Rightarrow> c | None \<Rightarrow> []),
      wf_recommendedAction = or_opt (wr_recommended_action row) None,
      wf_lastSeen = (case wr_last_seen row of Some l \<Rightarrow> l | None \<Rightarrow> t)\<rparr>"

definition getWarehouseDiscoveryFindings :: "string \<Rightarrow> ('z lworld_scheme, WarehouseDiscoveryFinding list) eff" where
  "getWarehouseDiscoveryFindings tenantId =
     catch
       (bnd (rread (\<lambda>s. discovery_rows s tenantId)) (\<lambda>rows.
        bnd (gets now) (\<lambda>t. ret (map (discovery_finding t) rows))))
       (\<lambda>_. ret [])"

section \<open>Lemmas\<close>

text \<open>A property that neither the audit trail nor the clients below it touch.\<close>

definition lineage_free :: "('z lworld_scheme \<Rightarrow> bool) \<Rightarrow> bool" where
  "lineage_free P \<longleftrightarrow> kms_free P \<and> (\<forall>s ps. P (s\<lparr>published := ps\<rparr>) = P s) \<and>
     (\<forall>s ls. P (s\<lparr>logged := ls\<rparr>) = P s)"

lemma lineage_free_kms: "lineage_free P \<Longrightarrow> kms_free P"
  by (simp add: lineage_free_def)

lemma lineage_free_timeless: "lineage_free P \<Longrightarrow> timeless P"
  by (simp add: lineage_free_def kms_free_def)

lemma lineage_free_published: "lineage_free P \<Longrightarrow> P (s\<lparr>published := ps\<rparr>) = P s"
  by (simp add: lineage_free_def)

lemma lineage_free_logged: "lineage_free P \<Longrightarrow> P (s\<lparr>logged := ls\<rparr>) = P s"
  by (simp add: lineage_free_def)

lemma keeps_recordEvent [keeps_intros]: "lineage_free P \<Longrightarrow> keeps P (recordEvent L e)"
  unfolding recordEvent_def Let_def publishMessage_def log_event_def
  by (intro keeps_intros keeps_modify keeps_rwrite lineage_free_timeless)
    (auto simp: lineage_free_published lineage_free_logged kms_free_draws lineage_free_kms)

lemma keeps_getUserLineage [keeps_intros]: "timeless P \<Longrightarrow> keeps P (getUserLineage u t)"
  unfolding getUserLineage_def by (intro keeps_intros)

lemma keeps_getGhostDataFindings [keeps_intros]: "timeless P \<Longrightarrow> keeps P (getGhostDataFindings u t)"
  unfolding getGhostDataFindings_def by (intro keeps_intros)

text \<open>Recording an event never throws, and the event is never lost without a trace.\<close>

lemma published_next_call [simp]:
  "published (snd (next_call s)) = published s" "logged (snd (next_call s)) = logged s"
  by (auto simp: next_call_def split: list.splits)

lemma publishMessage_cases:
  "(\<exists>t. publishMessage p s = (Inl IoErr, t) \<and> (published t = published s \<or> published t = published s @ [p]) \<and> logged t = logged s) \<or>
   (\<exists>t. publishMessage p s = (Inr (), t) \<and> published t = published s @ [p] \<and> logged t = logged s)"
proof -
  obtain oc w where n: "next_call s = (oc, w)" by fastforce
  have "published w = published s" "logged w = logged s"
    using published_next_call[of s] by (simp_all add: n)
  then show ?thesis
    by (cases oc) (auto simp: publishMessage_def rwrite_def rtxn_def n)
qed

text \<open>One new event: in the topic, in the log, or in both when the topic took it and the answer was lost.\<close>

definition newly_recorded :: "lineage_payload \<Rightarrow> 'z lworld_scheme \<Rightarrow> 'z lworld_scheme \<Rightarrow> bool" where
  "newly_recorded p s t \<longleftrightarrow>
     published t = published s @ [p] \<and> (logged t = logged s \<or> logged t = logged s @ [p]) \<or>
     published t = published s \<and> logged t = logged s @ [p]"

lemma newly_recorded_mem: "newly_recorded p s t \<Longrightarrow> p \<in> set (published t) \<or> p \<in> set (logged t)"
  by (auto simp: newly_recorded_def)

definition publish_or_log :: "lineage_repo \<Rightarrow> lineage_payload \<Rightarrow> ('z lworld_scheme, unit) eff" where
  "publish_or_log L p =
     catch (if topicId L = [] \<or> \<not> avroLoaded L then throw (Err ''Lineage misconfigured'') else publishMessage p)
       (\<lambda>_. log_event p)"

lemma publish_or_log_spec: "\<exists>t. publish_or_log L p s = (Inr (), t) \<and> newly_recorded p s t"
proof (cases "topicId L = [] \<or> \<not> avroLoaded L")
  case True
  then show ?thesis by (auto simp: publish_or_log_def catch_apply log_event_def newly_recorded_def)
next
  case False
  then show ?thesis
    using publishMessage_cases[of p s] by (auto simp: publish_or_log_def catch_apply log_event_def newly_recorded_def)
qed

lemma recordEvent_unfold:
  "recordEvent L e s =
     (let w = s\<lparr>draws := draws s + 1\<rparr> in
      bnd (publish_or_log L (avroPayload (ulid L (draws s)) (now s * 1000) e))
        (\<lambda>_. ret (ulid L (draws s))) w)"
  by (simp add: recordEvent_def Let_def publish_or_log_def bnd_apply[of "modify f" for f])

lemma recordEvent_spec:
  "\<exists>t. recordEvent L e s = (Inr (ulid L (draws s)), t) \<and>
     newly_recorded (avroPayload (ulid L (draws s)) (now s * 1000) e) s t"
proof -
  let ?w = "s\<lparr>draws := draws s + 1\<rparr>"
  let ?p = "avroPayload (ulid L (draws s)) (now s * 1000) e"
  obtain t where "publish_or_log L ?p ?w = (Inr (), t)" "newly_recorded ?p ?w t"
    using publish_or_log_spec[of L ?p ?w] by blast
  then show ?thesis
    unfolding recordEvent_unfold Let_def by (simp add: bnd_apply newly_recorded_def)
qed

text \<open>The later of two entries under one name counts.\<close>

lemma map_of_spread: "map_of (spread base over) = map_of base ++ map_of (rev over)"
  unfolding spread_def
proof (induction over arbitrary: base)
  case (Cons x over)
  obtain k v where x: "x = (k, v)" by fastforce
  have "map_of (foldl (\<lambda>acc (k, v). AList.update k v acc) base (x # over)) = map_of (AList.update k v base) ++ map_of (rev over)"
    by (simp only: foldl_Cons x case_prod_conv Cons.IH)
  also have "\<dots> = (map_of base)(k \<mapsto> v) ++ map_of (rev over)" by (simp only: update_conv')
  also have "\<dots> = map_of base ++ map_of (rev (x # over))" by (simp add: x map_add_upd_left map_add_assoc fun_eq_iff map_add_def split: option.splits)
  finally show ?case .
qed simp

lemma recordEvent_total: "\<exists>t. recordEvent L e s = (Inr (ulid L (draws s)), t)"
  using recordEvent_spec[of L e s] by blast

lemma clock_recordEvent: "keeps (\<lambda>s. T \<le> now s) (recordEvent L e)"
  unfolding recordEvent_def Let_def publishMessage_def log_event_def rwrite_def
  by (intro keeps_intros keeps_modify clock_rtxn) auto

lemma getUserLineage_total: "\<exists>l t. getUserLineage u ten s = (Inr l, t) \<and> ul_userId l = u"
  by (auto simp: getUserLineage_def bnd_apply catch_apply split: prod.splits sum.splits)

lemma getGhostDataFindings_total: "\<exists>l t. getGhostDataFindings u ten s = (Inr l, t)"
  by (auto simp: getGhostDataFindings_def bnd_apply catch_apply split: prod.splits sum.splits)

end
