(* ===== verification/CryptoRoutes.thy ===== *)
theory CryptoRoutes
  imports Lineage
begin

text \<open>
  \<open>src/routes/crypto.ts\<close> (all handlers but \<open>DELETE /key/shred\<close>, which is with the deletion
  routes) and the user-id schemas of \<open>src/middleware/validation.ts\<close>. A handler is an effect from
  the parsed request to an HTTP reply; every exception its body throws is turned into a reply as
  the code's \<open>catch\<close> does. Rate limiting and logging are left out.
\<close>

record vault =
  vt_gcm :: gcm
  vt_sha :: "bytes \<Rightarrow> bytes"
  vt_kms :: kms_service
  vt_client :: kms_client
  vt_lineage :: lineage_repo

record http_request =
  rq_tenant :: "string option"
  rq_correlationId :: string
  rq_analystEmail :: "string option"

definition tenant_of :: "http_request \<Rightarrow> string" where
  "tenant_of rq = or_else (rq_tenant rq) default_tenant"

section \<open>Request schemas\<close>

definition is_user_char :: "char \<Rightarrow> bool" where
  "is_user_char c = (is_lower c \<or> is_upper c \<or> is_digit c \<or> c = CHR ''-'' \<or> c = CHR ''_'')"

definition userId_errors :: "string \<Rightarrow> string list" where
  "userId_errors u =
     (if u = [] then [''userId is not allowed to be empty'']
      else (if list_all is_user_char u then []
            else [''userId must contain only alphanumeric characters, hyphens, and underscores'']) @
           (if length u \<le> 64 then [] else [''userId must not exceed 64 characters'']))"

record user_body =
  ub_userId :: "string option"
  ub_user_id :: "string option"

definition opt_errors :: "('a \<Rightarrow> string list) \<Rightarrow> 'a option \<Rightarrow> string list" where
  "opt_errors f v = (case v of None \<Rightarrow> [] | Some x \<Rightarrow> f x)"

definition user_errors :: "user_body \<Rightarrow> string list" where
  "user_errors b =
     opt_errors userId_errors (ub_userId b) @ opt_errors userId_errors (ub_user_id b) @
     (if ub_userId b = None \<and> ub_user_id b = None
      then [''value must contain at least one of [userId, user_id]''] else [])"

definition reject_errors :: "string list \<Rightarrow> 'a \<Rightarrow> exn + 'a" where
  "reject_errors errs v = (if errs = [] then Inr v else Inl (Invalid errs))"

definition body_user :: "user_body \<Rightarrow> string" where
  "body_user b = or_else (or_opt (ub_userId b) (ub_user_id b)) []"

definition validateUser :: "user_body \<Rightarrow> exn + string" where
  "validateUser b = reject_errors (user_errors b) (body_user b)"

definition plaintext_errors :: "string \<Rightarrow> string list" where
  "plaintext_errors p =
     (if p = [] then [''Plaintext cannot be empty''] else []) @
     (if length p \<le> 10240 then [] else [''Plaintext must not exceed 10KB''])"

definition validateEncrypt :: "string \<Rightarrow> user_body \<Rightarrow> exn + string" where
  "validateEncrypt p b = reject_errors (plaintext_errors p @ user_errors b) (body_user b)"

definition is_b64_char :: "char \<Rightarrow> bool" where
  "is_b64_char c = (is_lower c \<or> is_upper c \<or> is_digit c \<or> c = CHR ''+'' \<or> c = CHR ''/'' \<or> c = CHR ''='')"

text \<open>\<open>/^v\d+:[A-Za-z0-9+/=]+$/\<close>\<close>

definition ciphertext_errors :: "string \<Rightarrow> string list" where
  "ciphertext_errors ct =
     (case split_on CHR '':'' ct of
        [v, d] \<Rightarrow>
          (case v of
             x # ds \<Rightarrow>
               if x = CHR ''v'' \<and> ds \<noteq> [] \<and> list_all is_digit ds \<and> d \<noteq> [] \<and> list_all is_b64_char d then []
               else [''Ciphertext must be in format v{version}:{base64}'']
           | [] \<Rightarrow> [''Ciphertext must be in format v{version}:{base64}''])
      | _ \<Rightarrow> [''Ciphertext must be in format v{version}:{base64}''])"

definition validateDecrypt :: "string \<Rightarrow> user_body \<Rightarrow> exn + string" where
  "validateDecrypt ct b = reject_errors (ciphertext_errors ct @ user_errors b) (body_user b)"

record batch_body =
  bb_userIds :: "string list"
  bb_tenantId :: "string option"
  bb_tenant_id :: "string option"

definition tenant_errors :: "string \<Rightarrow> string list" where
  "tenant_errors t =
     (if t = [] then [''tenantId is not allowed to be empty''] else []) @
     (if length t \<le> 128 then [] else [''tenantId length must be at most 128''])"

definition validateBatch :: "batch_body \<Rightarrow> exn + string list" where
  "validateBatch b = reject_errors
     (concat (map userId_errors (bb_userIds b)) @
      (if bb_userIds b = [] then [''userIds must contain at least 1 items''] else []) @
      (if length (bb_userIds b) \<le> 1000 then [] else [''userIds must contain at most 1000 items'']) @
      opt_errors tenant_errors (bb_tenantId b) @ opt_errors tenant_errors (bb_tenant_id b))
     (bb_userIds b)"

definition batch_tenant :: "http_request \<Rightarrow> batch_body \<Rightarrow> string" where
  "batch_tenant rq b =
     or_else (or_opt (rq_tenant rq) (or_opt (bb_tenantId b) (bb_tenant_id b))) default_tenant"

section \<open>Replies\<close>

definition reply400 :: "string list \<Rightarrow> reply" where
  "reply400 errs = send 400
     [(''error'', JStr ''Validation failed''), (''errors'', JArr (map JStr errs)), (''statusCode'', JNum 400)]"

definition reply_error :: "nat \<Rightarrow> string \<Rightarrow> reply" where
  "reply_error c m = send c [(''error'', JStr m), (''statusCode'', JNum (int c))]"

definition reply500 :: "string \<Rightarrow> exn \<Rightarrow> reply" where
  "reply500 m e = send 500
     [(''error'', JStr m), (''message'', JStr (message_of e)), (''statusCode'', JNum 500)]"

text \<open>The \<open>catch\<close> of most handlers: a validation failure is a 400, anything else a 500.\<close>

definition on_error :: "string \<Rightarrow> exn \<Rightarrow> ('s, reply) eff" where
  "on_error m e = ret (case e of Invalid errs \<Rightarrow> reply400 errs | _ \<Rightarrow> reply500 m e)"

definition user_fields :: "string \<Rightarrow> (string \<times> json) list" where
  "user_fields u = [(''userId'', JStr u), (''user_id'', JStr u)]"

text \<open>The event of an audit record in the vault's own handlers.\<close>

definition vault_event :: "string \<Rightarrow> string option \<Rightarrow> string \<Rightarrow> string \<Rightarrow> string option \<Rightarrow> (string \<times> json) list \<Rightarrow> lineage_event" where
  "vault_event userId tenantId destination eventType classification ctx =
     \<lparr>le_userId = Some userId, le_user_id = None, le_tenantId = tenantId, le_tenant_id = None,
      le_operationId = None, le_operation_id = None, le_source = ''key-vault'',
      le_destination = destination, le_eventType = Some eventType, le_event_type = None,
      le_deletionRequestId = None, le_deletion_request_id = None, le_context = Some ctx,
      le_metadata = None, le_dataClassification = classification, le_data_classification = None,
      le_retentionPolicy = None, le_retention_policy = None\<rparr>"

text \<open>\<open>try \{ await recordEvent(...) \} catch (log)\<close>\<close>

definition audit :: "vault \<Rightarrow> lineage_event \<Rightarrow> ('z lworld_scheme, unit) eff" where
  "audit V e = swallow (bnd (recordEvent (vt_lineage V) e) (\<lambda>_. ret ()))"

section \<open>Key generation\<close>

definition post_key_generate :: "vault \<Rightarrow> http_request \<Rightarrow> user_body \<Rightarrow> ('z lworld_scheme, reply) eff" where
  "post_key_generate V rq b =
     (let tenantId = tenant_of rq in
      catch
        (bnd (lift (validateUser b)) (\<lambda>userId.
         bnd (getKeyForUser userId tenantId None) (\<lambda>existingKey.
         if existingKey \<noteq> None then
           bnd (gets now) (\<lambda>t. ret (send 200 ([(''status'', JStr ''EXISTS'')] @ user_fields userId @ [(''timestamp'', JNum t)])))
         else
           bnd (ensureTenantKey (vt_client V) tenantId) (\<lambda>_.
           bnd (generateAndEncryptDek (vt_kms V) (vt_client V) (Some tenantId)) (\<lambda>dek.
           bnd (setKeyForUser userId dek tenantId) (\<lambda>_.
           bnd (gets now) (\<lambda>t1.
           bnd (audit V (vault_event userId (Some tenantId) ''key-registry'' ''KEY_CREATED'' (Some ''AUDIT_TRAIL'')
                 [(''operation'', JStr ''KEY_GENERATE''), (''correlationId'', JStr (rq_correlationId rq)),
                  (''key_id'', JStr ''v1''), (''encryption_version'', JStr ''v2''), (''timestamp'', JNum t1)])) (\<lambda>_.
           bnd (gets now) (\<lambda>t.
           ret (send 201 ([(''status'', JStr ''GENERATED'')] @ user_fields userId @ [(''timestamp'', JNum t)])))))))))))
        (on_error ''Failed to generate key''))"

definition batch_generate_one :: "vault \<Rightarrow> http_request \<Rightarrow> string \<Rightarrow> string \<Rightarrow> ('z lworld_scheme, json) eff" where
  "batch_generate_one V rq tenantId userId =
     bnd (getKeyForUser userId tenantId None) (\<lambda>existingKey.
     if existingKey \<noteq> None then ret (JObj [(''userId'', JStr userId), (''status'', JStr ''EXISTS'')])
     else
       bnd (generateAndEncryptDek (vt_kms V) (vt_client V) (Some tenantId)) (\<lambda>dek.
       bnd (setKeyForUser userId dek tenantId) (\<lambda>_.
       bnd (audit V (vault_event userId (Some tenantId) ''key-registry'' ''KEY_CREATED'' (Some ''AUDIT_TRAIL'')
              [(''operation'', JStr ''BATCH_GENERATE''), (''correlationId'', JStr (rq_correlationId rq))])) (\<lambda>_.
       ret (JObj [(''userId'', JStr userId), (''status'', JStr ''GENERATED'')])))))"

definition post_batch_generate :: "vault \<Rightarrow> http_request \<Rightarrow> batch_body \<Rightarrow> ('z lworld_scheme, reply) eff" where
  "post_batch_generate V rq b =
     catch
       (bnd (lift (validateBatch b)) (\<lambda>userIds.
        let tenantId = batch_tenant rq b in
        bnd (ensureTenantKey (vt_client V) tenantId) (\<lambda>_.
        bnd (promiseAll (batch_generate_one V rq tenantId) userIds) (\<lambda>results.
        bnd (gets now) (\<lambda>t.
        ret (send 200 [(''processed'', JNum (int (length results))), (''results'', JArr results), (''timestamp'', JNum t)]))))))
       (\<lambda>e. ret (send 500 [(''error'', JStr ''Batch processing failed'')]))"

section \<open>Encryption contexts\<close>

definition is_gone :: "key_status_view option \<Rightarrow> bool" where
  "is_gone v = (case v of None \<Rightarrow> True | Some k \<Rightarrow> ks_status k = SHREDDED \<or> ks_status k = DELETED)"

definition tokenization_json :: json where
  "tokenization_json = JObj [(''algorithm'', JStr ''HMAC-SHA256''),
     (''tokenKeyId'', JStr ''chameleon-token-key-v1''), (''token_key_id'', JStr ''chameleon-token-key-v1'')]"

definition context_fields :: "string \<Rightarrow> key_material \<Rightarrow> key_status_view \<Rightarrow> int \<Rightarrow> (string \<times> json) list" where
  "context_fields userId km ks t =
     [(''userId'', JStr userId), (''user_id'', JStr userId),
      (''keyId'', jopt (km_activeDekId km)), (''key_id'', jopt (km_activeDekId km)),
      (''encryptedDek'', JStr (b64_encode (encryptedDek km))), (''encrypted_dek'', JStr (b64_encode (encryptedDek km))),
      (''algorithm'', JStr ''AES-256-GCM''),
      (''encryptionVersion'', JStr (or_else (ks_encryption_version ks) ''v1'')),
      (''encryption_version'', JStr (or_else (ks_encryption_version ks) ''v1'')),
      (''tokenization'', tokenization_json), (''status'', JStr (status_str (ks_status ks))), (''timestamp'', JNum t)]"

definition batch_context_one :: "string \<Rightarrow> string \<Rightarrow> ('z lworld_scheme, json) eff" where
  "batch_context_one tenantId userId =
     catch
       (bnd (getKeyStatus userId tenantId) (\<lambda>keyStatus.
        if is_gone keyStatus then
          ret (JObj [(''userId'', JStr userId), (''error'', JStr ''Key not found or shredded''), (''statusCode'', JNum 404)])
        else
          bnd (getKeyForUser userId tenantId None) (\<lambda>keyData.
          case keyData of
            None \<Rightarrow> ret (JObj [(''userId'', JStr userId),
                      (''error'', JStr ''Internal server error: Key material missing''), (''statusCode'', JNum 500)])
          | Some km \<Rightarrow> bnd (gets now) (\<lambda>t. ret (JObj (context_fields userId km (the keyStatus) t))))))
       (\<lambda>_. ret (JObj [(''userId'', JStr userId), (''error'', JStr ''Failed to retrieve encryption context''), (''statusCode'', JNum 500)]))"

definition json_field :: "string \<Rightarrow> json \<Rightarrow> json option" where
  "json_field f j = (case j of JObj fs \<Rightarrow> map_of fs f | _ \<Rightarrow> None)"

definition json_str :: "json option \<Rightarrow> string" where
  "json_str j = (case j of Some (JStr x) \<Rightarrow> x | _ \<Rightarrow> [])"

definition by_user :: "json list \<Rightarrow> (string \<times> json) list" where
  "by_user cs = spread [] (map (\<lambda>c. (json_str (json_field ''userId'' c), c)) cs)"

definition post_batch_encryption_context :: "vault \<Rightarrow> http_request \<Rightarrow> batch_body \<Rightarrow> ('z lworld_scheme, reply) eff" where
  "post_batch_encryption_context V rq b =
     catch
       (bnd (lift (validateBatch b)) (\<lambda>userIds.
        let tenantId = batch_tenant rq b in
        bnd (ensureTenantKey (vt_client V) tenantId) (\<lambda>_.
        bnd (promiseAll (batch_context_one tenantId) userIds) (\<lambda>results.
        let contexts = filter (\<lambda>r. json_field ''encryptedDek'' r \<noteq> None) results in
        bnd (gets now) (\<lambda>t.
        ret (send 200 [(''processed'', JNum (int (length results))), (''contexts'', JArr contexts),
               (''contextsByUserId'', JObj (by_user contexts)), (''contexts_by_user_id'', JObj (by_user contexts)),
               (''results'', JArr results), (''timestamp'', JNum t)]))))))
       (\<lambda>e. ret (case e of
           Invalid errs \<Rightarrow> reply400 errs
         | _ \<Rightarrow> send 500 [(''error'', JStr (message_of e)), (''statusCode'', JNum 500)]))"

definition get_encryption_context :: "http_request \<Rightarrow> user_body \<Rightarrow> ('z lworld_scheme, reply) eff" where
  "get_encryption_context rq b =
     (let tenantId = tenant_of rq in
      catch
        (bnd (lift (validateUser b)) (\<lambda>uId.
         bnd (getKeyStatus uId tenantId) (\<lambda>keyStatus.
         if is_gone keyStatus then ret (reply_error 404 ''User key not found or has been shredded'')
         else
           bnd (getKeyForUser uId tenantId None) (\<lambda>keyData.
           case keyData of
             None \<Rightarrow> ret (reply_error 500 ''Internal server error: Key material missing'')
           | Some km \<Rightarrow>
               bnd (gets now) (\<lambda>t.
               ret (send 200 ([(''operationId'', JStr (rq_correlationId rq)), (''operation_id'', JStr (rq_correlationId rq))]
                      @ context_fields uId km (the keyStatus) t)))))))
        (\<lambda>e. ret (reply500 ''Failed to retrieve encryption context'' e)))"

section \<open>Encrypt and decrypt\<close>

definition post_encrypt :: "vault \<Rightarrow> http_request \<Rightarrow> string \<Rightarrow> user_body \<Rightarrow> ('z lworld_scheme, reply) eff" where
  "post_encrypt V rq plaintext b =
     (let tenantId = tenant_of rq in
      catch
        (bnd (lift (validateEncrypt plaintext b)) (\<lambda>uId.
         bnd (getKeyForUser uId tenantId None) (\<lambda>keyData.
         case keyData of
           None \<Rightarrow> ret (reply_error 404 ''User key not found. Generate key first using POST /key/generate'')
         | Some km \<Rightarrow>
             bnd (decryptDataEncryptionKey (vt_kms V) (vt_client V) (encryptedDek km) (Some tenantId)) (\<lambda>dek.
             bnd (gets now) (\<lambda>t.
             bnd (lift (det_encrypt (vt_gcm V) (vt_sha V) plaintext uId dek t)) (\<lambda>er.
             bnd (audit V (vault_event uId (Some tenantId) ''encryption-audit'' ''ENCRYPTION_PERFORMED'' None
                    [(''operation'', JStr ''ENCRYPT''), (''correlationId'', JStr (rq_correlationId rq)),
                     (''plaintextLength'', JNum (int (length plaintext))), (''timestamp'', JNum t),
                     (''analystEmail'', jopt (rq_analystEmail rq))])) (\<lambda>_.
             ret (send 200 ([(''ciphertext'', JStr (or_else (km_activeDekId km) ''null'' @ '':'' @ er_ciphertext er))]
                    @ user_fields uId @ [(''timestamp'', JNum (er_timestamp er))])))))))))
        (on_error ''Failed to encrypt plaintext''))"

definition post_decrypt :: "vault \<Rightarrow> http_request \<Rightarrow> string \<Rightarrow> user_body \<Rightarrow> ('z lworld_scheme, reply) eff" where
  "post_decrypt V rq rawCiphertext b =
     (let tenantId = tenant_of rq in
      catch
        (bnd (lift (validateDecrypt rawCiphertext b)) (\<lambda>uId.
         let parts = split_on CHR '':'' rawCiphertext;
             keyVersionId = nth_opt parts 0; actualCiphertext = nth_opt parts 1 in
         if \<not> truthy keyVersionId \<or> \<not> truthy actualCiphertext then throw (Err ''Invalid ciphertext format'')
         else
           bnd (getKeyForUser uId tenantId keyVersionId) (\<lambda>keyData.
           case keyData of
             None \<Rightarrow> ret (reply_error 404 ''User key not found or has been shredded'')
           | Some km \<Rightarrow>
               bnd (decryptDataEncryptionKey (vt_kms V) (vt_client V) (encryptedDek km) (Some tenantId)) (\<lambda>dek.
               bnd (gets now) (\<lambda>t.
               bnd (lift (det_decrypt (vt_gcm V) (vt_sha V) (the actualCiphertext) uId dek t)) (\<lambda>dr.
               bnd (audit V (vault_event uId (Some tenantId) ''decryption-audit'' ''DECRYPTION_PERFORMED'' None
                      [(''operation'', JStr ''DECRYPT''), (''correlationId'', JStr (rq_correlationId rq)),
                       (''timestamp'', JNum t), (''analystEmail'', jopt (rq_analystEmail rq))])) (\<lambda>_.
               ret (send 200 ([(''plaintext'', JStr (dr_plaintext dr))] @ user_fields (dr_userId dr)
                      @ [(''timestamp'', JNum (dr_timestamp dr))])))))))))
        (\<lambda>e. ret (case e of
            Invalid errs \<Rightarrow> reply400 errs
          | _ \<Rightarrow> reply_error 400 ''Failed to decrypt. Ciphertext may be invalid or tampered.'')))"

section \<open>Status and rotation\<close>

definition jtime :: "int option \<Rightarrow> json" where
  "jtime t = (case t of None \<Rightarrow> JNull | Some x \<Rightarrow> JNum x)"

definition get_key_status :: "http_request \<Rightarrow> string \<Rightarrow> ('z lworld_scheme, reply) eff" where
  "get_key_status rq rawUserId =
     (let tenantId = tenant_of rq in
      catch
        (bnd (lift (reject_errors (userId_errors rawUserId) rawUserId)) (\<lambda>userId.
         bnd (getKeyStatus userId tenantId) (\<lambda>status.
         case status of
           None \<Rightarrow> ret (reply_error 404 ''Key not found for user'')
         | Some st \<Rightarrow>
             bnd (gets now) (\<lambda>t.
             ret (send 200 (user_fields userId @
               [(''status'', JStr (status_str (ks_status st))),
                (''createdAt'', JNum (ks_created_at st)), (''created_at'', JNum (ks_created_at st)),
                (''shredAt'', jtime (ks_shred_at st)), (''shred_at'', jtime (ks_shred_at st)),
                (''rotatedAt'', jtime (ks_rotated_at st)), (''rotated_at'', jtime (ks_rotated_at st)),
                (''activeDekId'', jopt (or_opt (ks_active_dek_id st) None)),
                (''active_dek_id'', jopt (or_opt (ks_active_dek_id st) None)),
                (''encryptionVersion'', JStr (or_else (ks_encryption_version st) ''v1'')),
                (''encryption_version'', JStr (or_else (ks_encryption_version st) ''v1'')),
                (''timestamp'', JNum t)]))))))
        (\<lambda>e. ret (reply500 ''Failed to retrieve key status'' e)))"

definition post_key_rotate :: "vault \<Rightarrow> http_request \<Rightarrow> user_body \<Rightarrow> ('z lworld_scheme, reply) eff" where
  "post_key_rotate V rq b =
     catch
       (bnd (lift (validateUser b)) (\<lambda>userId.
        let tenantId = tenant_of rq in
        bnd (ensureTenantKey (vt_client V) tenantId) (\<lambda>_.
        bnd (generateAndEncryptDek (vt_kms V) (vt_client V) (Some tenantId)) (\<lambda>newEncryptedDek.
        bnd (rotateKeyForUser userId newEncryptedDek tenantId) (\<lambda>newVersionId.
        bnd (gets now) (\<lambda>t1.
        bnd (audit V (vault_event userId None ''key-rotation-audit'' ''KEY_ROTATED'' None
               [(''operation'', JStr ''KEY_ROTATE''), (''correlationId'', JStr (rq_correlationId rq)),
                (''newVersionId'', JStr newVersionId), (''timestamp'', JNum t1)])) (\<lambda>_.
        bnd (gets now) (\<lambda>t.
        ret (send 200 ([(''status'', JStr ''ROTATED'')] @ user_fields userId @ [(''timestamp'', JNum t)]))))))))))
       (\<lambda>e. ret
          (if message_of e = ''User key not found for rotation'' \<or> message_of e = ''Cannot rotate a shredded key''
           then reply_error 404 ''User key not found or shredded''
           else reply_error 500 ''Failed to rotate key''))"

section \<open>Lemmas\<close>

lemma lineage_free_keys: "lineage_free (\<lambda>s. P (keys s))"
  by (simp add: lineage_free_def kms_free_def timeless_def)

lemma lineage_free_registry: "lineage_free registry_ok"
  unfolding registry_ok_def by (rule lineage_free_keys)

lemma timeless_keys: "timeless (\<lambda>s. P (keys s))"
  by (rule timelessI) simp

lemma keeps_audit [keeps_intros]: "lineage_free P \<Longrightarrow> keeps P (audit V e)"
  unfolding audit_def by (intro keeps_intros)

lemma audit_total: "\<exists>t. audit V e s = (Inr (), t)"
  unfolding audit_def by (rule swallow_total)

lemma catch_ret_total: "\<exists>r t. catch m (\<lambda>e. ret (h e)) s = (Inr r, t)"
  by (cases "m s") (auto simp: catch_apply split: sum.splits)

lemmas registry_frees = lineage_free_registry lineage_free_kms[OF lineage_free_registry] registry_ok_timeless

lemma keeps_on_error [keeps_intros]: "keeps P (on_error m e)"
  unfolding on_error_def by (intro keeps_intros)

section \<open>Validation\<close>

lemma reject_Inr: "reject_errors errs v = Inr w \<longleftrightarrow> errs = [] \<and> w = v"
  by (auto simp: reject_errors_def)

lemma userId_ok: "userId_errors u = [] \<longleftrightarrow> u \<noteq> [] \<and> list_all is_user_char u \<and> length u \<le> 64"
  by (auto simp: userId_errors_def)

lemma user_char_no_colon: "is_user_char c \<Longrightarrow> c \<noteq> CHR '':''"
  by (auto simp: is_user_char_def char_ranges)

lemma validateUser_Inr:
  assumes "validateUser b = Inr u"
  shows "u \<noteq> [] \<and> list_all is_user_char u \<and> length u \<le> 64 \<and> u = body_user b"
  using assms
  by (auto simp: validateUser_def reject_Inr user_errors_def body_user_def opt_errors_def userId_ok
      or_else_def or_opt_def truthy_def split: option.splits if_splits)

lemma valid_user_no_colon: "validateUser b = Inr u \<Longrightarrow> CHR '':'' \<notin> set u"
  using validateUser_Inr[of b u] user_char_no_colon by (auto simp: list_all_iff)

section \<open>The handlers keep the registry well formed and never throw\<close>

lemma keeps_routes:
  "keeps registry_ok (post_key_generate V rq b)"
  "keeps registry_ok (post_batch_generate V rq bb)"
  "keeps registry_ok (post_batch_encryption_context V rq bb)"
  "keeps registry_ok (post_encrypt V rq p b)"
  "keeps registry_ok (post_decrypt V rq ct b)"
  "keeps registry_ok (get_key_status rq u)"
  "keeps registry_ok (get_encryption_context rq b)"
  "keeps registry_ok (post_key_rotate V rq b)"
  unfolding post_key_generate_def post_batch_generate_def batch_generate_one_def
    post_batch_encryption_context_def batch_context_one_def post_encrypt_def post_decrypt_def
    get_key_status_def get_encryption_context_def post_key_rotate_def Let_def
  by (intro keeps_intros registry_frees)+

lemma post_decrypt_total: "\<exists>r t. post_decrypt V rq ct b s = (Inr r, t)"
  unfolding post_decrypt_def Let_def by (rule catch_ret_total)

text \<open>
  No handler of the crypto routes ever throws: for every request and every pattern of remote
  failures the caller gets a reply.
\<close>

theorem crypto_routes_reply:
  "(\<exists>r t. post_key_generate V rq b s = (Inr r, t)) \<and> (\<exists>r t. post_batch_generate V rq bb s = (Inr r, t)) \<and>
   (\<exists>r t. post_batch_encryption_context V rq bb s = (Inr r, t)) \<and> (\<exists>r t. post_encrypt V rq p b s = (Inr r, t)) \<and>
   (\<exists>r t. post_decrypt V rq ct b s = (Inr r, t)) \<and> (\<exists>r t. get_key_status rq u s = (Inr r, t)) \<and>
   (\<exists>r t. get_encryption_context rq b s = (Inr r, t)) \<and> (\<exists>r t. post_key_rotate V rq b s = (Inr r, t))"
  unfolding post_key_generate_def post_batch_generate_def post_batch_encryption_context_def post_encrypt_def
    post_decrypt_def get_key_status_def get_encryption_context_def post_key_rotate_def on_error_def Let_def
  by (intro conjI catch_ret_total)

section \<open>Inversion of the encrypt and decrypt handlers\<close>

lemma catch_ret_Inr:
  assumes "catch m (\<lambda>e. ret (h e)) s = (Inr r, t)" and "\<And>e. h e \<noteq> r"
  shows "m s = (Inr r, t)"
  using assms by (auto simp: catch_apply split: prod.splits sum.splits)

lemma code_replies [simp]:
  "code (reply400 errs) = 400" "code (reply500 m e) = 500" "code (reply_error c m) = c"
  by (simp_all add: reply400_def reply500_def reply_error_def)

lemma keeps_keys_encrypt: "keeps (\<lambda>s. P (keys s)) (post_encrypt V rq p b)"
  unfolding post_encrypt_def Let_def
  by (intro keeps_intros timeless_keys lineage_free_keys lineage_free_kms[OF lineage_free_keys])

lemma keeps_keys_decrypt: "keeps (\<lambda>s. P (keys s)) (post_decrypt V rq ct b)"
  unfolding post_decrypt_def Let_def
  by (intro keeps_intros timeless_keys lineage_free_keys lineage_free_kms[OF lineage_free_keys])

lemma getKey_read:
  "getKeyForUser u t v s = (Inr m, s1) \<Longrightarrow> read_material (keys s (getDocId t u)) v = m \<and> keys s1 = keys s"
  using getKeyForUser_Inr by metis

lemma post_encrypt_200:
  assumes "post_encrypt V rq p b s = (Inr r, s1)" and "code r = 200"
  obtains u km dek t er where "validateEncrypt p b = Inr u"
    and "read_material (keys s (getDocId (tenant_of rq) u)) None = Some km"
    and "kms_decrypt (vt_kms V) (getKeyPath (vt_client V) (Some (tenant_of rq))) (encryptedDek km) = Inr (Some dek)"
    and "det_encrypt (vt_gcm V) (vt_sha V) p u dek t = Inr er"
    and "field ''ciphertext'' r = Some (JStr (or_else (km_activeDekId km) ''null'' @ '':'' @ er_ciphertext er))"
proof -
  have "(case e of Invalid errs \<Rightarrow> reply400 errs | _ \<Rightarrow> reply500 m e) \<noteq> r" for e m
    using assms(2) by (cases e) auto
  from catch_ret_Inr[OF assms(1)[unfolded post_encrypt_def Let_def on_error_def] this] assms(2)
  show thesis
    apply (elim bnd_InrE)
    apply (clarsimp split: option.splits simp: lift_def)
    apply (elim bnd_InrE)
    apply (clarsimp dest!: getKey_read decryptDek_Inr)
    apply (rule that, assumption+)
    apply simp
    done
qed

lemma post_decrypt_200:
  assumes "post_decrypt V rq ct b s = (Inr r, s1)" and "code r = 200"
  obtains u v c km dek t dr where "validateDecrypt ct b = Inr u"
    and "nth_opt (split_on CHR '':'' ct) 0 = Some v" and "nth_opt (split_on CHR '':'' ct) (Suc 0) = Some c"
    and "read_material (keys s (getDocId (tenant_of rq) u)) (Some v) = Some km"
    and "kms_decrypt (vt_kms V) (getKeyPath (vt_client V) (Some (tenant_of rq))) (encryptedDek km) = Inr (Some dek)"
    and "det_decrypt (vt_gcm V) (vt_sha V) c u dek t = Inr dr"
    and "field ''plaintext'' r = Some (JStr (dr_plaintext dr))"
proof -
  have "(case e of Invalid errs \<Rightarrow> reply400 errs
      | _ \<Rightarrow> reply_error 400 ''Failed to decrypt. Ciphertext may be invalid or tampered.'') \<noteq> r" for e
    using assms(2) by (cases e) auto
  from catch_ret_Inr[OF assms(1)[unfolded post_decrypt_def Let_def] this] assms(2)
  show thesis
    apply (elim bnd_InrE)
    apply (clarsimp split: option.splits if_splits simp: lift_def truthy_def)
    apply (elim bnd_InrE)
    apply (clarsimp split: option.splits simp: lift_def)
    apply (elim bnd_InrE)
    apply (clarsimp dest!: getKey_read decryptDek_Inr)
    apply (rule that, assumption+)
    apply simp
    done
qed

section \<open>Round trip through the handlers\<close>

lemma digit_char: "d < 10 \<Longrightarrow> is_digit (char_of (48 + d :: nat))"
  by (simp add: char_ranges of_char_of)

lemma nat_str_digits: "list_all is_digit (nat_str n)"
proof (induction n rule: nat_str.induct)
  case (1 n)
  then show ?case
    using digit_char[of n] digit_char[of "n mod 10"] by (cases "n < 10") (simp_all add: nat_str.simps[of n])
qed

lemma b64_digit_char: "is_b64_char (b64_digit d)"
  by (auto simp: is_b64_char_def b64_digit_def char_ranges of_char_of)

lemma b64_encode_chars: "list_all is_b64_char (b64_encode bs)"
proof -
  have "is_b64_char (CHR ''='')" by (simp add: is_b64_char_def)
  then show ?thesis by (induction bs rule: b64_encode.induct) (simp_all add: b64_digit_char)
qed

lemma version_no_colon: "CHR '':'' \<notin> set (version_id n)"
proof -
  have "\<not> is_digit (CHR '':'')" by (simp add: char_ranges)
  then have "CHR '':'' \<notin> set (nat_str n)" using nat_str_digits[of n] by (auto simp: list_all_iff)
  then show ?thesis by (simp add: version_id_def)
qed

lemma split_bundle: "split_on CHR '':'' (version_id n @ CHR '':'' # b64_encode bs) = [version_id n, b64_encode bs]"
  by (simp add: split_on_append version_no_colon split_on_no_sep)

lemma ciphertext_ok: "bs \<noteq> [] \<Longrightarrow> ciphertext_errors (version_id n @ CHR '':'' # b64_encode bs) = []"
  unfolding ciphertext_errors_def split_bundle
  by (simp add: version_id_def nat_str_digits b64_encode_chars)

text \<open>The default material of a well-formed document is the material of its active version.\<close>

lemma active_material:
  assumes "registry_ok s" and "read_material (keys s i) None = Some km"
  obtains n where "km_activeDekId km = Some (version_id n)" and "read_material (keys s i) (Some (version_id n)) = Some km"
proof -
  from assms(2) obtain d where d: "keys s i = Some d" by (cases "keys s i") (auto simp: read_material_def)
  have "doc_ok d" by (rule registry_okD[OF assms(1) d])
  with assms(2) d have a: "kd_activeDekId d = Some (version_id (length (kd_deks d)))"
    by (auto simp: read_material_def doc_ok_def split: key_status.splits if_splits)
  with assms(2) d show thesis
    by (intro that[of "length (kd_deks d)"])
      (auto simp: read_material_def Let_def or_opt_def truthy_def version_id_def split: if_splits option.splits)
qed

text \<open>What a successful encryption says about the ciphertext, in one place.\<close>

lemma post_encrypt_bundle:
  assumes "registry_ok s" and "post_encrypt V rq p b s = (Inr r, s1)" and "code r = 200"
    and "field ''ciphertext'' r = Some (JStr ct)"
  obtains u n km dek t er where "validateEncrypt p b = Inr u"
    and "read_material (keys s (getDocId (tenant_of rq) u)) (Some (version_id n)) = Some km"
    and "kms_decrypt (vt_kms V) (getKeyPath (vt_client V) (Some (tenant_of rq))) (encryptedDek km) = Inr (Some dek)"
    and "det_encrypt (vt_gcm V) (vt_sha V) p u dek t = Inr er"
    and "ct = version_id n @ CHR '':'' # er_ciphertext er"
proof -
  obtain u km dek t er where v: "validateEncrypt p b = Inr u"
    and m: "read_material (keys s (getDocId (tenant_of rq) u)) None = Some km"
    and k: "kms_decrypt (vt_kms V) (getKeyPath (vt_client V) (Some (tenant_of rq))) (encryptedDek km) = Inr (Some dek)"
    and e: "det_encrypt (vt_gcm V) (vt_sha V) p u dek t = Inr er"
    and f: "field ''ciphertext'' r = Some (JStr (or_else (km_activeDekId km) ''null'' @ '':'' @ er_ciphertext er))"
    by (rule post_encrypt_200[OF assms(2,3)])
  obtain n where n: "km_activeDekId km = Some (version_id n)"
    "read_material (keys s (getDocId (tenant_of rq) u)) (Some (version_id n)) = Some km"
    by (rule active_material[OF assms(1) m])
  have "ct = version_id n @ CHR '':'' # er_ciphertext er"
    using f assms(4) n(1) by (simp add: or_else_def version_id_def)
  with that[OF v n(2) k e] show thesis .
qed

lemma det_encrypt_shape:
  assumes "gcm_ok G" and "det_encrypt G sha p u k t = Inr er"
  obtains bs where "er_ciphertext er = b64_encode bs" and "bs \<noteq> []"
proof -
  obtain c a where s: "gcm_seal G k (generateDeterministicIV sha u) (utf8 u) (utf8 p) = (c, a)" by fastforce
  have "a \<noteq> []" using gcm_ok_tag[OF assms(1) s] by (auto simp: AUTH_TAG_SIZE_def)
  with assms(2) s show thesis by (intro that[of "c @ a"]) (auto simp: det_encrypt_def Let_def split: if_splits)
qed

lemma validate_both:
  assumes "validateEncrypt p b = Inr u" and "ciphertext_errors ct = []"
  shows "validateDecrypt ct b = Inr u"
  using assms by (simp add: validateEncrypt_def validateDecrypt_def reject_Inr)

text \<open>A decryption whose remote calls all succeed, evaluated.\<close>

lemma post_decrypt_runs:
  assumes v: "validateDecrypt ct b = Inr u"
    and sp: "split_on CHR '':'' ct = [vn, c]" and ne: "vn \<noteq> []" "c \<noteq> []"
    and m: "read_material (keys s (getDocId (tenant_of rq) u)) (Some vn) = Some km"
    and k: "kms_decrypt (vt_kms V) (getKeyPath (vt_client V) (Some (tenant_of rq))) (encryptedDek km) = Inr (Some dek)"
    and p: "getKeyPath (vt_client V) (Some (tenant_of rq)) \<in> set (kms_keys s)"
    and d: "det_decrypt (vt_gcm V) (vt_sha V) c u dek (now s) = Inr dr"
    and o: "outcomes s = []"
  shows "\<exists>t. post_decrypt V rq ct b s =
    (Inr (send 200 ([(''plaintext'', JStr (dr_plaintext dr))] @ user_fields (dr_userId dr)
        @ [(''timestamp'', JNum (dr_timestamp dr))])), t)"
proof -
  let ?e = "vault_event u (Some (tenant_of rq)) ''decryption-audit'' ''DECRYPTION_PERFORMED'' None
              [(''operation'', JStr ''DECRYPT''), (''correlationId'', JStr (rq_correlationId rq)),
               (''timestamp'', JNum (now s)), (''analystEmail'', jopt (rq_analystEmail rq))]"
  obtain t where a: "audit V ?e s = (Inr (), t)" using audit_total by blast
  have g: "getKeyForUser u (tenant_of rq) (Some vn) s = (Inr (Some km), s)"
    using m o by (simp add: getKeyForUser_def no_faults bnd_apply)
  have q: "decryptDataEncryptionKey (vt_kms V) (vt_client V) (encryptedDek km) (Some (tenant_of rq)) s = (Inr dek, s)"
    using k p o by (simp add: decryptDataEncryptionKey_def no_faults bnd_apply)
  show ?thesis
    using a by (simp add: post_decrypt_def Let_def catch_apply bnd_apply v sp nth_opt_def truthy_def ne g q d)
qed

text \<open>
  C32. What POST /encrypt returns, POST /decrypt gives back: if an encryption of a plaintext
  succeeded in a well-formed registry and the user's key document is unchanged at the time of
  the decryption, then a successful decryption of the returned ciphertext yields exactly that
  plaintext, and with no remote failure and the tenant's key present the decryption does succeed.
\<close>

theorem encrypt_decrypt_roundtrip:
  assumes G: "gcm_ok (vt_gcm V)" and ok: "registry_ok s"
    and enc: "post_encrypt V rq p b s = (Inr r, s1)" "code r = 200" "field ''ciphertext'' r = Some (JStr ct)"
    and same: "keys s2 (getDocId (tenant_of rq) (body_user b)) = keys s (getDocId (tenant_of rq) (body_user b))"
    and dec: "post_decrypt V rq ct b s2 = (Inr r', s3)"
  shows "(code r' = 200 \<longrightarrow> field ''plaintext'' r' = Some (JStr p)) \<and>
    (outcomes s2 = [] \<and> getKeyPath (vt_client V) (Some (tenant_of rq)) \<in> set (kms_keys s2) \<longrightarrow> code r' = 200)"
proof -
  let ?path = "getKeyPath (vt_client V) (Some (tenant_of rq))"
  obtain u n km dek t er where v: "validateEncrypt p b = Inr u"
    and m: "read_material (keys s (getDocId (tenant_of rq) u)) (Some (version_id n)) = Some km"
    and k: "kms_decrypt (vt_kms V) ?path (encryptedDek km) = Inr (Some dek)"
    and e: "det_encrypt (vt_gcm V) (vt_sha V) p u dek t = Inr er"
    and ct: "ct = version_id n @ CHR '':'' # er_ciphertext er"
    by (rule post_encrypt_bundle[OF ok enc])
  obtain bs where bs: "er_ciphertext er = b64_encode bs" "bs \<noteq> []" by (rule det_encrypt_shape[OF G e])
  have u: "u = body_user b" using v by (simp add: validateEncrypt_def reject_Inr)
  have vd: "validateDecrypt ct b = Inr u"
    using validate_both[OF v] ciphertext_ok[OF bs(2)] by (simp add: ct bs)
  have sp: "split_on CHR '':'' ct = [version_id n, er_ciphertext er]" by (simp only: ct bs split_bundle)
  have m2: "read_material (keys s2 (getDocId (tenant_of rq) u)) (Some (version_id n)) = Some km"
    using m same u by simp
  have d: "det_decrypt (vt_gcm V) (vt_sha V) (er_ciphertext er) u dek w = Inr \<lparr>dr_plaintext = p, dr_userId = u, dr_timestamp = w\<rparr>" for w
    by (rule det_decrypt_encrypt[OF G e])
  have pt: "nth_opt (split_on CHR '':'' ct) 0 = Some (version_id n)"
    "nth_opt (split_on CHR '':'' ct) (Suc 0) = Some (er_ciphertext er)"
    unfolding sp by (simp_all add: nth_opt_def)
  have "field ''plaintext'' r' = Some (JStr p)" if 200: "code r' = 200"
  proof (rule post_decrypt_200[OF dec 200])
    fix u' v' c' km' dek' t' dr
    assume a: "validateDecrypt ct b = Inr u'" "nth_opt (split_on CHR '':'' ct) 0 = Some v'"
      "nth_opt (split_on CHR '':'' ct) (Suc 0) = Some c'"
      "read_material (keys s2 (getDocId (tenant_of rq) u')) (Some v') = Some km'"
      "kms_decrypt (vt_kms V) ?path (encryptedDek km') = Inr (Some dek')"
      "det_decrypt (vt_gcm V) (vt_sha V) c' u' dek' t' = Inr dr"
      "field ''plaintext'' r' = Some (JStr (dr_plaintext dr))"
    have "u' = u" "v' = version_id n" "c' = er_ciphertext er" using a(1-3) vd pt by simp_all
    moreover from this have "km' = km" using a(4) m2 by simp
    moreover from this have "dek' = dek" using a(5) k by simp
    ultimately have "Inr \<lparr>dr_plaintext = p, dr_userId = u, dr_timestamp = t'\<rparr> = (Inr dr :: exn + DecryptionResult)"
      using a(6) d[of t'] by (simp only:)
    then have "dr_plaintext dr = p" by auto
    with a(7) show ?thesis by simp
  qed
  moreover have "code r' = 200" if "outcomes s2 = []" "?path \<in> set (kms_keys s2)"
  proof -
    have "version_id n \<noteq> []" "er_ciphertext er \<noteq> []" using bs by (simp_all add: version_id_def)
    from post_decrypt_runs[OF vd sp this m2 k that(2) d that(1)] dec show ?thesis by auto
  qed
  ultimately show ?thesis by blast
qed

text \<open>An encryption whose remote calls all succeed, evaluated.\<close>

lemma post_encrypt_runs:
  assumes v: "validateEncrypt p b = Inr u"
    and m: "read_material (keys s (getDocId (tenant_of rq) u)) None = Some km"
    and k: "kms_decrypt (vt_kms V) (getKeyPath (vt_client V) (Some (tenant_of rq))) (encryptedDek km) = Inr (Some dek)"
    and p: "getKeyPath (vt_client V) (Some (tenant_of rq)) \<in> set (kms_keys s)"
    and d: "det_encrypt (vt_gcm V) (vt_sha V) p u dek (now s) = Inr er"
    and o: "outcomes s = []"
  shows "\<exists>t. post_encrypt V rq p b s =
    (Inr (send 200 ([(''ciphertext'', JStr (or_else (km_activeDekId km) ''null'' @ '':'' @ er_ciphertext er))]
                    @ user_fields u @ [(''timestamp'', JNum (er_timestamp er))])), t)"
proof -
  let ?e = "vault_event u (Some (tenant_of rq)) ''encryption-audit'' ''ENCRYPTION_PERFORMED'' None
                    [(''operation'', JStr ''ENCRYPT''), (''correlationId'', JStr (rq_correlationId rq)),
                     (''plaintextLength'', JNum (int (length p))), (''timestamp'', JNum (now s)),
                     (''analystEmail'', jopt (rq_analystEmail rq))]"
  obtain t where a: "audit V ?e s = (Inr (), t)" using audit_total by blast
  have g: "getKeyForUser u (tenant_of rq) None s = (Inr (Some km), s)"
    using m o by (simp add: getKeyForUser_def no_faults bnd_apply)
  have q: "decryptDataEncryptionKey (vt_kms V) (vt_client V) (encryptedDek km) (Some (tenant_of rq)) s = (Inr dek, s)"
    using k p o by (simp add: decryptDataEncryptionKey_def no_faults bnd_apply)
  show ?thesis
    using a by (simp add: post_encrypt_def Let_def catch_apply bnd_apply v g q d)
qed

section \<open>A concrete vault\<close>

definition toy_client :: kms_client where
  "toy_client = \<lparr>projectId = ''p'', region = ''r'', keyRing = ''ring'', keyName = ''k''\<rparr>"

definition toy_kms :: kms_service where
  "toy_kms = \<lparr>kms_encrypt = (\<lambda>p n d. Some (1 # d)),
     kms_decrypt = (\<lambda>p c. Inr (Some (tl c))),
     kms_random = (\<lambda>i n. replicate n (of_nat i)),
     kms_sign = (\<lambda>p d. Some d), kms_pem = (\<lambda>p. Some ''pem'')\<rparr>"

definition toy_vault :: vault where
  "toy_vault = \<lparr>vt_gcm = clear_gcm, vt_sha = (\<lambda>b. take 32 (b @ replicate 32 0)), vt_kms = toy_kms, vt_client = toy_client,
     vt_lineage = \<lparr>topicId = ''topic'', avroLoaded = True, ulid = nat_str\<rparr>\<rparr>"

lemma toy_kms_ok: "kms_ok toy_kms"
  by (simp add: kms_ok_def toy_kms_def)

definition toy_rq :: http_request where
  "toy_rq = \<lparr>rq_tenant = Some ''t'', rq_correlationId = ''c'', rq_analystEmail = None\<rparr>"

definition toy_world :: lworld where
  "toy_world = \<lparr>now = 5000, outcomes = [],
     keys = [getDocId ''t'' ''u'' \<mapsto> new_key_doc ''u'' (1 # replicate 32 9) 1000],
     kms_keys = [getKeyPath toy_client (Some ''t'')], draws = 0,
     published = [], logged = [], bq_events = [], ghost_rows = (\<lambda>_ _. []), discovery_rows = (\<lambda>_. [])\<rparr>"

definition toy_body :: user_body where
  "toy_body = \<lparr>ub_userId = Some ''u'', ub_user_id = None\<rparr>"

lemma toy_registry_ok: "registry_ok toy_world"
  by (simp add: registry_ok_def toy_world_def doc_ok_new)

lemma toy_valid: "validateUser toy_body = Inr ''u''"
  by (simp add: validateUser_def reject_errors_def user_errors_def toy_body_def opt_errors_def userId_errors_def
      is_user_char_def char_ranges body_user_def or_else_def or_opt_def truthy_def)

lemma encrypt_decrypt_roundtrip_witness:
  "\<exists>r ct r'. fst (post_encrypt toy_vault toy_rq ''hello'' toy_body toy_world) = Inr r \<and>
     field ''ciphertext'' r = Some (JStr ct) \<and>
     fst (post_decrypt toy_vault toy_rq ct toy_body toy_world) = Inr r' \<and> field ''plaintext'' r' = Some (JStr ''hello'')"
proof -
  let ?dek = "replicate 32 9 :: bytes"
  let ?km = "\<lparr>encryptedDek = 1 # ?dek, km_activeDekId = Some ''v1'', km_encryptionVersion = ''v2''\<rparr>"
  have v: "validateEncrypt ''hello'' toy_body = Inr ''u''"
    using toy_valid by (simp add: validateEncrypt_def validateUser_def reject_Inr plaintext_errors_def)
  have tn: "tenant_of toy_rq = ''t''" by (simp add: tenant_of_def toy_rq_def or_else_def)
  have m: "read_material (keys toy_world (getDocId (tenant_of toy_rq) ''u'')) None = Some ?km"
    by (simp add: tn toy_world_def read_material_new)
  have k: "kms_decrypt (vt_kms toy_vault) (getKeyPath (vt_client toy_vault) (Some (tenant_of toy_rq))) (encryptedDek ?km) = Inr (Some ?dek)"
    by (simp add: toy_vault_def toy_kms_def)
  have p: "getKeyPath (vt_client toy_vault) (Some (tenant_of toy_rq)) \<in> set (kms_keys toy_world)"
    by (simp add: tn toy_world_def toy_vault_def)
  obtain er where e: "det_encrypt (vt_gcm toy_vault) (vt_sha toy_vault) ''hello'' ''u'' ?dek (now toy_world) = Inr er"
    using det_encrypt_total[of ?dek "vt_gcm toy_vault" "vt_sha toy_vault" "''hello''" "''u''" "now toy_world"]
    by (auto simp: KEY_SIZE_def)
  have o: "outcomes toy_world = []" by (simp add: toy_world_def)
  obtain r s1 where enc: "post_encrypt toy_vault toy_rq ''hello'' toy_body toy_world = (Inr r, s1)" "code r = 200"
      "field ''ciphertext'' r = Some (JStr (''v1:'' @ er_ciphertext er))"
    using post_encrypt_runs[OF v m k p e o] by (fastforce simp: or_else_def)
  obtain r' s3 where dec: "post_decrypt toy_vault toy_rq (''v1:'' @ er_ciphertext er) toy_body toy_world = (Inr r', s3)"
    using post_decrypt_total by blast
  have "gcm_ok (vt_gcm toy_vault)" by (simp add: toy_vault_def clear_gcm_ok)
  from encrypt_decrypt_roundtrip[OF this toy_registry_ok enc refl dec] o p
  have "field ''plaintext'' r' = Some (JStr ''hello'')" by blast
  with enc dec show ?thesis by simp
qed

section \<open>After a shred\<close>

lemma no_material_no_context:
  assumes "get_encryption_context rq b s = (Inr r, s1)" and "code r = 200"
  obtains u km where "validateUser b = Inr u" and "read_material (keys s (getDocId (tenant_of rq) u)) None = Some km"
proof -
  have "reply500 ''Failed to retrieve encryption context'' e \<noteq> r" for e
    using assms(2) by auto
  from catch_ret_Inr[OF assms(1)[unfolded get_encryption_context_def Let_def] this] assms(2)
  show thesis
    apply (elim bnd_InrE)
    apply (clarsimp split: option.splits if_splits simp: lift_def)
    apply (elim bnd_InrE)
    apply (clarsimp split: option.splits simp: lift_def dest!: getKeyStatus_Inr getKey_read)
    apply (rule that, assumption, simp)
    done
qed

text \<open>
  A shredded user cannot be served: while the user's document is shredded, no request of that
  user to encrypt, to decrypt any ciphertext whatever, or to hand out an encryption context is
  answered with status 200, under any pattern of remote failures.
\<close>

theorem shredded_user_refused:
  assumes sh: "keys s (getDocId (tenant_of rq) (body_user b)) = Some d" "kd_status d = SHREDDED"
  shows "(fst (post_encrypt V rq p b s) = Inr r \<longrightarrow> code r \<noteq> 200) \<and>
    (fst (post_decrypt V rq ct b s) = Inr r \<longrightarrow> code r \<noteq> 200) \<and>
    (fst (get_encryption_context rq b s) = Inr r \<longrightarrow> code r \<noteq> 200)"
proof -
  have none: "read_material (keys s (getDocId (tenant_of rq) (body_user b))) v = None" for v
    using sh by (simp add: read_material_def)
  have e: False if "post_encrypt V rq p b s = (Inr r, t)" "code r = 200" for t
    by (rule post_encrypt_200[OF that]) (use none in \<open>auto simp: validateEncrypt_def reject_Inr\<close>)
  have d: False if "post_decrypt V rq ct b s = (Inr r, t)" "code r = 200" for t
    by (rule post_decrypt_200[OF that]) (use none in \<open>auto simp: validateDecrypt_def reject_Inr\<close>)
  have c: False if "get_encryption_context rq b s = (Inr r, t)" "code r = 200" for t
    by (rule no_material_no_context[OF that]) (use none in \<open>auto simp: validateUser_def reject_Inr\<close>)
  show ?thesis
    using e[of "snd (post_encrypt V rq p b s)"] d[of "snd (post_decrypt V rq ct b s)"]
      c[of "snd (get_encryption_context rq b s)"]
    by (metis prod.collapse)
qed

definition shredded_world :: lworld where
  "shredded_world = toy_world\<lparr>keys := [getDocId ''t'' ''u'' \<mapsto> shred_doc None 3000 None]\<rparr>"

lemma shredded_user_refused_witness:
  "\<exists>r. fst (post_decrypt toy_vault toy_rq ''v1:AAAA'' toy_body shredded_world) = Inr r \<and> code r \<noteq> 200"
proof -
  obtain r t where r: "post_decrypt toy_vault toy_rq ''v1:AAAA'' toy_body shredded_world = (Inr r, t)"
    using post_decrypt_total by blast
  have "keys shredded_world (getDocId (tenant_of toy_rq) (body_user toy_body)) = Some (shred_doc None 3000 None)"
    using toy_valid validateUser_Inr[of toy_body "''u''"]
    by (simp add: shredded_world_def tenant_of_def toy_rq_def or_else_def)
  moreover have "kd_status (shred_doc None 3000 None) = SHREDDED" by (simp add: shred_doc_def Let_def)
  ultimately show ?thesis
    using shredded_user_refused[of shredded_world toy_rq toy_body "shred_doc None 3000 None" toy_vault "''x''" r "''v1:AAAA''"] r
    by simp
qed

section \<open>Key generation\<close>

lemma post_key_generate_code:
  fixes s s1 :: "'a lworld_scheme"
  assumes "post_key_generate V rq b s = (Inr r, s1)" and "code r = 200 \<or> code r = 201"
  shows "\<exists>u. validateUser b = Inr u \<and>
    (let i = getDocId (tenant_of rq) u in
     (code r = 200 \<and> read_material (keys s i) None \<noteq> None \<and> keys s1 = keys s) \<or>
     (code r = 201 \<and> read_material (keys s i) None = None \<and>
        (\<exists>dek t (w :: 'a lworld_scheme) w'. generateAndEncryptDek (vt_kms V) (vt_client V) (Some (tenant_of rq)) w = (Inr dek, w') \<and>
           keys s1 = (keys s)(i \<mapsto> new_key_doc u dek t))))"
proof -
  have "(case e of Invalid errs \<Rightarrow> reply400 errs | _ \<Rightarrow> reply500 m e) \<noteq> r" for e m
    using assms(2) by (cases e) auto
  note body = catch_ret_Inr[OF assms(1)[unfolded post_key_generate_def Let_def on_error_def] this]
  have fr: "keys w' = keys w" if "generateAndEncryptDek K c t w = (x, w')" for K c t w x and w' :: "'a lworld_scheme"
    using keepsE[OF keeps_generateDek[OF lineage_free_kms[OF lineage_free_keys[of "\<lambda>k. k = keys w"]]] refl that] by simp
  have fe: "keys w' = keys w" if "ensureTenantKey c t w = (x, w')" for c t w x and w' :: "'a lworld_scheme"
    using keepsE[OF keeps_ensureTenantKey[OF lineage_free_kms[OF lineage_free_keys[of "\<lambda>k. k = keys w"]]] refl that] by simp
  have fa: "keys w' = keys w" if "audit V e w = (x, w')" for e w x and w' :: "'a lworld_scheme"
    using keepsE[OF keeps_audit[OF lineage_free_keys[of "\<lambda>k. k = keys w"]] refl that] by simp
  show ?thesis using body assms(2)
    apply (elim bnd_InrE)
    apply (clarsimp split: if_splits simp: lift_def Let_def dest!: getKey_read)
    apply (elim bnd_InrE)
    apply (clarsimp dest!: setKeyForUser_Inr fa)
    apply (frule fr, drule fe)
    apply simp
    apply blast
    done
qed

text \<open>
  POST /key/generate never destroys a usable key: status 200 means the user had one and the
  registry is unchanged; status 201 means there was none to read, and the user now has version v1,
  whose wrapped key the tenant's KMS key unwraps to 32 bytes. (There is none to read also when the
  old key was shredded: then the shredded document is replaced by an active one.)
\<close>

theorem key_generate_spec:
  fixes s s1 :: "'a lworld_scheme"
  assumes K: "kms_ok (vt_kms V)" and gen: "post_key_generate V rq b s = (Inr r, s1)" "code r = 200 \<or> code r = 201"
  shows "code r = 200 \<and> keys s1 = keys s \<and>
        read_material (keys s (getDocId (tenant_of rq) (body_user b))) None \<noteq> None \<or>
     code r = 201 \<and> read_material (keys s (getDocId (tenant_of rq) (body_user b))) None = None \<and>
        (\<exists>km d. read_material (keys s1 (getDocId (tenant_of rq) (body_user b))) None = Some km \<and>
           km_activeDekId km = Some ''v1'' \<and> length d = KEY_SIZE \<and>
           kms_decrypt (vt_kms V) (getKeyPath (vt_client V) (Some (tenant_of rq))) (encryptedDek km) = Inr (Some d))"
proof -
  from post_key_generate_code[OF gen] obtain u where u: "validateUser b = Inr u"
    and c: "(code r = 200 \<and> read_material (keys s (getDocId (tenant_of rq) u)) None \<noteq> None \<and> keys s1 = keys s) \<or>
     (code r = 201 \<and> read_material (keys s (getDocId (tenant_of rq) u)) None = None \<and>
        (\<exists>dek t (w :: 'a lworld_scheme) w'. generateAndEncryptDek (vt_kms V) (vt_client V) (Some (tenant_of rq)) w = (Inr dek, w') \<and>
           keys s1 = (keys s)(getDocId (tenant_of rq) u \<mapsto> new_key_doc u dek t)))"
    by (auto simp: Let_def)
  have new: "\<exists>km. read_material (Some (new_key_doc x dek t)) None = Some km \<and> km_activeDekId km = Some ''v1'' \<and>
      (\<exists>d. length d = KEY_SIZE \<and>
         kms_decrypt (vt_kms V) (getKeyPath (vt_client V) (Some (tenant_of rq))) (encryptedDek km) = Inr (Some d))"
    if "generateAndEncryptDek (vt_kms V) (vt_client V) (Some (tenant_of rq)) w = (Inr dek, w')"
    for x dek t and w w' :: "'a lworld_scheme"
    using generateDek_Inr[OF K that] by (auto simp: read_material_new)
  have "u = body_user b" using u by (simp add: validateUser_def reject_Inr)
  with c show ?thesis
    using new by auto
qed

lemma key_generate_spec_witness:
  "\<exists>r s1. post_key_generate toy_vault toy_rq toy_body shredded_world = (Inr r, s1) \<and> code r = 201 \<and>
     read_material (keys s1 (getDocId ''t'' ''u'')) None \<noteq> None"
proof -
  have tn: "tenant_of toy_rq = ''t''" by (simp add: tenant_of_def toy_rq_def or_else_def)
  have bu: "body_user toy_body = ''u''" using validateUser_Inr[OF toy_valid] by simp
  have "\<exists>r s1. post_key_generate toy_vault toy_rq toy_body shredded_world = (Inr r, s1) \<and> code r = 201"
    by (simp add: post_key_generate_def Let_def catch_apply bnd_apply toy_valid getKeyForUser_def no_faults
        shredded_world_def toy_world_def tn ensureTenantKey_def key_exists_def generateAndEncryptDek_def
        encryptDataEncryptionKey_def toy_vault_def toy_kms_def setKeyForUser_def audit_def swallow_apply)
  then obtain r s1 where r: "post_key_generate toy_vault toy_rq toy_body shredded_world = (Inr r, s1)" "code r = 201"
    by blast
  have "kms_ok (vt_kms toy_vault)" by (simp add: toy_vault_def toy_kms_ok)
  from key_generate_spec[OF this r(1)] r show ?thesis by (auto simp: tn bu)
qed

end
