(* ===== verification/Connectors.thy ===== *)
theory Connectors
  imports CryptoRoutes
begin

text \<open>
  The SaaS connectors: \<open>src/services/connectors/hubspot-connector.ts\<close>,
  \<open>salesforce-connector.ts\<close>, \<open>types.ts\<close> and the registry \<open>src/services/registry.ts\<close>. The two services
  are tables of contacts (record id, user id) in the world. An HTTP call takes the next entry of
  \<open>http_faults\<close>: none means success, a fault carries the status (if there was a response), the
  messages, and whether the server acted before failing. The locale \<open>wipe_connector\<close> is the
  contract \<open>IWipeConnector\<close> that the janitor relies on; both connectors are interpretations.
\<close>

record http_fault =
  hf_status :: "nat option"
  hf_message :: string
  hf_data :: "string option"
  hf_applied :: bool

record failed_wipe =
  fw_userId :: string
  fw_destination :: string
  fw_error :: string
  fw_timestamp :: int

record jworld = lworld +
  hubspot_contacts :: "(string \<times> string) list"
  salesforce_contacts :: "(string \<times> string) list"
  http_faults :: "http_fault option list"
  dlq :: "failed_wipe list"

record WipeResult =
  w_success :: bool
  w_destination :: string
  w_error :: "string option"
  w_retryable :: "bool option"
  w_recordsFound :: "nat option"

section \<open>HTTP\<close>

definition http :: "('z jworld_scheme \<Rightarrow> exn + 'a) \<Rightarrow> ('z jworld_scheme \<Rightarrow> 'z jworld_scheme) \<Rightarrow> ('z jworld_scheme, 'a) eff" where
  "http answer act s =
     (case http_faults s of
        [] \<Rightarrow> (case answer s of Inl e \<Rightarrow> (Inl e, s) | Inr a \<Rightarrow> (Inr a, act s))
      | None # fs \<Rightarrow> (let t = s\<lparr>http_faults := fs\<rparr> in
                     case answer t of Inl e \<Rightarrow> (Inl e, t) | Inr a \<Rightarrow> (Inr a, act t))
      | Some f # fs \<Rightarrow> (let t = s\<lparr>http_faults := fs\<rparr> in
                     (Inl (HttpErr (hf_status f) (hf_message f) (hf_data f)), if hf_applied f then act t else t)))"

section \<open>HubSpot\<close>

text \<open>The search endpoint answers one page; the page size is the service's default.\<close>

record hubspot_config =
  hs_apiToken :: "string option"
  hs_env_key :: "string option"
  hs_page :: nat

definition hs_search :: "nat \<Rightarrow> string \<Rightarrow> ('z jworld_scheme, string list) eff" where
  "hs_search page userId =
     http (\<lambda>s. Inr (take page (map fst (filter (\<lambda>c. snd c = userId) (hubspot_contacts s))))) (\<lambda>s. s)"

definition hs_delete :: "string \<Rightarrow> ('z jworld_scheme, unit) eff" where
  "hs_delete i = http (\<lambda>_. Inr ())
     (\<lambda>s. s\<lparr>hubspot_contacts := filter (\<lambda>c. fst c \<noteq> i) (hubspot_contacts s)\<rparr>)"

definition status_of :: "exn \<Rightarrow> nat option" where
  "status_of e = (case e of HttpErr st _ _ \<Rightarrow> st | _ \<Rightarrow> None)"

definition data_of :: "exn \<Rightarrow> string option" where
  "data_of e = (case e of HttpErr _ _ d \<Rightarrow> d | _ \<Rightarrow> None)"

definition is_retryable :: "nat option \<Rightarrow> bool" where
  "is_retryable status = (case status of None \<Rightarrow> False | Some n \<Rightarrow> n = 429 \<or> (500 \<le> n \<and> n < 600))"

definition hs_failure :: "exn \<Rightarrow> WipeResult" where
  "hs_failure e = \<lparr>w_success = False, w_destination = ''hubspot'', w_error = Some (message_of e),
     w_retryable = Some (is_retryable (status_of e)), w_recordsFound = None\<rparr>"

definition config_error :: "string \<Rightarrow> WipeResult" where
  "config_error dest = \<lparr>w_success = False, w_destination = dest, w_error = Some ''Configuration error'',
     w_retryable = None, w_recordsFound = None\<rparr>"

definition wiped :: "string \<Rightarrow> nat \<Rightarrow> WipeResult" where
  "wiped dest n = \<lparr>w_success = True, w_destination = dest, w_error = None, w_retryable = None,
     w_recordsFound = Some n\<rparr>"

definition hubspot_wipe :: "hubspot_config \<Rightarrow> string \<Rightarrow> string \<Rightarrow> ('z jworld_scheme, WipeResult) eff" where
  "hubspot_wipe cfg userId tenantId =
     (let token = or_opt (hs_apiToken cfg) (hs_env_key cfg) in
      if \<not> truthy token then ret (config_error ''hubspot'')
      else catch
        (bnd (hs_search (hs_page cfg) userId) (\<lambda>contacts.
         if contacts = [] then ret (wiped ''hubspot'' 0)
         else bnd (forEach hs_delete contacts) (\<lambda>_. ret (wiped ''hubspot'' (length contacts)))))
        (\<lambda>e. ret (hs_failure e)))"

section \<open>Salesforce\<close>

text \<open>The query has \<open>LIMIT 10\<close>.\<close>

definition sf_query :: "string \<Rightarrow> ('z jworld_scheme, string list) eff" where
  "sf_query userId =
     http (\<lambda>s. Inr (take 10 (map fst (filter (\<lambda>c. snd c = userId) (salesforce_contacts s))))) (\<lambda>s. s)"

definition sf_delete :: "string \<Rightarrow> ('z jworld_scheme, unit) eff" where
  "sf_delete i = http (\<lambda>_. Inr ())
     (\<lambda>s. s\<lparr>salesforce_contacts := filter (\<lambda>c. fst c \<noteq> i) (salesforce_contacts s)\<rparr>)"

definition sf_failed :: "string \<Rightarrow> bool \<Rightarrow> WipeResult" where
  "sf_failed m r = \<lparr>w_success = False, w_destination = ''salesforce'', w_error = Some m,
     w_retryable = Some r, w_recordsFound = None\<rparr>"

definition sf_failure :: "exn \<Rightarrow> WipeResult" where
  "sf_failure e =
     (let status = status_of e in
      if status = Some 429 then sf_failed ''Rate limited'' True
      else if status = Some 401 \<or> status = Some 403 then sf_failed ''Authentication failed'' False
      else if (case status of None \<Rightarrow> False | Some n \<Rightarrow> n \<ge> 500)
        then sf_failed (''Server error ('' @ nat_str (the status) @ '')'') True
      else sf_failed (or_else (data_of e) (message_of e)) (is_retryable status))"

definition salesforce_wipe :: "string option \<Rightarrow> string \<Rightarrow> string \<Rightarrow> ('z jworld_scheme, WipeResult) eff" where
  "salesforce_wipe apiKey userId tenantId =
     (if \<not> truthy apiKey then ret (config_error ''salesforce'')
      else catch
        (bnd (sf_query userId) (\<lambda>records.
         if records = [] then ret (wiped ''salesforce'' 0)
         else bnd (forEach sf_delete records) (\<lambda>_. ret (wiped ''salesforce'' (length records)))))
        (\<lambda>e. ret (sf_failure e)))"

section \<open>The registry of connectors\<close>

type_synonym 's connector = "string \<Rightarrow> string \<Rightarrow> ('s, WipeResult) eff"

definition register :: "string \<Rightarrow> 's connector \<Rightarrow> (string \<times> 's connector) list \<Rightarrow> (string \<times> 's connector) list" where
  "register name c cs = AList.update (toLowerCase name) c cs"

definition getConnector :: "(string \<times> 's connector) list \<Rightarrow> string \<Rightarrow> 's connector option" where
  "getConnector cs name = map_of cs (toLowerCase name)"

definition getRegisteredConnectorNames :: "(string \<times> 's connector) list \<Rightarrow> string list" where
  "getRegisteredConnectorNames cs = map fst cs"

definition connectorRegistry :: "hubspot_config \<Rightarrow> string option \<Rightarrow> (string \<times> 'z jworld_scheme connector) list" where
  "connectorRegistry hs sfKey =
     register ''salesforce'' (salesforce_wipe sfKey) (register ''hubspot'' (hubspot_wipe hs) [])"

section \<open>Lemmas\<close>

lemma http_Inr:
  assumes "http answer act s = (Inr a, t)"
  shows "\<exists>fs. let w = s\<lparr>http_faults := fs\<rparr> in answer w = Inr a \<and> t = act w"
proof (cases "http_faults s")
  case Nil
  then have e: "s\<lparr>http_faults := []\<rparr> = s" by simp
  from assms Nil show ?thesis by (intro exI[of _ "[]"]) (auto simp: http_def e split: sum.splits)
next
  case (Cons f fs)
  with assms show ?thesis
    by (intro exI[of _ fs]) (auto simp: http_def Let_def split: sum.splits option.splits)
qed

lemma hs_delete_all:
  "forEach hs_delete ids s = (Inr (), t) \<Longrightarrow>
   hubspot_contacts t = filter (\<lambda>c. fst c \<notin> set ids) (hubspot_contacts s)"
proof (induction ids arbitrary: s)
  case (Cons i ids)
  from Cons.prems obtain w where "hs_delete i s = (Inr (), w)" and t: "forEach hs_delete ids w = (Inr (), t)"
    by (auto elim: bnd_InrE)
  then have "hubspot_contacts w = filter (\<lambda>c. fst c \<noteq> i) (hubspot_contacts s)"
    by (auto simp: hs_delete_def Let_def dest!: http_Inr)
  with Cons.IH[OF t] show ?case by (auto simp: conj_commute intro!: filter_cong)
qed simp

lemma sf_delete_all:
  "forEach sf_delete ids s = (Inr (), t) \<Longrightarrow>
   salesforce_contacts t = filter (\<lambda>c. fst c \<notin> set ids) (salesforce_contacts s)"
proof (induction ids arbitrary: s)
  case (Cons i ids)
  from Cons.prems obtain w where "sf_delete i s = (Inr (), w)" and t: "forEach sf_delete ids w = (Inr (), t)"
    by (auto elim: bnd_InrE)
  then have "salesforce_contacts w = filter (\<lambda>c. fst c \<noteq> i) (salesforce_contacts s)"
    by (auto simp: sf_delete_def Let_def dest!: http_Inr)
  with Cons.IH[OF t] show ?case by (auto simp: conj_commute intro!: filter_cong)
qed simp

definition held_by :: "string \<Rightarrow> (string \<times> string) list \<Rightarrow> nat" where
  "held_by u tbl = length (filter (\<lambda>c. snd c = u) tbl)"

text \<open>Deleting one page of a user's records removes at least as many as the page has, and all of
  them when the page is not full.\<close>

lemma page_deleted:
  fixes tbl :: "(string \<times> string) list" and u :: string
  defines "mine \<equiv> filter (\<lambda>c. snd c = u) tbl"
  assumes "ids = take k (map fst mine)"
  shows "held_by u (filter (\<lambda>c. fst c \<notin> set ids) tbl) + length ids \<le> held_by u tbl"
    and "length ids < k \<Longrightarrow> held_by u (filter (\<lambda>c. fst c \<notin> set ids) tbl) = 0"
proof -
  have ids: "ids = map fst (take k mine)" using assms by (simp add: take_map)
  have "filter (\<lambda>c. snd c = u) (filter (\<lambda>c. fst c \<notin> set ids) tbl) = filter (\<lambda>c. fst c \<notin> set ids) mine"
    unfolding mine_def by (simp add: conj_commute)
  also have "\<dots> = filter (\<lambda>c. fst c \<notin> set ids) (take k mine @ drop k mine)" by simp
  also have "\<dots> = filter (\<lambda>c. fst c \<notin> set ids) (drop k mine)"
    unfolding ids by (subst filter_append) (auto simp: filter_empty_conv)
  finally have h: "held_by u (filter (\<lambda>c. fst c \<notin> set ids) tbl) \<le> length (drop k mine)"
    unfolding held_by_def by (metis length_filter_le)
  have m: "held_by u tbl = length mine" by (simp add: held_by_def mine_def)
  show "held_by u (filter (\<lambda>c. fst c \<notin> set ids) tbl) + length ids \<le> held_by u tbl"
    using h unfolding m ids by simp
  show "length ids < k \<Longrightarrow> held_by u (filter (\<lambda>c. fst c \<notin> set ids) tbl) = 0"
    using h unfolding ids by simp
qed

lemma hubspot_success:
  assumes "hubspot_wipe cfg u ten s = (Inr r, t)" and "w_success r"
  shows "\<exists>ids. ids = take (hs_page cfg) (map fst (filter (\<lambda>c. snd c = u) (hubspot_contacts s))) \<and>
     r = wiped ''hubspot'' (length ids) \<and>
     hubspot_contacts t = filter (\<lambda>c. fst c \<notin> set ids) (hubspot_contacts s)"
proof -
  have tok: "truthy (or_opt (hs_apiToken cfg) (hs_env_key cfg))"
    using assms by (auto simp: hubspot_wipe_def config_error_def split: if_splits)
  have "hs_failure e \<noteq> r" for e using assms(2) by (auto simp: hs_failure_def)
  from catch_ret_Inr[OF _ this] assms(1) tok have
    "bnd (hs_search (hs_page cfg) u) (\<lambda>contacts.
         if contacts = [] then ret (wiped ''hubspot'' 0)
         else bnd (forEach hs_delete contacts) (\<lambda>_. ret (wiped ''hubspot'' (length contacts)))) s = (Inr r, t)"
    by (simp add: hubspot_wipe_def)
  then obtain ids w where se: "hs_search (hs_page cfg) u s = (Inr ids, w)"
    and rest: "(if ids = [] then ret (wiped ''hubspot'' 0)
         else bnd (forEach hs_delete ids) (\<lambda>_. ret (wiped ''hubspot'' (length ids)))) w = (Inr r, t)"
    by (elim bnd_InrE)
  from se have ids: "ids = take (hs_page cfg) (map fst (filter (\<lambda>c. snd c = u) (hubspot_contacts s)))"
    and w: "hubspot_contacts w = hubspot_contacts s"
    by (auto simp: hs_search_def Let_def dest!: http_Inr)
  from rest have "r = wiped ''hubspot'' (length ids) \<and>
     hubspot_contacts t = filter (\<lambda>c. fst c \<notin> set ids) (hubspot_contacts s)"
    using w by (auto split: if_splits elim!: bnd_InrE dest!: hs_delete_all)
  with ids show ?thesis by blast
qed

lemma salesforce_success:
  assumes "salesforce_wipe key u ten s = (Inr r, t)" and "w_success r"
  shows "\<exists>ids. ids = take 10 (map fst (filter (\<lambda>c. snd c = u) (salesforce_contacts s))) \<and>
     r = wiped ''salesforce'' (length ids) \<and>
     salesforce_contacts t = filter (\<lambda>c. fst c \<notin> set ids) (salesforce_contacts s)"
proof -
  have tok: "truthy key"
    using assms by (auto simp: salesforce_wipe_def config_error_def split: if_splits)
  have "sf_failure e \<noteq> r" for e using assms(2) by (auto simp: sf_failure_def sf_failed_def Let_def)
  from catch_ret_Inr[OF _ this] assms(1) tok have
    "bnd (sf_query u) (\<lambda>records.
         if records = [] then ret (wiped ''salesforce'' 0)
         else bnd (forEach sf_delete records) (\<lambda>_. ret (wiped ''salesforce'' (length records)))) s = (Inr r, t)"
    by (simp add: salesforce_wipe_def)
  then obtain ids w where se: "sf_query u s = (Inr ids, w)"
    and rest: "(if ids = [] then ret (wiped ''salesforce'' 0)
         else bnd (forEach sf_delete ids) (\<lambda>_. ret (wiped ''salesforce'' (length ids)))) w = (Inr r, t)"
    by (elim bnd_InrE)
  from se have ids: "ids = take 10 (map fst (filter (\<lambda>c. snd c = u) (salesforce_contacts s)))"
    and w: "salesforce_contacts w = salesforce_contacts s"
    by (auto simp: sf_query_def Let_def dest!: http_Inr)
  from rest have "r = wiped ''salesforce'' (length ids) \<and>
     salesforce_contacts t = filter (\<lambda>c. fst c \<notin> set ids) (salesforce_contacts s)"
    using w by (auto split: if_splits elim!: bnd_InrE dest!: sf_delete_all)
  with ids show ?thesis by blast
qed

lemma hubspot_returns: "\<exists>r t. hubspot_wipe cfg u ten s = (Inr r, t)"
  by (simp add: hubspot_wipe_def Let_def catch_ret_total)

lemma salesforce_returns: "\<exists>r t. salesforce_wipe key u ten s = (Inr r, t)"
  by (simp add: salesforce_wipe_def catch_ret_total)

section \<open>What the connectors touch\<close>

lemma keeps_http:
  assumes "\<And>s fs. P (s\<lparr>http_faults := fs\<rparr>) = P s" and "\<And>s. P s \<Longrightarrow> P (act s)"
  shows "keeps P (http answer act)"
proof (rule keepsI)
  fix s assume P: "P s"
  show "P (snd (http answer act s))"
    using P assms by (auto simp: http_def Let_def split: list.splits option.splits sum.splits)
qed

definition jworld_free :: "('z jworld_scheme \<Rightarrow> bool) \<Rightarrow> bool" where
  "jworld_free P \<longleftrightarrow> lineage_free P \<and> (\<forall>s x. P (s\<lparr>hubspot_contacts := x\<rparr>) = P s) \<and>
     (\<forall>s x. P (s\<lparr>salesforce_contacts := x\<rparr>) = P s) \<and> (\<forall>s x. P (s\<lparr>http_faults := x\<rparr>) = P s) \<and>
     (\<forall>s x. P (s\<lparr>dlq := x\<rparr>) = P s)"

lemma jworld_free_lineage: "jworld_free P \<Longrightarrow> lineage_free P"
  by (simp add: jworld_free_def)

lemma jworld_free_timeless: "jworld_free P \<Longrightarrow> timeless P"
  by (simp add: jworld_free_def lineage_free_def kms_free_def)

lemma keeps_hubspot [keeps_intros]: "jworld_free P \<Longrightarrow> keeps P (hubspot_wipe cfg u ten)"
  unfolding hubspot_wipe_def Let_def hs_search_def hs_delete_def
  by (intro keeps_intros keeps_http) (simp_all add: jworld_free_def)

lemma keeps_salesforce [keeps_intros]: "jworld_free P \<Longrightarrow> keeps P (salesforce_wipe key u ten)"
  unfolding salesforce_wipe_def Let_def sf_query_def sf_delete_def
  by (intro keeps_intros keeps_http) (simp_all add: jworld_free_def)

lemma held_filter_le: "held_by u (filter p tbl) \<le> held_by u tbl"
proof -
  have "filter (\<lambda>c. snd c = u) (filter p tbl) = filter p (filter (\<lambda>c. snd c = u) tbl)"
    by (simp add: conj_commute)
  then show ?thesis unfolding held_by_def by (metis length_filter_le)
qed

lemma keeps_hubspot_held: "keeps (\<lambda>s. held_by u' (hubspot_contacts s) \<le> n) (hubspot_wipe cfg u ten)"
  unfolding hubspot_wipe_def Let_def hs_search_def hs_delete_def
  by (intro keeps_intros keeps_http) (auto intro: order_trans[OF held_filter_le])

lemma keeps_salesforce_held: "keeps (\<lambda>s. held_by u' (salesforce_contacts s) \<le> n) (salesforce_wipe key u ten)"
  unfolding salesforce_wipe_def Let_def sf_query_def sf_delete_def
  by (intro keeps_intros keeps_http) (auto intro: order_trans[OF held_filter_le])

lemma keeps_salesforce_hubspot: "keeps (\<lambda>s. P (hubspot_contacts s)) (salesforce_wipe key u ten)"
  unfolding salesforce_wipe_def Let_def sf_query_def sf_delete_def
  by (intro keeps_intros keeps_http) auto

lemma keeps_hubspot_salesforce: "keeps (\<lambda>s. P (salesforce_contacts s)) (hubspot_wipe cfg u ten)"
  unfolding hubspot_wipe_def Let_def hs_search_def hs_delete_def
  by (intro keeps_intros keeps_http) auto

section \<open>The contract of a connector\<close>

text \<open>
  \<open>wipe\<close> never throws; a result names the connector; a failure carries a message; a success says
  how many records were deleted, and when that is less than a page none of the user's records is
  left; no call ever adds records.
\<close>

locale wipe_connector =
  fixes name :: string
    and wipe :: "string \<Rightarrow> string \<Rightarrow> ('s, WipeResult) eff"
    and held :: "'s \<Rightarrow> string \<Rightarrow> nat"
    and page :: nat
  assumes returns: "\<exists>r t. wipe u ten s = (Inr r, t)"
    and named: "wipe u ten s = (Inr r, t) \<Longrightarrow> w_destination r = name"
    and explained: "wipe u ten s = (Inr r, t) \<Longrightarrow> \<not> w_success r \<Longrightarrow> w_error r \<noteq> None"
    and counted: "wipe u ten s = (Inr r, t) \<Longrightarrow> w_success r \<Longrightarrow>
      \<exists>n. w_recordsFound r = Some n \<and> held t u + n \<le> held s u \<and> (n < page \<longrightarrow> held t u = 0)"
    and shrinking: "keeps (\<lambda>s. held s v \<le> n) (wipe u ten)"
begin

lemma wipe_mono: "wipe u ten s = (r, t) \<Longrightarrow> held t v \<le> held s v"
  using keepsE[OF shrinking[of v "held s v" u ten], of s] by simp

text \<open>Once a page is not full, wiping again finds nothing.\<close>

lemma wipe_idempotent:
  assumes "wipe u ten s = (Inr r, t)" "w_success r" "w_recordsFound r = Some n" "n < page"
    and "wipe u ten t = (Inr r', t')" "w_success r'"
  shows "w_recordsFound r' = Some 0"
proof -
  have "held t u = 0" using counted[OF assms(1,2)] assms(3,4) by auto
  with counted[OF assms(5,6)] show ?thesis by auto
qed

end

lemma hubspot_named: "hubspot_wipe cfg u ten s = (Inr r, t) \<Longrightarrow> w_destination r = ''hubspot'' \<and> (\<not> w_success r \<longrightarrow> w_error r \<noteq> None)"
  by (auto simp: hubspot_wipe_def Let_def catch_apply config_error_def hs_failure_def wiped_def
      split: if_splits prod.splits sum.splits elim!: bnd_InrE)

lemma salesforce_named: "salesforce_wipe key u ten s = (Inr r, t) \<Longrightarrow> w_destination r = ''salesforce'' \<and> (\<not> w_success r \<longrightarrow> w_error r \<noteq> None)"
  by (auto simp: salesforce_wipe_def Let_def catch_apply config_error_def sf_failure_def sf_failed_def wiped_def
      split: if_splits prod.splits sum.splits elim!: bnd_InrE)

interpretation hub: wipe_connector "''hubspot''" "hubspot_wipe cfg"
  "\<lambda>s u. held_by u (hubspot_contacts s)" "hs_page cfg" for cfg
proof
  fix u ten and s t :: "'a jworld_scheme" and r
  assume "hubspot_wipe cfg u ten s = (Inr r, t)" "w_success r"
  from hubspot_success[OF this] page_deleted
  show "\<exists>n. w_recordsFound r = Some n \<and> held_by u (hubspot_contacts t) + n \<le> held_by u (hubspot_contacts s) \<and>
      (n < hs_page cfg \<longrightarrow> held_by u (hubspot_contacts t) = 0)"
    by (fastforce simp: wiped_def)
qed (use hubspot_returns hubspot_named keeps_hubspot_held in blast)+

interpretation sf: wipe_connector "''salesforce''" "salesforce_wipe key"
  "\<lambda>s u. held_by u (salesforce_contacts s)" 10 for key
proof
  fix u ten and s t :: "'a jworld_scheme" and r
  assume "salesforce_wipe key u ten s = (Inr r, t)" "w_success r"
  from salesforce_success[OF this] page_deleted
  show "\<exists>n. w_recordsFound r = Some n \<and> held_by u (salesforce_contacts t) + n \<le> held_by u (salesforce_contacts s) \<and>
      (n < 10 \<longrightarrow> held_by u (salesforce_contacts t) = 0)"
    by (fastforce simp: wiped_def)
qed (use salesforce_returns salesforce_named keeps_salesforce_held in blast)+

section \<open>Properties\<close>

text \<open>
  Both connectors keep their contract whatever the HTTP calls do: a wipe never throws, it never
  leaves more of anyone's records than there were, and when it reports success with fewer records
  than one page (10 for Salesforce, the search page for HubSpot) none of the user's records is
  left in that service.
\<close>

theorem wipe_complete:
  "(\<exists>r t. hubspot_wipe cfg u ten s = (Inr r, t) \<and> held_by v (hubspot_contacts t) \<le> held_by v (hubspot_contacts s) \<and>
      (\<forall>n. w_success r \<and> w_recordsFound r = Some n \<and> n < hs_page cfg \<longrightarrow> held_by u (hubspot_contacts t) = 0)) \<and>
   (\<exists>r t. salesforce_wipe key u ten s = (Inr r, t) \<and> held_by v (salesforce_contacts t) \<le> held_by v (salesforce_contacts s) \<and>
      (\<forall>n. w_success r \<and> w_recordsFound r = Some n \<and> n < 10 \<longrightarrow> held_by u (salesforce_contacts t) = 0))"
proof (intro conjI)
  obtain r t where w: "hubspot_wipe cfg u ten s = (Inr r, t)" using hub.returns by blast
  show "\<exists>r t. hubspot_wipe cfg u ten s = (Inr r, t) \<and> held_by v (hubspot_contacts t) \<le> held_by v (hubspot_contacts s) \<and>
      (\<forall>n. w_success r \<and> w_recordsFound r = Some n \<and> n < hs_page cfg \<longrightarrow> held_by u (hubspot_contacts t) = 0)"
    using w hub.counted[OF w] hub.wipe_mono[OF w] by auto
  obtain r' t' where w': "salesforce_wipe key u ten s = (Inr r', t')" using sf.returns by blast
  show "\<exists>r t. salesforce_wipe key u ten s = (Inr r, t) \<and> held_by v (salesforce_contacts t) \<le> held_by v (salesforce_contacts s) \<and>
      (\<forall>n. w_success r \<and> w_recordsFound r = Some n \<and> n < 10 \<longrightarrow> held_by u (salesforce_contacts t) = 0)"
    using w' sf.counted[OF w'] sf.wipe_mono[OF w'] by auto
qed

lemma wipe_complete_witness:
  "\<exists>r t. salesforce_wipe (Some ''k'') ''u'' ''t''
      \<lparr>now = 0, outcomes = [], keys = Map.empty, kms_keys = [], draws = 0, published = [], logged = [],
       bq_events = [], ghost_rows = (\<lambda>_ _. []), discovery_rows = (\<lambda>_. []), hubspot_contacts = [],
       salesforce_contacts = [(''1'', ''u''), (''2'', ''v'')], http_faults = [], dlq = []\<rparr> = (Inr r, t) \<and>
     held_by ''u'' (salesforce_contacts t) = 0"
  using wipe_complete[of undefined "''u''" "''t''" "\<lparr>now = 0, outcomes = [], keys = Map.empty, kms_keys = [], draws = 0,
      published = [], logged = [], bq_events = [], ghost_rows = (\<lambda>_ _. []), discovery_rows = (\<lambda>_. []),
      hubspot_contacts = [], salesforce_contacts = [(''1'', ''u''), (''2'', ''v'')], http_faults = [], dlq = []\<rparr>"
      "''u''" "Some ''k''"]
  by (auto simp: salesforce_wipe_def truthy_def catch_apply bnd_apply sf_query_def http_def sf_delete_def wiped_def)

text \<open>
  The two connectors tell transient from permanent failures alike: for every response status
  below 600, and for no response at all, both report a failure as retryable exactly when the status
  is 429 or in the 500s; a wipe without credentials fails without saying whether to retry.
\<close>

theorem connectors_classify_alike:
  "(case status_of e of None \<Rightarrow> True | Some n \<Rightarrow> n < 600) \<longrightarrow>
     w_retryable (hs_failure e) = Some (is_retryable (status_of e)) \<and>
     w_retryable (sf_failure e) = Some (is_retryable (status_of e)) \<and>
     fst (hubspot_wipe \<lparr>hs_apiToken = None, hs_env_key = None, hs_page = p\<rparr> u ten s) = Inr (config_error ''hubspot'') \<and>
     fst (salesforce_wipe None u ten s) = Inr (config_error ''salesforce'')"
  by (auto simp: hs_failure_def sf_failure_def sf_failed_def Let_def is_retryable_def hubspot_wipe_def
      salesforce_wipe_def truthy_def or_opt_def split: option.splits)

lemma connectors_classify_alike_witness:
  "w_retryable (sf_failure (HttpErr (Some 503) ''x'' None)) = Some True"
  using connectors_classify_alike[of "HttpErr (Some 503) ''x'' None" 0 "''u''" "''t''" undefined]
  by (auto simp: status_of_def is_retryable_def)

text \<open>
  The query has a limit of ten and one page is wiped: with more than ten matching contacts the
  connector reports success while the rest stay in the service.
\<close>

lemma salesforce_leaves_rest:
  assumes "http_faults s = []" and "truthy key" and "distinct (map fst (salesforce_contacts s))"
    and "held_by u (salesforce_contacts s) > 10"
  shows "\<exists>t. salesforce_wipe key u ten s = (Inr (wiped ''salesforce'' 10), t) \<and> held_by u (salesforce_contacts t) > 0"
proof -
  define mine where "mine = filter (\<lambda>c. snd c = u) (salesforce_contacts s)"
  define ids where "ids = take 10 (map fst mine)"
  have len: "length mine > 10" using assms(4) by (simp add: held_by_def mine_def)
  then have ids: "length ids = 10" "ids \<noteq> []" by (auto simp: ids_def)
  have q: "sf_query u s = (Inr ids, s)" using assms(1) by (simp add: sf_query_def http_def ids_def mine_def)
  have d: "\<exists>t. forEach sf_delete xs w = (Inr (), t)" if "http_faults w = []" for xs and w :: "'a jworld_scheme"
    using that by (induction xs arbitrary: w) (auto simp: bnd_apply sf_delete_def http_def)
  obtain t where t: "forEach sf_delete ids s = (Inr (), t)" using d[OF assms(1)] by blast
  have tbl: "salesforce_contacts t = filter (\<lambda>c. fst c \<notin> set ids) (salesforce_contacts s)" by (rule sf_delete_all[OF t])
  have run: "salesforce_wipe key u ten s = (Inr (wiped ''salesforce'' 10), t)"
    using assms(2) ids by (simp add: salesforce_wipe_def catch_apply bnd_apply q t)
  have "mine ! 10 \<in> set mine" using len by simp
  moreover have "fst (mine ! 10) \<notin> set ids"
  proof -
    have "distinct (map fst mine)" unfolding mine_def using assms(3) by (metis distinct_map_filter)
    then show ?thesis using len by (auto simp: ids_def in_set_conv_nth distinct_conv_nth)
  qed
  ultimately have "mine ! 10 \<in> set (filter (\<lambda>c. snd c = u) (salesforce_contacts t))"
    unfolding tbl mine_def by simp
  then have "held_by u (salesforce_contacts t) > 0" unfolding held_by_def by (metis length_pos_if_in_set)
  with run show ?thesis by blast
qed

end
