(* ===== verification/Janitor.thy ===== *)
theory Janitor
  imports Connectors
begin

text \<open>
  \<open>src/services/janitor.ts\<close> (the SaaS cleanup of one user), \<open>src/types/janitor.ts\<close> and the
  dead-letter queue \<open>src/gcp/pubsub-dlq-client.ts\<close>. The retry loop is a recursion on the attempts
  left; the back-off advances the clock. The loop is written over an arbitrary connector, and its
  properties are proved in the locale \<open>wiping\<close>, which extends the contract \<open>wipe_connector\<close> by
  what the loop needs of the rest of the world.
\<close>

datatype task_status = TASK_PENDING | TASK_QUEUED | TASK_COMPLETE | TASK_FAILED

record JanitorTask =
  jt_userId :: string
  jt_destination :: string
  jt_status :: task_status
  jt_attempts :: nat
  jt_recordsFound :: "nat option"

definition MAX_RETRIES :: nat where
  "MAX_RETRIES = 3"

section \<open>Dead letters\<close>

definition publishFailedWipe :: "failed_wipe \<Rightarrow> ('z jworld_scheme, unit) eff" where
  "publishFailedWipe e = rwrite (\<lambda>s. s\<lparr>dlq := dlq s @ [e]\<rparr>)"

definition verifyTopicExists :: "bool \<Rightarrow> ('z jworld_scheme, bool) eff" where
  "verifyTopicExists found = catch (rread (\<lambda>_. found)) (\<lambda>_. ret False)"

section \<open>The plan\<close>

definition planned_destinations :: "key_status_view option \<Rightarrow> string list" where
  "planned_destinations ks =
     (case ks of None \<Rightarrow> [] | Some v \<Rightarrow> (case ks_destinations v of None \<Rightarrow> [] | Some d \<Rightarrow> d))"

definition plan_tasks :: "(string \<times> 'z jworld_scheme connector) list \<Rightarrow> string \<Rightarrow> string list \<Rightarrow> JanitorTask list" where
  "plan_tasks cs userId destinations =
     map (\<lambda>d. \<lparr>jt_userId = userId, jt_destination = d, jt_status = TASK_PENDING, jt_attempts = 0, jt_recordsFound = None\<rparr>)
       (filter (\<lambda>d. getConnector cs d \<noteq> None) destinations)"

definition createCleanupPlan ::
  "(string \<times> 'z jworld_scheme connector) list \<Rightarrow> string \<Rightarrow> string \<Rightarrow> ('z jworld_scheme, JanitorTask list) eff" where
  "createCleanupPlan cs userId tenantId =
     bnd (getKeyStatus userId tenantId) (\<lambda>keyStatus.
     ret (plan_tasks cs userId (planned_destinations keyStatus)))"

section \<open>The loop\<close>

definition wipe_event :: "string \<Rightarrow> string \<Rightarrow> string \<Rightarrow> string \<Rightarrow> (string \<times> json) list \<Rightarrow> lineage_event" where
  "wipe_event userId tenantId dest eventType ctx =
     (vault_event userId (Some tenantId) dest eventType None ctx)\<lparr>le_source := ''janitor-service''\<rparr>"

definition janitor_log :: "lineage_repo \<Rightarrow> lineage_event \<Rightarrow> ('z jworld_scheme, unit) eff" where
  "janitor_log L e = swallow (bnd (recordEvent L e) (\<lambda>_. ret ()))"

definition thrown_result :: "string \<Rightarrow> exn \<Rightarrow> WipeResult" where
  "thrown_result dest e = \<lparr>w_success = False, w_destination = dest, w_error = Some (message_of e),
     w_retryable = None, w_recordsFound = None\<rparr>"

text \<open>Exponential back-off with a jitter below one second.\<close>

definition backoff :: "(nat \<Rightarrow> nat) \<Rightarrow> nat \<Rightarrow> ('z jworld_scheme, unit) eff" where
  "backoff jitter attempts = modify (\<lambda>s. s\<lparr>now := now s + int (2 ^ attempts * 1000 + jitter attempts mod 1000)\<rparr>)"

record wipe_outcome =
  wo_success :: bool
  wo_attempts :: nat
  wo_lastError :: string
  wo_recordsFound :: "nat option"

fun wipe_loop ::
  "lineage_repo \<Rightarrow> (nat \<Rightarrow> nat) \<Rightarrow> 'z jworld_scheme connector \<Rightarrow> string \<Rightarrow> string \<Rightarrow> string \<Rightarrow> nat \<Rightarrow> nat \<Rightarrow> string \<Rightarrow>
   ('z jworld_scheme, wipe_outcome) eff" where
  "wipe_loop L jitter c userId tenantId dest 0 attempts lastError =
     ret \<lparr>wo_success = False, wo_attempts = attempts, wo_lastError = lastError, wo_recordsFound = None\<rparr>"
| "wipe_loop L jitter c userId tenantId dest (Suc left) attempts0 lastError0 =
     (let attempts = attempts0 + 1 in
      bnd (janitor_log L (wipe_event userId tenantId dest ''SaaS_WIPE_STARTED''
             [(''destination_system'', JStr dest), (''attempt'', JNum (int attempts))])) (\<lambda>_.
      bnd (catch (c userId tenantId) (\<lambda>e. ret (thrown_result dest e))) (\<lambda>response.
      if w_success response then
        ret \<lparr>wo_success = True, wo_attempts = attempts, wo_lastError = lastError0, wo_recordsFound = w_recordsFound response\<rparr>
      else
        (let lastError = or_else (w_error response) ''Unknown error'';
             isRetryable = (case w_retryable response of None \<Rightarrow> True | Some b \<Rightarrow> b) in
         if \<not> isRetryable then
           ret \<lparr>wo_success = False, wo_attempts = attempts, wo_lastError = lastError, wo_recordsFound = None\<rparr>
         else if attempts < MAX_RETRIES then
           bnd (backoff jitter attempts) (\<lambda>_.
           wipe_loop L jitter c userId tenantId dest left attempts lastError)
         else wipe_loop L jitter c userId tenantId dest left attempts lastError))))"

definition process_task ::
  "lineage_repo \<Rightarrow> (nat \<Rightarrow> nat) \<Rightarrow> (string \<times> 'z jworld_scheme connector) list \<Rightarrow> string \<Rightarrow> string \<Rightarrow> JanitorTask \<Rightarrow>
   ('z jworld_scheme, JanitorTask) eff" where
  "process_task L jitter cs userId tenantId task =
     (let dest = jt_destination task in
      case getConnector cs dest of
        None \<Rightarrow> ret (task\<lparr>jt_status := TASK_FAILED\<rparr>)
      | Some c \<Rightarrow>
          bnd (wipe_loop L jitter c userId tenantId dest MAX_RETRIES 0 []) (\<lambda>wo.
          let finalStatus = (if wo_success wo then TASK_COMPLETE else TASK_FAILED);
              result = task\<lparr>jt_status := finalStatus, jt_attempts := wo_attempts wo, jt_recordsFound := wo_recordsFound wo\<rparr> in
          bnd (janitor_log L (wipe_event userId tenantId dest ''SaaS_WIPE_COMPLETED''
                 [(''destination_system'', JStr dest),
                  (''status'', JStr (if wo_success wo then ''COMPLETE'' else ''FAILED''))])) (\<lambda>_.
          bnd (gets now) (\<lambda>t.
          bnd (if wo_success wo then ret ()
               else swallow (publishFailedWipe
                 \<lparr>fw_userId = userId, fw_destination = dest, fw_error = wo_lastError wo, fw_timestamp = t\<rparr>)) (\<lambda>_.
          ret result)))))"

definition processCleanup ::
  "lineage_repo \<Rightarrow> (nat \<Rightarrow> nat) \<Rightarrow> (string \<times> 'z jworld_scheme connector) list \<Rightarrow> string \<Rightarrow> string \<Rightarrow>
   ('z jworld_scheme, JanitorTask list) eff" where
  "processCleanup L jitter cs userId tenantId =
     bnd (createCleanupPlan cs userId tenantId) (\<lambda>tasks.
     mapEff (process_task L jitter cs userId tenantId) tasks)"

section \<open>The loop always returns\<close>

lemma janitor_log_total: "\<exists>t. janitor_log L e s = (Inr (), t)"
  unfolding janitor_log_def by (rule swallow_total)

lemma keeps_janitor_log [keeps_intros]: "lineage_free P \<Longrightarrow> keeps P (janitor_log L e)"
  unfolding janitor_log_def by (intro keeps_intros)

lemma keeps_backoff [keeps_intros]: "timeless P \<Longrightarrow> keeps P (backoff j n)"
  unfolding backoff_def timeless_def
  by (rule keeps_modify) (metis env.surjective env.update_convs(1) env.update_convs(2) old.unit.exhaust)

lemma wipe_step_total: "\<exists>r t. catch m (\<lambda>e. ret (thrown_result d e)) s = (Inr r, t)"
  by (rule catch_ret_total)

lemma wipe_loop_total:
  "\<exists>wo t. wipe_loop L j c u ten d k a le s = (Inr wo, t) \<and> a \<le> wo_attempts wo \<and> wo_attempts wo \<le> a + k \<and>
     (k > 0 \<longrightarrow> a < wo_attempts wo)"
proof (induction k arbitrary: a le s)
  case 0
  then show ?case by simp
next
  case (Suc k)
  let ?e = "wipe_event u ten d ''SaaS_WIPE_STARTED'' [(''destination_system'', JStr d), (''attempt'', JNum (int (a + 1)))]"
  obtain s1 where l: "janitor_log L ?e s = (Inr (), s1)" using janitor_log_total by blast
  obtain resp s2 where w: "catch (c u ten) (\<lambda>e. ret (thrown_result d e)) s1 = (Inr resp, s2)"
    using wipe_step_total[of "c u ten" d s1] by blast
  show ?case
  proof (cases "w_success resp \<or> w_retryable resp = Some False")
    case True
    with l w show ?thesis by (auto simp: bnd_apply Let_def)
  next
    case False
    let ?le = "or_else (w_error resp) ''Unknown error''"
    have r: "(case w_retryable resp of None \<Rightarrow> True | Some b \<Rightarrow> b)" using False by (auto split: option.splits)
    obtain o1 t1 where 1: "wipe_loop L j c u ten d k (a + 1) ?le s2 = (Inr o1, t1)" "a + 1 \<le> wo_attempts o1" "wo_attempts o1 \<le> a + 1 + k"
      using Suc by meson
    obtain o2 t2 where 2: "wipe_loop L j c u ten d k (a + 1) ?le (snd (backoff j (a + 1) s2)) = (Inr o2, t2)" "a + 1 \<le> wo_attempts o2" "wo_attempts o2 \<le> a + 1 + k"
      using Suc by meson
    show ?thesis
      using l w False r 1 2 by (auto simp: bnd_apply Let_def backoff_def)
  qed
qed

lemma process_task_total:
  "\<exists>r t. process_task L j cs u ten task s = (Inr r, t) \<and> jt_destination r = jt_destination task \<and>
     jt_userId r = jt_userId task \<and> jt_status r \<in> {TASK_COMPLETE, TASK_FAILED} \<and>
     (getConnector cs (jt_destination task) \<noteq> None \<longrightarrow> 1 \<le> jt_attempts r \<and> jt_attempts r \<le> MAX_RETRIES)"
proof (cases "getConnector cs (jt_destination task)")
  case None
  then show ?thesis by (simp add: process_task_def)
next
  case (Some c)
  let ?d = "jt_destination task"
  obtain wo s1 where w: "wipe_loop L j c u ten ?d MAX_RETRIES 0 [] s = (Inr wo, s1)"
      "wo_attempts wo \<le> MAX_RETRIES" "0 < wo_attempts wo"
    using wipe_loop_total[of L j c u ten ?d MAX_RETRIES 0 "[]" s] by (auto simp: MAX_RETRIES_def)
  let ?e = "wipe_event u ten ?d ''SaaS_WIPE_COMPLETED'' [(''destination_system'', JStr ?d),
      (''status'', JStr (if wo_success wo then ''COMPLETE'' else ''FAILED''))]"
  obtain s2 where l: "janitor_log L ?e s1 = (Inr (), s2)" using janitor_log_total by blast
  show ?thesis
    using w l by (auto simp: process_task_def Some Let_def bnd_apply swallow_apply)
qed

lemma mapEff_total:
  assumes "\<And>x s. x \<in> set xs \<Longrightarrow> \<exists>r t. f x s = (Inr r, t) \<and> Q x r"
  shows "\<exists>rs t. mapEff f xs s = (Inr rs, t) \<and> list_all2 Q xs rs"
  using assms
proof (induction xs arbitrary: s)
  case (Cons x xs)
  obtain r t where f: "f x s = (Inr r, t)" "Q x r" using Cons.prems by (meson list.set_intros(1))
  obtain rs u where "mapEff f xs t = (Inr rs, u)" "list_all2 Q xs rs"
    using Cons.IH[of t] Cons.prems by (meson list.set_intros(2))
  with f show ?case by (simp add: bnd_apply)
qed simp

section \<open>The loop over a connector that keeps its contract\<close>

locale wiping = wipe_connector name wipe held page
  for name and wipe :: "string \<Rightarrow> string \<Rightarrow> ('z jworld_scheme, WipeResult) eff" and held and page +
  assumes held_free: "lineage_free (\<lambda>s. held s v \<le> n)"
begin

lemma loop_mono: "keeps (\<lambda>s. held s v \<le> n) (wipe_loop L j wipe u ten d k a le)"
proof (induction k arbitrary: a le)
  case 0
  show ?case unfolding wipe_loop.simps by (rule keeps_ret)
next
  case (Suc k)
  have "timeless (\<lambda>s. held s v \<le> n)" using held_free by (simp add: lineage_free_def kms_free_def)
  then show ?case
    unfolding wipe_loop.simps Let_def by (intro keeps_intros held_free shrinking Suc)
qed

lemma wipe_never_throws: "catch (wipe u ten) h s = wipe u ten s"
  using returns[of u ten s] by (auto simp: catch_apply)

lemma loop_success:
  assumes "wipe_loop L j wipe u ten d k a le s = (Inr wo, t)" and "wo_success wo"
  shows "\<exists>n. wo_recordsFound wo = Some n \<and> (n < page \<longrightarrow> held t u = 0)"
  using assms
proof (induction k arbitrary: a le s)
  case (Suc k)
  let ?e = "wipe_event u ten d ''SaaS_WIPE_STARTED'' [(''destination_system'', JStr d), (''attempt'', JNum (int (a + 1)))]"
  obtain s1 where l: "janitor_log L ?e s = (Inr (), s1)" using janitor_log_total by blast
  obtain resp s2 where w: "wipe u ten s1 = (Inr resp, s2)" using returns by blast
  show ?case
  proof (cases "w_success resp")
    case True
    from counted[OF w True] show ?thesis
      using Suc.prems l w True by (auto simp: bnd_apply Let_def wipe_never_throws)
  next
    case False
    then show ?thesis
      using Suc.prems Suc.IH l w
      by (auto simp: bnd_apply Let_def wipe_never_throws backoff_def split: if_splits option.splits)
  qed
qed auto

end

lemma lineage_free_hubspot: "lineage_free (\<lambda>s. P (hubspot_contacts s))"
  by (simp add: lineage_free_def kms_free_def timeless_def)

lemma lineage_free_salesforce: "lineage_free (\<lambda>s. P (salesforce_contacts s))"
  by (simp add: lineage_free_def kms_free_def timeless_def)

interpretation hubw: wiping "''hubspot''" "hubspot_wipe cfg" "\<lambda>s u. held_by u (hubspot_contacts s)" "hs_page cfg" for cfg
  by unfold_locales (rule lineage_free_hubspot)

interpretation sfw: wiping "''salesforce''" "salesforce_wipe key" "\<lambda>s u. held_by u (salesforce_contacts s)" 10 for key
  by unfold_locales (rule lineage_free_salesforce)

section \<open>What cleanup touches\<close>

text \<open>A cleanup with connectors that keep a property keeps it, when the audit trail, the clock and
  the dead letters do not matter to it.\<close>

lemma keeps_wipe_loop:
  assumes c: "\<And>u ten. keeps P (c u ten)" and l: "lineage_free P"
  shows "keeps P (wipe_loop L j c u ten d k a le)"
proof (induction k arbitrary: a le)
  case 0
  show ?case unfolding wipe_loop.simps by (rule keeps_ret)
next
  case (Suc k)
  then show ?case
    unfolding wipe_loop.simps Let_def by (intro keeps_intros l lineage_free_timeless[OF l] c Suc)
qed

lemma keeps_process_task:
  assumes c: "\<And>n c u ten. getConnector cs n = Some c \<Longrightarrow> keeps P (c u ten)" and l: "lineage_free P"
    and d: "\<And>s x. P (s\<lparr>dlq := x\<rparr>) = P s"
  shows "keeps P (process_task L j cs u ten task)"
  unfolding process_task_def Let_def publishFailedWipe_def
  by (intro keeps_intros keeps_wipe_loop l lineage_free_timeless[OF l] keeps_rwrite)
    (use c d in auto)

lemma keeps_createCleanupPlan [keeps_intros]: "timeless P \<Longrightarrow> keeps P (createCleanupPlan cs u t)"
  unfolding createCleanupPlan_def by (intro keeps_intros)

lemma keeps_processCleanup:
  assumes "\<And>n c u ten. getConnector cs n = Some c \<Longrightarrow> keeps P (c u ten)" and "lineage_free P"
    and "\<And>s x. P (s\<lparr>dlq := x\<rparr>) = P s"
  shows "keeps P (processCleanup L j cs u ten)"
  unfolding processCleanup_def
  by (intro keeps_intros keeps_process_task lineage_free_timeless assms) (use assms in auto)

lemma getConnector_registry:
  "getConnector (connectorRegistry hs key) n =
     (if toLowerCase n = ''hubspot'' then Some (hubspot_wipe hs)
      else if toLowerCase n = ''salesforce'' then Some (salesforce_wipe key) else None)"
proof -
  have "toLowerCase ''hubspot'' = ''hubspot''" "toLowerCase ''salesforce'' = ''salesforce''"
    by (simp_all add: toLowerCase_def lower_char_def char_ranges)
  then show ?thesis by (simp add: getConnector_def connectorRegistry_def register_def)
qed

lemma keeps_cleanup [keeps_intros]:
  "jworld_free P \<Longrightarrow> keeps P (processCleanup L j (connectorRegistry hs key) u ten)"
  by (rule keeps_processCleanup)
    (auto simp: getConnector_registry jworld_free_lineage split: if_splits intro: keeps_intros,
     simp_all add: jworld_free_def)

lemmas task_frees = getConnector_registry
  lineage_free_hubspot[of "\<lambda>x. held_by v x \<le> n" for v n]
  lineage_free_salesforce[of "\<lambda>x. held_by v x \<le> n" for v n]

lemma keeps_task_hubspot:
  "keeps (\<lambda>s. held_by v (hubspot_contacts s) \<le> n) (process_task L j (connectorRegistry hs key) u ten task)"
  by (rule keeps_process_task)
    (auto simp: task_frees split: if_splits intro: keeps_hubspot_held keeps_salesforce_hubspot)

lemma keeps_task_salesforce:
  "keeps (\<lambda>s. held_by v (salesforce_contacts s) \<le> n) (process_task L j (connectorRegistry hs key) u ten task)"
  by (rule keeps_process_task)
    (auto simp: task_frees split: if_splits intro: keeps_salesforce_held keeps_hubspot_salesforce)

text \<open>A task reported complete with less than a page of records left nothing behind.\<close>

definition records_in :: "string \<Rightarrow> string \<Rightarrow> 'z jworld_scheme \<Rightarrow> nat" where
  "records_in dest u s = (if toLowerCase dest = ''hubspot'' then held_by u (hubspot_contacts s)
     else if toLowerCase dest = ''salesforce'' then held_by u (salesforce_contacts s) else 0)"

definition page_of :: "hubspot_config \<Rightarrow> string \<Rightarrow> nat" where
  "page_of hs dest = (if toLowerCase dest = ''hubspot'' then hs_page hs else 10)"

lemma keeps_task_records:
  "keeps (\<lambda>s. records_in dest v s \<le> n) (process_task L j (connectorRegistry hs key) u ten task)"
  using keeps_task_hubspot keeps_task_salesforce
  by (cases "toLowerCase dest = ''hubspot''"; cases "toLowerCase dest = ''salesforce''")
    (simp_all add: records_in_def keeps_def)

lemma task_complete_gone:
  fixes s t :: "'z jworld_scheme"
  assumes run: "process_task L j (connectorRegistry hs key) u ten task s = (Inr r, t)"
    and c: "jt_status r = TASK_COMPLETE" and n: "jt_recordsFound r = Some n" "n < page_of hs (jt_destination r)"
  shows "records_in (jt_destination r) u t = 0"
proof -
  let ?d = "jt_destination task"
  from run obtain cn :: "'z jworld_scheme connector" where cn: "getConnector (connectorRegistry hs key) ?d = Some cn"
    using c by (auto simp: process_task_def Let_def split: option.splits)
  obtain wo s1 where w: "wipe_loop L j cn u ten ?d MAX_RETRIES 0 [] s = (Inr wo, s1)"
    using wipe_loop_total by blast
  let ?e = "wipe_event u ten ?d ''SaaS_WIPE_COMPLETED'' [(''destination_system'', JStr ?d),
      (''status'', JStr (if wo_success wo then ''COMPLETE'' else ''FAILED''))]"
  obtain s2 where l: "janitor_log L ?e s1 = (Inr (), s2)" using janitor_log_total by blast
  have ok: "wo_success wo" and rf: "wo_recordsFound wo = Some n" and d: "jt_destination r = ?d" and t: "t = s2"
    using run c n w l by (auto simp: process_task_def Let_def cn bnd_apply swallow_apply split: if_splits)
  have "records_in ?d u s1 \<le> 0"
    using hubw.loop_success[of L j hs u ten ?d MAX_RETRIES 0 "[]" s wo s1]
      sfw.loop_success[of L j key u ten ?d MAX_RETRIES 0 "[]" s wo s1] w cn ok rf n(2) d
    by (auto simp: getConnector_registry records_in_def page_of_def split: if_splits)
  moreover have "lineage_free (\<lambda>s. records_in ?d u s \<le> 0)"
    unfolding records_in_def
    by (cases "toLowerCase ?d = ''hubspot''"; cases "toLowerCase ?d = ''salesforce''")
      (simp_all add: lineage_free_def kms_free_def timeless_def)
  ultimately show ?thesis
    using keepsE[OF keeps_janitor_log _ l, of "\<lambda>s. records_in ?d u s \<le> 0"] d t by simp
qed

section \<open>Properties\<close>

definition destinations_with_connector :: "(string \<times> 'z jworld_scheme connector) list \<Rightarrow> key_status_view option \<Rightarrow> string list" where
  "destinations_with_connector cs ks = filter (\<lambda>d. getConnector cs d \<noteq> None) (planned_destinations ks)"

lemma process_all:
  assumes "tasks = plan_tasks cs u ds"
  shows "\<exists>rs t. mapEff (process_task L j cs u ten) tasks s = (Inr rs, t) \<and>
    list_all2 (\<lambda>d x. jt_destination x = d \<and> jt_userId x = u \<and> jt_status x \<in> {TASK_COMPLETE, TASK_FAILED} \<and>
       1 \<le> jt_attempts x \<and> jt_attempts x \<le> MAX_RETRIES) (filter (\<lambda>d. getConnector cs d \<noteq> None) ds) rs"
proof -
  have "\<exists>r t. process_task L j cs u ten x w = (Inr r, t) \<and> jt_destination r = jt_destination x \<and>
      jt_userId r = u \<and> jt_status r \<in> {TASK_COMPLETE, TASK_FAILED} \<and> 1 \<le> jt_attempts r \<and> jt_attempts r \<le> MAX_RETRIES"
    if "x \<in> set tasks" for x w
  proof -
    have "getConnector cs (jt_destination x) \<noteq> None" "jt_userId x = u"
      using that assms by (auto simp: plan_tasks_def)
    with process_task_total[of L j cs u ten x w] show ?thesis by auto
  qed
  from mapEff_total[of tasks "process_task L j cs u ten", OF this]
  show ?thesis unfolding assms plan_tasks_def by (auto simp: list_all2_map1)
qed

text \<open>
  C37. A cleanup reports on every destination: it throws only if reading the key document throws;
  otherwise it returns exactly one result per recorded destination that has a connector, in order,
  each complete or failed after one to three attempts, whatever the connectors do (including
  throwing).
\<close>

theorem cleanup_results:
  "case getKeyStatus u ten s of
     (Inl e, t) \<Rightarrow> processCleanup L j cs u ten s = (Inl e, t)
   | (Inr ks, t) \<Rightarrow> \<exists>rs s1. processCleanup L j cs u ten s = (Inr rs, s1) \<and>
      list_all2 (\<lambda>d x. jt_destination x = d \<and> jt_userId x = u \<and> jt_status x \<in> {TASK_COMPLETE, TASK_FAILED} \<and>
        1 \<le> jt_attempts x \<and> jt_attempts x \<le> 3) (destinations_with_connector cs ks) rs"
proof (cases "getKeyStatus u ten s")
  case (Pair r w)
  show ?thesis
  proof (cases r)
    case (Inl e)
    with Pair show ?thesis by (simp add: processCleanup_def createCleanupPlan_def bnd_apply)
  next
    case (Inr ks)
    obtain rs s1 where "mapEff (process_task L j cs u ten) (plan_tasks cs u (planned_destinations ks)) w = (Inr rs, s1)"
      "list_all2 (\<lambda>d x. jt_destination x = d \<and> jt_userId x = u \<and> jt_status x \<in> {TASK_COMPLETE, TASK_FAILED} \<and>
         1 \<le> jt_attempts x \<and> jt_attempts x \<le> MAX_RETRIES) (destinations_with_connector cs ks) rs"
      unfolding destinations_with_connector_def using process_all[OF refl] by blast
    with Pair Inr show ?thesis
      by (auto simp: processCleanup_def createCleanupPlan_def bnd_apply MAX_RETRIES_def)
  qed
qed

lemma mapEff_last:
  assumes "mapEff f xs s = (Inr rs, t)" and "r \<in> set rs"
    and "\<And>x. keeps P (f x)" and "\<And>x w r' w'. f x w = (Inr r', w') \<Longrightarrow> Q r' \<Longrightarrow> P w'" and "Q r"
  shows "P t"
  using assms(1,2)
proof (induction xs arbitrary: s rs)
  case (Cons x xs)
  from Cons.prems(1) obtain r0 w rs0 where x: "f x s = (Inr r0, w)" and xs: "mapEff f xs w = (Inr rs0, t)"
    and rs: "rs = r0 # rs0" by (auto elim!: bnd_InrE)
  show ?case
  proof (cases "r \<in> set rs0")
    case True
    then show ?thesis using Cons.IH[OF xs] by blast
  next
    case False
    then have "P w" using Cons.prems(2) rs assms(4,5) x by auto
    then show ?thesis using keepsE[OF keeps_mapEff[of P f] _ xs] assms(3) by blast
  qed
qed auto

text \<open>
  C36. Complete means gone: after a cleanup with the two connectors, every destination reported
  complete with fewer records than one page holds none of the user's records when the cleanup
  returns.
\<close>

theorem cleanup_complete_gone:
  assumes run: "processCleanup L j (connectorRegistry hs key) u ten s = (Inr rs, t)"
    and r: "r \<in> set rs" "jt_status r = TASK_COMPLETE" "jt_recordsFound r = Some n" "n < page_of hs (jt_destination r)"
  shows "records_in (jt_destination r) u t = 0"
proof -
  from run obtain tasks w where "mapEff (process_task L j (connectorRegistry hs key) u ten) tasks w = (Inr rs, t)"
    by (auto simp: processCleanup_def elim!: bnd_InrE)
  then have "records_in (jt_destination r) u t \<le> 0"
  proof (rule mapEff_last[where P = "\<lambda>s. records_in (jt_destination r) u s \<le> 0" and Q = "\<lambda>x. x = r" and r = r])
    fix x w r' w'
    assume "process_task L j (connectorRegistry hs key) u ten x w = (Inr r', w')" "r' = r"
    then show "records_in (jt_destination r) u w' \<le> 0"
      using task_complete_gone r(2,3,4) by fastforce
  qed (use r(1) in \<open>simp_all only: keeps_task_records\<close>)
  then show ?thesis by simp
qed

lemma clock_janitor_log: "janitor_log L e s = (r, t) \<Longrightarrow> now s \<le> now t"
proof -
  have "keeps (\<lambda>w. now s \<le> now w) (janitor_log L e)"
    unfolding janitor_log_def by (intro keeps_intros clock_recordEvent)
  then show "janitor_log L e s = (r, t) \<Longrightarrow> now s \<le> now t" by (metis keepsE order_refl)
qed

lemma failing_loop:
  assumes c: "\<And>w. \<exists>r t. c u ten w = (Inr r, t) \<and> \<not> w_success r \<and> w_retryable r = b \<and> now w \<le> now t"
    and b: "b \<noteq> Some False"
  shows "\<exists>wo t. wipe_loop L j c u ten d k a le s = (Inr wo, t) \<and> \<not> wo_success wo \<and> wo_attempts wo = a + k \<and>
     now t \<ge> now s + (\<Sum>i\<leftarrow>[a + 1..<a + k + 1]. if i < MAX_RETRIES then 2 ^ i * 1000 else 0)"
proof (induction k arbitrary: a le s)
  case 0
  then show ?case by simp
next
  case (Suc k)
  let ?e = "wipe_event u ten d ''SaaS_WIPE_STARTED'' [(''destination_system'', JStr d), (''attempt'', JNum (int (a + 1)))]"
  obtain s1 where l: "janitor_log L ?e s = (Inr (), s1)" using janitor_log_total by blast
  note l1 = clock_janitor_log[OF l]
  obtain resp s2 where w: "c u ten s1 = (Inr resp, s2)" "\<not> w_success resp" "w_retryable resp = b" "now s1 \<le> now s2"
    using c by blast
  let ?le = "or_else (w_error resp) ''Unknown error''"
  define s3 where "s3 = (if a + 1 < MAX_RETRIES then snd (backoff j (a + 1) s2) else s2)"
  have s3: "now s3 \<ge> now s2 + (if a + 1 < MAX_RETRIES then 2 ^ (a + 1) * 1000 else 0)"
    by (simp add: s3_def backoff_def)
  obtain wo t where ih: "wipe_loop L j c u ten d k (a + 1) ?le s3 = (Inr wo, t)" "\<not> wo_success wo"
     "wo_attempts wo = a + 1 + k"
     "now t \<ge> now s3 + (\<Sum>i\<leftarrow>[a + 1 + 1..<a + 1 + k + 1]. if i < MAX_RETRIES then 2 ^ i * 1000 else 0)"
    using Suc.IH by blast
  have run: "wipe_loop L j c u ten d (Suc k) a le s = (Inr wo, t)"
    using l w b ih(1) by (auto simp: bnd_apply catch_apply Let_def s3_def backoff_def split: option.splits)
  have up: "[a + 1..<a + Suc k + 1] = (a + 1) # [a + 1 + 1..<a + 1 + k + 1]" by (simp add: upt_conv_Cons del: upt_Suc)
  have "now s + (\<Sum>i\<leftarrow>[a + 1..<a + Suc k + 1]. if i < MAX_RETRIES then 2 ^ i * 1000 else 0) \<le> now t"
    unfolding up list.map sum_list.Cons using ih(4) l1 w(4) s3 by linarith
  with run ih(2,3) show ?case by (intro exI[of _ wo] exI[of _ t]) (simp del: wipe_loop.simps upt_Suc)
qed

text \<open>
  Retries follow the classification: a connector that keeps failing with a permanent error is
  called once, one that keeps failing with a transient (or unclassified) error is called exactly
  three times, and then at least 6 seconds of back-off have passed.
\<close>

theorem retries_follow_classification:
  assumes c: "\<And>w. \<exists>r t. c u ten w = (Inr r, t) \<and> \<not> w_success r \<and> w_retryable r = b \<and> now w \<le> now t"
  shows "\<exists>wo t. wipe_loop L j c u ten d MAX_RETRIES 0 [] s = (Inr wo, t) \<and> \<not> wo_success wo \<and>
     wo_attempts wo = (if b = Some False then 1 else 3) \<and>
     (b \<noteq> Some False \<longrightarrow> now t \<ge> now s + 6000)"
proof (cases "b = Some False")
  case True
  from c[of "snd (janitor_log L (wipe_event u ten d ''SaaS_WIPE_STARTED''
      [(''destination_system'', JStr d), (''attempt'', JNum 1)]) s)"] True
  show ?thesis
    using janitor_log_total[of L "wipe_event u ten d ''SaaS_WIPE_STARTED''
      [(''destination_system'', JStr d), (''attempt'', JNum 1)]" s]
    by (auto simp: MAX_RETRIES_def numeral_3_eq_3 bnd_apply catch_apply Let_def)
next
  case False
  from failing_loop[of c u ten b L j d 3 0 "[]" s] c False show ?thesis
    by (simp add: MAX_RETRIES_def upt_rec)
qed

section \<open>A concrete cleanup\<close>

definition toy_lineage :: lineage_repo where
  "toy_lineage = \<lparr>topicId = [], avroLoaded = True, ulid = nat_str\<rparr>"

definition toy_key_doc :: key_doc where
  "toy_key_doc = (shred_doc (Some (new_key_doc ''u'' [7] 1000)) 2000 None)\<lparr>kd_destinations := Some [''Salesforce'', ''warehouse'']\<rparr>"

definition toy_saas :: jworld where
  "toy_saas = \<lparr>now = 5000, outcomes = [], keys = [getDocId ''t'' ''u'' \<mapsto> toy_key_doc],
     kms_keys = [], draws = 0, published = [], logged = [], bq_events = [], ghost_rows = (\<lambda>_ _. []),
     discovery_rows = (\<lambda>_. []), hubspot_contacts = [], salesforce_contacts = [(''1'', ''u''), (''2'', ''v'')],
     http_faults = [Some \<lparr>hf_status = Some 503, hf_message = ''busy'', hf_data = None, hf_applied = False\<rparr>], dlq = []\<rparr>"

definition toy_hs :: hubspot_config where
  "toy_hs = \<lparr>hs_apiToken = Some ''tok'', hs_env_key = None, hs_page = 10\<rparr>"

lemma lower_salesforce: "toLowerCase ''Salesforce'' = ''salesforce''" "toLowerCase ''warehouse'' = ''warehouse''"
  by (simp_all add: toLowerCase_def lower_char_def char_ranges, code_simp)

lemma toy_log: "janitor_log toy_lineage e s =
  (Inr (), s\<lparr>draws := draws s + 1, logged := logged s @ [avroPayload (nat_str (draws s)) (now s * 1000) e]\<rparr>)"
  by (simp add: janitor_log_def swallow_apply recordEvent_def toy_lineage_def Let_def bnd_apply catch_apply log_event_def)

lemma toy_cleanup:
  "\<exists>r t. processCleanup toy_lineage (\<lambda>_. 0) (connectorRegistry toy_hs (Some ''k'')) ''u'' ''t'' toy_saas = (Inr [r], t) \<and>
     jt_destination r = ''Salesforce'' \<and> jt_status r = TASK_COMPLETE \<and> jt_attempts r = 2 \<and> jt_recordsFound r = Some 1"
proof -
  have ks: "getKeyStatus ''u'' ''t'' toy_saas = (Inr (Some (status_view toy_key_doc 5000)), toy_saas)"
    by (simp add: getKeyStatus_def no_faults toy_saas_def bnd_apply)
  have pl: "plan_tasks (connectorRegistry toy_hs (Some ''k'')) ''u'' (planned_destinations (Some (status_view toy_key_doc 5000))) =
     [\<lparr>jt_userId = ''u'', jt_destination = ''Salesforce'', jt_status = TASK_PENDING, jt_attempts = 0, jt_recordsFound = None\<rparr>]"
    by (simp add: plan_tasks_def planned_destinations_def status_view_def toy_key_doc_def getConnector_registry lower_salesforce)
  have cp: "createCleanupPlan (connectorRegistry toy_hs (Some ''k'')) ''u'' ''t'' toy_saas =
     (Inr [\<lparr>jt_userId = ''u'', jt_destination = ''Salesforce'', jt_status = TASK_PENDING, jt_attempts = 0, jt_recordsFound = None\<rparr>], toy_saas)"
    unfolding createCleanupPlan_def bnd_apply ks prod.case sum.case pl by simp
  show ?thesis
    unfolding processCleanup_def bnd_apply[of "createCleanupPlan cs u t" for cs u t] cp prod.case sum.case
    by (simp add: bnd_apply process_task_def getConnector_registry
        lower_salesforce Let_def MAX_RETRIES_def numeral_3_eq_3 toy_log catch_apply salesforce_wipe_def truthy_def
        sf_query_def sf_delete_def http_def toy_saas_def wiped_def sf_failure_def sf_failed_def status_of_def backoff_def
        del: wipe_loop.simps(1) add: wipe_loop.simps)
qed

lemma cleanup_complete_gone_witness:
  "\<exists>rs t. processCleanup toy_lineage (\<lambda>_. 0) (connectorRegistry toy_hs (Some ''k'')) ''u'' ''t'' toy_saas = (Inr rs, t) \<and>
     held_by ''u'' (salesforce_contacts t) = 0"
proof -
  obtain r t where run: "processCleanup toy_lineage (\<lambda>_. 0) (connectorRegistry toy_hs (Some ''k'')) ''u'' ''t'' toy_saas = (Inr [r], t)"
    and r: "jt_destination r = ''Salesforce''" "jt_status r = TASK_COMPLETE" "jt_recordsFound r = Some 1"
    using toy_cleanup by blast
  have "records_in (jt_destination r) ''u'' t = 0"
    by (rule cleanup_complete_gone[OF run _ r(2,3)]) (simp_all add: page_of_def toy_hs_def)
  with run show ?thesis by (auto simp: r(1) records_in_def lower_salesforce)
qed

lemma retries_follow_classification_witness:
  "\<exists>wo t. wipe_loop toy_lineage (\<lambda>_. 0) (\<lambda>u ten s. (Inr (sf_failed ''no'' False), s)) ''u'' ''t'' ''salesforce'' MAX_RETRIES 0 [] toy_saas = (Inr wo, t) \<and>
     wo_attempts wo = 1"
  using retries_follow_classification[of "\<lambda>u ten s. (Inr (sf_failed ''no'' False), s)" "''u''" "''t''" "Some False"
      toy_lineage "\<lambda>_. 0" "''salesforce''" toy_saas]
  by (auto simp: sf_failed_def)

end
