(* ===== verification/DeletionRepo.thy ===== *)
theory DeletionRepo
  imports Janitor
begin

text \<open>
  The deletion requests: \<open>src/types/deletion-request.ts\<close> and
  \<open>src/gcp/deletion-request-repository.ts\<close>. The collection is an association list from document id
  to request, in creation order (a query over equal instants returns them in that order). The
  transactions of Firestore are single steps; \<open>claimTransition\<close> is the compare-and-swap that the
  deletion service relies on, and the locale \<open>cas_store\<close> is its contract.
\<close>

datatype request_status =
    SHRED_REQUESTED
  | KEY_DESTROYED
  | CASCADE_PENDING
  | CASCADE_IN_PROGRESS
  | CASCADE_COMPLETE
  | CASCADE_PARTIAL_FAILURE
  | CERTIFICATE_ISSUED

datatype wipe_status = W_PENDING | W_IN_PROGRESS | W_SUCCEEDED | W_FAILED | W_DLQ

record wipe_details =
  wd_attempts :: "nat option"
  wd_recordsFound :: "nat option"
  wd_rowsAffected :: "nat option"
  wd_error :: "string option"

record janitor_wipe =
  jw_destination :: string
  jw_status :: wipe_status
  jw_updated_at :: int
  jw_details :: wipe_details

record deletion_request =
  q_id :: string
  q_tenant_id :: "string option"
  q_user_id :: string
  q_status :: request_status
  q_created_at :: int
  q_history :: "(request_status \<times> int) list"
  q_wipes :: "janitor_wipe list"
  q_key_destroyed_at :: "int option"
  q_cascade_initiated_at :: "int option"
  q_certificate_issued_at :: "int option"
  q_certificate_gcs_path :: "string option"
  q_requested_by :: "string option"

record update_fields =
  uf_key_destroyed_at :: "int option"
  uf_cascade_initiated_at :: "int option"
  uf_certificate_issued_at :: "int option"
  uf_certificate_gcs_path :: "string option"

record rworld = jworld +
  requests :: "(string \<times> deletion_request) list"

definition request_status_str :: "request_status \<Rightarrow> string" where
  "request_status_str st = (case st of SHRED_REQUESTED \<Rightarrow> ''SHRED_REQUESTED'' | KEY_DESTROYED \<Rightarrow> ''KEY_DESTROYED''
     | CASCADE_PENDING \<Rightarrow> ''CASCADE_PENDING'' | CASCADE_IN_PROGRESS \<Rightarrow> ''CASCADE_IN_PROGRESS''
     | CASCADE_COMPLETE \<Rightarrow> ''CASCADE_COMPLETE'' | CASCADE_PARTIAL_FAILURE \<Rightarrow> ''CASCADE_PARTIAL_FAILURE''
     | CERTIFICATE_ISSUED \<Rightarrow> ''CERTIFICATE_ISSUED'')"

definition no_fields :: update_fields where
  "no_fields = \<lparr>uf_key_destroyed_at = None, uf_cascade_initiated_at = None,
     uf_certificate_issued_at = None, uf_certificate_gcs_path = None\<rparr>"

definition set_opt :: "'a option \<Rightarrow> 'a option \<Rightarrow> 'a option" where
  "set_opt v old = (case v of None \<Rightarrow> old | Some _ \<Rightarrow> v)"

definition apply_fields :: "update_fields \<Rightarrow> deletion_request \<Rightarrow> deletion_request" where
  "apply_fields f d = d\<lparr>
     q_key_destroyed_at := set_opt (uf_key_destroyed_at f) (q_key_destroyed_at d),
     q_cascade_initiated_at := set_opt (uf_cascade_initiated_at f) (q_cascade_initiated_at d),
     q_certificate_issued_at := set_opt (uf_certificate_issued_at f) (q_certificate_issued_at d),
     q_certificate_gcs_path := set_opt (uf_certificate_gcs_path f) (q_certificate_gcs_path d)\<rparr>"

definition req_of :: "string \<Rightarrow> 'z rworld_scheme \<Rightarrow> deletion_request option" where
  "req_of i s = map_of (requests s) i"

definition put_req :: "string \<Rightarrow> deletion_request \<Rightarrow> 'z rworld_scheme \<Rightarrow> 'z rworld_scheme" where
  "put_req i d s = s\<lparr>requests := AList.update i d (requests s)\<rparr>"

text \<open>A write to an existing document: \<open>update\<close> fails with code 5 when it is missing.\<close>

definition update_req :: "string \<Rightarrow> (deletion_request \<Rightarrow> deletion_request) \<Rightarrow> ('z rworld_scheme, unit) eff" where
  "update_req i f = rtxn (\<lambda>s. case req_of i s of
       None \<Rightarrow> (Inl (CodeErr 5), s)
     | Some d \<Rightarrow> (Inr (), put_req i (f d) s))"

section \<open>Operations\<close>

definition new_request :: "string \<Rightarrow> string \<Rightarrow> string \<Rightarrow> string option \<Rightarrow> int \<Rightarrow> deletion_request" where
  "new_request userId operationId tenantId requestedBy t =
     \<lparr>q_id = operationId, q_tenant_id = Some tenantId, q_user_id = userId, q_status = SHRED_REQUESTED,
      q_created_at = t, q_history = [(SHRED_REQUESTED, t)], q_wipes = [], q_key_destroyed_at = None,
      q_cascade_initiated_at = None, q_certificate_issued_at = None, q_certificate_gcs_path = None,
      q_requested_by = requestedBy\<rparr>"

definition createDeletionRequest ::
  "string \<Rightarrow> string \<Rightarrow> string \<Rightarrow> string option \<Rightarrow> ('z rworld_scheme, deletion_request) eff" where
  "createDeletionRequest userId operationId tenantId requestedBy =
     rtxn (\<lambda>s. case req_of operationId s of
         Some d \<Rightarrow> (Inr d, s)
       | None \<Rightarrow> (let d = new_request userId operationId tenantId requestedBy (now s) in
                  (Inr d, put_req operationId d s)))"

text \<open>\<open>orderBy('created_at', 'desc')\<close>\<close>

definition newest_first :: "deletion_request list \<Rightarrow> deletion_request list" where
  "newest_first ds = sort_key (\<lambda>d. - q_created_at d) ds"

definition query :: "(deletion_request \<Rightarrow> bool) \<Rightarrow> 'z rworld_scheme \<Rightarrow> deletion_request list" where
  "query p s = newest_first (filter p (map snd (requests s)))"

definition first_of :: "'a list \<Rightarrow> 'a option" where
  "first_of xs = (case xs of [] \<Rightarrow> None | x # _ \<Rightarrow> Some x)"

definition listByRequestedBy ::
  "string \<Rightarrow> string \<Rightarrow> nat \<Rightarrow> int option \<Rightarrow> ('z rworld_scheme, deletion_request list) eff" where
  "listByRequestedBy email tenantId limit beforeCreatedAt =
     rread (\<lambda>s. take limit (filter (\<lambda>d. case beforeCreatedAt of None \<Rightarrow> True | Some b \<Rightarrow> q_created_at d < b)
       (query (\<lambda>d. q_requested_by d = Some email \<and> q_tenant_id d = Some tenantId) s)))"

definition listByTenantAndDateRange ::
  "string \<Rightarrow> int \<Rightarrow> int \<Rightarrow> ('z rworld_scheme, deletion_request list) eff" where
  "listByTenantAndDateRange tenantId t0 t1 =
     rread (query (\<lambda>d. q_tenant_id d = Some tenantId \<and> t0 \<le> q_created_at d \<and> q_created_at d \<le> t1))"

definition getDeletionRequest :: "string \<Rightarrow> ('z rworld_scheme, deletion_request option) eff" where
  "getDeletionRequest deletionRequestId = rread (req_of deletionRequestId)"

definition is_active :: "request_status \<Rightarrow> bool" where
  "is_active st = (st \<in> {SHRED_REQUESTED, KEY_DESTROYED, CASCADE_PENDING, CASCADE_IN_PROGRESS, CASCADE_PARTIAL_FAILURE})"

definition is_completed :: "request_status \<Rightarrow> bool" where
  "is_completed st = (st \<in> {CASCADE_COMPLETE, CERTIFICATE_ISSUED})"

definition getActiveDeletionRequestForUser ::
  "string \<Rightarrow> string \<Rightarrow> ('z rworld_scheme, deletion_request option) eff" where
  "getActiveDeletionRequestForUser userId tenantId =
     rread (\<lambda>s. first_of (query (\<lambda>d. q_user_id d = userId \<and> q_tenant_id d = Some tenantId \<and> is_active (q_status d)) s))"

definition getLatestCompletedDeletionRequestForUser ::
  "string \<Rightarrow> string \<Rightarrow> ('z rworld_scheme, deletion_request option) eff" where
  "getLatestCompletedDeletionRequestForUser userId tenantId =
     rread (\<lambda>s. first_of (query (\<lambda>d. q_user_id d = userId \<and> q_tenant_id d = Some tenantId \<and> is_completed (q_status d)) s))"

text \<open>Ordered by \<open>certificate_issued_at\<close>; documents without that field are not in such a query.\<close>

definition getMostRecentCertificateIssuedForTenant ::
  "string \<Rightarrow> ('z rworld_scheme, deletion_request option) eff" where
  "getMostRecentCertificateIssuedForTenant tenantId =
     rread (\<lambda>s. first_of (sort_key (\<lambda>d. - the (q_certificate_issued_at d))
       (filter (\<lambda>d. q_tenant_id d = Some tenantId \<and> q_status d = CERTIFICATE_ISSUED \<and> q_certificate_issued_at d \<noteq> None)
         (map snd (requests s)))))"

definition push_status :: "request_status \<Rightarrow> int \<Rightarrow> deletion_request \<Rightarrow> deletion_request" where
  "push_status st t d = d\<lparr>q_status := st,
     q_history := (if (st, t) \<in> set (q_history d) then q_history d else q_history d @ [(st, t)])\<rparr>"

definition updateDeletionRequestStatus ::
  "string \<Rightarrow> request_status \<Rightarrow> update_fields \<Rightarrow> ('z rworld_scheme, unit) eff" where
  "updateDeletionRequestStatus deletionRequestId newStatus upd =
     bnd (gets now) (\<lambda>t. update_req deletionRequestId (\<lambda>d. apply_fields upd (push_status newStatus t d)))"

datatype claim = Claimed | NotClaimed deletion_request

definition not_found :: "string \<Rightarrow> exn" where
  "not_found i = Err (''Deletion request '' @ i @ '' not found'')"

definition claimTransition ::
  "string \<Rightarrow> request_status list \<Rightarrow> request_status \<Rightarrow> ('z rworld_scheme, claim) eff" where
  "claimTransition deletionRequestId allowedFrom newStatus =
     rtxn (\<lambda>s. case req_of deletionRequestId s of
         None \<Rightarrow> (Inl (not_found deletionRequestId), s)
       | Some current \<Rightarrow>
           if q_status current \<notin> set allowedFrom then (Inr (NotClaimed current), s)
           else (Inr Claimed, put_req deletionRequestId (push_status newStatus (now s) current) s))"

definition updateDeletionRequestFields :: "string \<Rightarrow> update_fields \<Rightarrow> ('z rworld_scheme, unit) eff" where
  "updateDeletionRequestFields deletionRequestId upd =
     (if upd = no_fields then ret () else update_req deletionRequestId (apply_fields upd))"

fun set_wipe :: "janitor_wipe \<Rightarrow> janitor_wipe list \<Rightarrow> janitor_wipe list" where
  "set_wipe w [] = [w]"
| "set_wipe w (x # xs) = (if jw_destination x = jw_destination w then w # xs else x # set_wipe w xs)"

definition updateJanitorWipeStatus ::
  "string \<Rightarrow> string \<Rightarrow> wipe_status \<Rightarrow> wipe_details \<Rightarrow> ('z rworld_scheme, unit) eff" where
  "updateJanitorWipeStatus deletionRequestId destination st details =
     rtxn (\<lambda>s. case req_of deletionRequestId s of
         None \<Rightarrow> (Inl (not_found deletionRequestId), s)
       | Some d \<Rightarrow>
           (Inr (), put_req deletionRequestId (d\<lparr>q_wipes := set_wipe
              \<lparr>jw_destination = destination, jw_status = st, jw_updated_at = now s, jw_details = details\<rparr>
              (q_wipes d)\<rparr>) s))"

section \<open>Lemmas\<close>

lemma requests_next_call [simp]: "requests (snd (next_call s)) = requests s"
  by (auto simp: next_call_def split: list.splits)

lemma req_next_call [simp]: "req_of i (snd (next_call s)) = req_of i s"
  by (simp add: req_of_def)

lemma req_put [simp]: "req_of j (put_req i d s) = (if j = i then Some d else req_of j s)"
  by (simp add: req_of_def put_req_def update_conv')

lemma requests_timeless: "timeless (\<lambda>s. P (requests s))"
  by (rule timelessI) simp

lemma req_timeless: "timeless (\<lambda>s. P (req_of i s))"
  unfolding req_of_def by (rule timelessI) simp

text \<open>A property that the requests do not enter.\<close>

definition requests_free :: "('z rworld_scheme \<Rightarrow> bool) \<Rightarrow> bool" where
  "requests_free P \<longleftrightarrow> timeless P \<and> (\<forall>s r. P (s\<lparr>requests := r\<rparr>) = P s)"

lemma requests_free_put: "requests_free P \<Longrightarrow> P (put_req i d s) = P s"
  by (simp add: requests_free_def put_req_def)

lemma requests_free_timeless: "requests_free P \<Longrightarrow> timeless P"
  by (simp add: requests_free_def)

lemma keeps_update_req [keeps_intros]: "requests_free P \<Longrightarrow> keeps P (update_req i f)"
  unfolding update_req_def
  by (rule keeps_rtxn) (auto simp: requests_free_put requests_free_timeless split: option.splits)

lemma keeps_updateStatus [keeps_intros]: "requests_free P \<Longrightarrow> keeps P (updateDeletionRequestStatus i st f)"
  unfolding updateDeletionRequestStatus_def by (intro keeps_intros)

lemma keeps_updateFields [keeps_intros]: "requests_free P \<Longrightarrow> keeps P (updateDeletionRequestFields i f)"
  unfolding updateDeletionRequestFields_def by (intro keeps_intros)

lemma keeps_claim [keeps_intros]: "requests_free P \<Longrightarrow> keeps P (claimTransition i fs st)"
  unfolding claimTransition_def
  by (rule keeps_rtxn) (auto simp: requests_free_put requests_free_timeless split: option.splits if_splits)

lemma keeps_updateWipe [keeps_intros]: "requests_free P \<Longrightarrow> keeps P (updateJanitorWipeStatus i d st x)"
  unfolding updateJanitorWipeStatus_def
  by (rule keeps_rtxn) (auto simp: requests_free_put requests_free_timeless split: option.splits)

lemma keeps_createRequest [keeps_intros]: "requests_free P \<Longrightarrow> keeps P (createDeletionRequest u i t b)"
  unfolding createDeletionRequest_def
  by (rule keeps_rtxn) (auto simp: requests_free_put requests_free_timeless Let_def split: option.splits)

lemma keeps_getRequest [keeps_intros]: "timeless P \<Longrightarrow> keeps P (getDeletionRequest i)"
  unfolding getDeletionRequest_def by (intro keeps_intros)

lemma keeps_getActive [keeps_intros]: "timeless P \<Longrightarrow> keeps P (getActiveDeletionRequestForUser u t)"
  unfolding getActiveDeletionRequestForUser_def by (intro keeps_intros)

lemma keeps_getLatest [keeps_intros]: "timeless P \<Longrightarrow> keeps P (getLatestCompletedDeletionRequestForUser u t)"
  unfolding getLatestCompletedDeletionRequestForUser_def by (intro keeps_intros)

lemma getRequest_Inr: "getDeletionRequest i s = (Inr r, t) \<Longrightarrow> r = req_of i s \<and> requests t = requests s"
  by (auto simp: getDeletionRequest_def dest!: rread_Inr)

lemma claim_Inr:
  assumes "claimTransition i fs n s = (Inr c, t)"
  shows "\<exists>d. req_of i s = Some d \<and>
    (c = Claimed \<and> q_status d \<in> set fs \<and> requests t = requests (put_req i (push_status n (now t) d) s) \<or>
     c = NotClaimed d \<and> q_status d \<notin> set fs \<and> requests t = requests s)"
proof -
  from rtxn_Inr[OF assms[unfolded claimTransition_def]]
  show ?thesis by (auto simp: put_req_def split: option.splits if_splits)
qed

text \<open>Whatever the caller sees, a claim either wrote nothing or moved the request from an allowed status.\<close>

lemma claim_any:
  assumes "claimTransition i fs n s = (c, t)"
  shows "requests t = requests s \<or>
    (\<exists>d. req_of i s = Some d \<and> q_status d \<in> set fs \<and> (\<exists>w. requests t = requests (put_req i (push_status n w d) s)))"
  using assms
  by (auto simp: claimTransition_def rtxn_def put_req_def split: prod.splits outcome.splits option.splits if_splits sum.splits)
    (metis requests_next_call req_next_call snd_conv)+

lemma status_push [simp]: "q_status (push_status st t d) = st"
  by (simp add: push_status_def)

lemma fields_push [simp]:
  "q_user_id (push_status st t d) = q_user_id d" "q_tenant_id (push_status st t d) = q_tenant_id d"
  "q_wipes (push_status st t d) = q_wipes d" "q_id (push_status st t d) = q_id d"
  "q_certificate_gcs_path (push_status st t d) = q_certificate_gcs_path d"
  "q_certificate_issued_at (push_status st t d) = q_certificate_issued_at d"
  by (simp_all add: push_status_def)

lemma fields_apply [simp]:
  "q_status (apply_fields f d) = q_status d" "q_user_id (apply_fields f d) = q_user_id d"
  "q_tenant_id (apply_fields f d) = q_tenant_id d" "q_wipes (apply_fields f d) = q_wipes d"
  "q_id (apply_fields f d) = q_id d"
  by (simp_all add: apply_fields_def)

section \<open>Compare-and-swap\<close>

text \<open>
  What the deletion service relies on when it claims a transition: a claim that is granted moved
  the status from an allowed one to the new one, a refused claim changed nothing, and no claim
  touches another document.
\<close>

locale cas_store =
  fixes status :: "'s \<Rightarrow> string \<Rightarrow> 'st option"
    and claim :: "string \<Rightarrow> 'st list \<Rightarrow> 'st \<Rightarrow> ('s, claim) eff"
  assumes granted: "claim i fs n s = (Inr Claimed, t) \<Longrightarrow> (\<exists>f \<in> set fs. status s i = Some f) \<and> status t i = Some n"
    and unchanged: "claim i fs n s = (r, t) \<Longrightarrow> status t i = status s i \<or> status t i = Some n"
    and elsewhere: "claim i fs n s = (r, t) \<Longrightarrow> j \<noteq> i \<Longrightarrow> status t j = status s j"
begin

text \<open>Once the document is past the allowed statuses, no claim is granted.\<close>

lemma no_more_grants:
  assumes "n \<notin> set fs" and "status s i = Some n"
  shows "Inr Claimed \<notin> set (fst (settleAll (\<lambda>_. claim i fs n) xs s))"
  using assms(2)
proof (induction xs arbitrary: s)
  case (Cons x xs)
  obtain r t where c: "claim i fs n s = (r, t)" by fastforce
  have "r \<noteq> Inr Claimed" using granted[of i fs n s t] c Cons.prems assms(1) by auto
  moreover have "status t i = Some n" using unchanged[OF c] Cons.prems by auto
  ultimately show ?case using c Cons.IH[of t] by (auto simp: Let_def split_beta)
qed simp

text \<open>Of any number of callers that claim the same transition, at most one is granted.\<close>

lemma at_most_one_grant:
  assumes "n \<notin> set fs"
  shows "length (filter (\<lambda>r. r = Inr Claimed) (fst (settleAll (\<lambda>_. claim i fs n) xs s))) \<le> 1"
proof (induction xs arbitrary: s)
  case (Cons x xs)
  obtain r t where c: "claim i fs n s = (r, t)" by fastforce
  show ?case
  proof (cases "r = Inr Claimed")
    case True
    with granted[of i fs n s t] c have "status t i = Some n" by simp
    from no_more_grants[OF assms this, of xs] c True show ?thesis
      by (auto simp: Let_def split_beta filter_empty_conv)
  next
    case False
    with c Cons.IH[of t] show ?thesis by (simp add: Let_def split_beta)
  qed
qed simp

end

lemma claim_status:
  assumes "claimTransition i fs n s = (r, t)"
  shows "(r = Inr Claimed \<longrightarrow> (\<exists>f \<in> set fs. map_option q_status (req_of i s) = Some f) \<and> map_option q_status (req_of i t) = Some n) \<and>
    (map_option q_status (req_of i t) = map_option q_status (req_of i s) \<or> map_option q_status (req_of i t) = Some n) \<and>
    (j \<noteq> i \<longrightarrow> map_option q_status (req_of j t) = map_option q_status (req_of j s))"
proof -
  have put: "map_of (requests t) x = req_of x (put_req i d s)" if "requests t = requests (put_req i d s)" for d x
    using that by (simp add: req_of_def)
  have 1: "(\<exists>f \<in> set fs. map_option q_status (req_of i s) = Some f) \<and> map_option q_status (req_of i t) = Some n"
    if "r = Inr Claimed"
    using claim_Inr[of i fs n s Claimed t] assms that put by (auto simp: req_of_def[of i t])
  have 2: "requests t = requests s \<or> (\<exists>d w. requests t = requests (put_req i (push_status n w d) s))"
    using claim_any[OF assms] by blast
  show ?thesis using 1 2 put by (auto simp: req_of_def[of _ t]) (auto simp: req_of_def)
qed

interpretation cas: cas_store "\<lambda>s i. map_option q_status (req_of i s)" claimTransition
  by unfold_locales (use claim_status in \<open>metis (no_types, lifting)\<close>)+

text \<open>
  C34. A transition is claimed at most once: however many callers race for the same transition of
  the same request, at most one call to claimTransition answers claimed, under every pattern of
  lost and unacknowledged writes.
\<close>

theorem transition_claimed_once:
  assumes "to \<noteq> frm"
  shows "length (filter (\<lambda>r. r = Inr Claimed) (fst (settleAll (\<lambda>_. claimTransition i [frm] to) callers s))) \<le> 1"
  using cas.at_most_one_grant[of to "[frm]" i callers s] assms by simp

definition toy_requests :: "(string \<times> deletion_request) list \<Rightarrow> rworld" where
  "toy_requests rs = jworld.extend toy_saas (rworld.fields rs)"

text \<open>Three callers race for the certificate of a finished cascade: one of them gets it.\<close>

theorem transition_claimed_once_witness:
  "length (filter (\<lambda>r. r = Inr Claimed) (fst (settleAll (\<lambda>_. claimTransition ''r1'' [CASCADE_COMPLETE] CERTIFICATE_ISSUED)
     [0, 1, 2 :: nat] (toy_requests [(''r1'', (new_request ''u'' ''r1'' ''t'' None 7)\<lparr>q_status := CASCADE_COMPLETE\<rparr>)])))) = 1"
proof -
  let ?claim = "\<lambda>_ :: nat. claimTransition ''r1'' [CASCADE_COMPLETE] CERTIFICATE_ISSUED :: (rworld, claim) eff"
  let ?w = "toy_requests [(''r1'', (new_request ''u'' ''r1'' ''t'' None 7)\<lparr>q_status := CASCADE_COMPLETE\<rparr>)]"
  have "length (filter (\<lambda>r. r = Inr Claimed) (fst (settleAll ?claim [0, 1, 2] ?w))) \<le> 1"
    by (rule transition_claimed_once) simp
  moreover have "outcomes ?w = []" by (simp add: toy_requests_def jworld.defs rworld.defs toy_saas_def)
  then have "fst (?claim 0 ?w) = Inr Claimed"
    by (simp add: claimTransition_def no_faults req_of_def toy_requests_def jworld.defs rworld.defs)
  then have "Inr Claimed \<in> set (fst (settleAll ?claim [0, 1, 2] ?w))"
    by (cases "?claim 0 ?w") (simp add: Let_def split: prod.split)
  then have "filter (\<lambda>r. r = Inr Claimed) (fst (settleAll ?claim [0, 1, 2] ?w)) \<noteq> []"
    by (auto simp: filter_empty_conv)
  ultimately show ?thesis by (cases "filter (\<lambda>r. r = Inr Claimed) (fst (settleAll ?claim [0, 1, 2] ?w))") auto
qed

section \<open>Queries\<close>

lemma newest_first_sorted: "sorted_wrt (\<lambda>a b. q_created_at a \<ge> q_created_at b) (newest_first ds)"
proof -
  have "sorted (map (\<lambda>d. - q_created_at d) (newest_first ds))" unfolding newest_first_def by simp
  then show ?thesis by (simp add: sorted_map)
qed

lemma set_newest_first [simp]: "set (newest_first ds) = set ds"
  by (simp add: newest_first_def)

lemma query_first:
  assumes "first_of (query p s) = Some d"
  shows "p d \<and> (\<exists>i. (i, d) \<in> set (requests s)) \<and> (\<forall>i e. (i, e) \<in> set (requests s) \<and> p e \<longrightarrow> q_created_at e \<le> q_created_at d)"
proof -
  from assms obtain rest where q: "query p s = d # rest" by (auto simp: first_of_def split: list.splits)
  have srt: "sorted_wrt (\<lambda>a b. q_created_at a \<ge> q_created_at b) (d # rest)"
    using newest_first_sorted q unfolding query_def by metis
  have st: "set (d # rest) = set (filter p (map snd (requests s)))"
    using q unfolding query_def by (metis set_newest_first)
  show ?thesis
  proof (intro conjI allI impI)
    have "d \<in> set (filter p (map snd (requests s)))" unfolding st[symmetric] by simp
    then show "p d" and "\<exists>i. (i, d) \<in> set (requests s)" by auto
    fix i e assume "(i, e) \<in> set (requests s) \<and> p e"
    then have "e \<in> set (d # rest)" unfolding st by force
    with srt show "q_created_at e \<le> q_created_at d" by auto
  qed
qed

end
