(* ===== verification/PiiRegistry.thy ===== *)
theory PiiRegistry
  imports DeletionRepo
begin

text \<open>
  The PII registry: \<open>src/types/pii-registry.ts\<close>, \<open>src/services/source-redaction-strategies.ts\<close> and
  \<open>src/services/pii-registry-service.ts\<close>. The service keeps its entries in memory (an association
  list, in insertion order, from \<open>tenant::resource\<close> to entry) and writes through a store, whose
  operations are an argument here; the Firestore store is in \<open>PiiDeclare\<close>. Instants that the code
  keeps as ISO strings are milliseconds.
\<close>

datatype pii_system = Bigquery | Snowflake | Gcs | Firestore | Log | Hubspot | Salesforce | External | Pubsub

datatype pii_classification =
    DIRECT_IDENTIFIER | QUASI_IDENTIFIER | CONTACT | SENSITIVE | BEHAVIORAL | SYSTEM_IDENTIFIER

datatype pii_handling =
    ENCRYPT | TOKENIZE | REDACT | HASH_SURROGATE | ALLOW_AGGREGATE_ONLY | H_MANUAL_REVIEW

datatype deletion_strategy = CRYPTO_SHRED | DELETE_ROWS | REDACT_FIELDS | EXTERNAL_WIPE | D_MANUAL_REVIEW

datatype redaction_strategy = NONE | REDACT_IN_PLACE | SHADOW_COPY | ENCRYPTED_COPY

datatype confidence = DECLARED | INFERRED_HIGH | INFERRED_MEDIUM | INFERRED_LOW

datatype resource_layer = RAW | STAGING | INTERMEDIATE | MART | SAAS

datatype visibility = CUSTOMER_FACING | INTERNAL

datatype entry_status = APPROVED | PENDING_REVIEW | DEPRECATED | DISABLED

datatype scan_mode = SCAN_FULL | SCAN_SAMPLED | SCAN_DISABLED

record pii_field =
  pf_name :: string
  pf_classification :: pii_classification
  pf_handling :: pii_handling
  pf_requiredInMart :: bool
  pf_evidence :: "string list option"
  pf_confidence :: "confidence option"
  pf_surrogateId :: "string option"

record ghost_scan =
  gs_enabled :: bool
  gs_scanMode :: scan_mode
  gs_patterns :: "string list"

record pii_entry =
  pe_registryVersion :: string
  pe_resourceId :: string
  pe_system :: pii_system
  pe_resourceLayer :: "resource_layer option"
  pe_visibility :: "visibility option"
  pe_tenantIdColumn :: "string option"
  pe_userIdColumn :: "string option"
  pe_allowedCaller :: "string option"
  pe_userIdFieldPath :: "string option"
  pe_updatedAtColumn :: "string option"
  pe_lastSyncedAt :: "int option"
  pe_lastSyncAttemptAt :: "int option"
  pe_piiFields :: "pii_field list"
  pe_ownerConnector :: string
  pe_lineageDestination :: string
  pe_deletionStrategy :: deletion_strategy
  pe_sourceRedactionStrategy :: "redaction_strategy option"
  pe_sourceRedactionStrategies :: "redaction_strategy list option"
  pe_ghostDataScan :: ghost_scan
  pe_handlingPolicy :: string
  pe_evidencePointers :: "string list"
  pe_notes :: "string option"
  pe_tenantId :: "string option"
  pe_status :: "entry_status option"
  pe_createdAt :: "int option"
  pe_updatedAt :: "int option"
  pe_declaredBy :: "string option"
  pe_lastModifiedBy :: "string option"

definition MANUAL_OWNER_CONNECTOR :: string where
  "MANUAL_OWNER_CONNECTOR = ''manual''"

definition system_str :: "pii_system \<Rightarrow> string" where
  "system_str sy = (case sy of Bigquery \<Rightarrow> ''bigquery'' | Snowflake \<Rightarrow> ''snowflake'' | Gcs \<Rightarrow> ''gcs''
     | Firestore \<Rightarrow> ''firestore'' | Log \<Rightarrow> ''log'' | Hubspot \<Rightarrow> ''hubspot'' | Salesforce \<Rightarrow> ''salesforce''
     | External \<Rightarrow> ''external'' | Pubsub \<Rightarrow> ''pubsub'')"

definition strategy_str :: "redaction_strategy \<Rightarrow> string" where
  "strategy_str st = (case st of NONE \<Rightarrow> ''NONE'' | REDACT_IN_PLACE \<Rightarrow> ''REDACT_IN_PLACE''
     | SHADOW_COPY \<Rightarrow> ''SHADOW_COPY'' | ENCRYPTED_COPY \<Rightarrow> ''ENCRYPTED_COPY'')"

section \<open>Strategies\<close>

definition resolve_strategies :: "redaction_strategy option \<Rightarrow> redaction_strategy list option \<Rightarrow> redaction_strategy list" where
  "resolve_strategies legacy strategies =
     (case strategies of
        Some ss \<Rightarrow> ss
      | None \<Rightarrow> (case legacy of
            None \<Rightarrow> []
          | Some st \<Rightarrow> if st \<noteq> NONE then [st] else []))"

definition resolveSourceRedactionStrategies :: "pii_entry \<Rightarrow> redaction_strategy list" where
  "resolveSourceRedactionStrategies e =
     resolve_strategies (pe_sourceRedactionStrategy e) (pe_sourceRedactionStrategies e)"

definition hasSourceRedactionStrategy :: "pii_entry \<Rightarrow> redaction_strategy \<Rightarrow> bool" where
  "hasSourceRedactionStrategy e st = (st \<in> set (resolveSourceRedactionStrategies e))"

section \<open>The service\<close>

record registry_filters =
  f_tenantId :: "string option"
  f_system :: "string option"
  f_ownerConnector :: "string option"
  f_scanEnabled :: "bool option"
  f_actorEmail :: "string option"

definition no_filters :: registry_filters where
  "no_filters = \<lparr>f_tenantId = None, f_system = None, f_ownerConnector = None, f_scanEnabled = None, f_actorEmail = None\<rparr>"

type_synonym registry = "(string \<times> pii_entry) list"

definition keyOf :: "string option \<Rightarrow> string \<Rightarrow> string" where
  "keyOf tenantId resourceId = (case tenantId of None \<Rightarrow> ''*'' | Some t \<Rightarrow> t) @ ''::'' @ resourceId"

definition newRegistry :: "pii_entry list \<Rightarrow> registry" where
  "newRegistry es = foldl (\<lambda>m e. AList.update (keyOf (pe_tenantId e) (pe_resourceId e)) e m) [] es"

definition visibleTo :: "pii_entry \<Rightarrow> string option \<Rightarrow> bool" where
  "visibleTo e tenantId = (case tenantId of None \<Rightarrow> True | Some _ \<Rightarrow> pe_tenantId e = None \<or> pe_tenantId e = tenantId)"

definition getEntries :: "registry \<Rightarrow> pii_entry list" where
  "getEntries m = map snd m"

definition listEntries :: "registry \<Rightarrow> registry_filters \<Rightarrow> pii_entry list" where
  "listEntries m fs =
     filter (\<lambda>e. \<not> truthy (f_actorEmail fs) \<or> pe_declaredBy e = f_actorEmail fs \<or> pe_lastModifiedBy e = f_actorEmail fs)
       (filter (\<lambda>e. case f_scanEnabled fs of None \<Rightarrow> True | Some b \<Rightarrow> gs_enabled (pe_ghostDataScan e) = b)
         (filter (\<lambda>e. \<not> truthy (f_ownerConnector fs) \<or> Some (pe_ownerConnector e) = f_ownerConnector fs)
           (filter (\<lambda>e. \<not> truthy (f_system fs) \<or> Some (system_str (pe_system e)) = f_system fs)
             (filter (\<lambda>e. visibleTo e (f_tenantId fs)) (getEntries m)))))"

definition getEntry :: "registry \<Rightarrow> string \<Rightarrow> string option \<Rightarrow> pii_entry option" where
  "getEntry m resourceId tenantId =
     (case tenantId of
        Some _ \<Rightarrow> (case map_of m (keyOf tenantId resourceId) of
            Some e \<Rightarrow> Some e
          | None \<Rightarrow> map_of m (keyOf None resourceId))
      | None \<Rightarrow> (case map_of m (keyOf None resourceId) of
            Some e \<Rightarrow> Some e
          | None \<Rightarrow> find (\<lambda>e. pe_resourceId e = resourceId) (getEntries m)))"

definition findByLineageDestination :: "registry \<Rightarrow> string \<Rightarrow> pii_entry list" where
  "findByLineageDestination m destination =
     filter (\<lambda>e. pe_lineageDestination e = destination \<or> pe_resourceId e = destination) (getEntries m)"

text \<open>The persistence port.\<close>

record 's declaration_store =
  st_upsert :: "pii_entry \<Rightarrow> ('s, unit) eff"
  st_delete :: "string \<Rightarrow> string \<Rightarrow> ('s, unit) eff"
  st_advanceSyncWatermark :: "string \<Rightarrow> string \<Rightarrow> int \<Rightarrow> ('s, int option) eff"
  st_advanceLastSyncAttempt :: "(string \<Rightarrow> string \<Rightarrow> int \<Rightarrow> ('s, int option) eff) option"

text \<open>
  The state of this part of the vault: the service's entries, the declaration documents, the audit
  mirror, the statements BigQuery has run and the views in its datasets.
\<close>

record mirror_row =
  mr_tenant :: string
  mr_resource :: string
  mr_system :: string
  mr_classification :: string
  mr_handling :: string
  mr_strategy :: string
  mr_status :: string
  mr_owner :: string
  mr_notes :: "string option"
  mr_declared :: bool

record sql_job =
  job_query :: string
  job_params :: "(string \<times> string) list"

record pworld = rworld +
  registry :: registry
  decl_docs :: "(string \<times> pii_entry) list"
  mirror :: "mirror_row list"
  sql_jobs :: "sql_job list"
  bq_views :: "(string \<times> string) list"
  affected_rows :: "sql_job \<Rightarrow> nat option"

definition set_entry :: "string \<Rightarrow> pii_entry \<Rightarrow> ('z pworld_scheme, unit) eff" where
  "set_entry k e = modify (\<lambda>s. s\<lparr>registry := AList.update k e (registry s)\<rparr>)"

definition upsertEntry ::
  "'z pworld_scheme declaration_store option \<Rightarrow> pii_entry \<Rightarrow> ('z pworld_scheme, pii_entry) eff" where
  "upsertEntry store entry =
     (if pe_ownerConnector entry \<noteq> MANUAL_OWNER_CONNECTOR then
        throw (MutationErr ''Only manually declared entries can be written.'' IMMUTABLE_OWNER)
      else if \<not> truthy (pe_tenantId entry) then
        throw (MutationErr ''A manual entry must carry a tenantId.'' MISSING_TENANT)
      else
        bnd (case store of None \<Rightarrow> ret () | Some st \<Rightarrow> st_upsert st entry) (\<lambda>_.
        bnd (set_entry (keyOf (pe_tenantId entry) (pe_resourceId entry)) entry) (\<lambda>_.
        ret entry)))"

definition removeEntry ::
  "'z pworld_scheme declaration_store option \<Rightarrow> string \<Rightarrow> string \<Rightarrow> ('z pworld_scheme, bool) eff" where
  "removeEntry store resourceId tenantId =
     (let k = keyOf (Some tenantId) resourceId in
      bnd (gets (\<lambda>s. map_of (registry s) k)) (\<lambda>existing.
      case existing of
        None \<Rightarrow> ret False
      | Some e \<Rightarrow>
          if pe_ownerConnector e \<noteq> MANUAL_OWNER_CONNECTOR then
            throw (MutationErr ''Only manually declared entries can be removed.'' IMMUTABLE_OWNER)
          else
            bnd (case store of None \<Rightarrow> ret () | Some st \<Rightarrow> st_delete st tenantId resourceId) (\<lambda>_.
            bnd (modify (\<lambda>s. s\<lparr>registry := AList.delete k (registry s)\<rparr>)) (\<lambda>_.
            ret True))))"

text \<open>\<open>(await store?.advance(...)) ?? candidate\<close>\<close>

definition stored_or ::
  "('s, int option) eff option \<Rightarrow> int \<Rightarrow> ('s, int) eff" where
  "stored_or adv candidate =
     (case adv of
        None \<Rightarrow> ret candidate
      | Some m \<Rightarrow> bnd m (\<lambda>v. ret (case v of None \<Rightarrow> candidate | Some w \<Rightarrow> w)))"

definition mark_resource ::
  "('z pworld_scheme, int option) eff option \<Rightarrow> (int \<Rightarrow> pii_entry \<Rightarrow> pii_entry) \<Rightarrow>
   string \<Rightarrow> string \<Rightarrow> int \<Rightarrow> ('z pworld_scheme, pii_entry option) eff" where
  "mark_resource adv stamp resourceId tenantId candidate =
     (let k = keyOf (Some tenantId) resourceId in
      bnd (gets (\<lambda>s. map_of (registry s) k)) (\<lambda>existing.
      case existing of
        None \<Rightarrow> ret None
      | Some e \<Rightarrow>
          if pe_ownerConnector e \<noteq> MANUAL_OWNER_CONNECTOR then
            throw (MutationErr ''Only manually declared entries can be marked synced.'' IMMUTABLE_OWNER)
          else
            bnd (stored_or adv candidate) (\<lambda>stored.
            let updated = stamp stored e in
            bnd (set_entry k updated) (\<lambda>_. ret (Some updated)))))"

definition markResourceSynced ::
  "'z pworld_scheme declaration_store option \<Rightarrow> string \<Rightarrow> string \<Rightarrow> int \<Rightarrow> ('z pworld_scheme, pii_entry option) eff" where
  "markResourceSynced store resourceId tenantId candidate =
     mark_resource (map_option (\<lambda>st. st_advanceSyncWatermark st tenantId resourceId candidate) store)
       (\<lambda>stored e. e\<lparr>pe_lastSyncedAt := Some stored\<rparr>) resourceId tenantId candidate"

definition markResourceSyncAttempted ::
  "'z pworld_scheme declaration_store option \<Rightarrow> string \<Rightarrow> string \<Rightarrow> int \<Rightarrow> ('z pworld_scheme, pii_entry option) eff" where
  "markResourceSyncAttempted store resourceId tenantId candidate =
     mark_resource
       (case store of None \<Rightarrow> None
        | Some st \<Rightarrow> map_option (\<lambda>f. f tenantId resourceId candidate) (st_advanceLastSyncAttempt st))
       (\<lambda>stored e. e\<lparr>pe_lastSyncAttemptAt := Some stored\<rparr>) resourceId tenantId candidate"

section \<open>Policy\<close>

datatype issue_code =
    MISSING_TENANT_SCOPE | MISSING_USER_SCOPE | DIRECT_IDENTIFIER_IN_MART | MANUAL_REVIEW_REQUIRED | GHOST_SCAN_DISABLED

datatype severity = INFO | WARNING | ERROR

datatype policy_status = PASS | WARN | FAIL

record policy_issue =
  pi_code :: issue_code
  pi_severity :: severity
  pi_resourceId :: string
  pi_field :: "string option"

record policy_evaluation =
  pv_resourceId :: string
  pv_status :: policy_status
  pv_issues :: "policy_issue list"

definition issue :: "issue_code \<Rightarrow> severity \<Rightarrow> pii_entry \<Rightarrow> string option \<Rightarrow> policy_issue" where
  "issue c sv e f = \<lparr>pi_code = c, pi_severity = sv, pi_resourceId = pe_resourceId e, pi_field = f\<rparr>"

definition resource_name :: "string \<Rightarrow> string" where
  "resource_name resourceId =
     (let n = last (split_on CHR '':'' resourceId) in if n = [] then resourceId else n)"

definition is_mart :: "string \<Rightarrow> bool" where
  "is_mart name = (includesStr ''.mart_'' name \<or> startsWith ''mart_'' name)"

definition evaluateField :: "pii_entry \<Rightarrow> pii_field \<Rightarrow> bool \<Rightarrow> policy_issue list" where
  "evaluateField e f isMart =
     (if isMart \<and> pf_classification f = DIRECT_IDENTIFIER \<and> pf_handling f \<noteq> ALLOW_AGGREGATE_ONLY
      then [issue DIRECT_IDENTIFIER_IN_MART ERROR e (Some (pf_name f))] else []) @
     (if pf_handling f = H_MANUAL_REVIEW then [issue MANUAL_REVIEW_REQUIRED WARNING e (Some (pf_name f))] else [])"

definition evaluateEntry :: "pii_entry \<Rightarrow> policy_evaluation" where
  "evaluateEntry e =
     (let isMart = is_mart (resource_name (pe_resourceId e));
          issues =
            (if pe_system e = Bigquery \<and> \<not> truthy (pe_tenantIdColumn e)
             then [issue MISSING_TENANT_SCOPE ERROR e None] else []) @
            (if pe_deletionStrategy e = CRYPTO_SHRED \<and> \<not> truthy (pe_userIdColumn e)
             then [issue MISSING_USER_SCOPE ERROR e None] else []) @
            (if pe_deletionStrategy e = D_MANUAL_REVIEW
             then [issue MANUAL_REVIEW_REQUIRED WARNING e None] else []) @
            concat (map (\<lambda>f. evaluateField e f isMart) (pe_piiFields e)) @
            (if \<not> gs_enabled (pe_ghostDataScan e) then [issue GHOST_SCAN_DISABLED INFO e None] else [])
      in \<lparr>pv_resourceId = pe_resourceId e,
          pv_status = (if list_ex (\<lambda>i. pi_severity i = ERROR) issues then FAIL
                       else if list_ex (\<lambda>i. pi_severity i = WARNING) issues then WARN else PASS),
          pv_issues = issues\<rparr>)"

definition evaluateAll :: "registry \<Rightarrow> string option \<Rightarrow> policy_evaluation list" where
  "evaluateAll m tenantId = map evaluateEntry (listEntries m (no_filters\<lparr>f_tenantId := tenantId\<rparr>))"

definition needs_review :: "pii_entry \<Rightarrow> bool" where
  "needs_review e \<longleftrightarrow> pe_deletionStrategy e = D_MANUAL_REVIEW \<or> (\<exists>f \<in> set (pe_piiFields e). pf_handling f = H_MANUAL_REVIEW)"

definition breaks_policy :: "pii_entry \<Rightarrow> bool" where
  "breaks_policy e \<longleftrightarrow>
     pe_system e = Bigquery \<and> \<not> truthy (pe_tenantIdColumn e) \<or>
     pe_deletionStrategy e = CRYPTO_SHRED \<and> \<not> truthy (pe_userIdColumn e) \<or>
     is_mart (resource_name (pe_resourceId e)) \<and>
       (\<exists>f \<in> set (pe_piiFields e). pf_classification f = DIRECT_IDENTIFIER \<and> pf_handling f \<noteq> ALLOW_AGGREGATE_ONLY)"

lemma field_issue_severities:
  "(\<exists>i \<in> set (evaluateField e f m). pi_severity i = ERROR) \<longleftrightarrow>
     m \<and> pf_classification f = DIRECT_IDENTIFIER \<and> pf_handling f \<noteq> ALLOW_AGGREGATE_ONLY"
  "(\<exists>i \<in> set (evaluateField e f m). pi_severity i = WARNING) \<longleftrightarrow> pf_handling f = H_MANUAL_REVIEW"
  by (auto simp: evaluateField_def issue_def)

lemma some_issue:
  "(\<exists>i \<in> set (pv_issues (evaluateEntry e)). pi_severity i = ERROR) \<longleftrightarrow> breaks_policy e"
  "(\<exists>i \<in> set (pv_issues (evaluateEntry e)). pi_severity i = WARNING) \<longleftrightarrow> needs_review e"
  by (simp_all add: evaluateEntry_def Let_def breaks_policy_def needs_review_def bex_Un field_issue_severities
      issue_def if_distrib[where f = set] cong: if_cong) blast+

text \<open>
  The verdict of the policy evaluation is exactly: FAIL when a warehouse resource names no
  tenant column, a crypto-shredded one no user column, or a mart exposes a direct identifier that
  is not aggregate-only; otherwise WARN when something in it asks for manual review; otherwise PASS.
  A missing ghost-data scan alone never changes the verdict.
\<close>

theorem policy_verdict:
  "pv_status (evaluateEntry e) = (if breaks_policy e then FAIL else if needs_review e then WARN else PASS)"
proof -
  have "pv_status (evaluateEntry e) =
    (if \<exists>i \<in> set (pv_issues (evaluateEntry e)). pi_severity i = ERROR then FAIL
     else if \<exists>i \<in> set (pv_issues (evaluateEntry e)). pi_severity i = WARNING then WARN else PASS)"
    unfolding evaluateEntry_def Let_def by (simp only: policy_evaluation.simps list_ex_iff)
  then show ?thesis unfolding some_issue .
qed

section \<open>Keys\<close>

text \<open>
  \<open>keyOf\<close> joins tenant and resource without escaping: it tells two tenants apart when neither
  identifier holds a colon or is the global scope \<open>*\<close>, and not otherwise.
\<close>

definition safe_tenant :: "string option \<Rightarrow> bool" where
  "safe_tenant t = (case t of None \<Rightarrow> True | Some x \<Rightarrow> CHR '':'' \<notin> set x \<and> x \<noteq> ''*'')"

lemma takeWhile_key: "CHR '':'' \<notin> set x \<Longrightarrow> takeWhile (\<lambda>c. c \<noteq> CHR '':'') (x @ CHR '':'' # r) = x"
  by (induction x) auto

lemma keyOf_inject:
  assumes "safe_tenant t" and "safe_tenant u"
  shows "keyOf t r = keyOf u q \<longleftrightarrow> t = u \<and> r = q"
proof
  assume eq: "keyOf t r = keyOf u q"
  let ?n = "\<lambda>t. case t of None \<Rightarrow> ''*'' | Some x \<Rightarrow> x"
  have tw: "takeWhile (\<lambda>c. c \<noteq> CHR '':'') (keyOf t r) = ?n t" "takeWhile (\<lambda>c. c \<noteq> CHR '':'') (keyOf u q) = ?n u"
    using assms by (auto simp: keyOf_def safe_tenant_def takeWhile_key split: option.splits)
  with eq have n: "?n t = ?n u" by simp
  with assms have "t = u" by (auto simp: safe_tenant_def split: option.splits)
  with eq n show "t = u \<and> r = q" by (auto simp: keyOf_def)
qed simp

lemma keyOf_collides:
  "keyOf (Some ''a::b'') ''c:d'' = keyOf (Some ''a'') ''b::c:d''"
  "keyOf (Some ''*'') r = keyOf None r"
  by (simp_all add: keyOf_def)

section \<open>The registry invariant\<close>

definition registry_ok :: "registry \<Rightarrow> bool" where
  "registry_ok m \<longleftrightarrow> distinct (map fst m) \<and>
     (\<forall>(k, e) \<in> set m. k = keyOf (pe_tenantId e) (pe_resourceId e) \<and> safe_tenant (pe_tenantId e))"

lemma set_update_cases: "(k', v') \<in> set (AList.update k v al) \<Longrightarrow> k' = k \<and> v' = v \<or> (k', v') \<in> set al"
  by (induction al) (auto split: if_splits)

lemma set_delete_cases: "(k', v') \<in> set (AList.delete k al) \<Longrightarrow> k' \<noteq> k \<and> (k', v') \<in> set al"
  by (auto simp: AList.delete_eq)

lemma registry_ok_update:
  assumes "registry_ok m" and "safe_tenant (pe_tenantId e)" and "k = keyOf (pe_tenantId e) (pe_resourceId e)"
  shows "registry_ok (AList.update k e m)"
  using assms unfolding registry_ok_def by (auto simp: distinct_update dest: set_update_cases)

lemma registry_ok_delete: "registry_ok m \<Longrightarrow> registry_ok (AList.delete k m)"
  unfolding registry_ok_def by (auto simp: distinct_delete dest: set_delete_cases)

lemma registry_ok_lookup:
  assumes "registry_ok m" and "map_of m k = Some e"
  shows "k = keyOf (pe_tenantId e) (pe_resourceId e) \<and> safe_tenant (pe_tenantId e) \<and> e \<in> set (getEntries m)"
  using assms unfolding registry_ok_def getEntries_def by (force dest: map_of_SomeD)

lemma registry_ok_new:
  assumes "\<forall>e \<in> set es. safe_tenant (pe_tenantId e)"
  shows "registry_ok (newRegistry es)"
proof -
  have "registry_ok m \<Longrightarrow> \<forall>e \<in> set es. safe_tenant (pe_tenantId e) \<Longrightarrow>
    registry_ok (foldl (\<lambda>m e. AList.update (keyOf (pe_tenantId e) (pe_resourceId e)) e m) m es)" for m
    by (induction es arbitrary: m) (auto intro: registry_ok_update)
  from this[of "[]"] assms show ?thesis unfolding newRegistry_def by (simp add: registry_ok_def[of "[]"])
qed

lemma listEntries_sub: "e \<in> set (listEntries m fs) \<Longrightarrow> e \<in> set (getEntries m) \<and> visibleTo e (f_tenantId fs)"
  by (auto simp: listEntries_def)

lemma listEntries_owner:
  "f_ownerConnector fs = Some c \<Longrightarrow> c \<noteq> [] \<Longrightarrow> e \<in> set (listEntries m fs) \<Longrightarrow> pe_ownerConnector e = c"
  by (auto simp: listEntries_def truthy_def)

lemma visible_tenant: "visibleTo e (Some t) \<longleftrightarrow> pe_tenantId e = None \<or> pe_tenantId e = Some t"
  by (simp add: visibleTo_def)

lemma getEntry_visible:
  assumes ok: "registry_ok m" and t: "safe_tenant (Some t)" and g: "getEntry m r (Some t) = Some e"
  shows "(pe_tenantId e = Some t \<or> pe_tenantId e = None) \<and> pe_resourceId e = r"
proof -
  obtain u where u: "u = Some t \<or> u = None" and k: "map_of m (keyOf u r) = Some e"
    using g by (auto simp: getEntry_def split: option.splits)
  from registry_ok_lookup[OF ok k] have "keyOf u r = keyOf (pe_tenantId e) (pe_resourceId e)" "safe_tenant (pe_tenantId e)"
    by auto
  moreover have "safe_tenant u" using u t by (auto simp: safe_tenant_def)
  ultimately have "u = pe_tenantId e" "r = pe_resourceId e"
    using keyOf_inject[of u "pe_tenantId e" r "pe_resourceId e"] by simp_all
  with u show ?thesis by auto
qed

lemma getEntry_other_tenant:
  assumes "safe_tenant (Some t)" and "safe_tenant (Some t')" and "t \<noteq> t'"
    and "\<And>k. k \<noteq> keyOf (Some t) r \<Longrightarrow> map_of m' k = map_of m k"
  shows "getEntry m' r' (Some t') = getEntry m r' (Some t')"
proof -
  have "keyOf (Some t') r' \<noteq> keyOf (Some t) r" "keyOf None r' \<noteq> keyOf (Some t) r"
    using assms(1-3) keyOf_inject[of "Some t'" "Some t" r' r] keyOf_inject[of None "Some t" r' r]
    by (auto simp: safe_tenant_def)
  from this[THEN assms(4)] show ?thesis unfolding getEntry_def option.case by presburger
qed

section \<open>What the service relies on from its store\<close>

text \<open>
  The port: no operation of the store touches the entries in memory, and an advance that returns
  answers an instant at least as late as the one it was given.
\<close>

locale declaration_port =
  fixes store :: "'z pworld_scheme declaration_store"
  assumes quiet_upsert: "keeps (\<lambda>s. registry s = m) (st_upsert store e)"
    and quiet_delete: "keeps (\<lambda>s. registry s = m) (st_delete store t r)"
    and quiet_watermark: "keeps (\<lambda>s. registry s = m) (st_advanceSyncWatermark store t r c)"
    and quiet_attempt: "st_advanceLastSyncAttempt store = Some f \<Longrightarrow> keeps (\<lambda>s. registry s = m) (f t r c)"
    and later_watermark: "st_advanceSyncWatermark store t r c s = (Inr v, s') \<Longrightarrow> \<exists>w. v = Some w \<and> c \<le> w"
begin

lemma upsert_cases:
  assumes "upsertEntry (Some store) e s = (res, s')"
  shows "(\<exists>x. res = Inl x) \<and> registry s' = registry s \<or>
    res = Inr e \<and> pe_ownerConnector e = MANUAL_OWNER_CONNECTOR \<and> truthy (pe_tenantId e) \<and>
      registry s' = AList.update (keyOf (pe_tenantId e) (pe_resourceId e)) e (registry s)"
proof (cases "pe_ownerConnector e = MANUAL_OWNER_CONNECTOR \<and> truthy (pe_tenantId e)")
  case True
  obtain r u where st: "st_upsert store e s = (r, u)" by fastforce
  from keepsE[OF quiet_upsert refl st] have "registry u = registry s" .
  with assms True st show ?thesis
    by (cases r) (auto simp: upsertEntry_def bnd_apply set_entry_def)
next
  case False
  with assms show ?thesis by (auto simp: upsertEntry_def split: if_splits)
qed

lemma remove_cases:
  assumes "removeEntry (Some store) r t s = (res, s')"
  shows "res \<noteq> Inr True \<and> registry s' = registry s \<or>
    res = Inr True \<and> registry s' = AList.delete (keyOf (Some t) r) (registry s)"
proof (cases "\<exists>e. map_of (registry s) (keyOf (Some t) r) = Some e \<and> pe_ownerConnector e = MANUAL_OWNER_CONNECTOR")
  case True
  then obtain e where e: "map_of (registry s) (keyOf (Some t) r) = Some e" "pe_ownerConnector e = MANUAL_OWNER_CONNECTOR"
    by blast
  obtain x u where st: "st_delete store t r s = (x, u)" by fastforce
  from keepsE[OF quiet_delete refl st] have "registry u = registry s" .
  with assms e st show ?thesis
    by (cases x) (auto simp: removeEntry_def Let_def bnd_apply)
next
  case False
  with assms show ?thesis
    by (auto simp: removeEntry_def Let_def split: option.splits if_splits)
qed

lemma synced_cases:
  assumes "markResourceSynced (Some store) r t c s = (res, s')"
  shows "(res = Inr None \<or> (\<exists>x. res = Inl x)) \<and> registry s' = registry s \<or>
    (\<exists>e w. map_of (registry s) (keyOf (Some t) r) = Some e \<and> c \<le> w \<and> res = Inr (Some (e\<lparr>pe_lastSyncedAt := Some w\<rparr>)) \<and>
       registry s' = AList.update (keyOf (Some t) r) (e\<lparr>pe_lastSyncedAt := Some w\<rparr>) (registry s))"
proof (cases "\<exists>e. map_of (registry s) (keyOf (Some t) r) = Some e \<and> pe_ownerConnector e = MANUAL_OWNER_CONNECTOR")
  case True
  then obtain e where e: "map_of (registry s) (keyOf (Some t) r) = Some e" "pe_ownerConnector e = MANUAL_OWNER_CONNECTOR"
    by blast
  obtain x u where st: "st_advanceSyncWatermark store t r c s = (x, u)" by fastforce
  from keepsE[OF quiet_watermark refl st] have u: "registry u = registry s" .
  show ?thesis
  proof (cases x)
    case (Inl y)
    with assms e st u show ?thesis
      by (auto simp: markResourceSynced_def mark_resource_def stored_or_def Let_def bnd_apply)
  next
    case (Inr v)
    with later_watermark st obtain w where "v = Some w" "c \<le> w" by blast
    with assms e st u Inr show ?thesis
      by (auto simp: markResourceSynced_def mark_resource_def stored_or_def Let_def bnd_apply set_entry_def)
  qed
next
  case False
  with assms show ?thesis
    by (auto simp: markResourceSynced_def mark_resource_def Let_def split: option.splits if_splits)
qed

lemma upsert_ok:
  assumes "registry_ok (registry s)" and "safe_tenant (pe_tenantId e)" and "upsertEntry (Some store) e s = (res, s')"
  shows "registry_ok (registry s')"
  using upsert_cases[OF assms(3)] assms(1,2) registry_ok_update by auto

lemma remove_ok:
  assumes "registry_ok (registry s)" and "removeEntry (Some store) r t s = (res, s')"
  shows "registry_ok (registry s')"
  using remove_cases[OF assms(2)] assms(1) registry_ok_delete by auto

lemma synced_ok:
  assumes "registry_ok (registry s)" and "markResourceSynced (Some store) r t c s = (res, s')"
  shows "registry_ok (registry s')"
  using synced_cases[OF assms(2)] assms(1) registry_ok_lookup[OF assms(1)]
  by (auto intro!: registry_ok_update)

end

end
