(* ===== verification/Dates.thy ===== *)
theory Dates
  imports Prelude
begin

text \<open>
  Calendar dates of instants (milliseconds since 1970, UTC), as \<open>Date\<close> gives them: what
  \<open>toISOString().slice(0, 10)\<close> and the year, month and day of a storage path need.
\<close>

definition civil_of_days :: "int \<Rightarrow> int \<times> int \<times> int" where
  "civil_of_days days =
     (let z = days + 719468; era = z div 146097; doe = z mod 146097;
          yoe = (doe - doe div 1460 + doe div 36524 - doe div 146096) div 365;
          doy = doe - (365 * yoe + yoe div 4 - yoe div 100);
          mp = (5 * doy + 2) div 153;
          d = doy - (153 * mp + 2) div 5 + 1;
          m = (if mp < 10 then mp + 3 else mp - 9);
          y = yoe + era * 400 + (if m \<le> 2 then 1 else 0)
      in (y, m, d))"

definition civil_of :: "int \<Rightarrow> int \<times> int \<times> int" where
  "civil_of t = civil_of_days (t div 86400000)"

definition padStart :: "nat \<Rightarrow> int \<Rightarrow> string" where
  "padStart n v = (let ds = nat_str (nat v) in replicate (n - length ds) CHR ''0'' @ ds)"

definition isoDay :: "int \<Rightarrow> string" where
  "isoDay t = (case civil_of t of (y, m, d) \<Rightarrow> padStart 4 y @ ''-'' @ padStart 2 m @ ''-'' @ padStart 2 d)"

text \<open>\<open>toISOString()\<close>\<close>

definition isoString :: "int \<Rightarrow> string" where
  "isoString t =
     (let ms = t mod 86400000 in
      isoDay t @ ''T'' @ padStart 2 (ms div 3600000) @ '':'' @ padStart 2 (ms div 60000 mod 60) @ '':'' @
      padStart 2 (ms div 1000 mod 60) @ ''.'' @ padStart 3 (ms mod 1000) @ ''Z'')"

lemma civil_examples:
  "civil_of 0 = (1970, 1, 1)" "civil_of 951782400000 = (2000, 2, 29)" "civil_of (1767225599999) = (2025, 12, 31)"
  by code_simp+

end
