(* ===== verification/PiiDeclare.thy ===== *)
theory PiiDeclare
  imports PiiRegistry Dates
begin

text \<open>
  Declaring a resource: \<open>src/services/pii-registry-validation.ts\<close> (the request body to a registry
  entry), \<open>src/gcp/pii-registry-declaration-repository.ts\<close> (the Firestore documents, written with
  \<open>merge\<close>) and \<open>src/gcp/pii-registry-audit-mirror.ts\<close> (the best-effort audit rows). The Firestore
  repository is the declaration port of the service: the locale of \<open>PiiRegistry\<close> is interpreted here.
\<close>

section \<open>Request bodies\<close>

text \<open>
  A body is untyped: a value of an enumeration is the member, or \<open>None\<close> for any other (truthy)
  value; an optional one adds a level for \<open>undefined\<close>. An array is its elements, or a value that is
  not an array with its truth value and its \<open>length\<close>.
\<close>

datatype 'a list_input = Missing | NotArray bool nat | Elements "'a list"

record field_input =
  fi_name :: "string option"
  fi_classification :: "pii_classification option"
  fi_handling :: "pii_handling option"
  fi_requiredInMart :: bool

record declaration_input =
  di_resourceId :: "string option"
  di_system :: "pii_system option"
  di_resourceLayer :: "resource_layer option option"
  di_visibility :: "visibility option option"
  di_tenantIdColumn :: "string option"
  di_userIdColumn :: "string option"
  di_allowedCaller :: "string option"
  di_userIdFieldPath :: "string option"
  di_updatedAtColumn :: "string option"
  di_piiFields :: "field_input list option"
  di_deletionStrategy :: "deletion_strategy option option"
  di_sourceRedactionStrategy :: "redaction_strategy option option"
  di_sourceRedactionStrategies :: "redaction_strategy option list_input"
  di_scanEnabled :: "bool option"
  di_scanMode :: "scan_mode option option"
  di_scanPatterns :: "string list option"
  di_status :: "entry_status option option"
  di_notes :: "string option"

datatype declaration_error =
    E_TENANT | E_RESOURCE | E_RESOURCE_FORM | E_SYSTEM | E_LAYER | E_VISIBILITY | E_DELETION
  | E_REDACTION | E_REDACTION_ARRAY | E_REDACTION_ITEM nat | E_USER_COLUMN | E_SAME_COLUMN
  | E_CALLER | E_USER_PATH | E_STATUS | E_FIELDS | E_FIELD_NAME nat | E_FIELD_CLASS nat
  | E_FIELD_HANDLING nat | E_SCAN_MODE

definition SYSTEMS :: "pii_system list" where
  "SYSTEMS = [Bigquery, Gcs, Firestore, Log, Hubspot, Salesforce, External, Pubsub]"

definition ARRAY_STRATEGIES :: "redaction_strategy list" where
  "ARRAY_STRATEGIES = [REDACT_IN_PLACE, SHADOW_COPY, ENCRYPTED_COPY]"

definition isNonEmptyString :: "string option \<Rightarrow> bool" where
  "isNonEmptyString v = (case v of None \<Rightarrow> False | Some x \<Rightarrow> trim x \<noteq> [])"

text \<open>\<open>/^[a-z]+:[^\s]+$/\<close>\<close>

definition resource_form :: "string \<Rightarrow> bool" where
  "resource_form r =
     (let p = takeWhile is_lower r; q = dropWhile is_lower r in
      p \<noteq> [] \<and> q \<noteq> [] \<and> hd q = CHR '':'' \<and> tl q \<noteq> [] \<and> list_all (\<lambda>c. \<not> is_space c) (tl q))"

definition bad :: "'a option option \<Rightarrow> bool" where
  "bad v = (v = Some None)"

definition value_or :: "'a option option \<Rightarrow> 'a \<Rightarrow> 'a" where
  "value_or v d = (case v of Some (Some x) \<Rightarrow> x | _ \<Rightarrow> d)"

definition requested_strategies :: "declaration_input \<Rightarrow> redaction_strategy option list" where
  "requested_strategies i =
     (let legacy = (case di_sourceRedactionStrategy i of
            None \<Rightarrow> [] | Some st \<Rightarrow> if st = Some NONE then [] else [st])
      in case di_sourceRedactionStrategies i of
           Missing \<Rightarrow> legacy
         | NotArray tr n \<Rightarrow> if tr then replicate n None else legacy
         | Elements xs \<Rightarrow> xs)"

definition field_errors :: "nat \<times> field_input \<Rightarrow> declaration_error list" where
  "field_errors nf = (case nf of (n, f) \<Rightarrow>
     (if \<not> isNonEmptyString (fi_name f) then [E_FIELD_NAME n] else []) @
     (if fi_classification f = None then [E_FIELD_CLASS n] else []) @
     (if fi_handling f = None then [E_FIELD_HANDLING n] else []))"

definition strategy_errors :: "redaction_strategy option list_input \<Rightarrow> declaration_error list" where
  "strategy_errors v =
     (case v of
        Missing \<Rightarrow> []
      | NotArray _ _ \<Rightarrow> [E_REDACTION_ARRAY]
      | Elements xs \<Rightarrow> concat (map (\<lambda>(n, st). if st \<in> Some ` set ARRAY_STRATEGIES then [] else [E_REDACTION_ITEM n])
                                (List.enumerate 0 xs)))"

definition declaration_errors :: "declaration_input \<Rightarrow> string \<Rightarrow> declaration_error list" where
  "declaration_errors i tenantId =
     (if \<not> isNonEmptyString (Some tenantId) then [E_TENANT] else []) @
     (if \<not> isNonEmptyString (di_resourceId i) then [E_RESOURCE]
      else if \<not> resource_form (the (di_resourceId i)) then [E_RESOURCE_FORM] else []) @
     (if di_system i \<notin> Some ` set SYSTEMS then [E_SYSTEM] else []) @
     (if bad (di_resourceLayer i) then [E_LAYER] else []) @
     (if bad (di_visibility i) then [E_VISIBILITY] else []) @
     (if bad (di_deletionStrategy i) then [E_DELETION] else []) @
     (if bad (di_sourceRedactionStrategy i) then [E_REDACTION] else []) @
     strategy_errors (di_sourceRedactionStrategies i) @
     (if requested_strategies i \<noteq> [] \<and> \<not> isNonEmptyString (di_userIdColumn i) then [E_USER_COLUMN] else []) @
     (if isNonEmptyString (di_userIdColumn i) \<and> isNonEmptyString (di_tenantIdColumn i) \<and>
         di_userIdColumn i = di_tenantIdColumn i then [E_SAME_COLUMN] else []) @
     (if di_system i = Some Pubsub \<and> \<not> isNonEmptyString (di_allowedCaller i) then [E_CALLER] else []) @
     (if di_system i = Some Pubsub \<and> \<not> isNonEmptyString (di_userIdFieldPath i) then [E_USER_PATH] else []) @
     (if bad (di_status i) then [E_STATUS] else []) @
     (case di_piiFields i of
        None \<Rightarrow> [E_FIELDS]
      | Some fs \<Rightarrow> if fs = [] then [E_FIELDS] else concat (map field_errors (List.enumerate 0 fs))) @
     (if bad (di_scanMode i) then [E_SCAN_MODE] else [])"

definition declared_field :: "field_input \<Rightarrow> pii_field" where
  "declared_field f =
     \<lparr>pf_name = the (fi_name f), pf_classification = the (fi_classification f), pf_handling = the (fi_handling f),
      pf_requiredInMart = fi_requiredInMart f, pf_evidence = Some [''console:manual-declaration''],
      pf_confidence = Some DECLARED, pf_surrogateId = None\<rparr>"

definition manual_entry ::
  "declaration_input \<Rightarrow> string \<Rightarrow> int \<Rightarrow> pii_entry option \<Rightarrow> string option \<Rightarrow> pii_entry" where
  "manual_entry i tenantId t existing actorEmail =
     \<lparr>pe_registryVersion = isoDay t,
      pe_resourceId = the (di_resourceId i),
      pe_system = the (di_system i),
      pe_resourceLayer = (case di_resourceLayer i of None \<Rightarrow> None | Some l \<Rightarrow> l),
      pe_visibility = Some (value_or (di_visibility i) CUSTOMER_FACING),
      pe_tenantIdColumn = di_tenantIdColumn i,
      pe_userIdColumn = di_userIdColumn i,
      pe_allowedCaller = di_allowedCaller i,
      pe_userIdFieldPath = di_userIdFieldPath i,
      pe_updatedAtColumn = di_updatedAtColumn i,
      pe_lastSyncedAt = None,
      pe_lastSyncAttemptAt = None,
      pe_piiFields = map declared_field (the (di_piiFields i)),
      pe_ownerConnector = MANUAL_OWNER_CONNECTOR,
      pe_lineageDestination = the (di_resourceId i),
      pe_deletionStrategy = value_or (di_deletionStrategy i) CRYPTO_SHRED,
      pe_sourceRedactionStrategy = Some (value_or (di_sourceRedactionStrategy i) NONE),
      pe_sourceRedactionStrategies = Some (map the (requested_strategies i)),
      pe_ghostDataScan =
        \<lparr>gs_enabled = (case di_scanEnabled i of None \<Rightarrow> True | Some b \<Rightarrow> b),
         gs_scanMode = value_or (di_scanMode i) SCAN_SAMPLED,
         gs_patterns = (case di_scanPatterns i of None \<Rightarrow> [''EMAIL'', ''PHONE'', ''NAME''] | Some ps \<Rightarrow> ps)\<rparr>,
      pe_handlingPolicy = ''manual_declaration'',
      pe_evidencePointers = [''console:manual-declaration''],
      pe_notes = di_notes i,
      pe_tenantId = Some tenantId,
      pe_status = Some (value_or (di_status i) PENDING_REVIEW),
      pe_createdAt = (case Option.bind existing pe_createdAt of Some c \<Rightarrow> Some c | None \<Rightarrow> Some t),
      pe_updatedAt = Some t,
      pe_declaredBy = (case Option.bind existing pe_declaredBy of Some d \<Rightarrow> Some d | None \<Rightarrow> actorEmail),
      pe_lastModifiedBy = actorEmail\<rparr>"

definition buildManualEntry ::
  "declaration_input \<Rightarrow> string \<Rightarrow> int \<Rightarrow> pii_entry option \<Rightarrow> string option \<Rightarrow> declaration_error list + pii_entry" where
  "buildManualEntry i tenantId t existing actorEmail =
     (let errors = declaration_errors i tenantId in
      if errors \<noteq> [] then Inl errors else Inr (manual_entry i tenantId t existing actorEmail))"

section \<open>The audit mirror\<close>

definition classification_str :: "pii_classification \<Rightarrow> string" where
  "classification_str c = (case c of DIRECT_IDENTIFIER \<Rightarrow> ''DIRECT_IDENTIFIER'' | QUASI_IDENTIFIER \<Rightarrow> ''QUASI_IDENTIFIER''
     | CONTACT \<Rightarrow> ''CONTACT'' | SENSITIVE \<Rightarrow> ''SENSITIVE'' | BEHAVIORAL \<Rightarrow> ''BEHAVIORAL''
     | SYSTEM_IDENTIFIER \<Rightarrow> ''SYSTEM_IDENTIFIER'')"

definition handling_str :: "pii_handling \<Rightarrow> string" where
  "handling_str h = (case h of ENCRYPT \<Rightarrow> ''ENCRYPT'' | TOKENIZE \<Rightarrow> ''TOKENIZE'' | REDACT \<Rightarrow> ''REDACT''
     | HASH_SURROGATE \<Rightarrow> ''HASH_SURROGATE'' | ALLOW_AGGREGATE_ONLY \<Rightarrow> ''ALLOW_AGGREGATE_ONLY''
     | H_MANUAL_REVIEW \<Rightarrow> ''MANUAL_REVIEW'')"

definition deletion_str :: "deletion_strategy \<Rightarrow> string" where
  "deletion_str d = (case d of CRYPTO_SHRED \<Rightarrow> ''CRYPTO_SHRED'' | DELETE_ROWS \<Rightarrow> ''DELETE_ROWS''
     | REDACT_FIELDS \<Rightarrow> ''REDACT_FIELDS'' | EXTERNAL_WIPE \<Rightarrow> ''EXTERNAL_WIPE'' | D_MANUAL_REVIEW \<Rightarrow> ''MANUAL_REVIEW'')"

definition entry_status_str :: "entry_status \<Rightarrow> string" where
  "entry_status_str st = (case st of APPROVED \<Rightarrow> ''APPROVED'' | PENDING_REVIEW \<Rightarrow> ''PENDING_REVIEW''
     | DEPRECATED \<Rightarrow> ''DEPRECATED'' | DISABLED \<Rightarrow> ''DISABLED'')"

definition CLASSIFICATION_SEVERITY :: "pii_classification list" where
  "CLASSIFICATION_SEVERITY = [DIRECT_IDENTIFIER, SENSITIVE, CONTACT, QUASI_IDENTIFIER, BEHAVIORAL, SYSTEM_IDENTIFIER]"

definition representativeClassification :: "pii_entry \<Rightarrow> string" where
  "representativeClassification e =
     (case find (\<lambda>c. list_ex (\<lambda>f. pf_classification f = c) (pe_piiFields e)) CLASSIFICATION_SEVERITY of
        Some c \<Rightarrow> classification_str c
      | None \<Rightarrow> ''PII'')"

definition representativeHandling :: "pii_entry \<Rightarrow> string" where
  "representativeHandling e =
     (case remdups (map pf_handling (pe_piiFields e)) of [h] \<Rightarrow> handling_str h | _ \<Rightarrow> ''MIXED'')"

definition insert_row :: "mirror_row \<Rightarrow> ('z pworld_scheme, unit) eff" where
  "insert_row r = swallow (rwrite (\<lambda>s. s\<lparr>mirror := mirror s @ [r]\<rparr>))"

definition record_declaration :: "pii_entry \<Rightarrow> ('z pworld_scheme, unit) eff" where
  "record_declaration e =
     (if \<not> truthy (pe_tenantId e) then ret ()
      else insert_row
        \<lparr>mr_tenant = the (pe_tenantId e), mr_resource = pe_resourceId e, mr_system = system_str (pe_system e),
         mr_classification = representativeClassification e, mr_handling = representativeHandling e,
         mr_strategy = deletion_str (pe_deletionStrategy e),
         mr_status = (case pe_status e of None \<Rightarrow> ''PENDING_REVIEW'' | Some st \<Rightarrow> entry_status_str st),
         mr_owner = pe_ownerConnector e, mr_notes = pe_notes e, mr_declared = True\<rparr>)"

definition recordDeletion :: "string \<Rightarrow> string \<Rightarrow> ('z pworld_scheme, unit) eff" where
  "recordDeletion tenantId resourceId =
     insert_row
       \<lparr>mr_tenant = tenantId, mr_resource = resourceId, mr_system = ''external'', mr_classification = ''PII'',
        mr_handling = ''MANUAL_REVIEW'', mr_strategy = ''MANUAL_REVIEW'', mr_status = ''DEPRECATED'',
        mr_owner = ''manual'', mr_notes = Some ''Declaration removed via Console.'', mr_declared = False\<rparr>"

section \<open>The Firestore documents\<close>

definition is_unreserved :: "char \<Rightarrow> bool" where
  "is_unreserved c = (is_lower c \<or> is_upper c \<or> is_digit c \<or> c \<in> set ''-_.!~*'' \<or> c = CHR 0x27 \<or> c \<in> set ''()'')"

definition hex_digit :: "nat \<Rightarrow> char" where
  "hex_digit n = (if n < 10 then char_of (48 + n) else char_of (55 + n))"

definition encodeURIComponent :: "string \<Rightarrow> string" where
  "encodeURIComponent s =
     concat (map (\<lambda>c. if is_unreserved c then [c]
        else [CHR ''%'', hex_digit (char_code c div 16), hex_digit (char_code c mod 16)]) s)"

definition docId :: "string \<Rightarrow> string \<Rightarrow> string" where
  "docId tenantId resourceId = tenantId @ '':'' @ encodeURIComponent resourceId"

text \<open>
  \<open>set(payload, \{merge: true\})\<close> where undefined properties are left out: an absent optional field
  keeps what the document had, apart from the three that the payload deletes explicitly.
\<close>

definition merge_opt :: "'a option \<Rightarrow> 'a option \<Rightarrow> 'a option" where
  "merge_opt v old = (case v of None \<Rightarrow> old | Some _ \<Rightarrow> v)"

definition merge_entry :: "pii_entry \<Rightarrow> pii_entry option \<Rightarrow> pii_entry" where
  "merge_entry e old =
     (let keep = (\<lambda>(f :: pii_entry \<Rightarrow> string option). merge_opt (f e) (Option.bind old f));
          incremental = truthy (pe_updatedAtColumn e)
      in e\<lparr>
        pe_resourceLayer := merge_opt (pe_resourceLayer e) (Option.bind old pe_resourceLayer),
        pe_visibility := merge_opt (pe_visibility e) (Option.bind old pe_visibility),
        pe_tenantIdColumn := keep pe_tenantIdColumn,
        pe_userIdColumn := keep pe_userIdColumn,
        pe_allowedCaller := keep pe_allowedCaller,
        pe_userIdFieldPath := keep pe_userIdFieldPath,
        pe_updatedAtColumn := (if incremental then pe_updatedAtColumn e else None),
        pe_lastSyncedAt := (if incremental then merge_opt (pe_lastSyncedAt e) (Option.bind old pe_lastSyncedAt) else None),
        pe_lastSyncAttemptAt := merge_opt (pe_lastSyncAttemptAt e) (Option.bind old pe_lastSyncAttemptAt),
        pe_sourceRedactionStrategy := merge_opt (pe_sourceRedactionStrategy e) (Option.bind old pe_sourceRedactionStrategy),
        pe_sourceRedactionStrategies := merge_opt (pe_sourceRedactionStrategies e) (Option.bind old pe_sourceRedactionStrategies),
        pe_notes := keep pe_notes,
        pe_status := merge_opt (pe_status e) (Option.bind old pe_status),
        pe_createdAt := merge_opt (pe_createdAt e) (Option.bind old pe_createdAt),
        pe_updatedAt := merge_opt (pe_updatedAt e) (Option.bind old pe_updatedAt),
        pe_declaredBy := keep pe_declaredBy,
        pe_lastModifiedBy := (if truthy (pe_lastModifiedBy e) then pe_lastModifiedBy e else None)\<rparr>)"

definition decl_of :: "string \<Rightarrow> string \<Rightarrow> 'z pworld_scheme \<Rightarrow> pii_entry option" where
  "decl_of tenantId resourceId s = map_of (decl_docs s) (docId tenantId resourceId)"

definition put_decl :: "string \<Rightarrow> string \<Rightarrow> pii_entry \<Rightarrow> 'z pworld_scheme \<Rightarrow> 'z pworld_scheme" where
  "put_decl tenantId resourceId e s = s\<lparr>decl_docs := AList.update (docId tenantId resourceId) e (decl_docs s)\<rparr>"

definition loadAll :: "('z pworld_scheme, pii_entry list) eff" where
  "loadAll = catch (rread (\<lambda>s. map snd (decl_docs s))) (\<lambda>_. ret [])"

text \<open>The repository: \<open>mirrored\<close> says whether an audit mirror was configured.\<close>

definition repo_upsert :: "bool \<Rightarrow> pii_entry \<Rightarrow> ('z pworld_scheme, unit) eff" where
  "repo_upsert mirrored e =
     (if \<not> truthy (pe_tenantId e) then throw (Err ''Cannot persist a declaration without a tenantId.'')
      else
        (let t = the (pe_tenantId e); r = pe_resourceId e in
         bnd (rwrite (\<lambda>s. put_decl t r (merge_entry e (decl_of t r s)) s)) (\<lambda>_.
         if mirrored then record_declaration e else ret ())))"

definition repo_delete :: "bool \<Rightarrow> string \<Rightarrow> string \<Rightarrow> ('z pworld_scheme, unit) eff" where
  "repo_delete mirrored tenantId resourceId =
     bnd (rwrite (\<lambda>s. s\<lparr>decl_docs := AList.delete (docId tenantId resourceId) (decl_docs s)\<rparr>)) (\<lambda>_.
     if mirrored then recordDeletion tenantId resourceId else ret ())"

definition advance ::
  "(pii_entry \<Rightarrow> int option) \<Rightarrow> (int \<Rightarrow> pii_entry \<Rightarrow> pii_entry) \<Rightarrow> string \<Rightarrow>
   string \<Rightarrow> string \<Rightarrow> int \<Rightarrow> ('z pworld_scheme, int option) eff" where
  "advance get put what tenantId resourceId candidate =
     rtxn (\<lambda>s. case decl_of tenantId resourceId s of
         None \<Rightarrow> (Inl (Err (''No declaration found for '' @ resourceId @ '' (tenant '' @ tenantId @ '') to mark '' @ what @ ''.'')), s)
       | Some d \<Rightarrow>
           (case get d of
              Some current \<Rightarrow>
                if current \<ge> candidate then (Inr (Some current), s)
                else (Inr (Some candidate), put_decl tenantId resourceId (put candidate d) s)
            | None \<Rightarrow> (Inr (Some candidate), put_decl tenantId resourceId (put candidate d) s)))"

definition advanceSyncWatermark :: "string \<Rightarrow> string \<Rightarrow> int \<Rightarrow> ('z pworld_scheme, int option) eff" where
  "advanceSyncWatermark = advance pe_lastSyncedAt (\<lambda>c d. d\<lparr>pe_lastSyncedAt := Some c\<rparr>) ''synced''"

definition advanceLastSyncAttempt :: "string \<Rightarrow> string \<Rightarrow> int \<Rightarrow> ('z pworld_scheme, int option) eff" where
  "advanceLastSyncAttempt = advance pe_lastSyncAttemptAt (\<lambda>c d. d\<lparr>pe_lastSyncAttemptAt := Some c\<rparr>) ''sync-attempted''"

definition firestore_store :: "bool \<Rightarrow> 'z pworld_scheme declaration_store" where
  "firestore_store mirrored =
     \<lparr>st_upsert = repo_upsert mirrored, st_delete = repo_delete mirrored,
      st_advanceSyncWatermark = advanceSyncWatermark, st_advanceLastSyncAttempt = Some advanceLastSyncAttempt\<rparr>"

section \<open>Document identifiers\<close>

text \<open>Unlike the keys in memory, document identifiers never collide: the encoded resource has no colon.\<close>

lemma hex_digit_code: "m < 16 \<Longrightarrow> char_code (hex_digit m) = (if m < 10 then 48 + m else 55 + m)"
  by (simp add: hex_digit_def char_code_def of_char_of)

lemma hex_digit_inject:
  assumes "m < 16" and "n < 16"
  shows "hex_digit m = hex_digit n \<longleftrightarrow> m = n"
proof
  assume "hex_digit m = hex_digit n"
  then have "char_code (hex_digit m) = char_code (hex_digit n)" by (rule arg_cong)
  then show "m = n" unfolding hex_digit_code[OF assms(1)] hex_digit_code[OF assms(2)] by (simp split: if_splits)
qed (rule arg_cong)

lemma char_code_less: "char_code c < 256"
  by (simp add: char_code_def)

lemma char_code_inject: "char_code c = char_code d \<longleftrightarrow> c = d"
  by (simp add: char_code_def)

lemma escaped_inject:
  assumes "char_code c div 16 = char_code d div 16" and "char_code c mod 16 = char_code d mod 16"
  shows "c = d"
  using assms by (metis char_code_inject div_mult_mod_eq)

lemma percent_reserved: "\<not> is_unreserved CHR ''%''"
  by (simp add: is_unreserved_def char_ranges)

lemma encode_Cons:
  "encodeURIComponent (c # cs) =
     (if is_unreserved c then c # encodeURIComponent cs
      else CHR ''%'' # hex_digit (char_code c div 16) # hex_digit (char_code c mod 16) # encodeURIComponent cs)"
  by (simp add: encodeURIComponent_def)

lemma encode_Nil [simp]: "encodeURIComponent [] = []"
  by (simp add: encodeURIComponent_def)

lemma hi_less: "char_code c div 16 < 16"
  using char_code_less[of c] by simp

lemma encode_Cons_inject:
  assumes "encodeURIComponent (c # cs) = encodeURIComponent (d # ds)"
  shows "c = d \<and> encodeURIComponent cs = encodeURIComponent ds"
proof (cases "is_unreserved c")
  case True
  with assms percent_reserved show ?thesis by (auto simp: encode_Cons split: if_splits)
next
  case False
  with assms percent_reserved have "\<not> is_unreserved d" by (auto simp: encode_Cons split: if_splits)
  with False assms have "hex_digit (char_code c div 16) = hex_digit (char_code d div 16)"
    "hex_digit (char_code c mod 16) = hex_digit (char_code d mod 16)" "encodeURIComponent cs = encodeURIComponent ds"
    by (simp_all add: encode_Cons)
  then show ?thesis using escaped_inject[of c d] by (simp add: hex_digit_inject hi_less)
qed

lemma encode_inject: "encodeURIComponent a = encodeURIComponent b \<Longrightarrow> a = b"
proof (induction a arbitrary: b)
  case Nil
  then show ?case by (cases b) (auto simp: encode_Cons split: if_splits)
next
  case (Cons c cs)
  then obtain d ds where b: "b = d # ds" by (cases b) (auto simp: encode_Cons split: if_splits)
  from encode_Cons_inject[OF Cons.prems[unfolded b]] Cons.IH b show ?case by simp
qed

lemma hex_no_colon: "n < 16 \<Longrightarrow> hex_digit n \<noteq> CHR '':''"
proof
  assume "n < 16" "hex_digit n = CHR '':''"
  then have "char_code (hex_digit n) = 58" by (simp add: char_code_def)
  with \<open>n < 16\<close> show False by (simp add: hex_digit_def char_code_def of_char_of split: if_splits)
qed

lemma encode_no_colon: "CHR '':'' \<notin> set (encodeURIComponent s)"
proof -
  have "\<not> is_unreserved CHR '':''" by (simp add: is_unreserved_def char_ranges)
  moreover have "char_code c div 16 < 16" for c using char_code_less[of c] by simp
  ultimately show ?thesis
    using hex_no_colon[THEN not_sym] by (auto simp: encodeURIComponent_def split: if_splits)
qed

lemma last_colon_inject:
  assumes "CHR '':'' \<notin> set a" and "CHR '':'' \<notin> set b"
  shows "t @ CHR '':'' # a = u @ CHR '':'' # b \<longleftrightarrow> t = u \<and> a = b"
proof
  assume eq: "t @ CHR '':'' # a = u @ CHR '':'' # b"
  then have r: "rev a @ CHR '':'' # rev t = rev b @ CHR '':'' # rev u"
    by (metis append.assoc append_Cons append_Nil rev.simps(2) rev_append)
  then have "rev a = rev b"
    using takeWhile_key[of "rev a" "rev t"] takeWhile_key[of "rev b" "rev u"] assms by simp
  with r show "t = u \<and> a = b" by simp
qed simp

lemma docId_inject: "docId t r = docId u q \<longleftrightarrow> t = u \<and> r = q"
  unfolding docId_def using last_colon_inject[OF encode_no_colon encode_no_colon] encode_inject by fastforce

section \<open>The repository as the declaration port\<close>

lemma decl_put [simp]:
  "decl_of t r (put_decl u q e s) = (if t = u \<and> r = q then Some e else decl_of t r s)"
  by (auto simp: decl_of_def put_decl_def update_conv' docId_inject)

lemma registry_put_decl [simp]: "registry (put_decl t r e s) = registry s"
  by (simp add: put_decl_def)

text \<open>A property of everything but the declaration documents and their audit mirror.\<close>

definition decl_free :: "('z pworld_scheme \<Rightarrow> bool) \<Rightarrow> bool" where
  "decl_free P \<longleftrightarrow> timeless P \<and> (\<forall>s x. P (s\<lparr>decl_docs := x\<rparr>) = P s) \<and> (\<forall>s x. P (s\<lparr>mirror := x\<rparr>) = P s)"

lemma decl_free_timeless: "decl_free P \<Longrightarrow> timeless P"
  by (simp add: decl_free_def)

lemma registry_decl_free: "decl_free (\<lambda>s. registry s = m)"
  by (simp add: decl_free_def timeless_def)

lemma keeps_insert_row: "decl_free P \<Longrightarrow> keeps P (insert_row r)"
  unfolding insert_row_def by (intro keeps_swallow keeps_rwrite) (auto simp: decl_free_def)

lemma keeps_record [keeps_intros]: "decl_free P \<Longrightarrow> keeps P (record_declaration e)"
  unfolding record_declaration_def by (intro keeps_intros keeps_insert_row)

lemma keeps_recordDeletion [keeps_intros]: "decl_free P \<Longrightarrow> keeps P (recordDeletion t r)"
  unfolding recordDeletion_def by (rule keeps_insert_row)

lemma keeps_repo_upsert [keeps_intros]: "decl_free P \<Longrightarrow> keeps P (repo_upsert m e)"
  unfolding repo_upsert_def Let_def
  by (intro keeps_intros keeps_rwrite) (auto simp: decl_free_def put_decl_def)

lemma keeps_repo_delete [keeps_intros]: "decl_free P \<Longrightarrow> keeps P (repo_delete m t r)"
  unfolding repo_delete_def by (intro keeps_intros keeps_rwrite) (auto simp: decl_free_def)

lemma keeps_advance: "decl_free P \<Longrightarrow> keeps P (advance g p w t r c)"
  unfolding advance_def
  by (rule keeps_rtxn) (auto simp: decl_free_def put_decl_def split: option.splits if_splits)

lemma advance_Inr:
  assumes "advance get put w t r c s = (Inr v, s')"
  shows "\<exists>d k. decl_of t r s' = Some d \<and> v = Some k \<and> c \<le> k \<and>
    (get d = Some k \<or> (\<exists>d'. d = put c d' \<and> k = c))"
  using rtxn_Inr[OF assms[unfolded advance_def]]
  by (auto split: option.splits if_splits) (metis order_refl)+

interpretation fs: declaration_port "firestore_store mirrored" for mirrored
proof
  fix m and e :: pii_entry and t r c
  show "keeps (\<lambda>s. registry s = m) (st_upsert (firestore_store mirrored) e)"
    by (simp add: firestore_store_def keeps_repo_upsert registry_decl_free)
  show "keeps (\<lambda>s. registry s = m) (st_delete (firestore_store mirrored) t r)"
    by (simp add: firestore_store_def keeps_repo_delete registry_decl_free)
  show "keeps (\<lambda>s. registry s = m) (st_advanceSyncWatermark (firestore_store mirrored) t r c)"
    by (simp add: firestore_store_def advanceSyncWatermark_def keeps_advance registry_decl_free)
next
  fix f m t r c
  assume "st_advanceLastSyncAttempt (firestore_store mirrored) = Some f"
  then show "keeps (\<lambda>s. registry s = m) (f t r c)"
    by (auto simp: firestore_store_def advanceLastSyncAttempt_def intro!: keeps_advance registry_decl_free)
next
  fix t r c s v s'
  assume "st_advanceSyncWatermark (firestore_store mirrored) t r c s = (Inr v, s')"
  then show "\<exists>w. v = Some w \<and> c \<le> w"
    by (auto simp: firestore_store_def advanceSyncWatermark_def dest!: advance_Inr)
qed

section \<open>Declarations\<close>

lemma enumerate_mem: "x \<in> set xs \<Longrightarrow> \<exists>n. (n, x) \<in> set (List.enumerate k xs)"
  by (metis enumerate_eq_zip in_set_conv_nth in_set_zip length_upt add_diff_cancel_left' fst_conv length_enumerate nth_enumerate_eq nth_mem)

lemma no_field_errors:
  assumes "concat (map field_errors (List.enumerate k fs)) = []" and "f \<in> set fs"
  shows "isNonEmptyString (fi_name f) \<and> fi_classification f \<noteq> None \<and> fi_handling f \<noteq> None"
proof -
  from enumerate_mem[OF assms(2)] obtain n where "(n, f) \<in> set (List.enumerate k fs)" by blast
  with assms(1) have "field_errors (n, f) = []" by force
  then show ?thesis by (auto simp: field_errors_def split: if_splits)
qed

lemma declared_named:
  assumes "concat (map field_errors (List.enumerate k fs)) = []" and "f \<in> set fs"
  shows "trim (pf_name (declared_field f)) \<noteq> []"
  using no_field_errors[OF assms] by (auto simp: declared_field_def isNonEmptyString_def split: option.splits)

lemma no_strategy_errors:
  assumes "strategy_errors (di_sourceRedactionStrategies i) = []" and "\<not> bad (di_sourceRedactionStrategy i)"
    and "st \<in> set (requested_strategies i)"
  shows "\<exists>x. st = Some x \<and> x \<noteq> NONE"
proof (cases "di_sourceRedactionStrategies i")
  case Missing
  with assms(2,3) show ?thesis
    by (cases st; auto simp: requested_strategies_def bad_def split: option.splits if_splits)
next
  case (NotArray tr n)
  with assms(1) show ?thesis by (simp add: strategy_errors_def)
next
  case (Elements xs)
  with assms(3) have "st \<in> set xs" by (simp add: requested_strategies_def)
  then obtain n where "(n, st) \<in> set (List.enumerate 0 xs)" using enumerate_mem by metis
  with assms(1) Elements have "st \<in> Some ` set ARRAY_STRATEGIES"
    by (fastforce simp: strategy_errors_def split: if_splits)
  then show ?thesis by (auto simp: ARRAY_STRATEGIES_def)
qed

lemma resolve_manual: "resolveSourceRedactionStrategies (manual_entry i t n ex a) = map the (requested_strategies i)"
  by (simp add: resolveSourceRedactionStrategies_def resolve_strategies_def manual_entry_def)

text \<open>
  The rules of a declaration, without the collecting of messages; and what the entry has to carry of the body it was
  made from, a default where the body says nothing.
\<close>

definition requested :: "declaration_input \<Rightarrow> redaction_strategy list" where
  "requested i =
     (case di_sourceRedactionStrategies i of
        Elements xs \<Rightarrow> map the xs
      | _ \<Rightarrow> (case di_sourceRedactionStrategy i of Some (Some st) \<Rightarrow> if st = NONE then [] else [st] | _ \<Rightarrow> []))"

definition named :: "string option \<Rightarrow> bool" where
  "named v \<longleftrightarrow> (\<exists>x. v = Some x \<and> trim x \<noteq> [])"

definition acceptable :: "declaration_input \<Rightarrow> string \<Rightarrow> bool" where
  "acceptable i tenantId \<longleftrightarrow>
     trim tenantId \<noteq> [] \<and>
     (\<exists>r. di_resourceId i = Some r \<and> trim r \<noteq> [] \<and> resource_form r) \<and>
     di_system i \<in> Some ` {Bigquery, Gcs, Firestore, Log, Hubspot, Salesforce, External, Pubsub} \<and>
     di_resourceLayer i \<noteq> Some None \<and> di_visibility i \<noteq> Some None \<and> di_deletionStrategy i \<noteq> Some None \<and>
     di_sourceRedactionStrategy i \<noteq> Some None \<and> di_status i \<noteq> Some None \<and> di_scanMode i \<noteq> Some None \<and>
     (di_sourceRedactionStrategies i = Missing \<or>
      (\<exists>xs. di_sourceRedactionStrategies i = Elements xs \<and> set xs \<subseteq> Some ` {REDACT_IN_PLACE, SHADOW_COPY, ENCRYPTED_COPY})) \<and>
     (requested i \<noteq> [] \<longrightarrow> named (di_userIdColumn i)) \<and>
     (named (di_userIdColumn i) \<and> named (di_tenantIdColumn i) \<longrightarrow> di_userIdColumn i \<noteq> di_tenantIdColumn i) \<and>
     (di_system i = Some Pubsub \<longrightarrow> named (di_allowedCaller i) \<and> named (di_userIdFieldPath i)) \<and>
     (\<exists>fs. di_piiFields i = Some fs \<and> fs \<noteq> [] \<and>
        (\<forall>f \<in> set fs. named (fi_name f) \<and> fi_classification f \<noteq> None \<and> fi_handling f \<noteq> None))"

definition carries :: "declaration_input \<Rightarrow> pii_entry \<Rightarrow> bool" where
  "carries i e \<longleftrightarrow>
     di_resourceId i = Some (pe_resourceId e) \<and> pe_lineageDestination e = pe_resourceId e \<and> di_system i = Some (pe_system e) \<and>
     di_resourceLayer i = map_option Some (pe_resourceLayer e) \<and>
     pe_visibility e = Some (value_or (di_visibility i) CUSTOMER_FACING) \<and>
     pe_tenantIdColumn e = di_tenantIdColumn i \<and> pe_userIdColumn e = di_userIdColumn i \<and>
     pe_allowedCaller e = di_allowedCaller i \<and> pe_userIdFieldPath e = di_userIdFieldPath i \<and>
     pe_updatedAtColumn e = di_updatedAtColumn i \<and>
     (\<exists>fs. di_piiFields i = Some fs \<and> list_all2 (\<lambda>f p. fi_name f = Some (pf_name p) \<and>
        fi_classification f = Some (pf_classification p) \<and> fi_handling f = Some (pf_handling p) \<and>
        fi_requiredInMart f = pf_requiredInMart p) fs (pe_piiFields e)) \<and>
     pe_deletionStrategy e = value_or (di_deletionStrategy i) CRYPTO_SHRED \<and>
     resolveSourceRedactionStrategies e = requested i \<and>
     gs_enabled (pe_ghostDataScan e) = (di_scanEnabled i \<noteq> Some False) \<and>
     gs_scanMode (pe_ghostDataScan e) = value_or (di_scanMode i) SCAN_SAMPLED \<and>
     gs_patterns (pe_ghostDataScan e) = (case di_scanPatterns i of None \<Rightarrow> [''EMAIL'', ''PHONE'', ''NAME''] | Some ps \<Rightarrow> ps) \<and>
     pe_notes e = di_notes i \<and> pe_status e = Some (value_or (di_status i) PENDING_REVIEW)"

lemma named_iff: "isNonEmptyString v \<longleftrightarrow> named v"
  by (auto simp: isNonEmptyString_def named_def split: option.splits)

lemma field_errors_none:
  "concat (map field_errors (List.enumerate k fs)) = [] \<longleftrightarrow>
     (\<forall>f \<in> set fs. named (fi_name f) \<and> fi_classification f \<noteq> None \<and> fi_handling f \<noteq> None)"
  by (induction fs arbitrary: k) (auto simp: field_errors_def named_iff)

lemma strategy_errors_none:
  "strategy_errors v = [] \<longleftrightarrow>
     v = Missing \<or> (\<exists>xs. v = Elements xs \<and> set xs \<subseteq> Some ` {REDACT_IN_PLACE, SHADOW_COPY, ENCRYPTED_COPY})"
proof (cases v)
  case (Elements xs)
  have "concat (map (\<lambda>(n, st). if st \<in> Some ` set ARRAY_STRATEGIES then [] else [E_REDACTION_ITEM n]) (List.enumerate k xs)) = [] \<longleftrightarrow>
      set xs \<subseteq> Some ` {REDACT_IN_PLACE, SHADOW_COPY, ENCRYPTED_COPY}" for k
    by (induction xs arbitrary: k) (auto simp: ARRAY_STRATEGIES_def)
  then show ?thesis by (simp add: Elements strategy_errors_def)
qed (simp_all add: strategy_errors_def)

lemma requested_eq:
  assumes "strategy_errors (di_sourceRedactionStrategies i) = []" and "di_sourceRedactionStrategy i \<noteq> Some None"
  shows "map the (requested_strategies i) = requested i"
  using assms
  by (auto simp: requested_def requested_strategies_def strategy_errors_def split: list_input.splits option.splits if_splits)

lemma no_errors_iff: "declaration_errors i t = [] \<longleftrightarrow> acceptable i t"
proof -
  have sys: "di_system i \<in> Some ` set SYSTEMS \<longleftrightarrow> di_system i \<in> Some ` {Bigquery, Gcs, Firestore, Log, Hubspot, Salesforce, External, Pubsub}"
    by (simp add: SYSTEMS_def)
  have req: "requested_strategies i = [] \<longleftrightarrow> requested i = []"
    if "strategy_errors (di_sourceRedactionStrategies i) = []" "di_sourceRedactionStrategy i \<noteq> Some None"
    using requested_eq[OF that] by (metis map_is_Nil_conv)
  have res: "(if \<not> named (di_resourceId i) then [E_RESOURCE] else if \<not> resource_form (the (di_resourceId i)) then [E_RESOURCE_FORM] else []) = [] \<longleftrightarrow>
      (\<exists>r. di_resourceId i = Some r \<and> trim r \<noteq> [] \<and> resource_form r)"
    by (auto simp: named_def)
  have fields: "(case di_piiFields i of None \<Rightarrow> [E_FIELDS] | Some fs \<Rightarrow>
        if fs = [] then [E_FIELDS] else concat (map field_errors (List.enumerate 0 fs))) = [] \<longleftrightarrow>
      (\<exists>fs. di_piiFields i = Some fs \<and> fs \<noteq> [] \<and>
        (\<forall>f \<in> set fs. named (fi_name f) \<and> fi_classification f \<noteq> None \<and> fi_handling f \<noteq> None))"
    by (cases "di_piiFields i") (simp_all only: option.case option.inject ex_simps list.distinct if_True if_False field_errors_none split: if_split, auto)
  have ten: "named (Some t) \<longleftrightarrow> trim t \<noteq> []" by (simp add: named_def)
  have cond: "(if c then [x] else []) = [] \<longleftrightarrow> \<not> c" for c and x :: declaration_error by simp
  show ?thesis
    unfolding declaration_errors_def acceptable_def append_is_Nil_conv named_iff res fields cond sys ten bad_def strategy_errors_none[symmetric]
    using req by blast
qed

lemma carries_manual:
  assumes "acceptable i t"
  shows "carries i (manual_entry i t n ex a)"
proof -
  obtain r fs where r: "di_resourceId i = Some r" "di_piiFields i = Some fs"
    "\<forall>f \<in> set fs. named (fi_name f) \<and> fi_classification f \<noteq> None \<and> fi_handling f \<noteq> None"
    using assms by (auto simp: acceptable_def)
  have "list_all2 (\<lambda>f p. fi_name f = Some (pf_name p) \<and> fi_classification f = Some (pf_classification p) \<and>
      fi_handling f = Some (pf_handling p) \<and> fi_requiredInMart f = pf_requiredInMart p) fs (map declared_field fs)"
    using r(3) by (induction fs) (auto simp: declared_field_def named_def)
  moreover have "map the (requested_strategies i) = requested i"
    using assms requested_eq[of i] by (simp add: acceptable_def strategy_errors_none)
  moreover have "\<exists>y. di_system i = Some y" "di_resourceLayer i \<noteq> Some None" using assms by (auto simp: acceptable_def)
  ultimately show ?thesis
    using r by (auto simp: carries_def resolve_manual) (auto simp: manual_entry_def split: option.splits)
qed

text \<open>
  C38. A declaration is accepted only if it is well formed, and the entry then satisfies what the
  destructive strategies rely on: a manual owner, the caller's tenant, a URI-like resource, a known
  system, at least one field and every field named, only real strategies, and with any strategy a
  non-blank user column that is not the tenant column.
\<close>

theorem declaration_wellformed:
  assumes "buildManualEntry i tenantId t existing actor = Inr e"
  shows "pe_ownerConnector e = MANUAL_OWNER_CONNECTOR \<and> pe_tenantId e = Some tenantId \<and> trim tenantId \<noteq> [] \<and>
    resource_form (pe_resourceId e) \<and> pe_system e \<in> set SYSTEMS \<and>
    pe_piiFields e \<noteq> [] \<and> (\<forall>f \<in> set (pe_piiFields e). trim (pf_name f) \<noteq> []) \<and>
    NONE \<notin> set (resolveSourceRedactionStrategies e) \<and>
    (resolveSourceRedactionStrategies e \<noteq> [] \<longrightarrow>
       isNonEmptyString (pe_userIdColumn e) \<and> pe_userIdColumn e \<noteq> pe_tenantIdColumn e)"
proof -
  have none: "declaration_errors i tenantId = []" and e: "e = manual_entry i tenantId t existing actor"
    using assms by (auto simp: buildManualEntry_def Let_def split: if_splits)
  have r: "isNonEmptyString (Some tenantId)" "isNonEmptyString (di_resourceId i)" "resource_form (the (di_resourceId i))"
    "di_system i \<in> Some ` set SYSTEMS" "\<not> bad (di_sourceRedactionStrategy i)"
    "strategy_errors (di_sourceRedactionStrategies i) = []"
    "requested_strategies i \<noteq> [] \<longrightarrow> isNonEmptyString (di_userIdColumn i)"
    "isNonEmptyString (di_userIdColumn i) \<and> isNonEmptyString (di_tenantIdColumn i) \<longrightarrow> di_userIdColumn i \<noteq> di_tenantIdColumn i"
    using none by (auto simp: declaration_errors_def simp del: imp_disjL split: if_splits)
  obtain fs where fs: "di_piiFields i = Some fs" "fs \<noteq> []" "concat (map field_errors (List.enumerate 0 fs)) = []"
    using none by (simp add: declaration_errors_def split: option.splits if_splits)
  have named: "\<forall>f \<in> set (pe_piiFields e). trim (pf_name f) \<noteq> []"
    using declared_named[OF fs(3)] fs(1) unfolding e by (auto simp: manual_entry_def)
  have "NONE \<notin> set (resolveSourceRedactionStrategies e)"
    unfolding e resolve_manual using no_strategy_errors[OF r(6,5)] by force
  moreover have "resolveSourceRedactionStrategies e \<noteq> [] \<longrightarrow>
      isNonEmptyString (pe_userIdColumn e) \<and> pe_userIdColumn e \<noteq> pe_tenantIdColumn e"
    unfolding e resolve_manual using r(7,8) by (auto simp: manual_entry_def)
  ultimately show ?thesis
    using r(1-4) fs(1,2) named unfolding e
    by (auto simp: manual_entry_def isNonEmptyString_def)
qed

definition toy_declaration :: declaration_input where
  "toy_declaration =
     \<lparr>di_resourceId = Some ''bigquery:p.d.t'', di_system = Some Bigquery, di_resourceLayer = None, di_visibility = None,
      di_tenantIdColumn = Some ''tid'', di_userIdColumn = Some ''uid'', di_allowedCaller = None,
      di_userIdFieldPath = None, di_updatedAtColumn = None,
      di_piiFields = Some [\<lparr>fi_name = Some ''email'', fi_classification = Some CONTACT, fi_handling = Some ENCRYPT, fi_requiredInMart = False\<rparr>],
      di_deletionStrategy = None, di_sourceRedactionStrategy = None,
      di_sourceRedactionStrategies = Elements [Some REDACT_IN_PLACE], di_scanEnabled = None, di_scanMode = None,
      di_scanPatterns = None, di_status = None, di_notes = None\<rparr>"

lemma toy_declaration_ok:
  "buildManualEntry toy_declaration ''acme'' 0 None None = Inr (manual_entry toy_declaration ''acme'' 0 None None)"
proof -
  have "declaration_errors toy_declaration ''acme'' = []"
    by (simp add: declaration_errors_def toy_declaration_def isNonEmptyString_def trim_def is_space_def resource_form_def
        char_ranges Let_def SYSTEMS_def bad_def strategy_errors_def requested_strategies_def ARRAY_STRATEGIES_def field_errors_def)
  then show ?thesis by (simp add: buildManualEntry_def Let_def)
qed

lemma declaration_wellformed_witness:
  "isNonEmptyString (pe_userIdColumn (manual_entry toy_declaration ''acme'' 0 None None))"
  using declaration_wellformed[OF toy_declaration_ok]
  by (simp add: resolve_manual requested_strategies_def toy_declaration_def)

lemma keeps_docs_mirror: "keeps (\<lambda>x. decl_docs x = D) (if b then record_declaration e else ret ())"
  unfolding record_declaration_def insert_row_def
  by (intro keeps_if keeps_ret keeps_swallow keeps_rwrite) (auto simp: timeless_def)

text \<open>
  The entries in memory are never ahead of the durable ones: if a declaration returns, the
  entry is in memory and its document holds the merge of the entry with what was there before; if
  it throws, whatever the reason, the entries in memory are untouched.
\<close>

theorem declaration_durable:
  assumes "upsertEntry (Some (firestore_store mirrored)) e s = (res, s')"
  shows "(case res of
      Inl _ \<Rightarrow> registry s' = registry s
    | Inr v \<Rightarrow> v = e \<and> (\<exists>t. pe_tenantId e = Some t \<and>
        map_of (registry s') (keyOf (Some t) (pe_resourceId e)) = Some e \<and>
        decl_of t (pe_resourceId e) s' = Some (merge_entry e (decl_of t (pe_resourceId e) s))))"
proof (cases res)
  case (Inl x)
  with fs.upsert_cases[OF assms] show ?thesis by auto
next
  case (Inr v)
  from fs.upsert_cases[OF assms] Inr
  have v: "v = e" "pe_ownerConnector e = MANUAL_OWNER_CONNECTOR" "truthy (pe_tenantId e)"
    "registry s' = AList.update (keyOf (pe_tenantId e) (pe_resourceId e)) e (registry s)" by auto
  then obtain t where t: "pe_tenantId e = Some t" by (auto simp: truthy_def split: option.splits)
  from assms[unfolded Inr] v(2,3) obtain u where
    up: "repo_upsert mirrored e s = (Inr (), u)" and u: "decl_docs s' = decl_docs u"
    by (auto simp: upsertEntry_def firestore_store_def set_entry_def elim!: bnd_InrE)
  from up v(3) t obtain w where w: "rwrite (\<lambda>s. put_decl t (pe_resourceId e) (merge_entry e (decl_of t (pe_resourceId e) s)) s) s = (Inr (), w)"
    and wu: "(if mirrored then record_declaration e else ret ()) w = (Inr (), u)"
    by (auto simp: repo_upsert_def Let_def elim!: bnd_InrE)
  from keepsE[OF keeps_docs_mirror refl wu] u have same: "decl_of t (pe_resourceId e) s' = decl_of t (pe_resourceId e) w"
    by (simp add: decl_of_def)
  have "decl_of t r (snd (next_call s)) = decl_of t r s" for t r
    using next_call_timeless[of "\<lambda>x. decl_docs x = decl_docs s" s] by (simp add: timeless_def decl_of_def)
  with rwrite_Inr[OF w] same have "decl_of t (pe_resourceId e) s' = Some (merge_entry e (decl_of t (pe_resourceId e) s))"
    by simp
  with v t Inr show ?thesis by (simp add: update_conv')
qed

definition toy_registry_world :: "(string \<times> pii_entry) list \<Rightarrow> registry \<Rightarrow> pworld" where
  "toy_registry_world ds m = rworld.extend (toy_requests [])
     (pworld.fields m ds [] [] [] (\<lambda>_. Some 1))"

definition toy_entry :: pii_entry where
  "toy_entry = manual_entry toy_declaration ''acme'' 0 None None"

lemma declaration_durable_witness:
  "\<exists>s'. upsertEntry (Some (firestore_store False)) toy_entry (toy_registry_world [] []) = (Inr toy_entry, s') \<and>
     decl_of ''acme'' ''bigquery:p.d.t'' s' = Some (merge_entry toy_entry None)"
proof -
  have "\<exists>s'. upsertEntry (Some (firestore_store False)) toy_entry (toy_registry_world [] []) = (Inr toy_entry, s')"
    by (simp add: upsertEntry_def firestore_store_def repo_upsert_def toy_entry_def manual_entry_def truthy_def no_faults
        set_entry_def bnd_apply Let_def toy_registry_world_def pworld.defs rworld.defs toy_requests_def jworld.defs toy_saas_def)
  then obtain s' where run: "upsertEntry (Some (firestore_store False)) toy_entry (toy_registry_world [] []) = (Inr toy_entry, s')"
    by blast
  from declaration_durable[OF run] show ?thesis
    using run by (auto simp: toy_entry_def manual_entry_def toy_declaration_def decl_of_def toy_registry_world_def pworld.defs rworld.defs)
qed

text \<open>
  What a merge leaves behind: a declaration that drops its tenant column changes the entry in
  memory but not the document, so the old column is back after a restart.
\<close>

lemma dropped_column_survives:
  assumes "upsertEntry (Some (firestore_store mirrored)) e s = (Inr e, s')"
    and "pe_tenantId e = Some t" and "pe_tenantIdColumn e = None" and "decl_of t (pe_resourceId e) s = Some d"
  shows "map_of (registry s') (keyOf (Some t) (pe_resourceId e)) = Some e \<and>
    map_option pe_tenantIdColumn (decl_of t (pe_resourceId e) s') = Some (pe_tenantIdColumn d)"
  using declaration_durable[OF assms(1)] assms(2-4) by (auto simp: merge_entry_def Let_def merge_opt_def)

section \<open>Tenants\<close>

lemma attempted_cases:
  assumes "markResourceSyncAttempted (Some (firestore_store mirrored)) r t c s = (res, s')"
  shows "registry s' = registry s \<or> (\<exists>e. registry s' = AList.update (keyOf (Some t) r) e (registry s))"
proof -
  have "registry (snd (advanceLastSyncAttempt t r c s)) = registry s"
    unfolding advanceLastSyncAttempt_def by (rule keepsD[OF keeps_advance[OF registry_decl_free] refl])
  with assms show ?thesis
    by (cases "advanceLastSyncAttempt t r c s")
      (auto simp: markResourceSyncAttempted_def mark_resource_def firestore_store_def stored_or_def Let_def
        bnd_apply set_entry_def split: option.splits if_splits sum.splits)
qed

text \<open>
  Tenants are isolated: whatever one tenant declares, removes or marks as synced, and however
  those calls end, every resource still reads the same for every other tenant. (Tenant identifiers
  with a colon, and the identifier \<open>*\<close>, are excluded: the keys in memory do not separate them.)
\<close>

theorem tenant_isolation:
  assumes "safe_tenant (Some t)" and "safe_tenant (Some t')" and "t \<noteq> t'" and "pe_tenantId e = Some t"
  shows "let store = Some (firestore_store mirrored) in
    \<forall>m \<in> {snd (upsertEntry store e s), snd (removeEntry store r t s), snd (markResourceSynced store r t c s),
           snd (markResourceSyncAttempted store r t c s)}.
      getEntry (registry m) r' (Some t') = getEntry (registry s) r' (Some t')"
proof -
  let ?S = "Some (firestore_store mirrored)"
  note other = getEntry_other_tenant[OF assms(1-3)]
  have 1: "getEntry (registry (snd (upsertEntry ?S e s))) r' (Some t') = getEntry (registry s) r' (Some t')"
    using fs.upsert_cases[of mirrored e s] assms(4)
    by (cases "upsertEntry ?S e s") (auto simp: update_conv' intro!: other[where r = "pe_resourceId e"])
  have 2: "getEntry (registry (snd (removeEntry ?S r t s))) r' (Some t') = getEntry (registry s) r' (Some t')"
    using fs.remove_cases[of mirrored r t s]
    by (cases "removeEntry ?S r t s") (auto simp: delete_conv' intro!: other[where r = r])
  have 3: "getEntry (registry (snd (markResourceSynced ?S r t c s))) r' (Some t') = getEntry (registry s) r' (Some t')"
    using fs.synced_cases[of mirrored r t c s]
    by (cases "markResourceSynced ?S r t c s") (auto simp: update_conv' intro!: other[where r = r])
  have 4: "getEntry (registry (snd (markResourceSyncAttempted ?S r t c s))) r' (Some t') = getEntry (registry s) r' (Some t')"
    using attempted_cases[of mirrored r t c s]
    by (cases "markResourceSyncAttempted ?S r t c s") (auto simp: update_conv' intro!: other[where r = r])
  from 1 2 3 4 show ?thesis by (simp add: Let_def)
qed

lemma tenant_isolation_witness:
  "getEntry (registry (snd (removeEntry (Some (firestore_store True)) ''bigquery:p.d.t'' ''acme''
      (toy_registry_world [] [(keyOf None ''bigquery:p.d.t'', toy_entry)])))) ''bigquery:p.d.t'' (Some ''beta'') = Some toy_entry"
proof -
  have safe: "safe_tenant (Some ''acme'')" "safe_tenant (Some ''beta'')" "''acme'' \<noteq> ''beta''" "pe_tenantId toy_entry = Some ''acme''"
    by (simp_all add: safe_tenant_def toy_entry_def manual_entry_def)
  have "getEntry (registry (snd (removeEntry (Some (firestore_store True)) ''bigquery:p.d.t'' ''acme''
      (toy_registry_world [] [(keyOf None ''bigquery:p.d.t'', toy_entry)])))) ''bigquery:p.d.t'' (Some ''beta'') =
    getEntry (registry (toy_registry_world [] [(keyOf None ''bigquery:p.d.t'', toy_entry)])) ''bigquery:p.d.t'' (Some ''beta'')"
    using tenant_isolation[OF safe] unfolding Let_def by blast
  then show ?thesis
    by (simp add: getEntry_def toy_registry_world_def pworld.defs rworld.defs keyOf_def)
qed

section \<open>Watermarks\<close>

definition mark_of :: "string \<Rightarrow> string \<Rightarrow> 'z pworld_scheme \<Rightarrow> int option" where
  "mark_of t r s = Option.bind (decl_of t r s) pe_lastSyncedAt"

lemma decl_next_call [simp]: "decl_of t r (snd (next_call s)) = decl_of t r s"
  using next_call_timeless[of "\<lambda>x. decl_docs x = decl_docs s" s] by (simp add: timeless_def decl_of_def)

lemma keeps_mark: "keeps (\<lambda>s. \<exists>w. mark_of t r s = Some w \<and> W \<le> w) (advanceSyncWatermark t' r' c)"
  unfolding advanceSyncWatermark_def advance_def
proof (rule keeps_rtxn)
  show "timeless (\<lambda>s. \<exists>w. mark_of t r s = Some w \<and> W \<le> w)"
    by (simp add: timeless_def mark_of_def decl_of_def)
qed (auto simp: mark_of_def split: option.splits if_splits)

lemma advance_mark:
  assumes "advanceSyncWatermark t r c s = (Inr v, s')"
  shows "\<exists>w. v = Some w \<and> c \<le> w \<and> mark_of t r s' = Some w"
  using advance_Inr[OF assms[unfolded advanceSyncWatermark_def]] by (auto simp: mark_of_def)

text \<open>
  The watermark of incremental syncs never goes back: after any number of advances of one
  resource, in any order and with any pattern of failures, the document's mark is at least what it
  was before and at least every candidate whose advance was acknowledged.
\<close>

theorem watermark_monotone:
  assumes "settleAll (advanceSyncWatermark t r) cs s = (rs, s')"
  shows "(\<forall>w. mark_of t r s = Some w \<longrightarrow> (\<exists>w'. mark_of t r s' = Some w' \<and> w \<le> w')) \<and>
    (\<forall>i < length cs. \<forall>v. rs ! i = Inr v \<longrightarrow> (\<exists>w'. mark_of t r s' = Some w' \<and> cs ! i \<le> w'))"
  using assms
proof (induction cs arbitrary: s rs)
  case (Cons c cs)
  obtain x u where step: "advanceSyncWatermark t r c s = (x, u)" by fastforce
  obtain xs where rest: "settleAll (advanceSyncWatermark t r) cs u = (xs, s')" and rs: "rs = x # xs"
    using Cons.prems step by (auto simp: Let_def split: prod.splits)
  note IH = Cons.IH[OF rest]
  have up: "\<exists>w'. mark_of t r s' = Some w' \<and> W \<le> w'" if "mark_of t r u = Some w" "W \<le> w" for W w
    using IH that by (meson order_trans)
  have "\<exists>w'. mark_of t r s' = Some w' \<and> w \<le> w'" if "mark_of t r s = Some w" for w
    using keepsE[OF keeps_mark[of t r w t r c] _ step] that up by blast
  moreover have "\<exists>w'. mark_of t r s' = Some w' \<and> (c # cs) ! i \<le> w'" if "i < length (c # cs)" "rs ! i = Inr v" for i v
  proof (cases i)
    case 0
    with that rs step obtain w where "mark_of t r u = Some w" "c \<le> w" using advance_mark by fastforce
    with up 0 show ?thesis by simp
  next
    case (Suc j)
    with that rs IH show ?thesis by auto
  qed
  ultimately show ?case by blast
qed simp

lemma watermark_monotone_witness:
  "\<exists>w. mark_of ''acme'' ''bigquery:p.d.t'' (snd (settleAll (advanceSyncWatermark ''acme'' ''bigquery:p.d.t'') [9, 5]
      (toy_registry_world [(docId ''acme'' ''bigquery:p.d.t'', toy_entry\<lparr>pe_lastSyncedAt := Some 7\<rparr>)] []))) = Some w \<and> 7 \<le> w"
proof -
  let ?s = "toy_registry_world [(docId ''acme'' ''bigquery:p.d.t'', toy_entry\<lparr>pe_lastSyncedAt := Some 7\<rparr>)] []"
  obtain rs s' where run: "settleAll (advanceSyncWatermark ''acme'' ''bigquery:p.d.t'') [9, 5] ?s = (rs, s')" by fastforce
  have "mark_of ''acme'' ''bigquery:p.d.t'' ?s = Some 7"
    by (simp add: mark_of_def decl_of_def toy_registry_world_def pworld.defs rworld.defs)
  with watermark_monotone[OF run] run show ?thesis by auto
qed

end
