(* ===== verification/SourceRedaction.thy ===== *)
theory SourceRedaction
  imports PiiDeclare
begin

text \<open>
  What happens to a customer's own tables: \<open>src/services/source-redaction-service.ts\<close>,
  \<open>src/services/sql-identifier-safety.ts\<close>, \<open>src/services/pii-vault-pivot-sql.ts\<close> and the resource
  identifiers of \<open>src/gcp/bigquery-schema-service.ts\<close>. BigQuery is the list of statements it has run
  (with their parameters), the views of its datasets, and the number of rows it reports for a
  statement; every statement is three remote calls (create the job, wait for it, read its metadata).
\<close>

section \<open>Resource identifiers\<close>

text \<open>\<open>/^bigquery:([^.]+)\.([^.]+)\.([^.]+)$/\<close>\<close>

definition parseBigQueryResourceId :: "string \<Rightarrow> exn + string \<times> string \<times> string" where
  "parseBigQueryResourceId resourceId =
     (let err = Inl (BadResourceId ([CHR 0x22] @ resourceId @ [CHR 0x22] @
            '' is not a bigquery resource ID in the form bigquery:project.dataset.table.''))
      in if \<not> startsWith ''bigquery:'' resourceId then err
         else case split_on CHR ''.'' (drop 9 resourceId) of
              [p, d, t] \<Rightarrow> if p \<noteq> [] \<and> d \<noteq> [] \<and> t \<noteq> [] then Inr (p, d, t) else err
            | _ \<Rightarrow> err)"

definition resourceId_of :: "string \<times> string \<times> string \<Rightarrow> string" where
  "resourceId_of x = (case x of (p, d, t) \<Rightarrow> ''bigquery:'' @ p @ ''.'' @ d @ ''.'' @ t)"

definition dotless :: "string \<Rightarrow> bool" where
  "dotless p \<longleftrightarrow> p \<noteq> [] \<and> CHR ''.'' \<notin> set p"

lemma split_on_parts: "p \<in> set (split_on c s) \<Longrightarrow> c \<notin> set p"
proof (induction s arbitrary: p)
  case (Cons x xs)
  then show ?case by (cases "split_on c xs") (auto split: if_splits)
qed simp

lemma parses_iff:
  "parseBigQueryResourceId r = Inr (p, d, t) \<longleftrightarrow>
     r = resourceId_of (p, d, t) \<and> dotless p \<and> dotless d \<and> dotless t"
proof
  assume "parseBigQueryResourceId r = Inr (p, d, t)"
  then have st: "startsWith ''bigquery:'' r" and sp: "split_on CHR ''.'' (drop 9 r) = [p, d, t]"
    and ne: "p \<noteq> []" "d \<noteq> []" "t \<noteq> []"
    by (auto simp: parseBigQueryResourceId_def Let_def split: if_splits list.splits)
  have len: "length ''bigquery:'' = 9" by simp
  have "take 9 r = ''bigquery:''" using st unfolding startsWith_def len .
  then have "r = ''bigquery:'' @ drop 9 r" by (metis append_take_drop_id)
  moreover have "drop 9 r = p @ ''.'' @ d @ ''.'' @ t" using join_split[of "CHR ''.''" "drop 9 r"] sp by simp
  moreover have "CHR ''.'' \<notin> set p" "CHR ''.'' \<notin> set d" "CHR ''.'' \<notin> set t"
    using split_on_parts[of _ "CHR ''.''" "drop 9 r"] sp by auto
  ultimately show "r = resourceId_of (p, d, t) \<and> dotless p \<and> dotless d \<and> dotless t"
    using ne by (simp add: resourceId_of_def dotless_def)
next
  assume "r = resourceId_of (p, d, t) \<and> dotless p \<and> dotless d \<and> dotless t"
  then show "parseBigQueryResourceId r = Inr (p, d, t)"
    by (simp add: parseBigQueryResourceId_def resourceId_of_def startsWith_def dotless_def Let_def
        split_on_append split_on_no_sep)
qed

text \<open>
  Resource identifiers parse exactly: a string parses to a project, dataset and table if and
  only if it is their three dot-free, non-empty names printed as \<open>bigquery:project.dataset.table\<close>.
\<close>

theorem resourceId_roundtrip:
  "parseBigQueryResourceId r = Inr (p, d, t) \<longleftrightarrow>
     r = resourceId_of (p, d, t) \<and> dotless p \<and> dotless d \<and> dotless t"
  by (rule parses_iff)

section \<open>SQL text\<close>

definition assertSafeIdentifiers :: "string list \<Rightarrow> exn + unit" where
  "assertSafeIdentifiers identifiers =
     (case find (\<lambda>i. \<not> is_identifier i) identifiers of
        None \<Rightarrow> Inr ()
      | Some i \<Rightarrow> Inl (Err (''Refusing to use '' @ [CHR 0x22] @ i @ [CHR 0x22] @ '' as a SQL identifier: not a safe column/table name.'')))"

definition escapeSqlStringLiteral :: "string \<Rightarrow> string" where
  "escapeSqlStringLiteral v = concat (map (\<lambda>c. if c = CHR 0x27 then [CHR 0x27, CHR 0x27] else [c]) v)"

definition sq :: "string \<Rightarrow> string" where
  "sq v = CHR 0x27 # v @ [CHR 0x27]"

definition bt :: "string \<Rightarrow> string" where
  "bt v = CHR 0x60 # v @ [CHR 0x60]"

definition nl :: string where
  "nl = [CHR 0x0A]"

definition buildPiiVaultPivotColumns :: "string list \<Rightarrow> string \<Rightarrow> string list" where
  "buildPiiVaultPivotColumns declaredFields batchDecryptFunctionRef =
     map (\<lambda>field.
       ''ARRAY_AGG(IF(field_name = '' @ sq (escapeSqlStringLiteral field) @ '', '' @
       bt batchDecryptFunctionRef @ ''(CAST(encrypted_value AS STRING), user_id, tenant_id), NULL) '' @
       ''IGNORE NULLS ORDER BY synced_at DESC LIMIT 1)[SAFE_OFFSET(0)] AS '' @ field) declaredFields"

definition table_ref :: "string \<times> string \<times> string \<Rightarrow> string" where
  "table_ref x = (case x of (p, d, t) \<Rightarrow> bt (p @ ''.'' @ d @ ''.'' @ t))"

section \<open>Statements and views\<close>

text \<open>Create the job, wait for its results, read its row count.\<close>

definition createQueryJob :: "sql_job \<Rightarrow> ('z pworld_scheme, unit) eff" where
  "createQueryJob j = rwrite (\<lambda>s. s\<lparr>sql_jobs := sql_jobs s @ [j]\<rparr>)"

definition run_job :: "sql_job \<Rightarrow> ('z pworld_scheme, unit) eff" where
  "run_job j = bnd (createQueryJob j) (\<lambda>_. rread (\<lambda>_. ()))"

definition run_dml :: "sql_job \<Rightarrow> ('z pworld_scheme, nat) eff" where
  "run_dml j = bnd (run_job j) (\<lambda>_. rread (\<lambda>s. case affected_rows s j of None \<Rightarrow> 0 | Some n \<Rightarrow> n))"

definition view_key :: "string \<Rightarrow> string \<Rightarrow> string \<Rightarrow> string" where
  "view_key p d v = p @ ''.'' @ d @ ''.'' @ v"

definition create_view :: "string \<Rightarrow> string \<Rightarrow> string \<Rightarrow> string \<Rightarrow> ('z pworld_scheme, unit) eff" where
  "create_view p d v sql = rtxn (\<lambda>s.
     if map_of (bq_views s) (view_key p d v) \<noteq> None then (Inl (CodeErr 409), s)
     else (Inr (), s\<lparr>bq_views := bq_views s @ [(view_key p d v, sql)]\<rparr>))"

definition delete_view :: "string \<Rightarrow> string \<Rightarrow> string \<Rightarrow> ('z pworld_scheme, unit) eff" where
  "delete_view p d v = rtxn (\<lambda>s.
     if map_of (bq_views s) (view_key p d v) = None then (Inl (CodeErr 404), s)
     else (Inr (), s\<lparr>bq_views := AList.delete (view_key p d v) (bq_views s)\<rparr>))"

section \<open>The service\<close>

record redaction_service =
  rs_piiVault :: "(string \<times> string \<times> string) option"
  rs_batchDecrypt :: "string option"

definition newSourceRedactionService :: "string option \<Rightarrow> string option \<Rightarrow> exn + redaction_service" where
  "newSourceRedactionService piiVaultResourceId batchDecrypt =
     (if \<not> truthy piiVaultResourceId then Inr \<lparr>rs_piiVault = None, rs_batchDecrypt = batchDecrypt\<rparr>
      else case parseBigQueryResourceId (the piiVaultResourceId) of
           Inl e \<Rightarrow> Inl e
         | Inr v \<Rightarrow> Inr \<lparr>rs_piiVault = Some v, rs_batchDecrypt = batchDecrypt\<rparr>)"

record redaction_result =
  rr_resourceId :: string
  rr_success :: bool
  rr_rowsAffected :: "nat option"
  rr_error :: "string option"

definition manual_of :: "string \<Rightarrow> registry_filters" where
  "manual_of tenantId = no_filters\<lparr>f_tenantId := Some tenantId, f_ownerConnector := Some ''manual''\<rparr>"

definition planRedaction :: "string \<Rightarrow> registry \<Rightarrow> pii_entry list" where
  "planRedaction tenantId m = filter (\<lambda>e. hasSourceRedactionStrategy e REDACT_IN_PLACE) (listEntries m (manual_of tenantId))"

definition planEncryptedCopyDeletion :: "string \<Rightarrow> registry \<Rightarrow> pii_entry list" where
  "planEncryptedCopyDeletion tenantId m = filter (\<lambda>e. hasSourceRedactionStrategy e ENCRYPTED_COPY) (listEntries m (manual_of tenantId))"

definition defined_columns :: "string option list \<Rightarrow> string list" where
  "defined_columns cs = map the (filter (\<lambda>c. c \<noteq> None) cs)"

definition where_clause :: "pii_entry \<Rightarrow> string" where
  "where_clause e = join_with '' AND ''
     ((the (pe_userIdColumn e) @ '' = @userId'') #
      (if truthy (pe_tenantIdColumn e) then [the (pe_tenantIdColumn e) @ '' = @tenantId''] else []))"

definition scope_params :: "pii_entry \<Rightarrow> string \<Rightarrow> string \<Rightarrow> (string \<times> string) list" where
  "scope_params e userId tenantId =
     (''userId'', userId) # (if truthy (pe_tenantIdColumn e) then [(''tenantId'', tenantId)] else [])"

definition redaction_job :: "pii_entry \<Rightarrow> string \<times> string \<times> string \<Rightarrow> string \<Rightarrow> string \<Rightarrow> sql_job" where
  "redaction_job e target userId tenantId =
     \<lparr>job_query = ''UPDATE '' @ table_ref target @ '' SET '' @
        join_with '', '' (map (\<lambda>f. pf_name f @ '' = NULL'') (pe_piiFields e)) @ '' WHERE '' @ where_clause e,
      job_params = scope_params e userId tenantId\<rparr>"

definition not_bigquery :: "string \<Rightarrow> pii_entry \<Rightarrow> exn" where
  "not_bigquery st e = Err (''sourceRedactionStrategy '' @ st @ '' is only implemented for bigquery resources, got '' @
     [CHR 0x22] @ system_str (pe_system e) @ [CHR 0x22] @ ''.'')"

definition redactOne :: "pii_entry \<Rightarrow> string \<Rightarrow> string \<Rightarrow> ('z pworld_scheme, nat) eff" where
  "redactOne e userId tenantId =
     (if pe_system e \<noteq> Bigquery then throw (not_bigquery ''REDACT_IN_PLACE'' e)
      else if \<not> truthy (pe_userIdColumn e) then
        throw (Err ''Resource has no userIdColumn declared; refusing to redact without a safe scope.'')
      else if pe_piiFields e = [] then throw (Err ''Resource has no declared piiFields to redact.'')
      else
        bnd (lift (assertSafeIdentifiers
               (defined_columns [pe_userIdColumn e, pe_tenantIdColumn e] @ map pf_name (pe_piiFields e)))) (\<lambda>_.
        bnd (lift (parseBigQueryResourceId (pe_resourceId e))) (\<lambda>target.
        run_dml (redaction_job e target userId tenantId))))"

definition one_result :: "(pii_entry \<Rightarrow> ('z pworld_scheme, nat) eff) \<Rightarrow> pii_entry \<Rightarrow> ('z pworld_scheme, redaction_result) eff" where
  "one_result run e =
     catch
       (bnd (run e) (\<lambda>n. ret \<lparr>rr_resourceId = pe_resourceId e, rr_success = True, rr_rowsAffected = Some n, rr_error = None\<rparr>))
       (\<lambda>x. ret \<lparr>rr_resourceId = pe_resourceId e, rr_success = False, rr_rowsAffected = None, rr_error = Some (message_of x)\<rparr>)"

definition redactUserInDeclaredSources :: "string \<Rightarrow> string \<Rightarrow> ('z pworld_scheme, redaction_result list) eff" where
  "redactUserInDeclaredSources userId tenantId =
     bnd (gets (\<lambda>s. planRedaction tenantId (registry s))) (\<lambda>resources.
     if resources = [] then ret [] else mapEff (one_result (\<lambda>e. redactOne e userId tenantId)) resources)"

definition encryptedCopyRawTableId :: "string \<Rightarrow> string" where
  "encryptedCopyRawTableId tableId = tableId @ ''_encrypted_raw''"

definition encryptedCopyViewId :: "string \<Rightarrow> string" where
  "encryptedCopyViewId tableId = tableId @ ''_encrypted''"

definition shadowViewId :: "string \<Rightarrow> string" where
  "shadowViewId tableId = tableId @ ''_deidentified''"

definition copy_deletion_job :: "pii_entry \<Rightarrow> string \<times> string \<times> string \<Rightarrow> string \<Rightarrow> string \<Rightarrow> sql_job" where
  "copy_deletion_job e target userId tenantId =
     (case target of (p, d, t) \<Rightarrow>
      \<lparr>job_query = ''DELETE FROM '' @ table_ref (p, d, encryptedCopyRawTableId t) @ '' WHERE '' @ where_clause e,
       job_params = scope_params e userId tenantId\<rparr>)"

definition deleteFromEncryptedCopyOne :: "pii_entry \<Rightarrow> string \<Rightarrow> string \<Rightarrow> ('z pworld_scheme, nat) eff" where
  "deleteFromEncryptedCopyOne e userId tenantId =
     (if pe_system e \<noteq> Bigquery then throw (not_bigquery ''ENCRYPTED_COPY'' e)
      else if \<not> truthy (pe_userIdColumn e) then
        throw (Err ''Resource has no userIdColumn declared; refusing to delete from encrypted copy without a safe scope.'')
      else
        bnd (lift (assertSafeIdentifiers (defined_columns [pe_userIdColumn e, pe_tenantIdColumn e]))) (\<lambda>_.
        bnd (lift (parseBigQueryResourceId (pe_resourceId e))) (\<lambda>target.
        run_dml (copy_deletion_job e target userId tenantId))))"

definition deleteUserFromEncryptedCopies :: "string \<Rightarrow> string \<Rightarrow> ('z pworld_scheme, redaction_result list) eff" where
  "deleteUserFromEncryptedCopies userId tenantId =
     bnd (gets (\<lambda>s. planEncryptedCopyDeletion tenantId (registry s))) (\<lambda>resources.
     if resources = [] then ret [] else mapEff (one_result (\<lambda>e. deleteFromEncryptedCopyOne e userId tenantId)) resources)"

section \<open>Views and raw tables kept at declare time\<close>

definition encryptedFieldsOf :: "pii_entry \<Rightarrow> string list" where
  "encryptedFieldsOf e = map pf_name (filter (\<lambda>f. pf_handling f = ENCRYPT) (pe_piiFields e))"

definition dropShadowCopyIfExists :: "pii_entry \<Rightarrow> ('z pworld_scheme, unit) eff" where
  "dropShadowCopyIfExists e =
     (if pe_system e \<noteq> Bigquery then ret ()
      else bnd (lift (parseBigQueryResourceId (pe_resourceId e))) (\<lambda>target.
        case target of (p, d, t) \<Rightarrow>
        catch (delete_view p d (shadowViewId t)) (\<lambda>x. if x = CodeErr 404 then ret () else throw x)))"

definition shadow_sql :: "string \<times> string \<times> string \<Rightarrow> string \<Rightarrow> pii_entry \<Rightarrow> string \<times> string \<times> string \<Rightarrow> string list \<Rightarrow> string" where
  "shadow_sql vault fn e target cols =
     (let tenantLiteral = escapeSqlStringLiteral (the (pe_tenantId e)) in
      join_with nl (filter (\<lambda>l. l \<noteq> [])
        [''WITH decrypted_pii AS ('',
         ''  SELECT'',
         ''    user_id,'',
         ''    '' @ join_with ('','' @ nl @ ''    '') (buildPiiVaultPivotColumns cols fn),
         ''  FROM '' @ table_ref vault,
         ''  WHERE tenant_id = '' @ sq tenantLiteral,
         ''  GROUP BY user_id'',
         '')'',
         ''SELECT s.* EXCEPT ('' @ join_with '', '' cols @ ''), '' @ join_with '', '' (map (\<lambda>f. ''d.'' @ f) cols),
         ''FROM '' @ table_ref target @ '' s'',
         ''LEFT JOIN decrypted_pii d ON s.'' @ the (pe_userIdColumn e) @ '' = d.user_id'',
         (if truthy (pe_tenantIdColumn e) then ''WHERE s.'' @ the (pe_tenantIdColumn e) @ '' = '' @ sq tenantLiteral else [])]))"

definition ensureShadowCopy :: "redaction_service \<Rightarrow> pii_entry \<Rightarrow> ('z pworld_scheme, unit) eff" where
  "ensureShadowCopy V e =
     (if \<not> hasSourceRedactionStrategy e SHADOW_COPY then dropShadowCopyIfExists e
      else if rs_piiVault V = None \<or> \<not> truthy (rs_batchDecrypt V) then
        throw (Err ''SHADOW_COPY requires decrypted views to be enabled on this deployment (pii_vault + batch-decrypt function not configured).'')
      else if pe_system e \<noteq> Bigquery then throw (not_bigquery ''SHADOW_COPY'' e)
      else if \<not> truthy (pe_userIdColumn e) then
        throw (Err ''Resource has no userIdColumn declared; refusing to build a shadow copy without a safe join key.'')
      else if \<not> truthy (pe_tenantId e) then throw (Err ''Resource has no tenantId; refusing to build a shadow copy.'')
      else
        (let cols = encryptedFieldsOf e in
         if cols = [] then
           throw (Err ''Resource has no ENCRYPT-handling piiFields to shadow-copy (only ENCRYPT fields are ever synced into pii_vault).'')
         else
           bnd (lift (assertSafeIdentifiers (defined_columns [pe_userIdColumn e, pe_tenantIdColumn e] @ cols))) (\<lambda>_.
           bnd (lift (parseBigQueryResourceId (pe_resourceId e))) (\<lambda>target.
           case target of (p, d, t) \<Rightarrow>
           bnd (dropShadowCopyIfExists e) (\<lambda>_.
           create_view p d (shadowViewId t)
             (shadow_sql (the (rs_piiVault V)) (the (rs_batchDecrypt V)) e target cols))))))"

definition create_raw_sql :: "string \<times> string \<times> string \<Rightarrow> string list \<Rightarrow> string" where
  "create_raw_sql target cols =
     (case target of (p, d, t) \<Rightarrow>
      join_with nl
        [''CREATE TABLE IF NOT EXISTS '' @ table_ref (p, d, encryptedCopyRawTableId t) @ '' AS'',
         ''SELECT'',
         ''    s.* EXCEPT ('' @ join_with '', '' cols @ ''),'',
         ''    '' @ join_with ('','' @ nl @ ''    '') (map (\<lambda>f. ''CAST(NULL AS STRING) AS '' @ f) cols) @ '','',
         ''    CAST(NULL AS TIMESTAMP) AS synced_at'',
         ''FROM '' @ table_ref target @ '' s'',
         ''WHERE FALSE''])"

definition alter_raw_sql :: "string \<times> string \<times> string \<Rightarrow> string list \<Rightarrow> string" where
  "alter_raw_sql target cols =
     (case target of (p, d, t) \<Rightarrow>
      ''ALTER TABLE '' @ table_ref (p, d, encryptedCopyRawTableId t) @ nl @ ''  '' @
      join_with ('','' @ nl @ ''  '') (map (\<lambda>f. ''ADD COLUMN IF NOT EXISTS '' @ f @ '' STRING'') cols))"

definition dedup_sql :: "string \<times> string \<times> string \<Rightarrow> pii_entry \<Rightarrow> string" where
  "dedup_sql target e =
     (case target of (p, d, t) \<Rightarrow>
      join_with nl
        [''SELECT * FROM '' @ table_ref (p, d, encryptedCopyRawTableId t),
         ''QUALIFY ROW_NUMBER() OVER (PARTITION BY '' @ the (pe_userIdColumn e) @ '' ORDER BY synced_at DESC) = 1''])"

definition ensureEncryptedCopyTable :: "pii_entry \<Rightarrow> ('z pworld_scheme, unit) eff" where
  "ensureEncryptedCopyTable e =
     (if \<not> hasSourceRedactionStrategy e ENCRYPTED_COPY then ret ()
      else if pe_system e \<noteq> Bigquery then throw (not_bigquery ''ENCRYPTED_COPY'' e)
      else if \<not> truthy (pe_userIdColumn e) then
        throw (Err ''Resource has no userIdColumn declared; refusing to build an encrypted copy without a safe key column.'')
      else
        (let cols = encryptedFieldsOf e in
         if cols = [] then
           throw (Err ''Resource has no ENCRYPT-handling piiFields to encrypted-copy (only ENCRYPT fields are ever synced into pii_vault).'')
         else
           bnd (lift (assertSafeIdentifiers (defined_columns [pe_userIdColumn e, pe_tenantIdColumn e] @ cols))) (\<lambda>_.
           bnd (lift (parseBigQueryResourceId (pe_resourceId e))) (\<lambda>target.
           case target of (p, d, t) \<Rightarrow>
           bnd (run_job \<lparr>job_query = create_raw_sql target cols, job_params = []\<rparr>) (\<lambda>_.
           bnd (run_job \<lparr>job_query = alter_raw_sql target cols, job_params = []\<rparr>) (\<lambda>_.
           catch (create_view p d (encryptedCopyViewId t) (dedup_sql target e))
             (\<lambda>x. if x \<noteq> CodeErr 409 then throw x
                  else run_job \<lparr>job_query = ''CREATE OR REPLACE VIEW '' @ table_ref (p, d, encryptedCopyViewId t) @ '' AS'' @ nl @
                                              dedup_sql target e, job_params = []\<rparr>)))))))"

section \<open>Frames\<close>

text \<open>A property that BigQuery does not enter.\<close>

definition bq_free :: "('z pworld_scheme \<Rightarrow> bool) \<Rightarrow> bool" where
  "bq_free P \<longleftrightarrow> timeless P \<and> (\<forall>s x. P (s\<lparr>sql_jobs := x\<rparr>) = P s) \<and> (\<forall>s x. P (s\<lparr>bq_views := x\<rparr>) = P s)"

lemma bq_free_timeless: "bq_free P \<Longrightarrow> timeless P"
  by (simp add: bq_free_def)

lemma keeps_job [keeps_intros]: "bq_free P \<Longrightarrow> keeps P (run_job j)"
  unfolding run_job_def createQueryJob_def
  by (intro keeps_intros keeps_rwrite) (auto simp: bq_free_def)

lemma keeps_dml [keeps_intros]: "bq_free P \<Longrightarrow> keeps P (run_dml j)"
  unfolding run_dml_def by (intro keeps_intros bq_free_timeless)

lemma keeps_create_view [keeps_intros]: "bq_free P \<Longrightarrow> keeps P (create_view p d v q)"
  unfolding create_view_def by (rule keeps_rtxn) (auto simp: bq_free_def split: if_splits)

lemma keeps_delete_view [keeps_intros]: "bq_free P \<Longrightarrow> keeps P (delete_view p d v)"
  unfolding delete_view_def by (rule keeps_rtxn) (auto simp: bq_free_def split: if_splits)

lemma keeps_one_result: "(\<And>e. keeps P (run e)) \<Longrightarrow> keeps P (one_result run e)"
  unfolding one_result_def by (intro keeps_intros)

lemma keeps_redactOne [keeps_intros]: "bq_free P \<Longrightarrow> keeps P (redactOne e u t)"
  unfolding redactOne_def by (intro keeps_intros)

lemma keeps_deleteOne [keeps_intros]: "bq_free P \<Longrightarrow> keeps P (deleteFromEncryptedCopyOne e u t)"
  unfolding deleteFromEncryptedCopyOne_def by (intro keeps_intros)

lemma keeps_redactUser [keeps_intros]: "bq_free P \<Longrightarrow> keeps P (redactUserInDeclaredSources u t)"
  unfolding redactUserInDeclaredSources_def by (intro keeps_intros keeps_one_result)

lemma keeps_deleteUser [keeps_intros]: "bq_free P \<Longrightarrow> keeps P (deleteUserFromEncryptedCopies u t)"
  unfolding deleteUserFromEncryptedCopies_def by (intro keeps_intros keeps_one_result)

lemma keeps_dropShadow [keeps_intros]: "bq_free P \<Longrightarrow> keeps P (dropShadowCopyIfExists e)"
  unfolding dropShadowCopyIfExists_def by (intro keeps_intros)

lemma keeps_ensureShadow [keeps_intros]: "bq_free P \<Longrightarrow> keeps P (ensureShadowCopy V e)"
  unfolding ensureShadowCopy_def Let_def by (intro keeps_intros)

lemma keeps_ensureEncrypted [keeps_intros]: "bq_free P \<Longrightarrow> keeps P (ensureEncryptedCopyTable e)"
  unfolding ensureEncryptedCopyTable_def Let_def by (intro keeps_intros)

section \<open>What a cascade sends to BigQuery\<close>

lemma jobs_next_call [simp]: "sql_jobs (snd (next_call x)) = sql_jobs x"
  using next_call_timeless[of "\<lambda>y. sql_jobs y = sql_jobs x" x] by (simp add: timeless_def)

lemma jobs_rread: "rread f x = (r, y) \<Longrightarrow> sql_jobs y = sql_jobs x"
  by (metis jobs_next_call rread_snd snd_conv)

lemma create_log:
  assumes "createQueryJob j s = (c, u)"
  shows "sql_jobs u = sql_jobs s \<or> sql_jobs u = sql_jobs s @ [j]" and "c = Inr () \<Longrightarrow> sql_jobs u = sql_jobs s @ [j]"
proof -
  let ?f = "\<lambda>s. s\<lparr>sql_jobs := sql_jobs s @ [j]\<rparr>"
  have u: "u = snd (rtxn (\<lambda>s. (Inr (), ?f s)) s)" using assms unfolding createQueryJob_def rwrite_def by simp
  from rtxn_cases[of "\<lambda>s. (Inr (), ?f s)" s, folded u] show "sql_jobs u = sql_jobs s \<or> sql_jobs u = sql_jobs s @ [j]"
    by (elim disjE exE) (auto simp: prod_eq_iff)
  assume "c = Inr ()"
  with assms have "rwrite ?f s = (Inr (), u)" unfolding createQueryJob_def by simp
  from rwrite_Inr[OF this] show "sql_jobs u = sql_jobs s @ [j]" by simp
qed

lemma dml_log:
  assumes "run_dml j s = (r, s')"
  shows "\<exists>js. sql_jobs s' = sql_jobs s @ js \<and> set js \<subseteq> {j} \<and> (\<forall>n. r = Inr n \<longrightarrow> js \<noteq> [])"
proof -
  obtain c u where cr: "createQueryJob j s = (c, u)" by fastforce
  show ?thesis
  proof (cases c)
    case (Inl e)
    with assms cr have "s' = u" "r = Inl e" by (auto simp: run_dml_def run_job_def bnd_apply)
    with create_log(1)[OF cr] show ?thesis by auto
  next
    case (Inr x)
    obtain r1 u1 where r1: "rread (\<lambda>_. ()) u = (r1, u1)" by fastforce
    have "sql_jobs s' = sql_jobs u1"
    proof (cases r1)
      case Inl
      with assms cr Inr r1 show ?thesis by (auto simp: run_dml_def run_job_def bnd_apply)
    next
      case (Inr y)
      with assms cr \<open>c = Inr x\<close> r1 have "rread (\<lambda>s. case affected_rows s j of None \<Rightarrow> 0 | Some n \<Rightarrow> n) u1 = (r, s')"
        by (simp add: run_dml_def run_job_def bnd_apply)
      then show ?thesis by (rule jobs_rread)
    qed
    with jobs_rread[OF r1] create_log(2)[OF cr] Inr show ?thesis by auto
  qed
qed

text \<open>
  What one statement of the cascade may be: it names a table of a manual declaration, its only
  condition binds the declared user column to the user (and the tenant column to the tenant), and
  every column name in it is a plain identifier.
\<close>

definition scoped :: "string \<Rightarrow> pii_entry \<Rightarrow> string \<Rightarrow> string \<Rightarrow> sql_job \<Rightarrow> bool" where
  "scoped verb e userId tenantId j \<longleftrightarrow>
     (\<exists>uid. pe_userIdColumn e = Some uid \<and> is_identifier uid \<and>
        (case pe_tenantIdColumn e of
           None \<Rightarrow> job_query j = verb @ '' WHERE '' @ uid @ '' = @userId'' \<and> job_params j = [(''userId'', userId)]
         | Some tid \<Rightarrow> is_identifier tid \<and>
             job_query j = verb @ '' WHERE '' @ uid @ '' = @userId AND '' @ tid @ '' = @tenantId'' \<and>
             job_params j = [(''userId'', userId), (''tenantId'', tenantId)]))"

definition redaction_verb :: "pii_entry \<Rightarrow> string \<times> string \<times> string \<Rightarrow> string" where
  "redaction_verb e target = ''UPDATE '' @ table_ref target @ '' SET '' @ join_with '', '' (map (\<lambda>f. pf_name f @ '' = NULL'') (pe_piiFields e))"

definition deletion_verb :: "string \<times> string \<times> string \<Rightarrow> string" where
  "deletion_verb x = (case x of (p, d, t) \<Rightarrow> ''DELETE FROM '' @ table_ref (p, d, encryptedCopyRawTableId t))"

lemma safe_identifiers: "assertSafeIdentifiers is = Inr () \<longleftrightarrow> (\<forall>i \<in> set is. is_identifier i)"
  by (auto simp: assertSafeIdentifiers_def find_None_iff split: option.splits) (metis find_Some_iff nth_mem)

lemma identifier_Nil [simp]: "\<not> is_identifier []"
  by (simp add: is_identifier_def)

lemma scoped_where:
  assumes "truthy (pe_userIdColumn e)" and "\<forall>i \<in> set (defined_columns [pe_userIdColumn e, pe_tenantIdColumn e]). is_identifier i"
    and "job_query j = v @ '' WHERE '' @ where_clause e" and "job_params j = scope_params e u t"
  shows "scoped v e u t j"
  using assms
  by (auto simp: scoped_def defined_columns_def where_clause_def scope_params_def truthy_def
      split: option.splits if_splits)

definition redacts :: "string \<Rightarrow> string \<Rightarrow> pii_entry \<Rightarrow> sql_job \<Rightarrow> bool" where
  "redacts u t e j \<longleftrightarrow> (\<exists>target. parseBigQueryResourceId (pe_resourceId e) = Inr target \<and>
     scoped (redaction_verb e target) e u t j \<and> (\<forall>f \<in> set (pe_piiFields e). is_identifier (pf_name f)))"

definition uncopies :: "string \<Rightarrow> string \<Rightarrow> pii_entry \<Rightarrow> sql_job \<Rightarrow> bool" where
  "uncopies u t e j \<longleftrightarrow> (\<exists>target. parseBigQueryResourceId (pe_resourceId e) = Inr target \<and>
     scoped (deletion_verb target) e u t j)"

definition logs :: "(pii_entry \<Rightarrow> sql_job \<Rightarrow> bool) \<Rightarrow> (pii_entry \<Rightarrow> ('z pworld_scheme, nat) eff) \<Rightarrow> bool" where
  "logs Q run \<longleftrightarrow> (\<forall>e s r s'. run e s = (r, s') \<longrightarrow>
     (\<exists>js. sql_jobs s' = sql_jobs s @ js \<and> (\<forall>j \<in> set js. Q e j) \<and> (\<forall>n. r = Inr n \<longrightarrow> js \<noteq> [])))"

lemma redactOne_logs: "logs (redacts u t) (\<lambda>e. redactOne e u t)"
  unfolding logs_def
proof (intro allI impI)
  fix e s r s' assume run: "redactOne e u t s = (r, s')"
  show "\<exists>js. sql_jobs s' = sql_jobs s @ js \<and> (\<forall>j \<in> set js. redacts u t e j) \<and> (\<forall>n. r = Inr n \<longrightarrow> js \<noteq> [])"
  proof (cases "pe_system e = Bigquery \<and> truthy (pe_userIdColumn e) \<and> pe_piiFields e \<noteq> [] \<and>
      assertSafeIdentifiers (defined_columns [pe_userIdColumn e, pe_tenantIdColumn e] @ map pf_name (pe_piiFields e)) = Inr () \<and>
      (\<exists>target. parseBigQueryResourceId (pe_resourceId e) = Inr target)")
    case True
    then obtain target where p: "parseBigQueryResourceId (pe_resourceId e) = Inr target" by blast
    have safe: "\<forall>i \<in> set (defined_columns [pe_userIdColumn e, pe_tenantIdColumn e]). is_identifier i"
      "\<forall>f \<in> set (pe_piiFields e). is_identifier (pf_name f)"
      using True by (auto simp: safe_identifiers)
    from run True p have "run_dml (redaction_job e target u t) s = (r, s')"
      by (auto simp: redactOne_def bnd_apply)
    from dml_log[OF this] obtain js where js: "sql_jobs s' = sql_jobs s @ js" "set js \<subseteq> {redaction_job e target u t}"
      "\<forall>n. r = Inr n \<longrightarrow> js \<noteq> []" by blast
    have "scoped (redaction_verb e target) e u t (redaction_job e target u t)"
      using True safe(1) by (intro scoped_where) (simp_all add: redaction_job_def redaction_verb_def)
    with p safe(2) have "redacts u t e (redaction_job e target u t)" unfolding redacts_def by blast
    with js show ?thesis by (intro exI[of _ js]) auto
  next
    case False
    have "\<exists>x. r = Inl x \<and> s' = s"
      using run False by (auto simp: redactOne_def bnd_apply split: if_splits sum.splits)
    then show ?thesis by auto
  qed
qed

lemma deleteOne_logs: "logs (uncopies u t) (\<lambda>e. deleteFromEncryptedCopyOne e u t)"
  unfolding logs_def
proof (intro allI impI)
  fix e s r s' assume run: "deleteFromEncryptedCopyOne e u t s = (r, s')"
  show "\<exists>js. sql_jobs s' = sql_jobs s @ js \<and> (\<forall>j \<in> set js. uncopies u t e j) \<and> (\<forall>n. r = Inr n \<longrightarrow> js \<noteq> [])"
  proof (cases "pe_system e = Bigquery \<and> truthy (pe_userIdColumn e) \<and>
      assertSafeIdentifiers (defined_columns [pe_userIdColumn e, pe_tenantIdColumn e]) = Inr () \<and>
      (\<exists>target. parseBigQueryResourceId (pe_resourceId e) = Inr target)")
    case True
    then obtain target where p: "parseBigQueryResourceId (pe_resourceId e) = Inr target" by blast
    have safe: "\<forall>i \<in> set (defined_columns [pe_userIdColumn e, pe_tenantIdColumn e]). is_identifier i"
      using True by (auto simp: safe_identifiers)
    from run True p have "run_dml (copy_deletion_job e target u t) s = (r, s')"
      by (auto simp: deleteFromEncryptedCopyOne_def bnd_apply)
    from dml_log[OF this] obtain js where js: "sql_jobs s' = sql_jobs s @ js" "set js \<subseteq> {copy_deletion_job e target u t}"
      "\<forall>n. r = Inr n \<longrightarrow> js \<noteq> []" by blast
    have "scoped (deletion_verb target) e u t (copy_deletion_job e target u t)"
      using True safe by (intro scoped_where) (simp_all add: copy_deletion_job_def deletion_verb_def split: prod.splits)
    with p have "uncopies u t e (copy_deletion_job e target u t)" unfolding uncopies_def by blast
    with js show ?thesis by (intro exI[of _ js]) auto
  next
    case False
    have "\<exists>x. r = Inl x \<and> s' = s"
      using run False by (auto simp: deleteFromEncryptedCopyOne_def bnd_apply split: if_splits sum.splits)
    then show ?thesis by auto
  qed
qed

lemma one_result_cases:
  assumes "run e s = (r, s')"
  shows "\<exists>x. one_result run e s = (Inr x, s') \<and> rr_resourceId x = pe_resourceId e \<and> (rr_success x \<longleftrightarrow> (\<exists>n. r = Inr n))"
  using assms by (cases r) (auto simp: one_result_def catch_apply bnd_apply)

lemma results_log:
  assumes "logs Q run"
  shows "\<exists>rs s' js. mapEff (one_result run) es s = (Inr rs, s') \<and> map rr_resourceId rs = map pe_resourceId es \<and>
    sql_jobs s' = sql_jobs s @ js \<and> (\<forall>j \<in> set js. \<exists>e \<in> set es. Q e j) \<and>
    list_all2 (\<lambda>e r. rr_success r \<longrightarrow> (\<exists>j \<in> set js. Q e j)) es rs"
proof (induction es arbitrary: s)
  case (Cons e es)
  obtain r u where run: "run e s = (r, u)" by fastforce
  obtain js where js: "sql_jobs u = sql_jobs s @ js" "\<forall>j \<in> set js. Q e j" "\<forall>n. r = Inr n \<longrightarrow> js \<noteq> []"
    using assms[unfolded logs_def] run by blast
  obtain x where x: "one_result run e s = (Inr x, u)" "rr_resourceId x = pe_resourceId e" "rr_success x \<longleftrightarrow> (\<exists>n. r = Inr n)"
    using one_result_cases[of run e s r u, OF run] by blast
  obtain rs s' ks where rest: "mapEff (one_result run) es u = (Inr rs, s')" "map rr_resourceId rs = map pe_resourceId es"
    "sql_jobs s' = sql_jobs u @ ks" "\<forall>j \<in> set ks. \<exists>e \<in> set es. Q e j"
    "list_all2 (\<lambda>e r. rr_success r \<longrightarrow> (\<exists>j \<in> set ks. Q e j)) es rs"
    using Cons.IH[of u] by blast
  have "list_all2 (\<lambda>e r. rr_success r \<longrightarrow> (\<exists>j \<in> set (js @ ks). Q e j)) es rs"
    using rest(5) by (rule list_all2_mono) auto
  moreover have "rr_success x \<longrightarrow> (\<exists>j \<in> set (js @ ks). Q e j)" using x(3) js(2,3) by (cases js) auto
  ultimately show ?case
    using x(1,2) rest(1-4) js(1,2)
    by (intro exI[of _ "x # rs"] exI[of _ s'] exI[of _ "js @ ks"]) (auto simp: bnd_apply)
qed simp

text \<open>
  C35. Redacting a user in the declared sources never throws, reports one result per opted-in
  resource, and every statement it sends is the text of an UPDATE of a declared table that sets its
  declared columns to NULL under the only condition that the declared user column is this user's id
  and the tenant column, if any, this tenant's, with every column name a plain identifier and the
  two ids bound as parameters; a resource reported as redacted had its statement sent. (The table
  reference is quoted but not checked: see \<open>table_name_unchecked\<close>.)
\<close>

theorem redaction_scoped:
  "\<exists>rs s' js. redactUserInDeclaredSources u t s = (Inr rs, s') \<and>
     map rr_resourceId rs = map pe_resourceId (planRedaction t (registry s)) \<and>
     sql_jobs s' = sql_jobs s @ js \<and> (\<forall>j \<in> set js. \<exists>e \<in> set (planRedaction t (registry s)). redacts u t e j) \<and>
     list_all2 (\<lambda>e r. rr_success r \<longrightarrow> (\<exists>j \<in> set js. redacts u t e j)) (planRedaction t (registry s)) rs"
  using results_log[OF redactOne_logs[of u t], of "planRedaction t (registry s)" s]
  by (auto simp: redactUserInDeclaredSources_def)

definition toy_resource :: "redaction_strategy \<Rightarrow> pii_entry" where
  "toy_resource st = toy_entry\<lparr>pe_sourceRedactionStrategies := Some [st]\<rparr>"

definition toy_declared :: "redaction_strategy \<Rightarrow> pworld" where
  "toy_declared st = toy_registry_world [] [(keyOf (Some ''acme'') ''bigquery:p.d.t'', toy_resource st)]"

lemmas toy_declared_defs = toy_declared_def toy_registry_world_def pworld.defs rworld.defs toy_requests_def jworld.defs
  toy_saas_def toy_resource_def toy_entry_def manual_entry_def toy_declaration_def

lemma toy_listed: "listEntries (registry (toy_declared st)) (manual_of ''acme'') = [toy_resource st]"
  by (simp add: toy_declared_defs listEntries_def visibleTo_def manual_of_def no_filters_def getEntries_def truthy_def
      MANUAL_OWNER_CONNECTOR_def)

lemma toy_declared_calls: "outcomes (toy_declared st) = []"
  by (simp add: toy_declared_defs)

lemma toy_strategies [simp]: "hasSourceRedactionStrategy (toy_resource st) st' = (st' = st)"
  by (auto simp: hasSourceRedactionStrategy_def resolveSourceRedactionStrategies_def resolve_strategies_def toy_resource_def)

lemma toy_parsed [simp]: "parseBigQueryResourceId ''bigquery:p.d.t'' = Inr (''p'', ''d'', ''t'')"
  by (simp add: parses_iff resourceId_of_def dotless_def)

lemmas toy_runs = run_dml_def run_job_def createQueryJob_def assertSafeIdentifiers_def defined_columns_def is_identifier_def
  is_ident_start_def is_ident_char_def no_faults bnd_apply truthy_def char_ranges

lemma toy_resource_simps [simp]:
  "pe_resourceId (toy_resource st) = ''bigquery:p.d.t''" "pe_system (toy_resource st) = Bigquery"
  "pe_userIdColumn (toy_resource st) = Some ''uid''" "pe_tenantIdColumn (toy_resource st) = Some ''tid''"
  "map pf_name (pe_piiFields (toy_resource st)) = [''email'']" "pe_piiFields (toy_resource st) \<noteq> []"
  by (simp_all add: toy_resource_def toy_entry_def manual_entry_def toy_declaration_def declared_field_def)

lemma redaction_scoped_witness:
  "\<exists>rs s' j. redactUserInDeclaredSources ''u'' ''acme'' (toy_declared REDACT_IN_PLACE) = (Inr rs, s') \<and>
     map rr_resourceId rs = [''bigquery:p.d.t''] \<and> list_all rr_success rs \<and>
     j \<in> set (sql_jobs s') \<and> redacts ''u'' ''acme'' (toy_resource REDACT_IN_PLACE) j"
proof -
  let ?w = "toy_declared REDACT_IN_PLACE"
  have plan: "planRedaction ''acme'' (registry ?w) = [toy_resource REDACT_IN_PLACE]"
    by (simp add: planRedaction_def toy_listed)
  have "\<exists>n s'. redactOne (toy_resource REDACT_IN_PLACE) ''u'' ''acme'' ?w = (Inr n, s')"
    by (simp add: redactOne_def toy_runs toy_declared_calls)
  then have "\<exists>r s'. redactUserInDeclaredSources ''u'' ''acme'' ?w = (Inr [r], s') \<and> rr_success r"
    using plan by (auto simp: redactUserInDeclaredSources_def bnd_apply one_result_def catch_def)
  then show ?thesis
    using redaction_scoped[of "''u''" "''acme''" ?w] unfolding plan by (fastforce simp: list_all2_Cons1)
qed

text \<open>
  Deleting a user from the encrypted copies never throws, reports one result per opted-in
  resource, and every statement it sends is the text of a DELETE from the raw table of a declared
  copy under the same condition on the user and tenant columns, with the ids bound as parameters; a
  copy reported as deleted had its statement sent.
\<close>

theorem copy_deletion_scoped:
  "\<exists>rs s' js. deleteUserFromEncryptedCopies u t s = (Inr rs, s') \<and>
     map rr_resourceId rs = map pe_resourceId (planEncryptedCopyDeletion t (registry s)) \<and>
     sql_jobs s' = sql_jobs s @ js \<and> (\<forall>j \<in> set js. \<exists>e \<in> set (planEncryptedCopyDeletion t (registry s)). uncopies u t e j) \<and>
     list_all2 (\<lambda>e r. rr_success r \<longrightarrow> (\<exists>j \<in> set js. uncopies u t e j)) (planEncryptedCopyDeletion t (registry s)) rs"
  using results_log[OF deleteOne_logs[of u t], of "planEncryptedCopyDeletion t (registry s)" s]
  by (auto simp: deleteUserFromEncryptedCopies_def)

lemma copy_deletion_scoped_witness:
  "\<exists>rs s' j. deleteUserFromEncryptedCopies ''u'' ''acme'' (toy_declared ENCRYPTED_COPY) = (Inr rs, s') \<and>
     map rr_resourceId rs = [''bigquery:p.d.t''] \<and> list_all rr_success rs \<and>
     j \<in> set (sql_jobs s') \<and> uncopies ''u'' ''acme'' (toy_resource ENCRYPTED_COPY) j"
proof -
  let ?w = "toy_declared ENCRYPTED_COPY"
  have plan: "planEncryptedCopyDeletion ''acme'' (registry ?w) = [toy_resource ENCRYPTED_COPY]"
    by (simp add: planEncryptedCopyDeletion_def toy_listed)
  have "\<exists>n s'. deleteFromEncryptedCopyOne (toy_resource ENCRYPTED_COPY) ''u'' ''acme'' ?w = (Inr n, s')"
    by (simp add: deleteFromEncryptedCopyOne_def toy_runs toy_declared_calls)
  then have "\<exists>r s'. deleteUserFromEncryptedCopies ''u'' ''acme'' ?w = (Inr [r], s') \<and> rr_success r"
    using plan by (auto simp: deleteUserFromEncryptedCopies_def bnd_apply one_result_def catch_def)
  then show ?thesis
    using copy_deletion_scoped[of "''u''" "''acme''" ?w] unfolding plan by (fastforce simp: list_all2_Cons1)
qed

text \<open>
  Column names are checked, table names are not: a table name may hold the closing backtick and a
  comment, so a resource that is accepted and parsed can turn the statement of a cascade into an
  update of every row of the table.
\<close>

definition rogue_table :: string where
  "rogue_table = ''t'' @ [CHR 0x60] @ ''SET/**/email=NULL/**/WHERE/**/true--''"

lemma table_name_unchecked:
  "resource_form (resourceId_of (''p'', ''d'', rogue_table)) \<and>
   parseBigQueryResourceId (resourceId_of (''p'', ''d'', rogue_table)) = Inr (''p'', ''d'', rogue_table) \<and>
   (\<exists>rest. job_query (redaction_job e (''p'', ''d'', rogue_table) u t) =
      ''UPDATE '' @ bt ''p.d.t'' @ ''SET/**/email=NULL/**/WHERE/**/true--'' @ rest)"
proof (intro conjI)
  show "resource_form (resourceId_of (''p'', ''d'', rogue_table))"
    by (simp add: resource_form_def resourceId_of_def rogue_table_def char_ranges is_space_def Let_def)
  show "parseBigQueryResourceId (resourceId_of (''p'', ''d'', rogue_table)) = Inr (''p'', ''d'', rogue_table)"
    by (simp add: parses_iff dotless_def rogue_table_def)
  show "\<exists>rest. job_query (redaction_job e (''p'', ''d'', rogue_table) u t) =
      ''UPDATE '' @ bt ''p.d.t'' @ ''SET/**/email=NULL/**/WHERE/**/true--'' @ rest"
    by (simp add: redaction_job_def table_ref_def rogue_table_def bt_def)
qed

end
