(* ===== verification/CertSigner.thy ===== *)
theory CertSigner
  imports SourceRedaction
begin

text \<open>
  The certificate signer: \<open>src/certificate-signer/sign.ts\<close> and the read-only Firestore client of
  \<open>src/certificate-signer/firestore-client.ts\<close>, with the claims of \<open>src/types/index.ts\<close>. It re-reads
  the key and the deletion request itself and refuses to build claims unless the key is shredded and
  the cascade is complete. Key management and the hash are arguments; the caches of the signer and
  of the certificate service, the versions of the signing key, the certificate chain and the bucket
  are components of the world.
\<close>

section \<open>The world of the certificates\<close>

datatype tsa_status = OBTAINED | TSA_FAILED

record tsa_info =
  ti_status :: tsa_status
  ti_token :: "string option"
  ti_timestamp :: "string option"
  ti_url :: string
  ti_attemptedAt :: string
  ti_error :: "string option"

datatype rekor_status = PUBLISHED | REKOR_FAILED

record rekor_info =
  ri_status :: rekor_status
  ri_logIndex :: "int option"
  ri_entryUuid :: "string option"
  ri_url :: string
  ri_attemptedAt :: string
  ri_error :: "string option"

record chain_state =
  ch_tenant_id :: string
  ch_sequence :: nat
  ch_last_hash :: "string option"
  ch_last_deletion_request_id :: "string option"
  ch_updated_at :: int

record chain_entry =
  ce_tenant_id :: string
  ce_sequence :: nat
  ce_previous_hash :: "string option"
  ce_deletion_request_id :: string
  ce_created_at :: int
  ce_tsaTimestamp :: "tsa_info option"
  ce_rekorEntry :: "rekor_info option"

record stored_certificate =
  sc_certificate :: string
  sc_userId :: string
  sc_deletionRequestId :: string
  sc_timestamp :: string
  sc_hash :: string
  sc_previousCertificateHash :: "string option"
  sc_chainSequence :: "nat option"
  sc_tsaTimestamp :: "tsa_info option"
  sc_rekorEntry :: "rekor_info option"

datatype gcs_object = Certificate stored_certificate | HashText string

record cworld = pworld +
  chains :: "string \<rightharpoonup> chain_state"
  entries :: "string \<rightharpoonup> chain_entry"
  objects :: "string \<rightharpoonup> gcs_object"
  key_versions :: "key_version list"
  signer_version_cache :: "(string \<times> int) option"
  fingerprints :: "string \<rightharpoonup> string"
  service_version_cache :: "(string \<times> int) option"
  enabled_versions_cache :: "(string list \<times> int) option"
  jwks :: "string \<rightharpoonup> (string \<times> json) list"

section \<open>Claims\<close>

datatype lineage_status = ERASED | CONFIRMED_ABSENT

record lineage_item =
  li_system :: string
  li_status :: lineage_status
  li_timestamp :: string

record immunity_item =
  im_resourceId :: string
  im_strategy :: redaction_strategy
  im_backupImmune :: bool
  im_redactedAt :: "string option"
  im_immuneAsOf :: "string option"

record base_claims =
  cl_sub :: string
  cl_tenantId :: string
  cl_keyDestructionStatus :: string
  cl_iat :: int
  cl_jti :: string
  cl_shredDate :: string
  cl_keyFingerprint :: string
  cl_lineageSummary :: "lineage_item list"
  cl_exceptions :: "immunity_item list"
  cl_destinationsChecked :: nat
  cl_destinationsSucceeded :: nat
  cl_knownDestinationTypes :: "string list"
  cl_ghostDataSummary :: "GhostDataSummary list"

record claims_input =
  gi_userId :: string
  gi_tenantId :: string
  gi_deletionRequestId :: "string option"
  gi_ghostDataSummary :: "GhostDataSummary list"
  gi_knownDestinationTypes :: "string list"

definition TIME_TRAVEL_CEILING_HOURS :: int where
  "TIME_TRAVEL_CEILING_HOURS = 168"

definition TIME_TRAVEL_CEILING_MS :: int where
  "TIME_TRAVEL_CEILING_MS = TIME_TRAVEL_CEILING_HOURS * 60 * 60 * 1000"

text \<open>\<open>/^(.+)::(REDACT_IN_PLACE|ENCRYPTED_COPY)$/\<close>\<close>

definition strip_suffix :: "string \<Rightarrow> string \<Rightarrow> string option" where
  "strip_suffix suffix s =
     (let n = length s - length suffix in
      if length suffix \<le> length s \<and> drop n s = suffix then Some (take n s) else None)"

definition is_line :: "string \<Rightarrow> bool" where
  "is_line s = (s \<noteq> [] \<and> list_all (\<lambda>c. c \<noteq> CHR 0x0A \<and> c \<noteq> CHR 0x0D) s)"

definition parseSourceRedactionDestination :: "string \<Rightarrow> (string \<times> redaction_strategy) option" where
  "parseSourceRedactionDestination destination =
     (case strip_suffix ''::REDACT_IN_PLACE'' destination of
        Some r \<Rightarrow> if is_line r then Some (r, REDACT_IN_PLACE) else None
      | None \<Rightarrow> (case strip_suffix ''::ENCRYPTED_COPY'' destination of
            Some r \<Rightarrow> if is_line r then Some (r, ENCRYPTED_COPY) else None
          | None \<Rightarrow> None))"

definition assertKeyShredded :: "string \<Rightarrow> key_status_view option \<Rightarrow> exn + key_status_view" where
  "assertKeyShredded userId keyStatus =
     (case keyStatus of
        Some k \<Rightarrow> if ks_status k = SHREDDED \<or> ks_status k = DELETED then Inr k
                  else Inl (Err (''Cannot generate certificate: Key for user '' @ userId @ '' is not shredded.''))
      | None \<Rightarrow> Inl (Err (''Cannot generate certificate: Key for user '' @ userId @ '' is not shredded.'')))"

definition assertCascadeComplete :: "string \<Rightarrow> deletion_request option \<Rightarrow> exn + deletion_request" where
  "assertCascadeComplete userId r =
     (let err = Inl (Err (''Cannot generate certificate: no completed deletion cascade found for user '' @ userId)) in
      case r of
        Some d \<Rightarrow> if q_status d = CASCADE_COMPLETE \<or> q_status d = CERTIFICATE_ISSUED then Inr d else err
      | None \<Rightarrow> err)"

definition found_nothing :: "wipe_details \<Rightarrow> bool" where
  "found_nothing d = (wd_recordsFound d = Some 0 \<or> wd_rowsAffected d = Some 0)"

definition lineage_items :: "janitor_wipe list \<Rightarrow> lineage_item list" where
  "lineage_items wipes =
     map (\<lambda>w. \<lparr>li_system = jw_destination w,
                li_status = (if found_nothing (jw_details w) then CONFIRMED_ABSENT else ERASED),
                li_timestamp = isoString (jw_updated_at w)\<rparr>)
       (filter (\<lambda>w. jw_status w = W_SUCCEEDED) wipes)"

definition wipe_exception :: "int \<Rightarrow> janitor_wipe \<Rightarrow> immunity_item list" where
  "wipe_exception t w =
     (if jw_status w \<noteq> W_SUCCEEDED then []
      else if found_nothing (jw_details w) then []
      else case parseSourceRedactionDestination (jw_destination w) of
           None \<Rightarrow> []
         | Some (r, st) \<Rightarrow>
             if st = ENCRYPTED_COPY then
               [\<lparr>im_resourceId = r, im_strategy = ENCRYPTED_COPY, im_backupImmune = True,
                 im_redactedAt = Some (isoString (jw_updated_at w)), im_immuneAsOf = None\<rparr>]
             else
               (let backupImmune = (t - jw_updated_at w \<ge> TIME_TRAVEL_CEILING_MS) in
                [\<lparr>im_resourceId = r, im_strategy = REDACT_IN_PLACE, im_backupImmune = backupImmune,
                  im_redactedAt = Some (isoString (jw_updated_at w)),
                  im_immuneAsOf = (if backupImmune then None
                                   else Some (isoString (jw_updated_at w + TIME_TRAVEL_CEILING_MS)))\<rparr>]))"

definition shadow_exceptions :: "pii_entry list \<Rightarrow> immunity_item list" where
  "shadow_exceptions es =
     map (\<lambda>e. \<lparr>im_resourceId = pe_resourceId e, im_strategy = SHADOW_COPY, im_backupImmune = False,
                im_redactedAt = None, im_immuneAsOf = None\<rparr>)
       (filter (\<lambda>e. hasSourceRedactionStrategy e SHADOW_COPY) es)"

section \<open>The signer's reads\<close>

definition signer_getKeyStatus :: "string \<Rightarrow> string \<Rightarrow> ('z cworld_scheme, key_status_view option) eff" where
  "signer_getKeyStatus userId tenantId =
     bnd (rread (\<lambda>s. keys s (getDocId tenantId userId))) (\<lambda>doc.
       case doc of
         None \<Rightarrow> ret None
       | Some data \<Rightarrow> bnd (gets now) (\<lambda>t. ret (Some (status_view data t))))"

definition signer_getDeletionRequest :: "string \<Rightarrow> ('z cworld_scheme, deletion_request option) eff" where
  "signer_getDeletionRequest deletionRequestId = rread (req_of deletionRequestId)"

definition signer_getLatestCompleted :: "string \<Rightarrow> string \<Rightarrow> ('z cworld_scheme, deletion_request option) eff" where
  "signer_getLatestCompleted userId tenantId =
     rread (\<lambda>s. first_of (query (\<lambda>d. q_user_id d = userId \<and> q_tenant_id d = Some tenantId \<and> is_completed (q_status d)) s))"

definition getManualRegistryEntriesForTenant :: "string \<Rightarrow> ('z cworld_scheme, pii_entry list) eff" where
  "getManualRegistryEntriesForTenant tenantId =
     rread (\<lambda>s. filter (\<lambda>e. pe_tenantId e = Some tenantId) (map snd (decl_docs s)))"

section \<open>The signing key\<close>

record signer =
  sg_kms :: kms_service
  sg_client :: kms_client
  sg_sha :: "bytes \<Rightarrow> bytes"
  sg_spki :: "string \<Rightarrow> exn + bytes"

definition VERSION_TTL_MS :: int where
  "VERSION_TTL_MS = 5 * 60 * 1000"

definition newest_version :: "kms_client \<Rightarrow> ('z cworld_scheme, string) eff" where
  "newest_version c =
     bnd (rread key_versions) (\<lambda>vs. lift (getNewestEnabledVersion (getCryptoKeyPath c) vs))"

definition signer_getCurrentSigningKeyVersion :: "signer \<Rightarrow> ('z cworld_scheme, string) eff" where
  "signer_getCurrentSigningKeyVersion G =
     bnd (gets (\<lambda>s. case signer_version_cache s of
           Some (v, expiresAt) \<Rightarrow> if expiresAt > now s then Some v else None
         | None \<Rightarrow> None)) (\<lambda>cached.
     case cached of
       Some v \<Rightarrow> ret v
     | None \<Rightarrow>
         bnd (newest_version (sg_client G)) (\<lambda>v.
         bnd (modify (\<lambda>s. s\<lparr>signer_version_cache := Some (v, now s + VERSION_TTL_MS)\<rparr>)) (\<lambda>_. ret v)))"

definition invalidateSigningKeyCache :: "('z cworld_scheme, unit) eff" where
  "invalidateSigningKeyCache = modify (\<lambda>s. s\<lparr>signer_version_cache := None\<rparr>)"

definition hex_lower :: "nat \<Rightarrow> char" where
  "hex_lower n = (if n < 10 then char_of (48 + n) else char_of (87 + n))"

definition hex_of :: "bytes \<Rightarrow> string" where
  "hex_of bs = concat (map (\<lambda>b. [hex_lower (unat b div 16), hex_lower (unat b mod 16)]) bs)"

definition getKeyFingerprint :: "signer \<Rightarrow> ('z cworld_scheme, string) eff" where
  "getKeyFingerprint G =
     bnd (signer_getCurrentSigningKeyVersion G) (\<lambda>keyVersionPath.
     bnd (gets (\<lambda>s. fingerprints s keyVersionPath)) (\<lambda>cached.
     if truthy cached then ret (the cached)
     else
       bnd (getPublicKey (sg_kms G) keyVersionPath) (\<lambda>pem.
       bnd (lift (sg_spki G pem)) (\<lambda>der.
       let fingerprint = ''sha256:'' @ hex_of (sg_sha G der) in
       bnd (modify (\<lambda>s. s\<lparr>fingerprints := (fingerprints s)(keyVersionPath \<mapsto> fingerprint)\<rparr>)) (\<lambda>_.
       ret fingerprint)))))"

section \<open>Claims and certificates\<close>

definition claims_body ::
  "claims_input \<Rightarrow> key_status_view \<Rightarrow> deletion_request \<Rightarrow> pii_entry list \<Rightarrow> int \<Rightarrow> int \<Rightarrow> string \<Rightarrow> base_claims" where
  "claims_body inp k d manualEntries t t2 fp =
     \<lparr>cl_sub = gi_userId inp, cl_tenantId = gi_tenantId inp,
      cl_keyDestructionStatus = (if ks_status k = SHREDDED \<or> ks_status k = DELETED then ''COMPLETE'' else ''PENDING''),
      cl_iat = t2 div 1000,
      cl_jti = ''cert_'' @ gi_userId inp @ ''_'' @ int_str t2,
      cl_shredDate = isoString (case ks_shred_at k of Some x \<Rightarrow> x | None \<Rightarrow> t2),
      cl_keyFingerprint = fp,
      cl_lineageSummary = lineage_items (q_wipes d),
      cl_exceptions = concat (map (wipe_exception t) (q_wipes d)) @ shadow_exceptions manualEntries,
      cl_destinationsChecked = length (q_wipes d),
      cl_destinationsSucceeded = length (filter (\<lambda>w. jw_status w = W_SUCCEEDED) (q_wipes d)),
      cl_knownDestinationTypes = gi_knownDestinationTypes inp,
      cl_ghostDataSummary = gi_ghostDataSummary inp\<rparr>"

definition generateClaims :: "signer \<Rightarrow> claims_input \<Rightarrow> ('z cworld_scheme, base_claims) eff" where
  "generateClaims G inp =
     bnd (signer_getKeyStatus (gi_userId inp) (gi_tenantId inp)) (\<lambda>keyStatus.
     bnd (if truthy (gi_deletionRequestId inp) then signer_getDeletionRequest (the (gi_deletionRequestId inp))
          else signer_getLatestCompleted (gi_userId inp) (gi_tenantId inp)) (\<lambda>deletionRequest.
     bnd (lift (assertKeyShredded (gi_userId inp) keyStatus)) (\<lambda>k.
     bnd (lift (assertCascadeComplete (gi_userId inp) deletionRequest)) (\<lambda>d.
     bnd (gets now) (\<lambda>t.
     bnd (getManualRegistryEntriesForTenant (gi_tenantId inp)) (\<lambda>manualEntries.
     bnd (gets now) (\<lambda>t2.
     bnd (getKeyFingerprint G) (\<lambda>fp.
     ret (claims_body inp k d manualEntries t t2 fp)))))))))"

text \<open>The signed payload, in the order of the object literal; absent optional fields are left out.\<close>

definition opt_field :: "string \<Rightarrow> ('a \<Rightarrow> json) \<Rightarrow> 'a option \<Rightarrow> (string \<times> json) list" where
  "opt_field k f v = (case v of None \<Rightarrow> [] | Some x \<Rightarrow> [(k, f x)])"

definition lineage_json :: "lineage_item \<Rightarrow> json" where
  "lineage_json l = JObj [(''system'', JStr (li_system l)),
     (''status'', JStr (case li_status l of ERASED \<Rightarrow> ''ERASED'' | CONFIRMED_ABSENT \<Rightarrow> ''CONFIRMED_ABSENT'')),
     (''timestamp'', JStr (li_timestamp l))]"

definition immunity_reason :: "immunity_item \<Rightarrow> string" where
  "immunity_reason i =
     (case im_strategy i of
        ENCRYPTED_COPY \<Rightarrow> ''Only ciphertext was ever stored in this table -- unconditionally backup-immune once the key is shredded, same as pii_vault.''
      | SHADOW_COPY \<Rightarrow> ''This resource'' @ [CHR 0x27] @ ''s source table was never modified -- only a live decrypted view was created alongside it. Backups of the source table are not covered by crypto-shred at any age.''
      | _ \<Rightarrow> if im_backupImmune i
          then ''This table'' @ [CHR 0x27] @ ''s plaintext was redacted in place; BigQuery'' @ [CHR 0x27] @ ''s maximum time-travel window (168h) has elapsed since then, so no pre-redaction plaintext remains queryable in a backup.''
          else ''This table'' @ [CHR 0x27] @ ''s plaintext was redacted in place, but BigQuery'' @ [CHR 0x27] @ ''s maximum time-travel window (168h) has not yet elapsed since then -- the pre-redaction plaintext may still be queryable via BigQuery'' @ [CHR 0x27] @ ''s own time-travel until then.'')"

definition immunity_json :: "immunity_item \<Rightarrow> json" where
  "immunity_json i = JObj ([(''resourceId'', JStr (im_resourceId i)), (''strategy'', JStr (strategy_str (im_strategy i))),
     (''backupImmune'', JBool (im_backupImmune i))] @ opt_field ''redactedAt'' JStr (im_redactedAt i) @
     opt_field ''immuneAsOf'' JStr (im_immuneAsOf i) @ [(''reason'', JStr (immunity_reason i))])"

definition TIME_TRAVEL_CAVEAT :: string where
  "TIME_TRAVEL_CAVEAT =
     ''BigQuery also retains an additional Google-support-assisted '' @ [CHR 0x22] @ ''fail-safe'' @ [CHR 0x22] @
     '' recovery window after this period ends, reachable only through Google'' @ [CHR 0x27] @
     ''s own recovery tooling, never a customer/self-service query. This claim covers self-service, customer-queryable recovery only.''"

text \<open>\<open>num\<close> prints a number that is not an integer.\<close>

definition ghost_json :: "(rat \<Rightarrow> string) \<Rightarrow> GhostDataSummary \<Rightarrow> json" where
  "ghost_json num g = JObj
     ([(''scope'', JStr (case gd_scope g of USER_LINKED \<Rightarrow> ''USER_LINKED'' | RESOURCE_LEVEL \<Rightarrow> ''RESOURCE_LEVEL'')),
       (''resourceId'', JStr (gd_resourceId g)), (''system'', JStr (gd_system g))] @
      opt_field ''column'' JStr (gd_column g) @ opt_field ''pattern'' JStr (gd_pattern g) @
      opt_field ''count'' JNum (gd_count g) @ opt_field ''confidence'' (\<lambda>r. JDec (num r)) (gd_confidence g) @
      opt_field ''scanner'' JStr (gd_scanner g) @ [(''lastSeen'', JStr (isoString (gd_lastSeen g)))])"

definition claims_json :: "(rat \<Rightarrow> string) \<Rightarrow> base_claims \<Rightarrow> string option \<Rightarrow> nat option \<Rightarrow> json" where
  "claims_json num c previousCertificateHash chainSequence = JObj
     [(''iss'', JStr ''Chameleon Key Vault''), (''sub'', JStr (cl_sub c)), (''tenantId'', JStr (cl_tenantId c)),
      (''tenant_id'', JStr (cl_tenantId c)), (''user_id'', JStr (cl_sub c)),
      (''keyDestructionStatus'', JStr (cl_keyDestructionStatus c)), (''keyDestructionMethod'', JStr ''DEK_ERASURE''),
      (''warehouseData'', JStr ''CRYPTOGRAPHICALLY UNREADABLE''), (''iat'', JNum (cl_iat c)), (''jti'', JStr (cl_jti c)),
      (''shredDate'', JStr (cl_shredDate c)), (''shred_date'', JStr (cl_shredDate c)),
      (''keyFingerprint'', JStr (cl_keyFingerprint c)),
      (''lineageSummary'', JArr (map lineage_json (cl_lineageSummary c))),
      (''backupImmunity'', JObj
         [(''cryptoShredCoverage'', JStr ''BACKUP_IMMUNE''),
          (''sourceRedactionExceptions'', JArr (map immunity_json (cl_exceptions c))),
          (''timeTravelCeilingHours'', JNum TIME_TRAVEL_CEILING_HOURS), (''timeTravelCaveat'', JStr TIME_TRAVEL_CAVEAT)]),
      (''lineageCoverage'', JObj
         [(''destinationsChecked'', JNum (int (cl_destinationsChecked c))),
          (''destinationsSucceeded'', JNum (int (cl_destinationsSucceeded c))),
          (''knownDestinationTypes'', JArr (map JStr (cl_knownDestinationTypes c)))]),
      (''ghostDataSummary'', JArr (map (ghost_json num) (cl_ghostDataSummary c))),
      (''ghost_data_summary'', JArr (map (ghost_json num) (cl_ghostDataSummary c))),
      (''ghostDataScanCoverage'', JStr ''NOT_TRACKED''),
      (''previousCertificateHash'', jopt previousCertificateHash),
      (''chainSequence'', case chainSequence of None \<Rightarrow> JNull | Some n \<Rightarrow> JNum (int n))]"

text \<open>\<open>toString('base64url')\<close>\<close>

definition b64url :: "bytes \<Rightarrow> string" where
  "b64url bs = map (\<lambda>c. if c = CHR ''+'' then CHR ''-'' else if c = CHR ''/'' then CHR ''_'' else c)
     (filter (\<lambda>c. c \<noteq> CHR ''='') (b64_encode bs))"

record signed =
  sd_certificate :: string
  sd_certificateHash :: string

definition unsigned_token :: "string \<Rightarrow> json \<Rightarrow> string" where
  "unsigned_token keyVersionPath payload =
     b64url (utf8 (stringify (JObj [(''alg'', JStr ''PS256''), (''typ'', JStr ''JWT''), (''kid'', JStr keyVersionPath)]))) @
     ''.'' @ b64url (utf8 (stringify payload))"

definition signClaims ::
  "(rat \<Rightarrow> string) \<Rightarrow> signer \<Rightarrow> base_claims \<Rightarrow> string option \<Rightarrow> nat option \<Rightarrow> ('z cworld_scheme, signed) eff" where
  "signClaims num G c previousCertificateHash chainSequence =
     bnd (signer_getCurrentSigningKeyVersion G) (\<lambda>keyVersionPath.
     let unsignedToken = unsigned_token keyVersionPath (claims_json num c previousCertificateHash chainSequence) in
     bnd (asymmetricSign (sg_kms G) (sg_sha G) unsignedToken keyVersionPath) (\<lambda>signature.
     let certificate = unsignedToken @ ''.'' @ b64url signature in
     ret \<lparr>sd_certificate = certificate, sd_certificateHash = hex_of (sg_sha G (utf8 certificate))\<rparr>))"

section \<open>Frames\<close>

text \<open>A property that the signer's two caches do not enter.\<close>

definition signer_free :: "('z cworld_scheme \<Rightarrow> bool) \<Rightarrow> bool" where
  "signer_free P \<longleftrightarrow> timeless P \<and> (\<forall>s x. P (s\<lparr>signer_version_cache := x\<rparr>) = P s) \<and> (\<forall>s x. P (s\<lparr>fingerprints := x\<rparr>) = P s)"

lemma signer_free_timeless: "signer_free P \<Longrightarrow> timeless P"
  by (simp add: signer_free_def)

lemma keeps_newest [keeps_intros]: "timeless P \<Longrightarrow> keeps P (newest_version c)"
  unfolding newest_version_def by (intro keeps_intros)

lemma keeps_signer_version [keeps_intros]: "signer_free P \<Longrightarrow> keeps P (signer_getCurrentSigningKeyVersion G)"
  unfolding signer_getCurrentSigningKeyVersion_def
  by (intro keeps_bnd keeps_gets keeps_option keeps_ret keeps_newest keeps_modify signer_free_timeless)
    (simp_all add: signer_free_def)

lemma keeps_fingerprint [keeps_intros]: "signer_free P \<Longrightarrow> keeps P (getKeyFingerprint G)"
  unfolding getKeyFingerprint_def Let_def getPublicKey_def
  by (intro keeps_bnd keeps_gets keeps_if keeps_ret keeps_signer_version keeps_rcall keeps_lift keeps_modify signer_free_timeless)
    (simp_all add: signer_free_def)

lemma keeps_signClaims [keeps_intros]: "signer_free P \<Longrightarrow> keeps P (signClaims num G c p n)"
  unfolding signClaims_def Let_def asymmetricSign_def
  by (intro keeps_bnd keeps_signer_version keeps_rcall keeps_option keeps_throw keeps_ret signer_free_timeless)

lemma keeps_generateClaims [keeps_intros]: "signer_free P \<Longrightarrow> keeps P (generateClaims G inp)"
  unfolding generateClaims_def signer_getKeyStatus_def signer_getDeletionRequest_def
    signer_getLatestCompleted_def getManualRegistryEntriesForTenant_def
  by (intro keeps_bnd keeps_rread keeps_option keeps_if keeps_gets keeps_lift keeps_ret keeps_fingerprint signer_free_timeless)

section \<open>What claims say\<close>

text \<open>What the claims are computed from: the key documents, the requests, the declarations.\<close>

definition core :: "'z cworld_scheme \<Rightarrow> (string \<rightharpoonup> key_doc) \<times> (string \<times> deletion_request) list \<times> (string \<times> pii_entry) list" where
  "core s = (keys s, requests s, decl_docs s)"

lemma core_next_call [simp]: "core (snd (next_call s)) = core s"
  by (auto simp: core_def next_call_def split: list.splits)

lemma core_rread: "rread f s = (r, t) \<Longrightarrow> core t = core s"
  by (metis core_next_call rread_snd snd_conv)

lemma keeps_core: "signer_free (\<lambda>s. core s = x)"
  by (simp add: signer_free_def timeless_def core_def)

lemma req_core: "core t = core s \<Longrightarrow> req_of i t = req_of i s"
  by (simp add: core_def req_of_def)

lemma signer_key_Inr:
  assumes "signer_getKeyStatus u t s = (Inr v, s1)"
  shows "core s1 = core s \<and> (\<forall>k. v = Some k \<longrightarrow> (\<exists>d. keys s (getDocId t u) = Some d \<and> ks_status k = kd_status d))"
proof -
  obtain doc w where r: "rread (\<lambda>s. keys s (getDocId t u)) s = (Inr doc, w)"
    and v: "(case doc of None \<Rightarrow> ret None | Some data \<Rightarrow> bnd (gets now) (\<lambda>t. ret (Some (status_view data t)))) w = (Inr v, s1)"
    using assms unfolding signer_getKeyStatus_def by (elim bnd_InrE)
  have "core s1 = core w" "\<forall>k. v = Some k \<longrightarrow> (\<exists>d. doc = Some d \<and> ks_status k = kd_status d)"
    using v by (auto simp: status_view_def split: option.splits)
  with core_rread[OF r] rread_Inr[OF r] show ?thesis by (auto simp: core_def)
qed

lemma signer_request_Inr:
  assumes "(if truthy i then signer_getDeletionRequest (the i) else signer_getLatestCompleted u ten) s = (Inr v, s1)"
  shows "core s1 = core s \<and> (\<forall>d. v = Some d \<longrightarrow>
    (if truthy i then req_of (the i) s = Some d
     else (\<exists>j. (j, d) \<in> set (requests s)) \<and> q_user_id d = u \<and> q_tenant_id d = Some ten))"
proof (cases "truthy i")
  case True
  with assms have r: "rread (req_of (the i)) s = (Inr v, s1)" by (simp add: signer_getDeletionRequest_def)
  from core_rread[OF r] rread_Inr[OF r] req_core[of s1 s "the i"] True show ?thesis by auto
next
  case False
  define p :: "deletion_request \<Rightarrow> bool" where "p = (\<lambda>d. q_user_id d = u \<and> q_tenant_id d = Some ten \<and> is_completed (q_status d))"
  have r: "rread (\<lambda>s. first_of (query p s)) s = (Inr v, s1)"
    using assms False by (simp add: signer_getLatestCompleted_def p_def)
  have rs: "requests s1 = requests s" using core_rread[OF r] by (simp add: core_def)
  have "q_user_id d = u \<and> q_tenant_id d = Some ten \<and> (\<exists>j. (j, d) \<in> set (requests s))" if "v = Some d" for d
  proof -
    have "first_of (query p s1) = Some d" using rread_Inr[OF r] that by simp
    from query_first[OF this] rs show ?thesis unfolding p_def by simp
  qed
  with core_rread[OF r] False show ?thesis by simp
qed

lemma manual_entries_Inr:
  assumes "getManualRegistryEntriesForTenant t s = (Inr es, s1)"
  shows "es = filter (\<lambda>e. pe_tenantId e = Some t) (map snd (decl_docs s)) \<and> core s1 = core s"
  using rread_Inr[OF assms[unfolded getManualRegistryEntriesForTenant_def]]
    core_rread[OF assms[unfolded getManualRegistryEntriesForTenant_def]] by (auto simp: core_def)

lemma key_shredded_Inr: "assertKeyShredded u v = Inr k \<Longrightarrow> v = Some k \<and> ks_status k \<in> {SHREDDED, DELETED}"
  by (auto simp: assertKeyShredded_def split: option.splits if_splits)

lemma cascade_complete_Inr:
  "assertCascadeComplete u v = Inr d \<Longrightarrow> v = Some d \<and> q_status d \<in> {CASCADE_COMPLETE, CERTIFICATE_ISSUED}"
  by (auto simp: assertCascadeComplete_def Let_def split: option.splits if_splits)

text \<open>The claims, against the documents they were computed from.\<close>

definition claims_of :: "claims_input \<Rightarrow> key_doc \<Rightarrow> deletion_request \<Rightarrow> pii_entry list \<Rightarrow> int \<Rightarrow> base_claims \<Rightarrow> bool" where
  "claims_of inp kd d es t c \<longleftrightarrow>
     kd_status kd \<in> {SHREDDED, DELETED} \<and> q_status d \<in> {CASCADE_COMPLETE, CERTIFICATE_ISSUED} \<and>
     cl_sub c = gi_userId inp \<and> cl_tenantId c = gi_tenantId inp \<and> cl_keyDestructionStatus c = ''COMPLETE'' \<and>
     cl_lineageSummary c = lineage_items (q_wipes d) \<and>
     cl_exceptions c = concat (map (wipe_exception t) (q_wipes d)) @
       shadow_exceptions (filter (\<lambda>e. pe_tenantId e = Some (gi_tenantId inp)) es)"

definition request_for :: "claims_input \<Rightarrow> (string \<times> deletion_request) list \<Rightarrow> deletion_request \<Rightarrow> bool" where
  "request_for inp rs d \<longleftrightarrow>
     (if truthy (gi_deletionRequestId inp) then map_of rs (the (gi_deletionRequestId inp)) = Some d
      else (\<exists>j. (j, d) \<in> set rs) \<and> q_user_id d = gi_userId inp \<and> q_tenant_id d = Some (gi_tenantId inp))"

text \<open>The clock while the claims are built.\<close>

lemma clock_rcall: "keeps (\<lambda>s. T \<le> now s) (rcall f)"
  unfolding rcall_def by (rule clock_rtxn) simp

lemma clock_signer_version: "keeps (\<lambda>s. T \<le> now s) (signer_getCurrentSigningKeyVersion G)"
  unfolding signer_getCurrentSigningKeyVersion_def newest_version_def
  by (intro keeps_bnd keeps_gets keeps_option keeps_ret keeps_lift keeps_modify clock_rread) simp

lemma clock_fingerprint: "keeps (\<lambda>s. T \<le> now s) (getKeyFingerprint G)"
  unfolding getKeyFingerprint_def Let_def getPublicKey_def
  by (intro keeps_bnd keeps_gets keeps_if keeps_ret keeps_lift keeps_modify clock_rcall clock_signer_version) simp

lemma clock_signer_key: "keeps (\<lambda>s. T \<le> now s) (signer_getKeyStatus u t)"
  unfolding signer_getKeyStatus_def by (intro keeps_bnd keeps_gets keeps_option keeps_ret clock_rread)

lemma clock_signer_request:
  "keeps (\<lambda>s. T \<le> now s) (if b then signer_getDeletionRequest i else signer_getLatestCompleted u t)"
  unfolding signer_getDeletionRequest_def signer_getLatestCompleted_def by (intro keeps_if clock_rread)

lemma clock_manual: "keeps (\<lambda>s. T \<le> now s) (getManualRegistryEntriesForTenant t)"
  unfolding getManualRegistryEntriesForTenant_def by (rule clock_rread)

lemma clock_step: "(\<And>T. keeps (\<lambda>s. T \<le> now s) m) \<Longrightarrow> m s = (r, s') \<Longrightarrow> now s \<le> now s'"
  by (metis keepsE order_refl)

lemma generateClaims_Inr:
  assumes "generateClaims G inp s = (Inr c, s')"
  shows "\<exists>kd d t. now s \<le> t \<and> t \<le> now s' \<and> keys s (getDocId (gi_tenantId inp) (gi_userId inp)) = Some kd \<and> request_for inp (requests s) d \<and>
    claims_of inp kd d (map snd (decl_docs s)) t c \<and> core s' = core s"
proof -
  have core': "core s' = core s"
    using keepsE[OF keeps_generateClaims[OF keeps_core] refl assms] .
  show ?thesis
    using assms unfolding generateClaims_def
  proof (elim bnd_InrE)
    fix ks s1 dr s2 k s3 d s4 t s5 es s6 t2 s7 fp s8
    assume key: "signer_getKeyStatus (gi_userId inp) (gi_tenantId inp) s = (Inr ks, s1)"
      and req: "(if truthy (gi_deletionRequestId inp) then signer_getDeletionRequest (the (gi_deletionRequestId inp))
          else signer_getLatestCompleted (gi_userId inp) (gi_tenantId inp)) s1 = (Inr dr, s2)"
      and man: "getManualRegistryEntriesForTenant (gi_tenantId inp) s5 = (Inr es, s6)"
      and fing: "getKeyFingerprint G s7 = (Inr fp, s8)"
      and rest: "lift (assertKeyShredded (gi_userId inp) ks) s2 = (Inr k, s3)"
        "lift (assertCascadeComplete (gi_userId inp) dr) s3 = (Inr d, s4)"
        "gets now s4 = (Inr t, s5)" "gets now s6 = (Inr t2, s7)"
        "ret (claims_body inp k d es t t2 fp) s8 = (Inr c, s')"
    then have k: "ks = Some k" "ks_status k \<in> {SHREDDED, DELETED}"
      and d: "dr = Some d" "q_status d \<in> {CASCADE_COMPLETE, CERTIFICATE_ISSUED}"
      and es: "es = filter (\<lambda>e. pe_tenantId e = Some (gi_tenantId inp)) (map snd (decl_docs s2))"
      and c: "c = claims_body inp k d es t t2 fp"
      using manual_entries_Inr[OF man] by (auto dest!: key_shredded_Inr cascade_complete_Inr)
    from signer_key_Inr[OF key] k obtain kd where kd: "keys s (getDocId (gi_tenantId inp) (gi_userId inp)) = Some kd"
      "kd_status kd = ks_status k" and c1: "core s1 = core s" by auto
    from signer_request_Inr[OF req] d(1) c1 have c2: "core s2 = core s" and "request_for inp (requests s) d"
      by (auto simp: request_for_def req_of_def core_def)
    moreover have "claims_of inp kd d (map snd (decl_docs s)) t c"
      using kd k d es c c2 by (auto simp: claims_of_def claims_body_def core_def)
    moreover have "now s \<le> t" "t \<le> now s'"
      using clock_step[OF clock_signer_key key] clock_step[OF clock_signer_request req]
        clock_step[OF clock_manual man] clock_step[OF clock_fingerprint fing] rest by auto
    ultimately show ?thesis using kd(1) core' by blast
  qed
qed

text \<open>
  Claims of destruction are built only from documents that say so: the key of exactly the
  claimed user and tenant is SHREDDED or DELETED, the named request (or, when none is named, a
  request of that user and tenant) is CASCADE_COMPLETE or CERTIFICATE_ISSUED, the lineage summary is
  that request's succeeded wipes, and nothing is written.
\<close>

theorem claims_need_destruction:
  assumes "generateClaims G inp s = (Inr c, s')"
  shows "\<exists>kd d. keys s (getDocId (cl_tenantId c) (cl_sub c)) = Some kd \<and> kd_status kd \<in> {SHREDDED, DELETED} \<and>
    request_for inp (requests s) d \<and> q_status d \<in> {CASCADE_COMPLETE, CERTIFICATE_ISSUED} \<and>
    cl_lineageSummary c = lineage_items (q_wipes d) \<and> cl_sub c = gi_userId inp \<and> cl_tenantId c = gi_tenantId inp \<and>
    core s' = core s"
  using generateClaims_Inr[OF assms] by (fastforce simp: claims_of_def)

lemma strip_suffix_Some: "strip_suffix x s = Some r \<Longrightarrow> s = r @ x"
  by (auto simp: strip_suffix_def Let_def split: if_splits) (metis append_take_drop_id)

lemma parse_destination:
  "parseSourceRedactionDestination d = Some (r, st) \<Longrightarrow>
   st = REDACT_IN_PLACE \<and> d = r @ ''::REDACT_IN_PLACE'' \<or> st = ENCRYPTED_COPY \<and> d = r @ ''::ENCRYPTED_COPY''"
  by (auto simp: parseSourceRedactionDestination_def split: option.splits if_splits dest!: strip_suffix_Some)

definition honest_exception :: "int \<Rightarrow> janitor_wipe list \<Rightarrow> immunity_item \<Rightarrow> bool" where
  "honest_exception t wipes x \<longleftrightarrow>
     (case im_strategy x of
        NONE \<Rightarrow> False
      | SHADOW_COPY \<Rightarrow> \<not> im_backupImmune x \<and> im_immuneAsOf x = None
      | ENCRYPTED_COPY \<Rightarrow> (\<exists>w \<in> set wipes. jw_status w = W_SUCCEEDED \<and> jw_destination w = im_resourceId x @ ''::ENCRYPTED_COPY'')
      | REDACT_IN_PLACE \<Rightarrow> (\<exists>w \<in> set wipes. jw_status w = W_SUCCEEDED \<and>
            jw_destination w = im_resourceId x @ ''::REDACT_IN_PLACE'' \<and>
            (im_backupImmune x \<longleftrightarrow> jw_updated_at w + 604800000 \<le> t) \<and>
            (\<not> im_backupImmune x \<longrightarrow> im_immuneAsOf x = Some (isoString (jw_updated_at w + 604800000)))))"

lemma wipe_exception_honest:
  assumes "x \<in> set (wipe_exception t w)" and "w \<in> set ws"
  shows "honest_exception t ws x"
proof -
  obtain r st where p: "parseSourceRedactionDestination (jw_destination w) = Some (r, st)" and ok: "jw_status w = W_SUCCEEDED"
    using assms(1) by (cases "parseSourceRedactionDestination (jw_destination w)")
      (auto simp: wipe_exception_def split: if_splits)
  from parse_destination[OF p] show ?thesis
  proof (elim disjE conjE)
    assume "st = REDACT_IN_PLACE" "jw_destination w = r @ ''::REDACT_IN_PLACE''"
    with assms p ok show ?thesis
      by (auto simp: wipe_exception_def honest_exception_def Let_def TIME_TRAVEL_CEILING_MS_def TIME_TRAVEL_CEILING_HOURS_def
          split: if_splits intro!: bexI[of _ w])
  next
    assume "st = ENCRYPTED_COPY" "jw_destination w = r @ ''::ENCRYPTED_COPY''"
    with assms p ok show ?thesis
      by (auto simp: wipe_exception_def honest_exception_def split: if_splits intro!: bexI[of _ w])
  qed
qed

lemma shadow_exception_honest: "x \<in> set (shadow_exceptions es) \<Longrightarrow> honest_exception t ws x"
  by (auto simp: shadow_exceptions_def honest_exception_def)

text \<open>
  The backup claims of a certificate are honest: a redacted table is called immune exactly if
  168 hours have passed since its wipe succeeded, and otherwise the certificate names the moment
  they will have; an encrypted copy is listed only for a succeeded deletion; and every table that is
  only shadow-copied for the tenant is listed as not immune.
\<close>

theorem backup_immunity_honest:
  assumes "generateClaims G inp s = (Inr c, s')"
  shows "\<exists>d t. request_for inp (requests s) d \<and> now s \<le> t \<and> t \<le> now s' \<and>
    (\<forall>x \<in> set (cl_exceptions c). honest_exception t (q_wipes d) x) \<and>
    (\<forall>e \<in> snd ` set (decl_docs s). pe_tenantId e = Some (gi_tenantId inp) \<and> hasSourceRedactionStrategy e SHADOW_COPY \<longrightarrow>
       (\<exists>x \<in> set (cl_exceptions c). im_resourceId x = pe_resourceId e \<and> \<not> im_backupImmune x))"
proof -
  obtain kd d t where ok: "request_for inp (requests s) d" "now s \<le> t" "t \<le> now s'"
    and c: "claims_of inp kd d (map snd (decl_docs s)) t c" using generateClaims_Inr[OF assms] by blast
  have ex: "cl_exceptions c = concat (map (wipe_exception t) (q_wipes d)) @
       shadow_exceptions (filter (\<lambda>e. pe_tenantId e = Some (gi_tenantId inp)) (map snd (decl_docs s)))"
    using c by (simp add: claims_of_def)
  have "\<forall>x \<in> set (cl_exceptions c). honest_exception t (q_wipes d) x"
    unfolding ex by (auto intro: wipe_exception_honest shadow_exception_honest)
  moreover have "\<exists>x \<in> set (cl_exceptions c). im_resourceId x = pe_resourceId e \<and> \<not> im_backupImmune x"
    if "e \<in> snd ` set (decl_docs s)" "pe_tenantId e = Some (gi_tenantId inp)" "hasSourceRedactionStrategy e SHADOW_COPY" for e
    using that unfolding ex shadow_exceptions_def by (intro bexI[of _ "\<lparr>im_resourceId = pe_resourceId e, im_strategy = SHADOW_COPY,
        im_backupImmune = False, im_redactedAt = None, im_immuneAsOf = None\<rparr>"]) auto
  ultimately show ?thesis using ok by blast
qed

section \<open>A concrete certificate\<close>

definition toy_cworld ::
  "(string \<rightharpoonup> key_doc) \<Rightarrow> (string \<times> deletion_request) list \<Rightarrow> (string \<times> pii_entry) list \<Rightarrow> cworld" where
  "toy_cworld ks rs ds =
     pworld.extend ((toy_registry_world ds [])\<lparr>keys := ks, requests := rs, http_faults := []\<rparr>)
       (cworld.fields Map.empty Map.empty Map.empty
          [\<lparr>kv_name = Some ''k/1'', kv_state = ENABLED\<rparr>] (Some (''k/1'', 100000)) [''k/1'' \<mapsto> ''sha256:00''] None None Map.empty)"

definition toy_signer :: signer where
  "toy_signer = \<lparr>sg_kms = \<lparr>kms_encrypt = (\<lambda>_ _ d. Some (0 # d)), kms_decrypt = (\<lambda>_ c. Inr (Some (tl c))),
       kms_random = (\<lambda>_ n. replicate n 0), kms_sign = (\<lambda>_ d. Some d), kms_pem = (\<lambda>_. Some ''pem'')\<rparr>,
     sg_client = \<lparr>projectId = ''p'', region = ''r'', keyRing = ''g'', keyName = ''k''\<rparr>,
     sg_sha = rev, sg_spki = (\<lambda>_. Inr [1])\<rparr>"

definition shredded_doc :: key_doc where
  "shredded_doc = shred_doc (Some (new_key_doc ''u'' [7] 1000)) 2000 None"

definition finished_request :: deletion_request where
  "finished_request = (new_request ''u'' ''r1'' ''t'' None 7)\<lparr>q_status := CASCADE_COMPLETE,
     q_wipes := [\<lparr>jw_destination = ''bigquery:p.d.t::REDACT_IN_PLACE'', jw_status = W_SUCCEEDED, jw_updated_at = 4000,
       jw_details = \<lparr>wd_attempts = None, wd_recordsFound = None, wd_rowsAffected = Some 1, wd_error = None\<rparr>\<rparr>]\<rparr>"

definition toy_input :: "string \<Rightarrow> claims_input" where
  "toy_input u = \<lparr>gi_userId = u, gi_tenantId = ''t'', gi_deletionRequestId = Some ''r1'', gi_ghostDataSummary = [],
     gi_knownDestinationTypes = []\<rparr>"

lemma shredded_status [simp]: "kd_status shredded_doc = SHREDDED"
  by (simp add: shredded_doc_def shred_doc_def Let_def)

lemmas toy_cworld_defs = toy_cworld_def toy_registry_world_def toy_requests_def toy_saas_def
  cworld.defs pworld.defs rworld.defs jworld.defs

lemma toy_claims:
  assumes "ks (getDocId ''t'' u) = Some shredded_doc" and "map_of rs ''r1'' = Some finished_request"
  shows "\<exists>c. generateClaims toy_signer (toy_input u) (toy_cworld ks rs ds) = (Inr c, toy_cworld ks rs ds)"
proof -
  let ?w = "toy_cworld ks rs ds"
  have w: "outcomes ?w = []" "keys ?w = ks" "requests ?w = rs" "signer_version_cache ?w = Some (''k/1'', 100000)"
    "fingerprints ?w = [''k/1'' \<mapsto> ''sha256:00'']" "now ?w = 5000"
    by (simp_all add: toy_cworld_defs)
  have "signer_getKeyStatus u ''t'' ?w = (Inr (Some (status_view shredded_doc 5000)), ?w)"
    using assms(1) w by (simp add: signer_getKeyStatus_def no_faults bnd_apply)
  moreover have "signer_getDeletionRequest ''r1'' ?w = (Inr (Some finished_request), ?w)"
    using assms(2) w by (simp add: signer_getDeletionRequest_def no_faults req_of_def)
  moreover have "assertKeyShredded u (Some (status_view shredded_doc 5000)) = Inr (status_view shredded_doc 5000)"
    by (simp add: assertKeyShredded_def status_view_def)
  moreover have "assertCascadeComplete u (Some finished_request) = Inr finished_request"
    by (simp add: assertCascadeComplete_def finished_request_def)
  moreover have "\<exists>es. getManualRegistryEntriesForTenant ''t'' ?w = (Inr es, ?w)"
    using w by (simp add: getManualRegistryEntriesForTenant_def no_faults)
  moreover have "getKeyFingerprint toy_signer ?w = (Inr ''sha256:00'', ?w)"
    using w by (simp add: getKeyFingerprint_def signer_getCurrentSigningKeyVersion_def bnd_apply truthy_def)
  ultimately show ?thesis
    by (auto simp: generateClaims_def toy_input_def truthy_def bnd_apply)
qed

lemma claims_need_destruction_witness:
  "\<exists>c s'. generateClaims toy_signer (toy_input ''u'') (toy_cworld [getDocId ''t'' ''u'' \<mapsto> shredded_doc] [(''r1'', finished_request)] []) = (Inr c, s') \<and>
     cl_lineageSummary c = lineage_items (q_wipes finished_request)"
proof -
  let ?w = "toy_cworld [getDocId ''t'' ''u'' \<mapsto> shredded_doc] [(''r1'', finished_request)] []"
  obtain c s' where run: "generateClaims toy_signer (toy_input ''u'') ?w = (Inr c, s')"
    using toy_claims[of "[getDocId ''t'' ''u'' \<mapsto> shredded_doc]" "''u''" "[(''r1'', finished_request)]" "[]"] by auto
  from claims_need_destruction[OF run] run show ?thesis
    by (auto simp: request_for_def toy_input_def truthy_def toy_cworld_defs)
qed

lemma backup_immunity_honest_witness:
  "\<exists>c s'. generateClaims toy_signer (toy_input ''u'') (toy_cworld [getDocId ''t'' ''u'' \<mapsto> shredded_doc] [(''r1'', finished_request)] []) = (Inr c, s') \<and>
     (\<exists>t. list_all (honest_exception t (q_wipes finished_request)) (cl_exceptions c))"
proof -
  let ?w = "toy_cworld [getDocId ''t'' ''u'' \<mapsto> shredded_doc] [(''r1'', finished_request)] []"
  obtain c s' where run: "generateClaims toy_signer (toy_input ''u'') ?w = (Inr c, s')"
    using toy_claims[of "[getDocId ''t'' ''u'' \<mapsto> shredded_doc]" "''u''" "[(''r1'', finished_request)]" "[]"] by auto
  from backup_immunity_honest[OF run] run show ?thesis
    by (auto simp: request_for_def toy_input_def truthy_def toy_cworld_defs list_all_iff)
qed

text \<open>
  The request is not compared with the user: claims for a user whose own cascade failed can be
  built from another user's finished request.
\<close>

lemma foreign_request_accepted:
  assumes "failed = (new_request ''v'' ''r2'' ''t'' None 9)\<lparr>q_status := CASCADE_PARTIAL_FAILURE\<rparr>"
  shows "\<exists>c s'. generateClaims toy_signer (toy_input ''v'')
      (toy_cworld [getDocId ''t'' ''v'' \<mapsto> shredded_doc] [(''r1'', finished_request), (''r2'', failed)] []) = (Inr c, s') \<and>
    cl_sub c = ''v'' \<and> q_user_id finished_request = ''u''"
proof -
  let ?w = "toy_cworld [getDocId ''t'' ''v'' \<mapsto> shredded_doc] [(''r1'', finished_request), (''r2'', failed)] []"
  obtain c s' where run: "generateClaims toy_signer (toy_input ''v'') ?w = (Inr c, s')"
    using toy_claims[of "[getDocId ''t'' ''v'' \<mapsto> shredded_doc]" "''v''" "[(''r1'', finished_request), (''r2'', failed)]" "[]"] by auto
  with generateClaims_Inr[OF run] show ?thesis
    by (auto simp: claims_of_def toy_input_def finished_request_def new_request_def)
qed

end
