(* ===== verification/CertText.thy ===== *)
theory CertText
  imports CertSigner
begin

text \<open>
  What the text of a signed certificate determines: the printed payload of
  \<open>src/certificate-signer/sign.ts\<close> (\<open>JSON.stringify\<close>, base64url, the two dots) is read back far enough
  to recover the tenant and the position in the tenant's chain, so with a collision-free hash two
  certificates of different tenants or positions never share a hash. Also the hexadecimal digest and
  its reading by \<open>Buffer.from(hex, 'hex')\<close>.
\<close>

section \<open>Hexadecimal\<close>

definition hex_value :: "char \<Rightarrow> nat option" where
  "hex_value c =
     (if is_digit c then Some (char_code c - 48)
      else if between (CHR ''a'') (CHR ''f'') c then Some (char_code c - 87)
      else if between (CHR ''A'') (CHR ''F'') c then Some (char_code c - 55)
      else None)"

text \<open>\<open>Buffer.from(s, 'hex')\<close> stops at the first pair that is not hexadecimal.\<close>

fun of_hex :: "string \<Rightarrow> bytes" where
  "of_hex (a # b # cs) =
     (case (hex_value a, hex_value b) of
        (Some x, Some y) \<Rightarrow> of_nat (16 * x + y) # of_hex cs
      | _ \<Rightarrow> [])"
| "of_hex _ = []"

lemma hex_value_lower: "d < 16 \<Longrightarrow> hex_value (hex_lower d) = Some d"
  by (auto simp: hex_value_def hex_lower_def char_ranges of_char_of)

lemma of_hex_hex_of [simp]: "of_hex (hex_of bs) = bs"
proof (induction bs)
  case (Cons b bs)
  have "unat b div 16 < 16" using unat_byte[of b] by (simp add: less_mult_imp_div_less)
  moreover have "16 * (unat b div 16) + unat b mod 16 = unat b" by simp
  ultimately show ?case using Cons by (simp add: hex_of_def hex_value_lower)
qed (simp add: hex_of_def)

lemma hex_of_eq [simp]: "hex_of a = hex_of b \<longleftrightarrow> a = b"
  by (metis of_hex_hex_of)

lemma utf8_eq [simp]: "utf8 a = utf8 b \<longleftrightarrow> a = b"
  by (metis of_utf8_utf8)

section \<open>base64url\<close>

definition url_char :: "char \<Rightarrow> char" where
  "url_char c = (if c = CHR ''+'' then CHR ''-'' else if c = CHR ''/'' then CHR ''_'' else c)"

lemma b64_value_url [simp]: "b64_value (url_char c) = b64_value c"
  by (auto simp: url_char_def b64_value_def char_ranges)

lemma map_filter_url: "List.map_filter b64_value (map url_char (filter (\<lambda>c. c \<noteq> CHR ''='') cs)) = List.map_filter b64_value cs"
  by (induction cs) (auto simp: List.map_filter_def)

text \<open>\<open>Buffer.from(s, 'base64url')\<close> inverts the printing.\<close>

lemma b64url_decode [simp]: "b64_decode (b64url bs) = bs"
proof -
  have "b64url bs = map url_char (filter (\<lambda>c. c \<noteq> CHR ''='') (b64_encode bs))"
    by (simp add: b64url_def url_char_def)
  then have "b64_decode (b64url bs) = b64_decode (b64_encode bs)"
    by (simp only: b64_decode_def map_filter_url)
  then show ?thesis by simp
qed

lemma b64url_eq [simp]: "b64url a = b64url b \<longleftrightarrow> a = b"
  by (metis b64url_decode)

lemma b64url_no_dot [simp]: "CHR ''.'' \<notin> set (b64url bs)"
proof -
  have "\<not> is_b64_char (CHR ''.'')" by (simp add: is_b64_char_def char_ranges)
  then have "CHR ''.'' \<notin> set (b64_encode bs)" using b64_encode_chars[of bs] by (auto simp: list_all_iff)
  then show ?thesis by (auto simp: b64url_def)
qed

section \<open>JSON\<close>

text \<open>The characters of a string literal are read back one by one, up to the closing quote.\<close>

lemma hex_lower_eq: "a < 16 \<Longrightarrow> b < 16 \<Longrightarrow> hex_lower a = hex_lower b \<longleftrightarrow> a = b"
  using hex_value_lower by (metis option.inject)

lemma json_char_control:
  "json_char c = [CHR 0x5C, CHR ''u'', CHR ''0'', CHR ''0'', hex_lower (char_code c div 16), hex_lower (char_code c mod 16)] \<or>
   (\<exists>x. json_char c = [CHR 0x5C, x] \<and> x \<noteq> CHR ''u'') \<or> json_char c = [c] \<and> c \<noteq> CHR 0x5C \<and> c \<noteq> CHR 0x22"
  by (auto simp: json_char_def hex_lower_def Let_def)

lemma json_char_short: "json_char c = [CHR 0x5C, x] \<Longrightarrow> json_char d = [CHR 0x5C, x] \<Longrightarrow> c = d"
  by (auto simp: json_char_def Let_def split: if_splits)

lemma char_code_eq [simp]: "char_code c = char_code d \<longleftrightarrow> c = d"
  by (simp add: char_code_def)

lemma char_code_hex:
  assumes "hex_lower (char_code c div 16) = hex_lower (char_code d div 16)"
    and "hex_lower (char_code c mod 16) = hex_lower (char_code d mod 16)"
  shows "c = d"
proof -
  have "char_code c div 16 < 16" "char_code d div 16 < 16"
    using char_code_less[of c] char_code_less[of d] by (simp_all add: less_mult_imp_div_less)
  then have "char_code c div 16 = char_code d div 16" "char_code c mod 16 = char_code d mod 16"
    using assms by (simp_all add: hex_lower_eq)
  then have "char_code c = char_code d" by (metis div_mult_mod_eq)
  then show ?thesis by simp
qed

lemma json_char_cancel: "json_char c @ a = json_char d @ b \<Longrightarrow> c = d \<and> a = b"
  using json_char_control[of c] json_char_control[of d]
  by (elim disjE exE conjE) (auto dest: char_code_hex json_char_short)

lemma json_char_quote: "json_char c @ a \<noteq> CHR 0x22 # b"
  using json_char_control[of c] by auto

lemma json_body_cancel:
  "concat (map json_char x) @ CHR 0x22 # a = concat (map json_char y) @ CHR 0x22 # b \<Longrightarrow> x = y \<and> a = b"
proof (induction x arbitrary: y)
  case Nil
  then show ?case using json_char_quote by (cases y) (auto, metis)
next
  case (Cons c x)
  then obtain d y' where y: "y = d # y'" using json_char_quote[of c] by (cases y) auto
  with Cons.prems have "c = d \<and> concat (map json_char x) @ CHR 0x22 # a = concat (map json_char y') @ CHR 0x22 # b"
    by (intro json_char_cancel) simp
  with Cons.IH[of y'] y show ?case by simp
qed

lemma json_quote_cancel: "json_quote x @ a = json_quote y @ b \<Longrightarrow> x = y \<and> a = b"
  using json_body_cancel[of x a y b] by (simp add: json_quote_def)

section \<open>Certificates\<close>

lemma join_Cons: "join_with sep (x # xs) = x @ concat (map (\<lambda>y. sep @ y) xs)"
  by (induction xs arbitrary: x) auto

text \<open>The payload starts with the issuer, the subject and the tenant, and ends with the chain sequence.\<close>

lemma claims_print:
  obtains rest where "stringify (claims_json num c p (Some n)) =
    [CHR 0x7B] @ json_quote ''iss'' @ '':'' @ json_quote ''Chameleon Key Vault'' @ '','' @
    json_quote ''sub'' @ '':'' @ json_quote (cl_sub c) @ '','' @
    json_quote ''tenantId'' @ '':'' @ json_quote (cl_tenantId c) @ rest @ '':'' @ nat_str n @ [CHR 0x7D]"
proof -
  obtain mid where c: "claims_json num c p (Some n) = JObj ([(''iss'', JStr ''Chameleon Key Vault''), (''sub'', JStr (cl_sub c)),
      (''tenantId'', JStr (cl_tenantId c))] @ mid @ [(''chainSequence'', JNum (int n))])"
    unfolding claims_json_def by auto
  show thesis
    by (rule that[of "concat (map (\<lambda>y. '','' @ y) (map (\<lambda>(k, v). json_quote k @ '':'' @ stringify v) mid)) @
          '','' @ json_quote ''chainSequence''"])
      (simp add: c join_Cons int_str_def)
qed

lemma nat_str_no_colon: "CHR '':'' \<notin> set (nat_str n)"
proof -
  have "\<not> is_digit (CHR '':'')" by (simp add: char_ranges)
  then show ?thesis using nat_str_digits[of n] by (auto simp: list_all_iff)
qed

lemma suffix_cancel:
  assumes "xs @ c # ys = xs' @ c # ys'" and "c \<notin> set ys" and "c \<notin> set ys'"
  shows "ys = ys'"
proof -
  have "takeWhile (\<lambda>x. x \<noteq> c) (rev (zs @ c # y)) = rev y" if "c \<notin> set y" for zs y
    using that takeWhile_append2[of "rev y" "\<lambda>x. x \<noteq> c" "c # rev zs"] by auto
  from this[OF assms(2), of xs] this[OF assms(3), of xs'] assms(1) show ?thesis by simp
qed

lemma claims_print_cancel:
  assumes "stringify (claims_json num c p (Some n)) = stringify (claims_json num' c' p' (Some n'))"
  shows "cl_sub c = cl_sub c' \<and> cl_tenantId c = cl_tenantId c' \<and> n = n'"
proof -
  obtain r r' where r: "stringify (claims_json num c p (Some n)) =
      [CHR 0x7B] @ json_quote ''iss'' @ '':'' @ json_quote ''Chameleon Key Vault'' @ '','' @
      json_quote ''sub'' @ '':'' @ json_quote (cl_sub c) @ '','' @
      json_quote ''tenantId'' @ '':'' @ json_quote (cl_tenantId c) @ r @ '':'' @ nat_str n @ [CHR 0x7D]"
    and r': "stringify (claims_json num' c' p' (Some n')) =
      [CHR 0x7B] @ json_quote ''iss'' @ '':'' @ json_quote ''Chameleon Key Vault'' @ '','' @
      json_quote ''sub'' @ '':'' @ json_quote (cl_sub c') @ '','' @
      json_quote ''tenantId'' @ '':'' @ json_quote (cl_tenantId c') @ r' @ '':'' @ nat_str n' @ [CHR 0x7D]"
    using claims_print by metis
  have s: "json_quote (cl_sub c) @ '','' @ json_quote ''tenantId'' @ '':'' @ json_quote (cl_tenantId c) @ r @ '':'' @ nat_str n @ [CHR 0x7D] =
      json_quote (cl_sub c') @ '','' @ json_quote ''tenantId'' @ '':'' @ json_quote (cl_tenantId c') @ r' @ '':'' @ nat_str n' @ [CHR 0x7D]"
    using assms unfolding r r' by simp
  then have t: "json_quote (cl_tenantId c) @ r @ '':'' @ nat_str n @ [CHR 0x7D] = json_quote (cl_tenantId c') @ r' @ '':'' @ nat_str n' @ [CHR 0x7D]"
    using json_quote_cancel[OF s] by simp
  then have "r @ CHR '':'' # (nat_str n @ [CHR 0x7D]) = r' @ CHR '':'' # (nat_str n' @ [CHR 0x7D])"
    using json_quote_cancel[OF t] by simp
  then have "nat_str n @ [CHR 0x7D] = nat_str n' @ [CHR 0x7D]"
    by (rule suffix_cancel) (simp_all add: nat_str_no_colon)
  then show ?thesis using json_quote_cancel[OF s] json_quote_cancel[OF t] by simp
qed

text \<open>A hash is the digest of a certificate for this tenant and this position in its chain.\<close>

definition certifies :: "(bytes \<Rightarrow> bytes) \<Rightarrow> string \<Rightarrow> string \<Rightarrow> nat \<Rightarrow> bool" where
  "certifies sha h t n \<longleftrightarrow> (\<exists>num c p key sig. cl_tenantId c = t \<and>
     h = hex_of (sha (utf8 (unsigned_token key (claims_json num c p (Some n)) @ ''.'' @ b64url sig))))"

lemma certificate_identifies:
  assumes "inj sha" and "certifies sha h t n" and "certifies sha h t' n'"
  shows "t = t' \<and> n = n'"
proof -
  obtain num c p key sig num' c' p' key' sig' where t: "cl_tenantId c = t" "cl_tenantId c' = t'"
    and "hex_of (sha (utf8 (unsigned_token key (claims_json num c p (Some n)) @ ''.'' @ b64url sig))) =
      hex_of (sha (utf8 (unsigned_token key' (claims_json num' c' p' (Some n')) @ ''.'' @ b64url sig')))"
    using assms(2,3) unfolding certifies_def by metis
  then have e: "unsigned_token key (claims_json num c p (Some n)) @ ''.'' @ b64url sig =
      unsigned_token key' (claims_json num' c' p' (Some n')) @ ''.'' @ b64url sig'"
    using assms(1) by (simp add: inj_eq)
  have three: "x = x' \<and> y = y'" if "b64url x @ ''.'' @ b64url y @ ''.'' @ z = b64url x' @ ''.'' @ b64url y' @ ''.'' @ z'" for x y z x' y' z'
  proof -
    have "split_on CHR ''.'' (b64url x @ ''.'' @ b64url y @ ''.'' @ z) = b64url x # b64url y # split_on CHR ''.'' z" for x y z
      by (simp add: split_on_append)
    then have "b64url x # b64url y # split_on CHR ''.'' z = b64url x' # b64url y' # split_on CHR ''.'' z'"
      using that by metis
    then show ?thesis by simp
  qed
  have "stringify (claims_json num c p (Some n)) = stringify (claims_json num' c' p' (Some n'))"
    using e three unfolding unsigned_token_def append_assoc utf8_eq[symmetric] by blast
  then show ?thesis using claims_print_cancel t by metis
qed

text \<open>What the signer returns is such a digest.\<close>

lemma signClaims_certifies:
  assumes "signClaims num G c p (Some n) s = (Inr r, s')"
  shows "certifies (sg_sha G) (sd_certificateHash r) (cl_tenantId c) n"
  using assms unfolding signClaims_def Let_def
proof (elim bnd_InrE)
  fix key u sig u'
  assume "ret \<lparr>sd_certificate = unsigned_token key (claims_json num c p (Some n)) @ ''.'' @ b64url sig,
      sd_certificateHash = hex_of (sg_sha G (utf8 (unsigned_token key (claims_json num c p (Some n)) @ ''.'' @ b64url sig)))\<rparr> u' = (Inr r, s')"
  then show ?thesis unfolding certifies_def by fastforce
qed

end
