(* ===== verification/Witnesses.thy ===== *)
theory Witnesses
  imports CertText
begin

text \<open>
  The two outside witnesses of a certificate: the RFC 3161 time-stamping client of
  \<open>src/gcp/tsa-client.ts\<close> and the Rekor client of \<open>src/gcp/rekor-client.ts\<close>. HTTP, the ASN.1 library
  and key management are fields of the client records; what the clients decide on the replies is
  modelled, and that neither ever throws is proved.
\<close>

section \<open>Time stamps\<close>

text \<open>What the ASN.1 library reads from a time-stamp token.\<close>

record tst_info =
  tst_imprint :: bytes
  tst_nonce :: "bytes option"
  tst_genTime :: int

record tsa_client =
  ta_url :: string
  ta_random :: "nat \<Rightarrow> nat \<Rightarrow> bytes"
  ta_request :: "bytes \<Rightarrow> bytes \<Rightarrow> bytes"
  ta_post :: "bytes \<Rightarrow> exn + nat \<times> bytes"
  ta_response :: "bytes \<Rightarrow> exn + int \<times> bytes option"
  ta_content :: "bytes \<Rightarrow> exn + bytes option"
  ta_tst :: "bytes \<Rightarrow> exn + tst_info"

definition tsa_failed :: "tsa_client \<Rightarrow> string \<Rightarrow> string \<Rightarrow> tsa_info" where
  "tsa_failed T attemptedAt e =
     \<lparr>ti_status = TSA_FAILED, ti_token = None, ti_timestamp = None, ti_url = ta_url T,
      ti_attemptedAt = attemptedAt, ti_error = Some e\<rparr>"

definition check_tst :: "tsa_client \<Rightarrow> string \<Rightarrow> bytes \<Rightarrow> bytes \<Rightarrow> bytes \<Rightarrow> tst_info \<Rightarrow> tsa_info" where
  "check_tst T attemptedAt digest nonce raw tst =
     (if tst_imprint tst \<noteq> digest then tsa_failed T attemptedAt ''messageImprint mismatch''
      else if tst_nonce tst \<noteq> None \<and> tst_nonce tst \<noteq> Some nonce then tsa_failed T attemptedAt ''nonce mismatch''
      else \<lparr>ti_status = OBTAINED, ti_token = Some (b64_encode raw),
            ti_timestamp = Some (isoString (tst_genTime tst)), ti_url = ta_url T,
            ti_attemptedAt = attemptedAt, ti_error = None\<rparr>)"

definition check_reply :: "tsa_client \<Rightarrow> string \<Rightarrow> bytes \<Rightarrow> bytes \<Rightarrow> nat \<Rightarrow> bytes \<Rightarrow> exn + tsa_info" where
  "check_reply T attemptedAt digest nonce status raw =
     (if status \<noteq> 200 then Inr (tsa_failed T attemptedAt (''HTTP '' @ nat_str status))
      else case ta_response T raw of
        Inl e \<Rightarrow> Inl e
      | Inr (pki, token) \<Rightarrow>
          if pki \<noteq> 0 \<and> pki \<noteq> 1 then Inr (tsa_failed T attemptedAt (''PKIStatus '' @ int_str pki))
          else (case token of
            None \<Rightarrow> Inr (tsa_failed T attemptedAt ''missing timeStampToken'')
          | Some tok \<Rightarrow> (case ta_content T tok of
              Inl e \<Rightarrow> Inl e
            | Inr None \<Rightarrow> Inr (tsa_failed T attemptedAt ''no TSTInfo content in response'')
            | Inr (Some content) \<Rightarrow> (case ta_tst T content of
                Inl e \<Rightarrow> Inl e
              | Inr tst \<Rightarrow> Inr (check_tst T attemptedAt digest nonce raw tst)))))"

text \<open>\<open>nonce[0] &= 0x7f\<close>\<close>

definition positive_nonce :: "bytes \<Rightarrow> bytes" where
  "positive_nonce r = (case r of [] \<Rightarrow> [] | b # bs \<Rightarrow> and b 0x7F # bs)"

definition requestTimestamp :: "tsa_client \<Rightarrow> string \<Rightarrow> ('z cworld_scheme, tsa_info) eff" where
  "requestTimestamp T certificateHashHex =
     bnd (gets now) (\<lambda>t.
     let attemptedAt = isoString t in
     catch
       (let digest = of_hex certificateHashHex in
        bnd (gets (\<lambda>s. positive_nonce (ta_random T (draws s) 8))) (\<lambda>nonce.
        bnd (modify (\<lambda>s. s\<lparr>draws := draws s + 1\<rparr>)) (\<lambda>_.
        bnd (rcall (\<lambda>_. ta_post T (ta_request T digest nonce))) (\<lambda>(status, raw).
        lift (check_reply T attemptedAt digest nonce status raw)))))
       (\<lambda>e. ret (tsa_failed T attemptedAt (message_of e))))"

section \<open>The transparency log\<close>

record rekor_client =
  rk_url :: string
  rk_kms :: kms_service
  rk_client :: kms_client
  rk_sha :: "bytes \<Rightarrow> bytes"
  rk_versions :: "key_version list"
  rk_post :: "string \<Rightarrow> json \<Rightarrow> exn + nat \<times> (string \<times> int option) list"

text \<open>The version path given to the client by \<open>src/main.ts\<close>.\<close>

definition rekor_version_path :: "rekor_client \<Rightarrow> ('z cworld_scheme, string) eff" where
  "rekor_version_path R =
     bnd (rread (\<lambda>_. rk_versions R)) (\<lambda>vs. lift (getNewestEnabledVersion (getCryptoKeyPath (rk_client R)) vs))"

definition getPublicKeyPem :: "rekor_client \<Rightarrow> ('z cworld_scheme, string) eff" where
  "getPublicKeyPem R = bnd (rekor_version_path R) (getPublicKey (rk_kms R))"

definition rekor_payload :: "string \<Rightarrow> string option \<Rightarrow> string" where
  "rekor_payload certificateHash previousCertificateHash =
     stringify (JObj [(''certificateHash'', JStr certificateHash), (''previousCertificateHash'', jopt previousCertificateHash)])"

definition rekor_body :: "bytes \<Rightarrow> string \<Rightarrow> string \<Rightarrow> json" where
  "rekor_body signature publicKeyPem payloadDigestHex =
     JObj [(''kind'', JStr ''hashedrekord''), (''apiVersion'', JStr ''0.0.1''),
       (''spec'', JObj [
         (''signature'', JObj [(''content'', JStr (b64_encode signature)),
            (''publicKey'', JObj [(''content'', JStr (b64_encode (utf8 publicKeyPem)))])]),
         (''data'', JObj [(''hash'', JObj [(''algorithm'', JStr ''sha256''), (''value'', JStr payloadDigestHex)])])])]"

definition rekor_failed :: "rekor_client \<Rightarrow> string \<Rightarrow> string \<Rightarrow> rekor_info" where
  "rekor_failed R attemptedAt e =
     \<lparr>ri_status = REKOR_FAILED, ri_logIndex = None, ri_entryUuid = None, ri_url = rk_url R,
      ri_attemptedAt = attemptedAt, ri_error = Some e\<rparr>"

definition rekor_reply :: "rekor_client \<Rightarrow> string \<Rightarrow> nat \<Rightarrow> (string \<times> int option) list \<Rightarrow> rekor_info" where
  "rekor_reply R attemptedAt status data =
     (if status \<noteq> 201 then rekor_failed R attemptedAt (''HTTP '' @ nat_str status)
      else (let entryUuid = first_of (map fst data) in
        \<lparr>ri_status = PUBLISHED,
         ri_logIndex = (if truthy entryUuid then Option.bind (map_of data (the entryUuid)) (\<lambda>x. x) else None),
         ri_entryUuid = entryUuid, ri_url = rk_url R, ri_attemptedAt = attemptedAt, ri_error = None\<rparr>))"

definition publishCertificateHash :: "rekor_client \<Rightarrow> string \<Rightarrow> string option \<Rightarrow> ('z cworld_scheme, rekor_info) eff" where
  "publishCertificateHash R certificateHash previousCertificateHash =
     bnd (gets now) (\<lambda>t.
     let attemptedAt = isoString t in
     catch
       (let payload = rekor_payload certificateHash previousCertificateHash;
            payloadDigestHex = hex_of (rk_sha R (utf8 payload)) in
        bnd (rekor_version_path R) (\<lambda>keyVersionPath.
        bnd (asymmetricSign (rk_kms R) (rk_sha R) payload keyVersionPath) (\<lambda>signature.
        bnd (getPublicKey (rk_kms R) keyVersionPath) (\<lambda>publicKeyPem.
        bnd (rcall (\<lambda>_. rk_post R (rk_url R @ ''/api/v1/log/entries'') (rekor_body signature publicKeyPem payloadDigestHex)))
          (\<lambda>(status, data). ret (rekor_reply R attemptedAt status data))))))
       (\<lambda>e. ret (rekor_failed R attemptedAt (message_of e))))"

section \<open>What the witnesses promise\<close>

text \<open>A property that the draws of randomness do not enter.\<close>

definition draw_free :: "('z cworld_scheme \<Rightarrow> bool) \<Rightarrow> bool" where
  "draw_free P \<longleftrightarrow> timeless P \<and> (\<forall>s n. P (s\<lparr>draws := n\<rparr>) = P s)"

lemma keeps_requestTimestamp [keeps_intros]: "draw_free P \<Longrightarrow> keeps P (requestTimestamp T h)"
  unfolding requestTimestamp_def Let_def
  by (intro keeps_bnd keeps_gets keeps_catch keeps_modify keeps_rcall keeps_prod keeps_lift keeps_ret)
    (simp_all add: draw_free_def)

lemma keeps_rekor_path [keeps_intros]: "timeless P \<Longrightarrow> keeps P (rekor_version_path R)"
  unfolding rekor_version_path_def by (intro keeps_intros)

lemma keeps_publish [keeps_intros]: "timeless P \<Longrightarrow> keeps P (publishCertificateHash R h p)"
  unfolding publishCertificateHash_def Let_def asymmetricSign_def getPublicKey_def by (intro keeps_intros)

lemma catch_always_returns: "(\<And>e t. \<exists>a. h e t = (Inr a, t)) \<Longrightarrow> \<exists>a t. catch m h s = (Inr a, t)"
  by (cases "m s") (auto simp: catch_apply split: sum.splits; metis)

lemma requestTimestamp_total: "\<exists>i t. requestTimestamp T h s = (Inr i, t)"
  unfolding requestTimestamp_def Let_def bnd_gets by (rule catch_always_returns) simp

lemma publish_total: "\<exists>i t. publishCertificateHash R h p s = (Inr i, t)"
  unfolding publishCertificateHash_def Let_def bnd_gets by (rule catch_always_returns) simp

lemma check_reply_obtained:
  assumes "check_reply T a digest nonce status raw = Inr i" and "ti_status i = OBTAINED"
  shows "status = 200 \<and> ti_token i = Some (b64_encode raw) \<and>
    (\<exists>pki tok c tst. ta_response T raw = Inr (pki, Some tok) \<and> pki \<in> {0, 1} \<and> ta_content T tok = Inr (Some c) \<and>
       ta_tst T c = Inr tst \<and> tst_imprint tst = digest \<and> tst_nonce tst \<in> {None, Some nonce})"
  using assms by (auto simp: check_reply_def check_tst_def tsa_failed_def split: if_splits sum.splits option.splits prod.splits)

text \<open>
  A time stamp never makes issuance fail, and it is only reported as obtained for a reply with
  HTTP status 200 and a granted status whose token stamps exactly the digest behind the certificate
  hash and echoes the nonce of this request, if it carries one; what is stored is the whole reply.
\<close>

theorem timestamp_obtained_only_if_ours:
  "\<exists>i s'. requestTimestamp T (hex_of digest) s = (Inr i, s') \<and>
     (ti_status i = OBTAINED \<longrightarrow> (\<exists>nonce raw pki tok c tst.
        nonce = positive_nonce (ta_random T (draws s) 8) \<and> ta_post T (ta_request T digest nonce) = Inr (200, raw) \<and>
        ta_response T raw = Inr (pki, Some tok) \<and> pki \<in> {0, 1} \<and> ta_content T tok = Inr (Some c) \<and>
        ta_tst T c = Inr tst \<and> tst_imprint tst = digest \<and> tst_nonce tst \<in> {None, Some nonce} \<and>
        b64_decode (the (ti_token i)) = raw))"
proof -
  let ?n = "positive_nonce (ta_random T (draws s) 8)" and ?a = "isoString (now s)"
  let ?m = "bnd (rcall (\<lambda>_. ta_post T (ta_request T digest ?n)))
      (\<lambda>(status, raw). lift (check_reply T ?a digest ?n status raw))"
  have run: "requestTimestamp T (hex_of digest) s =
      catch ?m (\<lambda>e. ret (tsa_failed T ?a (message_of e))) (s\<lparr>draws := draws s + 1\<rparr>)"
    by (simp add: requestTimestamp_def Let_def bnd_apply catch_apply)
  obtain r u where m: "?m (s\<lparr>draws := draws s + 1\<rparr>) = (r, u)" by fastforce
  show ?thesis
  proof (cases r)
    case (Inl e)
    then show ?thesis using m by (simp add: run catch_apply tsa_failed_def)
  next
    case (Inr i)
    then obtain status raw where p: "ta_post T (ta_request T digest ?n) = Inr (status, raw)"
      and c: "check_reply T ?a digest ?n status raw = Inr i"
      using m by (auto elim!: bnd_InrE dest!: rcall_Inr)
    have "requestTimestamp T (hex_of digest) s = (Inr i, u)" using m Inr by (simp add: run catch_apply)
    moreover have "ti_status i = OBTAINED \<longrightarrow> (\<exists>nonce raw pki tok c tst.
        nonce = ?n \<and> ta_post T (ta_request T digest nonce) = Inr (200, raw) \<and>
        ta_response T raw = Inr (pki, Some tok) \<and> pki \<in> {0, 1} \<and> ta_content T tok = Inr (Some c) \<and>
        ta_tst T c = Inr tst \<and> tst_imprint tst = digest \<and> tst_nonce tst \<in> {None, Some nonce} \<and>
        b64_decode (the (ti_token i)) = raw)"
      using check_reply_obtained[OF c] p by fastforce
    ultimately show ?thesis by blast
  qed
qed

definition toy_tsa :: tsa_client where
  "toy_tsa = \<lparr>ta_url = ''tsa'', ta_random = (\<lambda>_ n. replicate n 0xFF), ta_request = (\<lambda>d n. d @ n),
     ta_post = (\<lambda>b. Inr (200, b)), ta_response = (\<lambda>b. Inr (0, Some b)), ta_content = (\<lambda>b. Inr (Some b)),
     ta_tst = (\<lambda>b. Inr \<lparr>tst_imprint = take 2 b, tst_nonce = Some (drop 2 b), tst_genTime = 0\<rparr>)\<rparr>"

lemma timestamp_obtained_only_if_ours_witness:
  "\<exists>i s'. requestTimestamp toy_tsa (hex_of [1, 2]) (toy_cworld Map.empty [] []) = (Inr i, s') \<and>
     ti_status i = OBTAINED \<and> b64_decode (the (ti_token i)) = [1, 2, 0x7F, 0xFF, 0xFF, 0xFF, 0xFF, 0xFF, 0xFF, 0xFF]"
proof -
  have r: "replicate 8 (0xFF :: 8 word) = [0xFF, 0xFF, 0xFF, 0xFF, 0xFF, 0xFF, 0xFF, 0xFF]"
    by (simp add: eval_nat_numeral)
  have n: "positive_nonce (ta_random toy_tsa (draws (toy_cworld Map.empty [] [])) 8) = [0x7F, 0xFF, 0xFF, 0xFF, 0xFF, 0xFF, 0xFF, 0xFF]"
    by (simp add: toy_tsa_def r positive_nonce_def)
  obtain i s' where run: "requestTimestamp toy_tsa (hex_of [1, 2]) (toy_cworld Map.empty [] []) = (Inr i, s')"
    using requestTimestamp_total by blast
  moreover have "ti_status i = OBTAINED"
    using run n by (simp add: requestTimestamp_def Let_def bnd_apply catch_apply toy_tsa_def toy_cworld_defs no_faults
        check_reply_def check_tst_def) auto
  ultimately show ?thesis
    using timestamp_obtained_only_if_ours[of toy_tsa "[1, 2]" "toy_cworld Map.empty [] []"] unfolding n
    by (auto simp: toy_tsa_def)
qed

end
