(* ===== verification/CertChain.thy ===== *)
theory CertChain
  imports Witnesses
begin

text \<open>
  The hash chain of certificates: \<open>src/gcp/certificate-chain-repository.ts\<close>. The transaction of
  \<open>appendToChain\<close> reads the head, signs, and commits only if the head is still the one it read; the
  client library runs it up to five times. Which failures it retries is an argument. The locale
  \<open>chain_port\<close> is what the chain relies on in its \<open>sign\<close> callback; \<open>signClaims\<close> provides it.
\<close>

section \<open>Operations\<close>

record appended =
  ap_certificate :: string
  ap_certificateHash :: string
  ap_previousHash :: "string option"
  ap_sequence :: nat

text \<open>\<open>runTransaction\<close> of the client library: the callback again, \<open>n\<close> times more at most.\<close>

fun runTransaction :: "(exn \<Rightarrow> bool) \<Rightarrow> nat \<Rightarrow> ('s, 'a) eff \<Rightarrow> ('s, 'a) eff" where
  "runTransaction retryable 0 attempt = attempt"
| "runTransaction retryable (Suc n) attempt =
     catch attempt (\<lambda>e. if retryable e then runTransaction retryable n attempt else throw e)"

definition previous_of :: "chain_state option \<Rightarrow> string option" where
  "previous_of current = Option.bind current ch_last_hash"

definition sequence_of :: "chain_state option \<Rightarrow> nat" where
  "sequence_of current = (case current of None \<Rightarrow> 0 | Some c \<Rightarrow> ch_sequence c)"

definition commit_append ::
  "string \<Rightarrow> string \<Rightarrow> chain_state option \<Rightarrow> string \<Rightarrow> int \<Rightarrow> 'z cworld_scheme \<Rightarrow> 'z cworld_scheme" where
  "commit_append tenantId deletionRequestId current certificateHash t s =
     s\<lparr>chains := (chains s)(tenantId \<mapsto>
          \<lparr>ch_tenant_id = tenantId, ch_sequence = sequence_of current + 1, ch_last_hash = Some certificateHash,
           ch_last_deletion_request_id = Some deletionRequestId, ch_updated_at = t\<rparr>),
       entries := (entries s)(certificateHash \<mapsto>
          \<lparr>ce_tenant_id = tenantId, ce_sequence = sequence_of current + 1, ce_previous_hash = previous_of current,
           ce_deletion_request_id = deletionRequestId, ce_created_at = t, ce_tsaTimestamp = None, ce_rekorEntry = None\<rparr>)\<rparr>"

definition append_attempt ::
  "string \<Rightarrow> string \<Rightarrow> (string option \<Rightarrow> nat \<Rightarrow> ('z cworld_scheme, signed) eff) \<Rightarrow> ('z cworld_scheme, appended) eff" where
  "append_attempt tenantId deletionRequestId sign =
     bnd (rread (\<lambda>s. chains s tenantId)) (\<lambda>current.
     bnd (sign (previous_of current) (sequence_of current + 1)) (\<lambda>result.
     bnd (gets now) (\<lambda>t.
     bnd (rtxn (\<lambda>s. if chains s tenantId \<noteq> current then (Inl (CodeErr 10), s)
            else (Inr (), commit_append tenantId deletionRequestId current (sd_certificateHash result) t s))) (\<lambda>_.
     ret \<lparr>ap_certificate = sd_certificate result, ap_certificateHash = sd_certificateHash result,
          ap_previousHash = previous_of current, ap_sequence = sequence_of current + 1\<rparr>))))"

definition appendToChain ::
  "(exn \<Rightarrow> bool) \<Rightarrow> string \<Rightarrow> string \<Rightarrow> (string option \<Rightarrow> nat \<Rightarrow> ('z cworld_scheme, signed) eff) \<Rightarrow>
   ('z cworld_scheme, appended) eff" where
  "appendToChain retryable tenantId deletionRequestId sign =
     runTransaction retryable 4 (append_attempt tenantId deletionRequestId sign)"

definition getEntryByHash :: "string \<Rightarrow> ('z cworld_scheme, chain_entry option) eff" where
  "getEntryByHash certificateHash = rread (\<lambda>s. entries s certificateHash)"

definition update_entry :: "string \<Rightarrow> (chain_entry \<Rightarrow> chain_entry) \<Rightarrow> ('z cworld_scheme, unit) eff" where
  "update_entry h f = rtxn (\<lambda>s. case entries s h of
       None \<Rightarrow> (Inl (CodeErr 5), s)
     | Some e \<Rightarrow> (Inr (), s\<lparr>entries := (entries s)(h \<mapsto> f e)\<rparr>))"

definition recordTsaTimestamp :: "string \<Rightarrow> tsa_info \<Rightarrow> ('z cworld_scheme, unit) eff" where
  "recordTsaTimestamp certificateHash i = update_entry certificateHash (\<lambda>e. e\<lparr>ce_tsaTimestamp := Some i\<rparr>)"

definition recordRekorEntry :: "string \<Rightarrow> rekor_info \<Rightarrow> ('z cworld_scheme, unit) eff" where
  "recordRekorEntry certificateHash i = update_entry certificateHash (\<lambda>e. e\<lparr>ce_rekorEntry := Some i\<rparr>)"

section \<open>A well-formed ledger\<close>

text \<open>Walking back from a hash passes through positions n, ..., 1 of the tenant and ends.\<close>

fun linked :: "(string \<rightharpoonup> chain_entry) \<Rightarrow> string \<Rightarrow> nat \<Rightarrow> string option \<Rightarrow> bool" where
  "linked E t 0 h = (h = None)"
| "linked E t (Suc n) h =
     (case h of None \<Rightarrow> False
      | Some x \<Rightarrow> (case E x of None \<Rightarrow> False
          | Some e \<Rightarrow> ce_tenant_id e = t \<and> ce_sequence e = Suc n \<and> linked E t n (ce_previous_hash e)))"

definition ledger_ok :: "(bytes \<Rightarrow> bytes) \<Rightarrow> 'z cworld_scheme \<Rightarrow> bool" where
  "ledger_ok sha s \<longleftrightarrow>
     (\<forall>t c. chains s t = Some c \<longrightarrow> linked (entries s) t (ch_sequence c) (ch_last_hash c)) \<and>
     (\<forall>h e. entries s h = Some e \<longrightarrow> certifies sha h (ce_tenant_id e) (ce_sequence e) \<and>
        ce_sequence e \<le> sequence_of (chains s (ce_tenant_id e))) \<and>
     (\<forall>h e h' e'. entries s h = Some e \<longrightarrow> entries s h' = Some e' \<longrightarrow>
        ce_tenant_id e = ce_tenant_id e' \<longrightarrow> ce_sequence e = ce_sequence e' \<longrightarrow> h = h')"

definition same_link :: "chain_entry \<Rightarrow> chain_entry \<Rightarrow> bool" where
  "same_link e e' \<longleftrightarrow> ce_tenant_id e' = ce_tenant_id e \<and> ce_sequence e' = ce_sequence e \<and> ce_previous_hash e' = ce_previous_hash e \<and>
     ce_deletion_request_id e' = ce_deletion_request_id e"

lemma linked_mono:
  assumes "\<And>h e. E h = Some e \<Longrightarrow> \<exists>e'. E' h = Some e' \<and> same_link e e'"
  shows "linked E t n h \<Longrightarrow> linked E' t n h"
proof (induction n arbitrary: h)
  case (Suc n)
  then obtain x e where "h = Some x" "E x = Some e" "ce_tenant_id e = t" "ce_sequence e = Suc n" "linked E t n (ce_previous_hash e)"
    by (auto split: option.splits)
  with assms[of x e] Suc.IH show ?case by (auto simp: same_link_def)
qed simp

lemma ledger_timeless: "timeless (ledger_ok sha)"
  by (rule timelessI) (simp add: ledger_ok_def)

lemma linked_head: "ledger_ok sha s \<Longrightarrow> linked (entries s) t (sequence_of (chains s t)) (previous_of (chains s t))"
  by (cases "chains s t") (auto simp: ledger_ok_def sequence_of_def previous_of_def)

text \<open>A certificate for the next position of a tenant is not in the ledger yet.\<close>

lemma next_is_fresh:
  assumes "inj sha" and "ledger_ok sha s" and "certifies sha h t (sequence_of (chains s t) + 1)"
  shows "entries s h = None"
proof (rule ccontr)
  assume "entries s h \<noteq> None"
  then obtain e where "entries s h = Some e" by blast
  with assms(2) have e: "certifies sha h (ce_tenant_id e) (ce_sequence e)" "ce_sequence e \<le> sequence_of (chains s (ce_tenant_id e))"
    by (auto simp: ledger_ok_def)
  moreover have "t = ce_tenant_id e" "sequence_of (chains s t) + 1 = ce_sequence e"
    using certificate_identifies[OF assms(1,3) e(1)] by auto
  ultimately show False by simp
qed

lemma ledger_commit:
  assumes "inj sha" and ok: "ledger_ok sha s" and "certifies sha h t (sequence_of (chains s t) + 1)"
  shows "ledger_ok sha (commit_append t req (chains s t) h w s)"
proof -
  let ?s' = "commit_append t req (chains s t) h w s"
  note fresh = next_is_fresh[OF assms]
  have grow: "linked (entries ?s') t' n x" if "linked (entries s) t' n x" for t' n x
    by (rule linked_mono[OF _ that]) (use fresh in \<open>auto simp: commit_append_def same_link_def\<close>)
  have "linked (entries ?s') t (sequence_of (chains s t) + 1) (Some h)"
    using grow[OF linked_head[OF ok, of t]] by (simp add: commit_append_def)
  have both: "y = h \<and> ce_tenant_id z = t \<and> ce_sequence z = sequence_of (chains s t) + 1 \<or> y \<noteq> h \<and> entries s y = Some z"
    if "entries ?s' y = Some z" for y z
    using that by (auto simp: commit_append_def split: if_splits)
  have head: "sequence_of (chains ?s' t') = (if t' = t then sequence_of (chains s t) + 1 else sequence_of (chains s t'))" for t'
    by (simp add: commit_append_def sequence_of_def)
  show ?thesis
    unfolding ledger_ok_def
  proof (intro conjI allI impI)
    fix t' c assume "chains ?s' t' = Some c"
    then show "linked (entries ?s') t' (ch_sequence c) (ch_last_hash c)"
      using \<open>linked (entries ?s') t (sequence_of (chains s t) + 1) (Some h)\<close> grow ok
      by (auto simp: commit_append_def ledger_ok_def split: if_splits)
  next
    fix x e assume "entries ?s' x = Some e"
    then show "certifies sha x (ce_tenant_id e) (ce_sequence e)" "ce_sequence e \<le> sequence_of (chains ?s' (ce_tenant_id e))"
      using both[of x e] assms(3) ok unfolding ledger_ok_def head by fastforce+
  next
    fix x e x' e' assume a: "entries ?s' x = Some e" "entries ?s' x' = Some e'"
      "ce_tenant_id e = ce_tenant_id e'" "ce_sequence e = ce_sequence e'"
    have old: "ce_sequence y \<noteq> sequence_of (chains s t) + 1" if "entries s z = Some y" "ce_tenant_id y = t" for z y
      using ok that unfolding ledger_ok_def by fastforce
    have uniq: "entries s x = Some e \<Longrightarrow> entries s x' = Some e' \<Longrightarrow> x = x'"
      using ok a(3,4) unfolding ledger_ok_def by blast
    show "x = x'"
      using both[OF a(1)] both[OF a(2)] old[of x e] old[of x' e'] uniq a(3,4) by metis
  qed
qed

lemma keeps_update_entry:
  assumes "\<And>e. same_link e (f e)"
  shows "keeps (ledger_ok sha) (update_entry h f)"
  unfolding update_entry_def
proof (rule keeps_rtxn[OF ledger_timeless])
  fix s a t
  assume ok: "ledger_ok sha s" and run: "(case entries s h of None \<Rightarrow> (Inl (CodeErr 5), s)
     | Some e \<Rightarrow> (Inr (), s\<lparr>entries := (entries s)(h \<mapsto> f e)\<rparr>)) = (Inr a, t)"
  then obtain e where e: "entries s h = Some e" "t = s\<lparr>entries := (entries s)(h \<mapsto> f e)\<rparr>" by (auto split: option.splits)
  have "linked (entries t) t' n x" if "linked (entries s) t' n x" for t' n x
    by (rule linked_mono[OF _ that]) (use e assms[of e] in \<open>auto simp: same_link_def\<close>)
  moreover have "\<exists>y0. entries s z = Some y0 \<and> same_link y0 y" if "entries t z = Some y" for z y
    using that e assms[of e] by (auto simp: same_link_def split: if_splits)
  moreover have "chains t = chains s" by (simp add: e)
  ultimately show "ledger_ok sha t"
    using ok unfolding ledger_ok_def same_link_def by metis
qed

section \<open>Appending\<close>

lemma keeps_runTransaction [keeps_intros]: "keeps P attempt \<Longrightarrow> keeps P (runTransaction retryable n attempt)"
  by (induction n) (auto intro!: keeps_intros)

lemma runTransaction_Inr: "runTransaction retryable n attempt s = (Inr a, t) \<Longrightarrow> \<exists>u. attempt u = (Inr a, t)"
  by (induction n arbitrary: s) (auto simp: catch_apply split: prod.splits sum.splits if_splits)

text \<open>What the chain asks of the callback that signs: it returns a certificate for the tenant and the
  position it is given, and the ledger is well formed whenever it is done (others may append meanwhile).\<close>

locale chain_port =
  fixes sha :: "bytes \<Rightarrow> bytes"
    and sign :: "string option \<Rightarrow> nat \<Rightarrow> ('z cworld_scheme, signed) eff"
    and tenantId :: string
  assumes signs: "sign p n s = (Inr r, t) \<Longrightarrow> certifies sha (sd_certificateHash r) tenantId n"
    and sign_keeps: "keeps (ledger_ok sha) (sign p n)"
begin

lemma attempt_keeps:
  assumes "inj sha"
  shows "keeps (ledger_ok sha) (append_attempt tenantId req sign)"
proof (rule keepsI)
  fix s :: "'z cworld_scheme" assume ok: "ledger_ok sha s"
  obtain cur u where rd: "rread (\<lambda>s. chains s tenantId) s = (cur, u)" by fastforce
  have u: "ledger_ok sha u" by (rule keepsE[OF keeps_rread[OF ledger_timeless] ok rd])
  show "ledger_ok sha (snd (append_attempt tenantId req sign s))"
  proof (cases cur)
    case (Inr c)
    obtain r v where sg: "sign (previous_of c) (sequence_of c + 1) u = (r, v)" by fastforce
    have v: "ledger_ok sha v" by (rule keepsE[OF sign_keeps u sg])
    show ?thesis
    proof (cases r)
      case (Inr x)
      let ?commit = "rtxn (\<lambda>s :: 'z cworld_scheme. if chains s tenantId \<noteq> c then (Inl (CodeErr 10), s)
            else (Inr (), commit_append tenantId req c (sd_certificateHash x) (now v) s))"
      have "keeps (ledger_ok sha) ?commit"
      proof (rule keeps_rtxn[OF ledger_timeless])
        fix w :: "'z cworld_scheme" and y z
        assume w: "ledger_ok sha w" and
          run: "(if chains w tenantId \<noteq> c then (Inl (CodeErr 10), w)
            else (Inr (), commit_append tenantId req c (sd_certificateHash x) (now v) w)) = (Inr y, z)"
        then have c: "c = chains w tenantId" and z: "z = commit_append tenantId req c (sd_certificateHash x) (now v) w"
          by (auto split: if_splits)
        have "certifies sha (sd_certificateHash x) tenantId (sequence_of c + 1)" using sg Inr by (auto intro: signs)
        with ledger_commit[OF assms w, of _ tenantId req "now v"] show "ledger_ok sha z" by (simp add: z c)
      qed
      from keepsD[OF this v] show ?thesis
        using rd sg Inr \<open>cur = Inr c\<close> by (auto simp: append_attempt_def bnd_apply split: prod.splits sum.splits)
    qed (use rd sg v \<open>cur = Inr c\<close> in \<open>simp add: append_attempt_def bnd_apply\<close>)
  qed (use rd u in \<open>simp add: append_attempt_def bnd_apply\<close>)
qed

lemma append_keeps: "inj sha \<Longrightarrow> keeps (ledger_ok sha) (appendToChain retryable tenantId req sign)"
  unfolding appendToChain_def by (intro keeps_runTransaction attempt_keeps)

text \<open>An append that returns extends the head it names by one.\<close>

lemma append_result:
  assumes "appendToChain retryable tenantId req sign s = (Inr a, t)"
  shows "certifies sha (ap_certificateHash a) tenantId (ap_sequence a) \<and>
    chains t tenantId = Some \<lparr>ch_tenant_id = tenantId, ch_sequence = ap_sequence a, ch_last_hash = Some (ap_certificateHash a),
      ch_last_deletion_request_id = Some req, ch_updated_at = ch_updated_at (the (chains t tenantId))\<rparr> \<and>
    (\<exists>e. entries t (ap_certificateHash a) = Some e \<and> ce_tenant_id e = tenantId \<and> ce_sequence e = ap_sequence a \<and>
       ce_previous_hash e = ap_previousHash a \<and> ce_deletion_request_id e = req)"
proof -
  from runTransaction_Inr[OF assms[unfolded appendToChain_def]]
  obtain u where "append_attempt tenantId req sign u = (Inr a, t)" by blast
  then show ?thesis
    unfolding append_attempt_def
    by (elim bnd_InrE) (auto simp: commit_append_def split: if_splits dest!: rtxn_Inr dest: signs)
qed

end

lemma signer_free_ledger: "signer_free (ledger_ok sha)"
  by (simp add: signer_free_def ledger_timeless) (simp add: ledger_ok_def)

interpretation cc: chain_port "sg_sha G" "\<lambda>p n. signClaims num G c p (Some n)" "cl_tenantId c" for G num c
  by unfold_locales (auto intro: signClaims_certifies keeps_signClaims signer_free_ledger)

lemma keeps_recordTsa [keeps_intros]: "keeps (ledger_ok sha) (recordTsaTimestamp h i)"
  unfolding recordTsaTimestamp_def by (rule keeps_update_entry) (simp add: same_link_def)

lemma keeps_recordRekor [keeps_intros]: "keeps (ledger_ok sha) (recordRekorEntry h i)"
  unfolding recordRekorEntry_def by (rule keeps_update_entry) (simp add: same_link_def)

text \<open>An entry of the ledger, up to what the outside witnesses add to it.\<close>

definition has_entry :: "string \<Rightarrow> chain_entry \<Rightarrow> 'z cworld_scheme \<Rightarrow> bool" where
  "has_entry h e0 s \<longleftrightarrow> (\<exists>e. entries s h = Some e \<and> same_link e0 e)"

lemma has_entry_timeless: "timeless (has_entry h e0)"
  by (rule timelessI) (simp add: has_entry_def)

lemma has_entry_draw_free: "draw_free (has_entry h e0)"
  by (simp add: draw_free_def has_entry_timeless) (simp add: has_entry_def)

lemma has_entry_update:
  assumes "\<And>e. same_link e (f e)"
  shows "keeps (has_entry h e0) (update_entry h' f)"
  unfolding update_entry_def
  by (rule keeps_rtxn[OF has_entry_timeless]) (use assms in \<open>auto simp: has_entry_def same_link_def split: option.splits\<close>)

lemma has_entry_records: "keeps (has_entry h e0) (recordTsaTimestamp h' i)" "keeps (has_entry h e0) (recordRekorEntry h' k)"
  unfolding recordTsaTimestamp_def recordRekorEntry_def by (rule has_entry_update, simp add: same_link_def)+

end
