(* ===== verification/CertService.thy ===== *)
theory CertService
  imports CertChain
begin

text \<open>
  The certificate service: \<open>src/services/certificate-service.ts\<close>, the bucket of
  \<open>src/gcp/gcs-client.ts\<close> and the handlers of \<open>src/routes/certificate.ts\<close>. The bucket is a table from
  \<open>gs://\<close> addresses to objects; days are those of UTC. Decoding a token, exporting a key and the names of
  new key versions are fields of the service record.
\<close>

section \<open>The bucket\<close>

definition date_path :: "int \<Rightarrow> string" where
  "date_path t = (case civil_of t of (y, m, d) \<Rightarrow> int_str y @ ''/'' @ padStart 2 m @ ''/'' @ padStart 2 d)"

definition cert_dir :: "string \<Rightarrow> int \<Rightarrow> string" where
  "cert_dir tenantId t = ''certificates/'' @ tenantId @ ''/'' @ date_path t @ ''/''"

definition gs_uri :: "string \<Rightarrow> string \<Rightarrow> string" where
  "gs_uri bucket path = ''gs://'' @ bucket @ ''/'' @ path"

definition save_object :: "string \<Rightarrow> gcs_object \<Rightarrow> ('z cworld_scheme, unit) eff" where
  "save_object uri ob = rwrite (\<lambda>s. s\<lparr>objects := (objects s)(uri \<mapsto> ob)\<rparr>)"

definition cert_wrapper ::
  "string \<Rightarrow> string \<Rightarrow> appended \<Rightarrow> int \<Rightarrow> tsa_info option \<Rightarrow> rekor_info option \<Rightarrow> stored_certificate" where
  "cert_wrapper userId deletionRequestId a t tsaTimestamp rekorEntry =
     \<lparr>sc_certificate = ap_certificate a, sc_userId = userId, sc_deletionRequestId = deletionRequestId,
      sc_timestamp = isoString t, sc_hash = ap_certificateHash a, sc_previousCertificateHash = ap_previousHash a,
      sc_chainSequence = Some (ap_sequence a), sc_tsaTimestamp = tsaTimestamp, sc_rekorEntry = rekorEntry\<rparr>"

definition uploadCertificate ::
  "string \<Rightarrow> string \<Rightarrow> string \<Rightarrow> string \<Rightarrow> appended \<Rightarrow> tsa_info option \<Rightarrow> rekor_info option \<Rightarrow> ('z cworld_scheme, string) eff" where
  "uploadCertificate bucket userId deletionRequestId tenantId a tsaTimestamp rekorEntry =
     bnd (gets now) (\<lambda>t.
     let certPath = cert_dir tenantId t @ ''certificate-'' @ deletionRequestId @ ''.json'';
         hashPath = cert_dir tenantId t @ ''audit-hash-'' @ deletionRequestId @ ''.txt'' in
     bnd (save_object (gs_uri bucket certPath) (Certificate (cert_wrapper userId deletionRequestId a t tsaTimestamp rekorEntry))) (\<lambda>_.
     bnd (save_object (gs_uri bucket hashPath) (HashText (ap_certificateHash a))) (\<lambda>_.
     ret (gs_uri bucket certPath))))"

text \<open>\<open>/^gs:\/\/([^/]+)\/(.+)$/\<close>\<close>

definition gcs_path_ok :: "string \<Rightarrow> bool" where
  "gcs_path_ok p =
     (startsWith ''gs://'' p \<and>
      (case dropWhile (\<lambda>c. c \<noteq> CHR ''/'') (drop 5 p) of [] \<Rightarrow> False | _ # objectPath \<Rightarrow>
         takeWhile (\<lambda>c. c \<noteq> CHR ''/'') (drop 5 p) \<noteq> [] \<and> is_line objectPath))"

definition downloadCertificate :: "string \<Rightarrow> ('z cworld_scheme, stored_certificate) eff" where
  "downloadCertificate gcsPath =
     (if \<not> gcs_path_ok gcsPath then throw (Err (''Invalid GCS path: '' @ gcsPath))
      else bnd (rread (\<lambda>s. objects s gcsPath)) (\<lambda>contents. case contents of
        None \<Rightarrow> throw (CodeErr 404)
      | Some (HashText _) \<Rightarrow> throw (Err ''not JSON'')
      | Some (Certificate c) \<Rightarrow> ret c))"

section \<open>The service\<close>

record cert_service =
  sv_retryable :: "exn \<Rightarrow> bool"
  sv_num :: "rat \<Rightarrow> string"
  sv_signer :: signer
  sv_kms :: kms_service
  sv_client :: kms_client
  sv_bucket :: string
  sv_tsa :: "tsa_client option"
  sv_rekor :: "rekor_client option"
  sv_destinations :: "string list"
  sv_decodeJwt :: "string \<Rightarrow> exn + (string \<times> json) list"
  sv_jwk :: "string \<Rightarrow> exn + (string \<times> json) list"
  sv_newVersion :: "key_version list \<Rightarrow> string option"
  sv_polls :: "nat \<Rightarrow> exn + version_state"

definition claims_request :: "cert_service \<Rightarrow> string \<Rightarrow> string \<Rightarrow> string \<Rightarrow> GhostDataSummary list \<Rightarrow> claims_input" where
  "claims_request V userId tenantId deletionRequestId ghost =
     \<lparr>gi_userId = userId, gi_tenantId = tenantId, gi_deletionRequestId = Some deletionRequestId,
      gi_ghostDataSummary = ghost, gi_knownDestinationTypes = sv_destinations V\<rparr>"

definition attempt_timestamp :: "cert_service \<Rightarrow> string \<Rightarrow> ('z cworld_scheme, tsa_info option) eff" where
  "attempt_timestamp V certificateHash =
     (case sv_tsa V of
        None \<Rightarrow> ret None
      | Some T \<Rightarrow>
          bnd (requestTimestamp T certificateHash) (\<lambda>i.
          bnd (swallow (recordTsaTimestamp certificateHash i)) (\<lambda>_. ret (Some i))))"

definition attempt_rekor :: "cert_service \<Rightarrow> string \<Rightarrow> string option \<Rightarrow> ('z cworld_scheme, rekor_info option) eff" where
  "attempt_rekor V certificateHash previousHash =
     (case sv_rekor V of
        None \<Rightarrow> ret None
      | Some R \<Rightarrow>
          bnd (publishCertificateHash R certificateHash previousHash) (\<lambda>i.
          bnd (swallow (recordRekorEntry certificateHash i)) (\<lambda>_. ret (Some i))))"

definition issueAndStoreCertificate ::
  "cert_service \<Rightarrow> string \<Rightarrow> string \<Rightarrow> string \<Rightarrow> ('z cworld_scheme, string \<times> string) eff" where
  "issueAndStoreCertificate V userId deletionRequestId tenantId =
     bnd (getGhostDataFindings userId tenantId) (\<lambda>ghostDataSummary.
     bnd (generateClaims (sv_signer V) (claims_request V userId tenantId deletionRequestId ghostDataSummary)) (\<lambda>baseClaims.
     bnd (appendToChain (sv_retryable V) tenantId deletionRequestId
            (\<lambda>p n. signClaims (sv_num V) (sv_signer V) baseClaims p (Some n))) (\<lambda>a.
     bnd (attempt_timestamp V (ap_certificateHash a)) (\<lambda>tsaTimestamp.
     bnd (attempt_rekor V (ap_certificateHash a) (ap_previousHash a)) (\<lambda>rekorEntry.
     bnd (uploadCertificate (sv_bucket V) userId deletionRequestId tenantId a tsaTimestamp rekorEntry) (\<lambda>gcsPath.
     ret (ap_certificate a, gcsPath)))))))"

record evidentiary_status =
  ev_linked :: bool
  ev_chainSequence :: "json option"
  ev_timestamp :: "tsa_status option"
  ev_transparencyLog :: "rekor_status option"

definition is_number :: "json \<Rightarrow> bool" where
  "is_number j = (case j of JNum _ \<Rightarrow> True | JDec _ \<Rightarrow> True | _ \<Rightarrow> False)"

definition sequence_claim :: "cert_service \<Rightarrow> string \<Rightarrow> json option" where
  "sequence_claim V certificate =
     (case sv_decodeJwt V certificate of
        Inl e \<Rightarrow> None
      | Inr payload \<Rightarrow> (case map_of payload ''chainSequence'' of
            Some j \<Rightarrow> if is_number j then Some j else None
          | None \<Rightarrow> None))"

definition buildEvidentiaryStatus ::
  "cert_service \<Rightarrow> string \<Rightarrow> tsa_info option \<Rightarrow> rekor_info option \<Rightarrow> evidentiary_status" where
  "buildEvidentiaryStatus V certificate tsaTimestamp rekorEntry =
     \<lparr>ev_linked = (sequence_claim V certificate \<noteq> None), ev_chainSequence = sequence_claim V certificate,
      ev_timestamp = map_option ti_status tsaTimestamp, ev_transparencyLog = map_option ri_status rekorEntry\<rparr>"

text \<open>\<open>Promise.all([m, n])\<close>: both run to their end.\<close>

definition both :: "('s, 'a) eff \<Rightarrow> ('s, 'b) eff \<Rightarrow> ('s, 'a \<times> 'b) eff" where
  "both m n = (\<lambda>s. case m s of (r1, t) \<Rightarrow> (case n t of (r2, u) \<Rightarrow>
     (case r1 of Inl e \<Rightarrow> (Inl e, u) | Inr a \<Rightarrow> (case r2 of Inl e \<Rightarrow> (Inl e, u) | Inr b \<Rightarrow> (Inr (a, b), u)))))"

record user_certificate =
  uc_certificate :: string
  uc_stored :: bool
  uc_status :: evidentiary_status

definition getCertificateForUser :: "cert_service \<Rightarrow> string \<Rightarrow> string \<Rightarrow> ('z cworld_scheme, user_certificate) eff" where
  "getCertificateForUser V userId tenantId =
     bnd (both (getKeyStatus userId tenantId) (getLatestCompletedDeletionRequestForUser userId tenantId)) (\<lambda>(keyStatus, deletionRequest).
     bnd (lift (assertKeyShredded userId keyStatus)) (\<lambda>_.
     bnd (lift (assertCascadeComplete userId deletionRequest)) (\<lambda>d.
     if q_status d = CERTIFICATE_ISSUED \<and> truthy (q_certificate_gcs_path d) then
       bnd (downloadCertificate (the (q_certificate_gcs_path d))) (\<lambda>st.
       ret \<lparr>uc_certificate = sc_certificate st, uc_stored = True,
            uc_status = buildEvidentiaryStatus V (sc_certificate st) (sc_tsaTimestamp st) (sc_rekorEntry st)\<rparr>)
     else
       bnd (getGhostDataFindings userId tenantId) (\<lambda>ghostDataSummary.
       bnd (generateClaims (sv_signer V) (claims_request V userId tenantId (q_id d) ghostDataSummary)) (\<lambda>baseClaims.
       bnd (signClaims (sv_num V) (sv_signer V) baseClaims None None) (\<lambda>r.
       ret \<lparr>uc_certificate = sd_certificate r, uc_stored = False,
            uc_status = buildEvidentiaryStatus V (sd_certificate r) None None\<rparr>))))))"

definition getLatestCertificateForTenant ::
  "cert_service \<Rightarrow> string \<Rightarrow> ('z cworld_scheme, (string \<times> string \<times> evidentiary_status) option) eff" where
  "getLatestCertificateForTenant V tenantId =
     bnd (getMostRecentCertificateIssuedForTenant tenantId) (\<lambda>deletionRequest.
     case deletionRequest of
       None \<Rightarrow> ret None
     | Some d \<Rightarrow>
         bnd (getCertificateForUser V (q_user_id d) tenantId) (\<lambda>c.
         ret (Some (uc_certificate c, q_user_id d, uc_status c))))"

definition getCertificateByHash ::
  "string \<Rightarrow> ('z cworld_scheme, (string \<times> tsa_info option \<times> rekor_info option) option) eff" where
  "getCertificateByHash certificateHash =
     bnd (getEntryByHash certificateHash) (\<lambda>entry.
     case entry of
       None \<Rightarrow> ret None
     | Some e \<Rightarrow>
         bnd (getDeletionRequest (ce_deletion_request_id e)) (\<lambda>deletionRequest.
         if \<not> truthy (Option.bind deletionRequest q_certificate_gcs_path) then ret None
         else
           bnd (downloadCertificate (the (Option.bind deletionRequest q_certificate_gcs_path))) (\<lambda>st.
           ret (Some (sc_certificate st, sc_tsaTimestamp st, sc_rekorEntry st)))))"

section \<open>Signing keys\<close>

definition getCurrentSigningKeyVersion :: "cert_service \<Rightarrow> ('z cworld_scheme, string) eff" where
  "getCurrentSigningKeyVersion V =
     bnd (gets (\<lambda>s. case service_version_cache s of
           Some (v, expiresAt) \<Rightarrow> if expiresAt > now s then Some v else None
         | None \<Rightarrow> None)) (\<lambda>cached.
     case cached of
       Some v \<Rightarrow> ret v
     | None \<Rightarrow>
         bnd (newest_version (sv_client V)) (\<lambda>v.
         bnd (modify (\<lambda>s. s\<lparr>service_version_cache := Some (v, now s + VERSION_TTL_MS)\<rparr>)) (\<lambda>_. ret v)))"

definition service_getPublicKey :: "cert_service \<Rightarrow> ('z cworld_scheme, string) eff" where
  "service_getPublicKey V = bnd (getCurrentSigningKeyVersion V) (getPublicKey (sv_kms V))"

definition getRekorPublicKey :: "cert_service \<Rightarrow> ('z cworld_scheme, string option) eff" where
  "getRekorPublicKey V = (case sv_rekor V of
       None \<Rightarrow> ret None
     | Some R \<Rightarrow> bnd (getPublicKeyPem R) (\<lambda>pem. ret (Some pem)))"

definition ENABLED_VERSIONS_TTL_MS :: int where
  "ENABLED_VERSIONS_TTL_MS = 10 * 60 * 1000"

definition getEnabledVersions :: "cert_service \<Rightarrow> ('z cworld_scheme, string list) eff" where
  "getEnabledVersions V =
     bnd (gets (\<lambda>s. case enabled_versions_cache s of
           Some (vs, expiresAt) \<Rightarrow> if expiresAt > now s then Some vs else None
         | None \<Rightarrow> None)) (\<lambda>cached.
     case cached of
       Some vs \<Rightarrow> ret vs
     | None \<Rightarrow>
         bnd (rread (\<lambda>s. listEnabledVersions (key_versions s))) (\<lambda>vs.
         bnd (modify (\<lambda>s. s\<lparr>enabled_versions_cache := Some (vs, now s + ENABLED_VERSIONS_TTL_MS)\<rparr>)) (\<lambda>_. ret vs)))"

definition jwk_of :: "cert_service \<Rightarrow> string \<Rightarrow> ('z cworld_scheme, (string \<times> json) list) eff" where
  "jwk_of V keyVersionPath =
     bnd (gets (\<lambda>s. jwks s keyVersionPath)) (\<lambda>cached. case cached of
       Some jwk \<Rightarrow> ret jwk
     | None \<Rightarrow>
         bnd (getPublicKey (sv_kms V) keyVersionPath) (\<lambda>pem.
         bnd (lift (sv_jwk V pem)) (\<lambda>exported.
         let jwk = exported @ [(''kid'', JStr keyVersionPath), (''use'', JStr ''sig''), (''alg'', JStr ''PS256'')] in
         bnd (modify (\<lambda>s. s\<lparr>jwks := (jwks s)(keyVersionPath \<mapsto> jwk)\<rparr>)) (\<lambda>_. ret jwk))))"

definition getJwks :: "cert_service \<Rightarrow> ('z cworld_scheme, (string \<times> json) list list) eff" where
  "getJwks V = bnd (getEnabledVersions V) (promiseAll (jwk_of V))"

text \<open>Key management creates the version disabled and enables it while it is polled.\<close>

definition create_version :: "cert_service \<Rightarrow> ('z cworld_scheme, string) eff" where
  "create_version V =
     rtxn (\<lambda>s. case createKeyVersion (getCryptoKeyPath (sv_client V)) (sv_newVersion V (key_versions s)) of
         Inl e \<Rightarrow> (Inl e, s)
       | Inr v \<Rightarrow> (Inr v, s\<lparr>key_versions := key_versions s @ [\<lparr>kv_name = Some v, kv_state = PENDING_GENERATION\<rparr>]\<rparr>))"

definition enable_version :: "string \<Rightarrow> key_version list \<Rightarrow> key_version list" where
  "enable_version v vs = map (\<lambda>k. if kv_name k = Some v then k\<lparr>kv_state := ENABLED\<rparr> else k) vs"

definition wait_enabled :: "cert_service \<Rightarrow> string \<Rightarrow> ('z cworld_scheme, unit) eff" where
  "wait_enabled V v =
     bnd (waitForVersionEnabled (sv_polls V) v 120000) (\<lambda>_.
     modify (\<lambda>s. s\<lparr>key_versions := enable_version v (key_versions s)\<rparr>))"

definition rotateSigningKey :: "cert_service \<Rightarrow> ('z cworld_scheme, string \<times> string) eff" where
  "rotateSigningKey V =
     bnd (getCurrentSigningKeyVersion V) (\<lambda>previousVersion.
     bnd (create_version V) (\<lambda>newVersion.
     bnd (wait_enabled V newVersion) (\<lambda>_.
     bnd (modify (\<lambda>s. s\<lparr>service_version_cache := None, enabled_versions_cache := None\<rparr>)) (\<lambda>_.
     bnd invalidateSigningKeyCache (\<lambda>_.
     ret (newVersion, previousVersion))))))"

section \<open>Routes\<close>

definition tsa_status_json :: "tsa_status option \<Rightarrow> json" where
  "tsa_status_json i = JStr (case i of None \<Rightarrow> ''NOT_ATTEMPTED'' | Some OBTAINED \<Rightarrow> ''OBTAINED'' | Some TSA_FAILED \<Rightarrow> ''FAILED'')"

definition rekor_status_json :: "rekor_status option \<Rightarrow> json" where
  "rekor_status_json i = JStr (case i of None \<Rightarrow> ''NOT_ATTEMPTED'' | Some PUBLISHED \<Rightarrow> ''PUBLISHED'' | Some REKOR_FAILED \<Rightarrow> ''FAILED'')"

definition evidentiary_json :: "evidentiary_status \<Rightarrow> json" where
  "evidentiary_json e = JObj
     [(''hashChain'', JObj [(''linked'', JBool (ev_linked e)),
        (''chainSequence'', case ev_chainSequence e of None \<Rightarrow> JNull | Some j \<Rightarrow> j)]),
      (''timestamp'', tsa_status_json (ev_timestamp e)), (''transparencyLog'', rekor_status_json (ev_transparencyLog e)),
      (''hardwareAttestation'', JStr ''NOT_AVAILABLE'')]"

definition tsa_json :: "tsa_info \<Rightarrow> json" where
  "tsa_json i = JObj ([(''status'', tsa_status_json (Some (ti_status i)))] @ opt_field ''token'' JStr (ti_token i) @
     opt_field ''timestamp'' JStr (ti_timestamp i) @ [(''tsaUrl'', JStr (ti_url i)), (''attemptedAt'', JStr (ti_attemptedAt i))] @
     opt_field ''error'' JStr (ti_error i))"

definition rekor_json :: "rekor_info \<Rightarrow> json" where
  "rekor_json i = JObj ([(''status'', rekor_status_json (Some (ri_status i)))] @ opt_field ''entryUuid'' JStr (ri_entryUuid i) @
     opt_field ''logIndex'' JNum (ri_logIndex i) @ [(''rekorUrl'', JStr (ri_url i)), (''attemptedAt'', JStr (ri_attemptedAt i))] @
     opt_field ''error'' JStr (ri_error i))"

definition not_available :: "string \<Rightarrow> string \<Rightarrow> reply" where
  "not_available e m = send 404 [(''statusCode'', JNum 404), (''error'', JStr e), (''message'', JStr m)]"

definition get_certificate :: "cert_service \<Rightarrow> http_request \<Rightarrow> string \<Rightarrow> ('z cworld_scheme, reply) eff" where
  "get_certificate V rq userId =
     (let tenantId = tenant_of rq in
      catch
        (bnd (getCertificateForUser V userId tenantId) (\<lambda>c.
         bnd (gets now) (\<lambda>t.
         ret (send 200 [(''certificate'', JStr (uc_certificate c)), (''tenantId'', JStr tenantId), (''userId'', JStr userId),
           (''evidentiaryStatus'', evidentiary_json (uc_status c)), (''timestamp'', JStr (isoString t))]))))
        (\<lambda>e. if includesStr ''not shredded'' (message_of e) \<or> includesStr ''no completed deletion cascade'' (message_of e)
             then ret (not_available ''Certificate not available'' (message_of e)) else throw e))"

definition get_latest_certificate :: "cert_service \<Rightarrow> http_request \<Rightarrow> ('z cworld_scheme, reply) eff" where
  "get_latest_certificate V rq =
     (let tenantId = tenant_of rq in
      bnd (getLatestCertificateForTenant V tenantId) (\<lambda>result.
      case result of
        None \<Rightarrow> ret (not_available ''No certificates found'' (''No certificate has been issued yet for tenant '' @ tenantId @ ''.''))
      | Some (certificate, userId, status) \<Rightarrow>
          bnd (gets now) (\<lambda>t.
          ret (send 200 [(''certificate'', JStr certificate), (''tenantId'', JStr tenantId), (''userId'', JStr userId),
            (''evidentiaryStatus'', evidentiary_json status), (''timestamp'', JStr (isoString t))]))))"

definition get_by_hash :: "string \<Rightarrow> ('z cworld_scheme, reply) eff" where
  "get_by_hash hash =
     bnd (getCertificateByHash hash) (\<lambda>result.
     case result of
       None \<Rightarrow> ret (not_available ''Not found'' (''No certificate found with hash '' @ hash))
     | Some (certificate, tsaTimestamp, rekorEntry) \<Rightarrow>
         bnd (gets now) (\<lambda>t.
         ret (send 200 [(''certificate'', JStr certificate),
           (''tsaTimestamp'', case tsaTimestamp of None \<Rightarrow> JNull | Some i \<Rightarrow> tsa_json i),
           (''rekorEntry'', case rekorEntry of None \<Rightarrow> JNull | Some i \<Rightarrow> rekor_json i), (''timestamp'', JStr (isoString t))])))"

definition get_public_key :: "cert_service \<Rightarrow> ('z cworld_scheme, reply) eff" where
  "get_public_key V =
     bnd (service_getPublicKey V) (\<lambda>publicKey. bnd (gets now) (\<lambda>t.
     ret (send 200 [(''publicKey'', JStr publicKey), (''algorithm'', JStr ''RSA_SIGN_PSS_2048_SHA256''), (''timestamp'', JStr (isoString t))])))"

definition get_rekor_public_key :: "cert_service \<Rightarrow> ('z cworld_scheme, reply) eff" where
  "get_rekor_public_key V =
     bnd (getRekorPublicKey V) (\<lambda>publicKey.
     if \<not> truthy publicKey then
       ret (not_available ''Not configured'' ''Rekor transparency log publishing is not enabled on this deployment'')
     else bnd (gets now) (\<lambda>t.
       ret (send 200 [(''publicKey'', JStr (the publicKey)), (''algorithm'', JStr ''EC_SIGN_P256_SHA256''), (''timestamp'', JStr (isoString t))])))"

definition get_jwks :: "cert_service \<Rightarrow> ('z cworld_scheme, reply) eff" where
  "get_jwks V = bnd (getJwks V) (\<lambda>ks. ret (send 200 [(''keys'', JArr (map JObj ks))]))"

text \<open>\<open>dispatch\<close> tells whether a GitHub client is configured; its call never throws.\<close>

definition post_rotate :: "cert_service \<Rightarrow> bool \<Rightarrow> ('z cworld_scheme, reply) eff" where
  "post_rotate V dispatch =
     catch
       (bnd (rotateSigningKey V) (\<lambda>(newVersion, previousVersion).
        bnd (if dispatch then swallow (rcall (\<lambda>_. Inr ())) else ret ()) (\<lambda>_.
        bnd (gets now) (\<lambda>t.
        ret (send 200 [(''status'', JStr ''rotated''), (''newVersion'', JStr newVersion), (''previousVersion'', JStr previousVersion),
          (''timestamp'', JStr (isoString t))])))))
       (\<lambda>e. ret (send 500 [(''statusCode'', JNum 500), (''error'', JStr ''Rotation failed''), (''message'', JStr (message_of e))]))"

section \<open>The ledger under issuance\<close>

lemma keeps_bnd_result:
  assumes "keeps P m" and "\<And>a s t. m s = (Inr a, t) \<Longrightarrow> keeps P (f a)"
  shows "keeps P (bnd m f)"
proof (rule keepsI)
  fix s assume P: "P s"
  obtain r t where m: "m s = (r, t)" by (cases "m s")
  with assms(1) P have "P t" by (metis keepsE)
  with m assms(2) show "P (snd (bnd m f s))"
    by (cases r) (auto simp: bnd_apply dest: keepsD)
qed

lemma draw_free_ledger: "draw_free (ledger_ok sha)"
  by (simp add: draw_free_def ledger_timeless) (simp add: ledger_ok_def)

lemma keeps_save [keeps_intros]:
  assumes "timeless P" and "\<And>s ob. P (s\<lparr>objects := ob\<rparr>) = P s"
  shows "keeps P (save_object uri ob)"
  unfolding save_object_def using assms by (auto intro: keeps_rwrite)

lemma keeps_upload:
  assumes "timeless P" and "\<And>s ob. P (s\<lparr>objects := ob\<rparr>) = P s"
  shows "keeps P (uploadCertificate b u r t a i k)"
  unfolding uploadCertificate_def Let_def using assms by (intro keeps_intros)

lemma upload_ledger: "keeps (ledger_ok sha) (uploadCertificate b u r t a i k)"
  by (rule keeps_upload[OF ledger_timeless]) (simp add: ledger_ok_def)

lemma keeps_attempt_timestamp: "keeps (ledger_ok sha) (attempt_timestamp V h)"
  unfolding attempt_timestamp_def by (intro keeps_intros draw_free_ledger)

lemma keeps_attempt_rekor: "keeps (ledger_ok sha) (attempt_rekor V h p)"
  unfolding attempt_rekor_def by (intro keeps_intros ledger_timeless)

lemma claims_tenant: "generateClaims G inp s = (Inr c, t) \<Longrightarrow> cl_tenantId c = gi_tenantId inp \<and> cl_sub c = gi_userId inp"
  by (auto dest!: generateClaims_Inr simp: claims_of_def)

text \<open>
  C3. The certificate ledger never forks or breaks: whatever calls fail or lose their answer, if
  every tenant's chain leads from its head back through positions n, ..., 1 and no position is taken
  twice, then this still holds after a certificate was issued, or was not (for a collision-free hash).
\<close>

theorem issue_keeps_ledger:
  fixes s :: "'z cworld_scheme"
  assumes "inj (sg_sha (sv_signer V))" and "ledger_ok (sg_sha (sv_signer V)) s"
  shows "ledger_ok (sg_sha (sv_signer V)) (snd (issueAndStoreCertificate V u r t s))"
proof -
  let ?P = "ledger_ok (sg_sha (sv_signer V)) :: 'z cworld_scheme \<Rightarrow> bool"
  have app: "keeps ?P (appendToChain (sv_retryable V) t r (\<lambda>p n. signClaims (sv_num V) (sv_signer V) c p (Some n)))"
    if "generateClaims (sv_signer V) (claims_request V u t r g) x = (Inr c, y)" for c g and x y :: "'z cworld_scheme"
    using cc.append_keeps[OF assms(1), of "sv_retryable V" c r "sv_num V"] claims_tenant[OF that]
    by (simp add: claims_request_def)
  have "keeps ?P (issueAndStoreCertificate V u r t)"
    unfolding issueAndStoreCertificate_def
    by (rule keeps_bnd, intro keeps_getGhostDataFindings ledger_timeless,
        rule keeps_bnd_result, intro keeps_generateClaims signer_free_ledger)
      (intro keeps_bnd keeps_ret upload_ledger keeps_attempt_timestamp keeps_attempt_rekor, rule app)
  from keepsD[OF this assms(2)] show ?thesis .
qed

section \<open>What issuance needs and leaves behind\<close>

text \<open>The documents and the ledger, which reading and signing leave alone.\<close>

definition records_of :: "'z cworld_scheme \<Rightarrow>
  (string \<rightharpoonup> key_doc) \<times> (string \<times> deletion_request) list \<times> (string \<rightharpoonup> chain_state) \<times> (string \<rightharpoonup> chain_entry) \<times> (string \<rightharpoonup> gcs_object)" where
  "records_of s = (keys s, requests s, chains s, entries s, objects s)"

lemma records_free: "signer_free (\<lambda>s. records_of s = x)"
  by (simp add: signer_free_def timeless_def records_of_def)

lemma records_timeless: "timeless (\<lambda>s. records_of s = x)"
  by (rule signer_free_timeless[OF records_free])

lemma keeps_both [keeps_intros]:
  assumes "keeps P m" and "keeps P n"
  shows "keeps P (both m n)"
proof (rule keepsI)
  fix s assume P: "P s"
  obtain r1 t where m: "m s = (r1, t)" by fastforce
  obtain r2 u where n: "n t = (r2, u)" by fastforce
  have "P u" by (rule keepsE[OF assms(2) keepsE[OF assms(1) P m] n])
  then show "P (snd (both m n s))" using m n by (simp add: both_def split: sum.splits)
qed

lemma keeps_download [keeps_intros]: "timeless P \<Longrightarrow> keeps P (downloadCertificate p)"
  unfolding downloadCertificate_def
  by (intro keeps_if keeps_throw keeps_bnd keeps_rread) (auto intro!: keeps_intros split: option.splits gcs_object.splits)

text \<open>
  Reading the certificate of a user never changes a key, a request, the ledger or the bucket,
  whatever calls fail; without a completed cascade and a destroyed key it returns none.
\<close>

theorem certificate_read_only:
  "records_of (snd (getCertificateForUser V u t s)) = records_of s \<and>
   (\<forall>c s'. getCertificateForUser V u t s = (Inr c, s') \<longrightarrow>
     (\<exists>kd d. keys s (getDocId t u) = Some kd \<and> kd_status kd \<in> {SHREDDED, DELETED} \<and>
       (\<exists>i. (i, d) \<in> set (requests s)) \<and> q_user_id d = u \<and> q_tenant_id d = Some t \<and>
       q_status d \<in> {CASCADE_COMPLETE, CERTIFICATE_ISSUED} \<and> (uc_stored c \<longrightarrow> q_status d = CERTIFICATE_ISSUED)))"
proof (intro conjI allI impI)
  have "keeps (\<lambda>w. records_of w = records_of s) (getCertificateForUser V u t)"
    unfolding getCertificateForUser_def
    by (intro keeps_intros records_timeless records_free)
  then show "records_of (snd (getCertificateForUser V u t s)) = records_of s" by (rule keepsD) simp
next
  fix c s' assume "getCertificateForUser V u t s = (Inr c, s')"
  then obtain ks dr w k d where b: "both (getKeyStatus u t) (getLatestCompletedDeletionRequestForUser u t) s = (Inr (ks, dr), w)"
    and k: "assertKeyShredded u ks = Inr k" and d: "assertCascadeComplete u dr = Inr d"
    and st: "uc_stored c \<longrightarrow> q_status d = CERTIFICATE_ISSUED"
    unfolding getCertificateForUser_def by (elim bnd_InrE) (auto split: if_splits elim!: bnd_InrE)
  obtain v where kr: "getKeyStatus u t s = (Inr ks, v)" and dq: "getLatestCompletedDeletionRequestForUser u t v = (Inr dr, w)"
    using b by (auto simp: both_def split: prod.splits sum.splits)
  have v: "records_of v = records_of s" by (rule keepsE[OF keeps_getKeyStatus[OF records_timeless] refl kr])
  obtain kd where kd: "keys s (getDocId t u) = Some kd" "kd_status kd \<in> {SHREDDED, DELETED}"
    using key_shredded_Inr[OF k] kr
    by (auto simp: getKeyStatus_def status_view_def records_of_def next_call_def elim!: bnd_InrE dest!: rread_Inr split: option.splits list.splits)
  define p :: "deletion_request \<Rightarrow> bool" where "p = (\<lambda>d. q_user_id d = u \<and> q_tenant_id d = Some t \<and> is_completed (q_status d))"
  from rread_Inr[OF dq[unfolded getLatestCompletedDeletionRequestForUser_def]] cascade_complete_Inr[OF d]
  have "first_of (query p w) = Some d" and "requests w = requests v" unfolding p_def by auto
  from query_first[OF this(1)] this(2) v kd st cascade_complete_Inr[OF d]
  show "\<exists>kd d. keys s (getDocId t u) = Some kd \<and> kd_status kd \<in> {SHREDDED, DELETED} \<and>
       (\<exists>i. (i, d) \<in> set (requests s)) \<and> q_user_id d = u \<and> q_tenant_id d = Some t \<and>
       q_status d \<in> {CASCADE_COMPLETE, CERTIFICATE_ISSUED} \<and> (uc_stored c \<longrightarrow> q_status d = CERTIFICATE_ISSUED)"
    unfolding p_def records_of_def by (metis prod.inject)
qed

lemma has_entry_timestamp: "keeps (has_entry h e0) (attempt_timestamp V h')"
  unfolding attempt_timestamp_def by (intro keeps_intros has_entry_draw_free has_entry_records)

lemma has_entry_rekor: "keeps (has_entry h e0) (attempt_rekor V h' p)"
  unfolding attempt_rekor_def by (intro keeps_intros has_entry_timeless has_entry_records)

lemma has_entry_upload: "keeps (has_entry h e0) (uploadCertificate b u r t a i k)"
  by (rule keeps_upload[OF has_entry_timeless]) (simp add: has_entry_def)

lemma signClaims_hash:
  "signClaims num G c p n s = (Inr r, s') \<Longrightarrow> sd_certificateHash r = hex_of (sg_sha G (utf8 (sd_certificate r)))"
  unfolding signClaims_def Let_def by (elim bnd_InrE) auto

lemma append_hash:
  assumes "appendToChain ry t r (\<lambda>p n. signClaims num G c p (Some n)) s = (Inr a, s')"
  shows "ap_certificateHash a = hex_of (sg_sha G (utf8 (ap_certificate a)))"
proof -
  from runTransaction_Inr[OF assms[unfolded appendToChain_def]]
  obtain w where "append_attempt t r (\<lambda>p n. signClaims num G c p (Some n)) w = (Inr a, s')" by blast
  then show ?thesis
    unfolding append_attempt_def by (elim bnd_InrE) (auto dest: signClaims_hash)
qed

lemma upload_Inr:
  assumes "uploadCertificate b u r t a i k s = (Inr path, s')"
  shows "\<exists>w. path = gs_uri b (cert_dir t w @ ''certificate-'' @ r @ ''.json'') \<and>
    objects s' path = Some (Certificate (cert_wrapper u r a w i k))"
  using assms unfolding uploadCertificate_def Let_def save_object_def
  by (elim bnd_InrE) (auto simp: gs_uri_def next_call_def dest!: rwrite_Inr split: list.splits)

lemma is_line_append: "is_line xs \<Longrightarrow> is_line ys \<Longrightarrow> is_line (xs @ ys)"
  by (simp add: is_line_def)

lemma digits_line:
  assumes "xs \<noteq> []" and "list_all is_digit xs"
  shows "is_line xs"
proof -
  have "\<not> is_digit (CHR 0x0A)" "\<not> is_digit (CHR 0x0D)" by (simp_all add: char_ranges)
  with assms show ?thesis by (auto simp: is_line_def list_all_iff)
qed

lemma padStart_line: "is_line (padStart n v)"
  using nat_str_digits[of "nat v"] by (intro digits_line) (auto simp: padStart_def Let_def list_all_iff char_ranges)

lemma int_str_line: "is_line (int_str i)"
  using digits_line[OF nat_str_nonempty nat_str_digits] by (auto simp: int_str_def is_line_def)

lemma cert_dir_line:
  assumes "is_line t"
  shows "is_line (cert_dir t w)"
proof -
  obtain y m d where c: "civil_of w = (y, m, d)" by (cases "civil_of w") auto
  have "is_line ''certificates/''" "is_line ''/''" by (simp_all add: is_line_def)
  then show ?thesis
    unfolding cert_dir_def date_path_def c prod.case
    by (intro is_line_append assms padStart_line int_str_line)
qed

lemma gs_uri_ok:
  assumes "b \<noteq> []" and "CHR ''/'' \<notin> set b" and "is_line path"
  shows "gcs_path_ok (gs_uri b path)"
proof -
  have "takeWhile (\<lambda>c. c \<noteq> CHR ''/'') (b @ CHR ''/'' # path) = b" "dropWhile (\<lambda>c. c \<noteq> CHR ''/'') (b @ CHR ''/'' # path) = CHR ''/'' # path"
    using assms(2) by (induction b) auto
  with assms(1,3) show ?thesis by (simp add: gcs_path_ok_def gs_uri_def startsWith_def)
qed

text \<open>
  C7. An issued certificate rests on a destroyed key and a finished cascade, is an entry of the
  ledger under its own hash with the position and predecessor it was signed with, and is stored with
  them under the address that issuance returns, from where it can be downloaded.
\<close>

theorem issued_certificate:
  assumes run: "issueAndStoreCertificate V u r t s = (Inr (certificate, path), s')"
    and "r \<noteq> []" and "is_line r" and "is_line t" and "sv_bucket V \<noteq> []" and "CHR ''/'' \<notin> set (sv_bucket V)"
  shows "\<exists>kd d st e. keys s (getDocId t u) = Some kd \<and> kd_status kd \<in> {SHREDDED, DELETED} \<and>
    map_of (requests s) r = Some d \<and> q_status d \<in> {CASCADE_COMPLETE, CERTIFICATE_ISSUED} \<and>
    sc_certificate st = certificate \<and> sc_hash st = hex_of (sg_sha (sv_signer V) (utf8 certificate)) \<and>
    entries s' (sc_hash st) = Some e \<and> ce_tenant_id e = t \<and> ce_deletion_request_id e = r \<and>
    sc_chainSequence st = Some (ce_sequence e) \<and> sc_previousCertificateHash st = ce_previous_hash e \<and>
    (\<forall>w. objects w path = objects s' path \<longrightarrow> outcomes w = [] \<longrightarrow> downloadCertificate path w = (Inr st, w))"
proof -
  from run obtain g s1 c s2 a s3 i s4 k s5 where
    g: "getGhostDataFindings u t s = (Inr g, s1)" and
    c: "generateClaims (sv_signer V) (claims_request V u t r g) s1 = (Inr c, s2)" and
    a: "appendToChain (sv_retryable V) t r (\<lambda>p n. signClaims (sv_num V) (sv_signer V) c p (Some n)) s2 = (Inr a, s3)" and
    i: "attempt_timestamp V (ap_certificateHash a) s3 = (Inr i, s4)" and
    k: "attempt_rekor V (ap_certificateHash a) (ap_previousHash a) s4 = (Inr k, s5)" and
    up: "uploadCertificate (sv_bucket V) u r t a i k s5 = (Inr path, s')" and cert: "certificate = ap_certificate a"
    unfolding issueAndStoreCertificate_def by (elim bnd_InrE) simp
  have s1: "records_of s1 = records_of s" by (rule keepsE[OF keeps_getGhostDataFindings[OF records_timeless] refl g])
  have tc: "cl_tenantId c = t" using claims_tenant[OF c] by (simp add: claims_request_def)
  obtain kd d where kd: "keys s (getDocId t u) = Some kd" "kd_status kd \<in> {SHREDDED, DELETED}"
      "map_of (requests s) r = Some d" "q_status d \<in> {CASCADE_COMPLETE, CERTIFICATE_ISSUED}"
    using generateClaims_Inr[OF c] s1 assms(2)
    by (auto simp: records_of_def claims_of_def request_for_def claims_request_def truthy_def)
  obtain e0 where e0: "has_entry (ap_certificateHash a) e0 s3" "ce_tenant_id e0 = t" "ce_sequence e0 = ap_sequence a"
      "ce_previous_hash e0 = ap_previousHash a" "ce_deletion_request_id e0 = r"
    using cc.append_result[of "sv_retryable V" c r "sv_num V" "sv_signer V" s2 a s3] a tc
    by (auto simp: has_entry_def same_link_def)
  have "has_entry (ap_certificateHash a) e0 s'"
    using keepsE[OF has_entry_upload keepsE[OF has_entry_rekor keepsE[OF has_entry_timestamp e0(1) i] k] up] .
  then obtain e where e: "entries s' (ap_certificateHash a) = Some e" "same_link e0 e" by (auto simp: has_entry_def)
  obtain w where path: "path = gs_uri (sv_bucket V) (cert_dir t w @ ''certificate-'' @ r @ ''.json'')"
    and ob: "objects s' path = Some (Certificate (cert_wrapper u r a w i k))"
    using upload_Inr[OF up] by blast
  have "gcs_path_ok path"
    unfolding path using assms(3-6)
    by (intro gs_uri_ok is_line_append cert_dir_line) (simp_all add: is_line_def)
  then have "downloadCertificate path x = (Inr (cert_wrapper u r a w i k), x)" if "objects x path = objects s' path" "outcomes x = []" for x
    using that ob by (simp add: downloadCertificate_def bnd_apply no_faults)
  with kd e e0(2-5) append_hash[OF a] cert show ?thesis
    by (intro exI[of _ kd] exI[of _ d] exI[of _ "cert_wrapper u r a w i k"] exI[of _ e])
      (auto simp: cert_wrapper_def same_link_def)
qed

section \<open>Rotation\<close>

text \<open>
  A rotation that returns takes effect at once: whatever the caches of the service and of the
  signer held before, the next version each of them picks is read from key management, where the new
  version is enabled and no version that was enabled has been disabled.
\<close>

theorem rotation_takes_effect:
  assumes "rotateSigningKey V s = (Inr (newVersion, previousVersion), s')"
  shows "newVersion \<in> set (listEnabledVersions (key_versions s')) \<and>
    set (listEnabledVersions (key_versions s)) \<subseteq> set (listEnabledVersions (key_versions s')) \<and>
    (outcomes s' = [] \<longrightarrow>
       fst (getCurrentSigningKeyVersion V s') = getNewestEnabledVersion (getCryptoKeyPath (sv_client V)) (key_versions s') \<and>
       fst (signer_getCurrentSigningKeyVersion (sv_signer V) s') =
         getNewestEnabledVersion (getCryptoKeyPath (sg_client (sv_signer V))) (key_versions s') \<and>
       fst (getEnabledVersions V s') = Inr (listEnabledVersions (key_versions s')))"
proof -
  have vs: "keeps (\<lambda>w. key_versions w = key_versions s) (getCurrentSigningKeyVersion V)"
    unfolding getCurrentSigningKeyVersion_def newest_version_def
    by (intro keeps_bnd keeps_gets keeps_option keeps_ret keeps_rread keeps_lift keeps_modify timelessI) simp_all
  from assms obtain s1 s2 s3 where p: "getCurrentSigningKeyVersion V s = (Inr previousVersion, s1)"
    and c: "create_version V s1 = (Inr newVersion, s2)" and w: "wait_enabled V newVersion s2 = (Inr (), s3)"
    and s': "s' = s3\<lparr>service_version_cache := None, enabled_versions_cache := None, signer_version_cache := None\<rparr>"
    unfolding rotateSigningKey_def invalidateSigningKeyCache_def by (elim bnd_InrE) auto
  have s1: "key_versions s1 = key_versions s" by (rule keepsE[OF vs refl p])
  have s2: "key_versions s2 = key_versions s1 @ [\<lparr>kv_name = Some newVersion, kv_state = PENDING_GENERATION\<rparr>]"
    and tr: "newVersion \<noteq> []"
    using rtxn_Inr[OF c[unfolded create_version_def]]
    by (auto simp: createKeyVersion_def truthy_def next_call_def split: if_splits sum.splits list.splits option.splits)
  have s3: "key_versions s3 = enable_version newVersion (key_versions s2)"
  proof -
    from w obtain u where wt: "waitForVersionEnabled (sv_polls V) newVersion 120000 s2 = (Inr (), u)"
      and s3: "s3 = u\<lparr>key_versions := enable_version newVersion (key_versions u)\<rparr>"
      unfolding wait_enabled_def by (elim bnd_InrE) auto
    have "keeps (\<lambda>w. key_versions w = key_versions s2) (waitForVersionEnabled (sv_polls V) newVersion 120000)"
      by (rule keeps_waitForVersionEnabled) (simp add: timeless_def)
    from keepsE[OF this refl wt] show ?thesis by (simp add: s3)
  qed
  have "set (listEnabledVersions (key_versions s)) \<subseteq> set (listEnabledVersions (key_versions s'))"
    by (auto simp: listEnabledVersions_def s' s3 s2 s1 enable_version_def intro!: rev_image_eqI)
  moreover have "newVersion \<in> set (listEnabledVersions (key_versions s'))"
    using tr by (auto simp: listEnabledVersions_def s' s3 s2 enable_version_def truthy_def)
  moreover have "fst (getCurrentSigningKeyVersion V s') = getNewestEnabledVersion (getCryptoKeyPath (sv_client V)) (key_versions s')"
    "fst (signer_getCurrentSigningKeyVersion (sv_signer V) s') =
         getNewestEnabledVersion (getCryptoKeyPath (sg_client (sv_signer V))) (key_versions s')"
    "fst (getEnabledVersions V s') = Inr (listEnabledVersions (key_versions s'))" if "outcomes s' = []"
    using that s' by (simp_all add: getCurrentSigningKeyVersion_def signer_getCurrentSigningKeyVersion_def newest_version_def
        getEnabledVersions_def bnd_apply no_faults split: sum.splits)
  ultimately show ?thesis by blast
qed

section \<open>A concrete certificate\<close>

definition toy_service :: cert_service where
  "toy_service = \<lparr>sv_retryable = (\<lambda>_. True), sv_num = (\<lambda>_. []), sv_signer = toy_signer, sv_kms = sg_kms toy_signer,
     sv_client = sg_client toy_signer, sv_bucket = ''b'', sv_tsa = None, sv_rekor = None, sv_destinations = [],
     sv_decodeJwt = (\<lambda>_. Inl (Err ''no token'')), sv_jwk = (\<lambda>_. Inr []), sv_newVersion = (\<lambda>_. Some ''k/2''), sv_polls = (\<lambda>_. Inr ENABLED)\<rparr>"

definition toy_issuance :: cworld where
  "toy_issuance = toy_cworld [getDocId ''t'' ''u'' \<mapsto> shredded_doc] [(''r1'', finished_request)] []"

lemma toy_ledger_ok: "ledger_ok sha toy_issuance"
  by (simp add: ledger_ok_def toy_issuance_def toy_cworld_defs)

lemma toy_issued: "\<exists>x s'. issueAndStoreCertificate toy_service ''u'' ''r1'' ''t'' toy_issuance = (Inr x, s')"
proof -
  have w: "outcomes toy_issuance = []" "ghost_rows toy_issuance = (\<lambda>_ _. [])" "signer_version_cache toy_issuance = Some (''k/1'', 100000)"
    "now toy_issuance = 5000"
    by (simp_all add: toy_issuance_def toy_cworld_defs)
  obtain c where c: "generateClaims toy_signer (toy_input ''u'') toy_issuance = (Inr c, toy_issuance)"
    using toy_claims[of "[getDocId ''t'' ''u'' \<mapsto> shredded_doc]" "''u''" "[(''r1'', finished_request)]" "[]"]
    by (auto simp: toy_issuance_def)
  have "claims_request toy_service ''u'' ''t'' ''r1'' [] = toy_input ''u''"
    by (simp add: claims_request_def toy_input_def toy_service_def)
  moreover have "\<exists>r. signClaims (\<lambda>_. []) toy_signer c p n toy_issuance = (Inr r, toy_issuance)" for p n
    using w by (simp add: signClaims_def signer_getCurrentSigningKeyVersion_def asymmetricSign_def Let_def bnd_apply no_faults toy_signer_def)
  then obtain sg where "\<And>p n. signClaims (\<lambda>_. []) toy_signer c p n toy_issuance = (Inr (sg p n), toy_issuance)" by metis
  moreover have "getGhostDataFindings ''u'' ''t'' toy_issuance = (Inr [], toy_issuance)"
    using w by (simp add: getGhostDataFindings_def bnd_apply catch_apply no_faults)
  ultimately show ?thesis
    using w c
    by (simp add: issueAndStoreCertificate_def toy_service_def bnd_apply appendToChain_def numeral_eq_Suc append_attempt_def
        catch_apply no_faults commit_append_def attempt_timestamp_def attempt_rekor_def uploadCertificate_def save_object_def Let_def)
qed

lemma issue_keeps_ledger_witness:
  "ledger_ok rev (snd (issueAndStoreCertificate toy_service ''u'' ''r1'' ''t'' toy_issuance))"
  using issue_keeps_ledger[of toy_service toy_issuance "''u''" "''r1''" "''t''"] toy_ledger_ok
  by (simp add: toy_service_def toy_signer_def)

lemma issued_certificate_witness:
  "\<exists>certificate path s' st. issueAndStoreCertificate toy_service ''u'' ''r1'' ''t'' toy_issuance = (Inr (certificate, path), s') \<and>
     sc_certificate st = certificate \<and> downloadCertificate path (s'\<lparr>outcomes := []\<rparr>) = (Inr st, s'\<lparr>outcomes := []\<rparr>)"
proof -
  obtain x s' where run: "issueAndStoreCertificate toy_service ''u'' ''r1'' ''t'' toy_issuance = (Inr x, s')" using toy_issued by blast
  have "\<exists>st. sc_certificate st = fst x \<and> downloadCertificate (snd x) (s'\<lparr>outcomes := []\<rparr>) = (Inr st, s'\<lparr>outcomes := []\<rparr>)"
    using issued_certificate[of toy_service "''u''" "''r1''" "''t''" toy_issuance "fst x" "snd x" s'] run
    by (auto simp: is_line_def toy_service_def)
  with run show ?thesis by (metis prod.collapse)
qed

lemma certificate_read_only_witness:
  "records_of (snd (getCertificateForUser toy_service ''u'' ''t'' toy_issuance)) = records_of toy_issuance"
  using certificate_read_only by blast

lemma poll_enabled: "outcomes s = [] \<Longrightarrow> wait_poll (\<lambda>_. Inr ENABLED) v dl i s = (Inr (), s)"
  by (subst wait_poll.simps) (simp add: no_faults)

lemma rotation_takes_effect_witness:
  "\<exists>prev s'. rotateSigningKey toy_service toy_issuance = (Inr (''k/2'', prev), s') \<and> ''k/2'' \<in> set (listEnabledVersions (key_versions s'))"
proof -
  have "\<exists>prev s'. rotateSigningKey toy_service toy_issuance = (Inr (''k/2'', prev), s')"
    by (simp add: rotateSigningKey_def bnd_apply getCurrentSigningKeyVersion_def newest_version_def no_faults toy_issuance_def
        toy_cworld_defs listEnabledVersions_def getNewestEnabledVersion_def truthy_def create_version_def createKeyVersion_def
        toy_service_def wait_enabled_def waitForVersionEnabled_def poll_enabled invalidateSigningKeyCache_def)
  then show ?thesis using rotation_takes_effect by blast
qed

section \<open>A ledger entry without its own certificate\<close>

text \<open>
  The chain commits before the upload: when the upload fails and the transition is tried again, the
  ledger keeps an entry whose certificate was never stored, and the public lookup by that hash returns
  the certificate of the second attempt, which has another hash.
\<close>

lemma lookup_returns_other_certificate:
  assumes "entries s h = Some e" and "req_of (ce_deletion_request_id e) s = Some d"
    and "q_certificate_gcs_path d = Some p" and "gcs_path_ok p" and "p \<noteq> []"
    and "objects s p = Some (Certificate st)" and "outcomes s = []"
  shows "getCertificateByHash h s = (Inr (Some (sc_certificate st, sc_tsaTimestamp st, sc_rekorEntry st)), s)"
  using assms
  by (simp add: getCertificateByHash_def getEntryByHash_def getDeletionRequest_def downloadCertificate_def bnd_apply no_faults truthy_def)

end
