(* ===== verification/DeletionService.thy ===== *)
theory DeletionService
  imports CertService
begin

text \<open>
  The deletion service: \<open>src/services/deletion-request-service.ts\<close>, the state machine of a deletion. An
  advance runs to its end in one go; the cascade that it starts without awaiting it is a job in the
  list \<open>cascades\<close> of the world, and \<open>run_cascade\<close> is what the job does when it runs. The calls of
  \<open>advanceRequest\<close> to itself are written out (\<open>advance_certificate\<close>, \<open>advance_partial_failure\<close>), and
  \<open>advance_again\<close> shows that they are the function itself.
\<close>

section \<open>The world and the service\<close>

record cascade_job =
  cj_request :: string
  cj_user :: string
  cj_tenant :: string
  cj_operation :: string
  cj_redacts :: bool
  cj_copies :: bool

record dworld = cworld +
  cascades :: "cascade_job list"

text \<open>The connectors are those of the process-wide registry \<open>src/services/registry.ts\<close>.\<close>

record deletion_service =
  ds_lineage :: lineage_repo
  ds_jitter :: "nat \<Rightarrow> nat"
  ds_hubspot :: hubspot_config
  ds_salesforce :: "string option"
  ds_certificates :: cert_service
  ds_redaction :: bool

definition ds_connectors :: "deletion_service \<Rightarrow> (string \<times> 'z jworld_scheme connector) list" where
  "ds_connectors D = connectorRegistry (ds_hubspot D) (ds_salesforce D)"

definition transitions :: "request_status \<Rightarrow> request_status list" where
  "transitions st = (case st of
       SHRED_REQUESTED \<Rightarrow> [KEY_DESTROYED, CASCADE_PARTIAL_FAILURE]
     | KEY_DESTROYED \<Rightarrow> [CASCADE_PENDING, CASCADE_PARTIAL_FAILURE]
     | CASCADE_PENDING \<Rightarrow> [CASCADE_IN_PROGRESS, CASCADE_COMPLETE, CASCADE_PARTIAL_FAILURE]
     | CASCADE_IN_PROGRESS \<Rightarrow> [CASCADE_COMPLETE, CASCADE_PARTIAL_FAILURE]
     | CASCADE_PARTIAL_FAILURE \<Rightarrow> [CASCADE_IN_PROGRESS]
     | CASCADE_COMPLETE \<Rightarrow> [CERTIFICATE_ISSUED, CASCADE_PARTIAL_FAILURE]
     | CERTIFICATE_ISSUED \<Rightarrow> [])"

definition isValidTransition :: "request_status \<Rightarrow> request_status \<Rightarrow> bool" where
  "isValidTransition currentStatus newStatus = (newStatus \<in> set (transitions currentStatus))"

definition request_event ::
  "deletion_request \<Rightarrow> string \<Rightarrow> string \<Rightarrow> string \<Rightarrow> string \<Rightarrow> string \<Rightarrow> (string \<times> json) list \<Rightarrow> lineage_event" where
  "request_event request tenantId deletionRequestId operationId eventType dest ctx =
     (vault_event (q_user_id request) (Some tenantId) dest eventType None ctx)
       \<lparr>le_operationId := Some operationId, le_deletionRequestId := Some deletionRequestId\<rparr>"

text \<open>\<open>await recordEvent(...).catch(log)\<close>\<close>

definition record_quietly :: "deletion_service \<Rightarrow> lineage_event \<Rightarrow> ('z dworld_scheme, unit) eff" where
  "record_quietly D e = swallow (bnd (recordEvent (ds_lineage D) e) (\<lambda>_. ret ()))"

definition tenant_of_request :: "deletion_request \<Rightarrow> string" where
  "tenant_of_request request = or_else (q_tenant_id request) default_tenant"

section \<open>Creating a request\<close>

definition createRequest ::
  "deletion_service \<Rightarrow> string \<Rightarrow> string \<Rightarrow> string \<Rightarrow> string option \<Rightarrow> ('z dworld_scheme, deletion_request \<times> bool) eff" where
  "createRequest D userId operationId tenantId requestedBy =
     bnd (getActiveDeletionRequestForUser userId tenantId) (\<lambda>existingRequest.
     case existingRequest of
       Some r \<Rightarrow> ret (r, True)
     | None \<Rightarrow>
         bnd (createDeletionRequest userId operationId tenantId requestedBy) (\<lambda>deletionRequest.
         bnd (record_quietly D
               ((vault_event userId (Some tenantId) ''deletion-request-log'' ''SHRED_REQUESTED'' None
                   [(''status'', JStr ''SHRED_REQUESTED'')])
                 \<lparr>le_operationId := Some operationId, le_deletionRequestId := Some operationId\<rparr>)) (\<lambda>_.
         ret (deletionRequest, False))))"

definition getRequest :: "string \<Rightarrow> ('z dworld_scheme, deletion_request option) eff" where
  "getRequest deletionRequestId = getDeletionRequest deletionRequestId"

section \<open>Advancing: entry and exit\<close>

definition invalid_transition :: "request_status \<Rightarrow> request_status \<Rightarrow> exn" where
  "invalid_transition a b =
     Err (''Invalid state transition from '' @ request_status_str a @ '' to '' @ request_status_str b)"

definition begin_advance :: "string \<Rightarrow> request_status \<Rightarrow> ('z dworld_scheme, deletion_request) eff" where
  "begin_advance deletionRequestId newStatus =
     bnd (getDeletionRequest deletionRequestId) (\<lambda>r. case r of
       None \<Rightarrow> throw (not_found deletionRequestId)
     | Some request \<Rightarrow>
         if \<not> isValidTransition (q_status request) newStatus then throw (invalid_transition (q_status request) newStatus)
         else ret request)"

text \<open>\<open>claimOrLose\<close> around a handler: the loser returns the winner's document.\<close>

definition claimed_then ::
  "string \<Rightarrow> deletion_request \<Rightarrow> request_status \<Rightarrow> ('z dworld_scheme, deletion_request) eff \<Rightarrow> ('z dworld_scheme, deletion_request) eff" where
  "claimed_then deletionRequestId request newStatus handler =
     bnd (claimTransition deletionRequestId [q_status request] newStatus) (\<lambda>c. case c of
       NotClaimed current \<Rightarrow> ret current
     | Claimed \<Rightarrow> handler)"

definition finish_advance ::
  "string \<Rightarrow> deletion_request \<Rightarrow> request_status \<Rightarrow> update_fields \<Rightarrow> ('z dworld_scheme, deletion_request) eff" where
  "finish_advance deletionRequestId request newStatus updateFields =
     bnd (updateDeletionRequestFields deletionRequestId updateFields) (\<lambda>_.
     ret (apply_fields updateFields (request\<lparr>q_status := newStatus\<rparr>)))"

text \<open>The side effect of a claimed transition; if it throws, the claim is rolled back and the error rethrown.\<close>

definition or_roll_back ::
  "string \<Rightarrow> deletion_request \<Rightarrow> ('z dworld_scheme, 'a) eff \<Rightarrow> ('z dworld_scheme, 'a) eff" where
  "or_roll_back deletionRequestId request effect =
     catch effect (\<lambda>err.
       bnd (updateDeletionRequestStatus deletionRequestId (q_status request) no_fields) (\<lambda>_. throw err))"

section \<open>Advancing: the handlers\<close>

definition handle_key_destroyed ::
  "deletion_service \<Rightarrow> string \<Rightarrow> string \<Rightarrow> deletion_request \<Rightarrow> ('z dworld_scheme, deletion_request) eff" where
  "handle_key_destroyed D deletionRequestId operationId request =
     claimed_then deletionRequestId request KEY_DESTROYED
       (bnd (or_roll_back deletionRequestId request
              (shredKeyForUser (q_user_id request) (tenant_of_request request) (Some deletionRequestId))) (\<lambda>_.
        bnd (gets now) (\<lambda>t.
        bnd (record_quietly D (request_event request (tenant_of_request request) deletionRequestId operationId
              ''KEY_SHREDDED'' ''key-registry''
              [(''status'', JStr ''KEY_SHREDDED''), (''deletion_request_id'', JStr deletionRequestId),
               (''user_id'', JStr (q_user_id request))])) (\<lambda>_.
        finish_advance deletionRequestId request KEY_DESTROYED (no_fields\<lparr>uf_key_destroyed_at := Some t\<rparr>)))))"

definition handle_certificate ::
  "deletion_service \<Rightarrow> string \<Rightarrow> string \<Rightarrow> deletion_request \<Rightarrow> ('z dworld_scheme, deletion_request) eff" where
  "handle_certificate D deletionRequestId operationId request =
     claimed_then deletionRequestId request CERTIFICATE_ISSUED
       (bnd (or_roll_back deletionRequestId request
              (issueAndStoreCertificate (ds_certificates D) (q_user_id request) (q_id request) (tenant_of_request request))) (\<lambda>(_, gcsPath).
        bnd (gets now) (\<lambda>t.
        bnd (record_quietly D (request_event request (tenant_of_request request) deletionRequestId operationId
              ''CERTIFICATE_ISSUED'' ''certificate-service'' [(''certificate_gcs_path'', JStr gcsPath)])) (\<lambda>_.
        finish_advance deletionRequestId request CERTIFICATE_ISSUED
          (no_fields\<lparr>uf_certificate_issued_at := Some t, uf_certificate_gcs_path := Some gcsPath\<rparr>)))))"

definition handle_partial_failure ::
  "deletion_service \<Rightarrow> string \<Rightarrow> string \<Rightarrow> string list \<Rightarrow> deletion_request \<Rightarrow> ('z dworld_scheme, deletion_request) eff" where
  "handle_partial_failure D deletionRequestId operationId failedDestinations request =
     claimed_then deletionRequestId request CASCADE_PARTIAL_FAILURE
       (bnd (record_quietly D (request_event request (tenant_of_request request) deletionRequestId operationId
              ''CASCADE_PARTIAL_FAILURE'' ''janitor-service''
              [(''failedDestinations'', JArr (map JStr failedDestinations))])) (\<lambda>_.
        finish_advance deletionRequestId request CASCADE_PARTIAL_FAILURE no_fields))"

text \<open>The two recursive calls.\<close>

definition advance_certificate :: "deletion_service \<Rightarrow> string \<Rightarrow> string \<Rightarrow> ('z dworld_scheme, deletion_request) eff" where
  "advance_certificate D deletionRequestId operationId =
     bnd (begin_advance deletionRequestId CERTIFICATE_ISSUED) (handle_certificate D deletionRequestId operationId)"

definition advance_partial_failure ::
  "deletion_service \<Rightarrow> string \<Rightarrow> string \<Rightarrow> string list \<Rightarrow> ('z dworld_scheme, deletion_request) eff" where
  "advance_partial_failure D deletionRequestId operationId failedDestinations =
     bnd (begin_advance deletionRequestId CASCADE_PARTIAL_FAILURE)
       (handle_partial_failure D deletionRequestId operationId failedDestinations)"

definition shortcutToCascadeComplete :: "deletion_service \<Rightarrow> string \<Rightarrow> string \<Rightarrow> ('z dworld_scheme, deletion_request) eff" where
  "shortcutToCascadeComplete D deletionRequestId operationId =
     bnd (updateDeletionRequestStatus deletionRequestId CASCADE_COMPLETE no_fields) (\<lambda>_.
     advance_certificate D deletionRequestId operationId)"

definition handle_complete :: "deletion_service \<Rightarrow> string \<Rightarrow> string \<Rightarrow> ('z dworld_scheme, deletion_request) eff" where
  "handle_complete D deletionRequestId operationId =
     bnd (updateDeletionRequestStatus deletionRequestId CASCADE_COMPLETE no_fields) (\<lambda>_.
     advance_certificate D deletionRequestId operationId)"

datatype cascade_plan = Shortcut | PlanFailed exn | Trigger cascade_job "string list"

definition prepareCascadeTrigger ::
  "deletion_service \<Rightarrow> string \<Rightarrow> string \<Rightarrow> deletion_request \<Rightarrow> ('z dworld_scheme, cascade_plan) eff" where
  "prepareCascadeTrigger D deletionRequestId operationId request =
     (let userId = q_user_id request; tenantId = tenant_of_request request in
      catch
        (bnd (createCleanupPlan (ds_connectors D) userId tenantId) (\<lambda>tasks.
         bnd (gets (\<lambda>s. if ds_redaction D then planRedaction tenantId (registry s) else [])) (\<lambda>redactionResources.
         bnd (gets (\<lambda>s. if ds_redaction D then planEncryptedCopyDeletion tenantId (registry s) else [])) (\<lambda>encryptedCopyResources.
         if tasks = [] \<and> redactionResources = [] \<and> encryptedCopyResources = [] then ret Shortcut
         else ret (Trigger
           \<lparr>cj_request = deletionRequestId, cj_user = userId, cj_tenant = tenantId, cj_operation = operationId,
            cj_redacts = (redactionResources \<noteq> []), cj_copies = (encryptedCopyResources \<noteq> [])\<rparr>
           (map jt_destination tasks))))))
        (\<lambda>err. ret (PlanFailed err)))"

definition start_cascade :: "cascade_job \<Rightarrow> ('z dworld_scheme, unit) eff" where
  "start_cascade j = modify (\<lambda>s. s\<lparr>cascades := cascades s @ [j]\<rparr>)"

text \<open>The claimed start of a cascade, of a first attempt and of a retry.\<close>

definition trigger_cascade ::
  "deletion_service \<Rightarrow> string \<Rightarrow> string \<Rightarrow> request_status \<Rightarrow> string \<Rightarrow> cascade_job \<Rightarrow> string list \<Rightarrow> deletion_request \<Rightarrow>
   ('z dworld_scheme, deletion_request) eff" where
  "trigger_cascade D deletionRequestId operationId newStatus eventType job taskDestinations request =
     claimed_then deletionRequestId request newStatus
       (bnd (gets now) (\<lambda>t.
        bnd (record_quietly D (request_event request (tenant_of_request request) deletionRequestId operationId
              eventType ''janitor-service'' [(''destinations'', JArr (map JStr taskDestinations))])) (\<lambda>_.
        bnd (updateDeletionRequestFields deletionRequestId (no_fields\<lparr>uf_cascade_initiated_at := Some t\<rparr>)) (\<lambda>_.
        bnd (start_cascade job) (\<lambda>_.
        ret (apply_fields (no_fields\<lparr>uf_cascade_initiated_at := Some t\<rparr>) (request\<lparr>q_status := newStatus\<rparr>)))))))"

definition handle_pending ::
  "deletion_service \<Rightarrow> string \<Rightarrow> string \<Rightarrow> deletion_request \<Rightarrow> ('z dworld_scheme, deletion_request) eff" where
  "handle_pending D deletionRequestId operationId request =
     bnd (prepareCascadeTrigger D deletionRequestId operationId request) (\<lambda>plan. case plan of
       Shortcut \<Rightarrow> shortcutToCascadeComplete D deletionRequestId operationId
     | PlanFailed err \<Rightarrow> advance_partial_failure D deletionRequestId operationId
         [''internal-error (plan creation): '' @ message_of err]
     | Trigger job dests \<Rightarrow> trigger_cascade D deletionRequestId operationId CASCADE_PENDING ''JANITOR_TRIGGERED'' job dests request)"

definition handle_in_progress ::
  "deletion_service \<Rightarrow> string \<Rightarrow> string \<Rightarrow> deletion_request \<Rightarrow> ('z dworld_scheme, deletion_request) eff" where
  "handle_in_progress D deletionRequestId operationId request =
     bnd (prepareCascadeTrigger D deletionRequestId operationId request) (\<lambda>plan. case plan of
       Shortcut \<Rightarrow> shortcutToCascadeComplete D deletionRequestId operationId
     | PlanFailed err \<Rightarrow> ret request
     | Trigger job dests \<Rightarrow> trigger_cascade D deletionRequestId operationId CASCADE_IN_PROGRESS ''CASCADE_RETRY_TRIGGERED'' job dests request)"

definition advanceRequest ::
  "deletion_service \<Rightarrow> string \<Rightarrow> request_status \<Rightarrow> string \<Rightarrow> string list \<Rightarrow> ('z dworld_scheme, deletion_request) eff" where
  "advanceRequest D deletionRequestId newStatus operationId failedDestinations =
     bnd (begin_advance deletionRequestId newStatus) (\<lambda>request.
     case newStatus of
       KEY_DESTROYED \<Rightarrow> handle_key_destroyed D deletionRequestId operationId request
     | CASCADE_PENDING \<Rightarrow> handle_pending D deletionRequestId operationId request
     | CASCADE_IN_PROGRESS \<Rightarrow> handle_in_progress D deletionRequestId operationId request
     | CASCADE_COMPLETE \<Rightarrow> handle_complete D deletionRequestId operationId
     | CASCADE_PARTIAL_FAILURE \<Rightarrow> handle_partial_failure D deletionRequestId operationId failedDestinations request
     | CERTIFICATE_ISSUED \<Rightarrow> handle_certificate D deletionRequestId operationId request
     | SHRED_REQUESTED \<Rightarrow>
         bnd (updateDeletionRequestStatus deletionRequestId newStatus no_fields) (\<lambda>_.
         ret (request\<lparr>q_status := newStatus\<rparr>)))"

lemma advance_again:
  "advanceRequest D i CERTIFICATE_ISSUED op fs = advance_certificate D i op"
  "advanceRequest D i CASCADE_PARTIAL_FAILURE op fs = advance_partial_failure D i op fs"
  by (simp_all add: advanceRequest_def advance_certificate_def advance_partial_failure_def)

section \<open>The cascade\<close>

definition cascade_results ::
  "deletion_service \<Rightarrow> cascade_job \<Rightarrow>
   ('z dworld_scheme, JanitorTask list \<times> redaction_result list \<times> redaction_result list) eff" where
  "cascade_results D j =
     both (processCleanup (ds_lineage D) (ds_jitter D) (ds_connectors D) (cj_user j) (cj_tenant j))
       (both (if cj_redacts j then redactUserInDeclaredSources (cj_user j) (cj_tenant j) else ret [])
             (if cj_copies j then deleteUserFromEncryptedCopies (cj_user j) (cj_tenant j) else ret []))"

definition janitor_details :: "JanitorTask \<Rightarrow> wipe_details" where
  "janitor_details r = \<lparr>wd_attempts = Some (jt_attempts r), wd_recordsFound = jt_recordsFound r, wd_rowsAffected = None, wd_error = None\<rparr>"

definition redaction_details :: "redaction_result \<Rightarrow> wipe_details" where
  "redaction_details r = \<lparr>wd_attempts = None, wd_recordsFound = None, wd_rowsAffected = rr_rowsAffected r, wd_error = rr_error r\<rparr>"

definition record_janitor :: "string \<Rightarrow> JanitorTask \<Rightarrow> ('z dworld_scheme, unit) eff" where
  "record_janitor i r = swallow (updateJanitorWipeStatus i (jt_destination r)
     (if jt_status r = TASK_COMPLETE then W_SUCCEEDED else W_FAILED) (janitor_details r))"

definition record_redaction :: "string \<Rightarrow> string \<Rightarrow> redaction_result \<Rightarrow> ('z dworld_scheme, unit) eff" where
  "record_redaction i suffix r = swallow (updateJanitorWipeStatus i (rr_resourceId r @ suffix)
     (if rr_success r then W_SUCCEEDED else W_FAILED) (redaction_details r))"

definition failed_destinations :: "JanitorTask list \<Rightarrow> redaction_result list \<Rightarrow> redaction_result list \<Rightarrow> string list" where
  "failed_destinations js rs es =
     map jt_destination (filter (\<lambda>r. jt_status r \<noteq> TASK_COMPLETE) js) @
     map (\<lambda>r. rr_resourceId r @ ''::REDACT_IN_PLACE'') (filter (\<lambda>r. \<not> rr_success r) rs) @
     map (\<lambda>r. rr_resourceId r @ ''::ENCRYPTED_COPY'') (filter (\<lambda>r. \<not> rr_success r) es)"

definition next_status :: "JanitorTask list \<Rightarrow> redaction_result list \<Rightarrow> redaction_result list \<Rightarrow> request_status" where
  "next_status js rs es =
     (if filter (\<lambda>r. jt_status r \<noteq> TASK_COMPLETE) js \<noteq> [] \<or> filter (\<lambda>r. \<not> rr_success r) rs \<noteq> [] \<or>
         filter (\<lambda>r. \<not> rr_success r) es \<noteq> []
      then CASCADE_PARTIAL_FAILURE else CASCADE_COMPLETE)"

definition record_results ::
  "string \<Rightarrow> JanitorTask list \<Rightarrow> redaction_result list \<Rightarrow> redaction_result list \<Rightarrow> ('z dworld_scheme, unit) eff" where
  "record_results i js rs es =
     bnd (forEach (record_janitor i) js) (\<lambda>_.
     bnd (forEach (record_redaction i ''::REDACT_IN_PLACE'') rs) (\<lambda>_.
     forEach (record_redaction i ''::ENCRYPTED_COPY'') es))"

definition run_cascade :: "deletion_service \<Rightarrow> cascade_job \<Rightarrow> ('z dworld_scheme, unit) eff" where
  "run_cascade D j =
     catch
       (bnd (cascade_results D j) (\<lambda>(js, rs, es).
        bnd (record_results (cj_request j) js rs es) (\<lambda>_.
        bnd (advanceRequest D (cj_request j) (next_status js rs es) (cj_operation j) (failed_destinations js rs es)) (\<lambda>_. ret ()))))
       (\<lambda>err. swallow
         (bnd (advanceRequest D (cj_request j) CASCADE_PARTIAL_FAILURE (cj_operation j) [''internal-error: '' @ message_of err]) (\<lambda>_. ret ())))"

section \<open>What a deletion touches\<close>

text \<open>A property that nothing but the keys, the requests and the registry enters.\<close>

definition side_free :: "('z dworld_scheme \<Rightarrow> bool) \<Rightarrow> bool" where
  "side_free P \<longleftrightarrow> jworld_free P \<and> bq_free P \<and> signer_free P \<and> draw_free P \<and> (\<forall>s x. P (s\<lparr>chains := x\<rparr>) = P s) \<and>
     (\<forall>s x. P (s\<lparr>entries := x\<rparr>) = P s) \<and> (\<forall>s x. P (s\<lparr>objects := x\<rparr>) = P s) \<and> (\<forall>s x. P (s\<lparr>cascades := x\<rparr>) = P s)"

lemma side_freeD:
  assumes "side_free P"
  shows "jworld_free P" "bq_free P" "signer_free P" "draw_free P" "timeless P" "lineage_free P"
  using assms by (auto simp: side_free_def draw_free_def jworld_free_lineage)

lemma keeps_update_entry_free: "side_free P \<Longrightarrow> keeps P (update_entry h f)"
  unfolding update_entry_def
  by (rule keeps_rtxn[OF side_freeD(5)]) (auto simp: side_free_def split: option.splits)

lemma keeps_append_free:
  assumes "side_free P"
  shows "keeps P (appendToChain ry t r (\<lambda>p n. signClaims num G c p (Some n)))"
proof -
  have w: "P (commit_append t r cur h now' s) = P s" for cur h now' s
  proof -
    have "P (s\<lparr>chains := a\<rparr>\<lparr>entries := b\<rparr>) = P s" for a b using assms unfolding side_free_def by simp
    then show ?thesis unfolding commit_append_def by simp
  qed
  show ?thesis
    unfolding appendToChain_def append_attempt_def
    by (intro keeps_intros side_freeD[OF assms] keeps_rtxn) (auto simp: w split: if_splits)
qed

lemma keeps_issue [keeps_intros]:
  assumes "side_free P"
  shows "keeps P (issueAndStoreCertificate V u r t)"
  unfolding issueAndStoreCertificate_def attempt_timestamp_def attempt_rekor_def recordTsaTimestamp_def recordRekorEntry_def
  by (intro keeps_intros side_freeD[OF assms] keeps_append_free[OF assms] keeps_update_entry_free[OF assms] keeps_upload)
    (use assms in \<open>simp add: side_free_def\<close>)

lemma keeps_record_quietly [keeps_intros]: "lineage_free P \<Longrightarrow> keeps P (record_quietly D e)"
  unfolding record_quietly_def by (intro keeps_intros)

lemma keeps_start [keeps_intros]: "side_free P \<Longrightarrow> keeps P (start_cascade j)"
  unfolding start_cascade_def by (rule keeps_modify) (simp add: side_free_def)

lemma keeps_begin [keeps_intros]: "timeless P \<Longrightarrow> keeps P (begin_advance i n)"
  unfolding begin_advance_def by (intro keeps_intros)

lemma keeps_prepare [keeps_intros]: "timeless P \<Longrightarrow> keeps P (prepareCascadeTrigger D i op r)"
  unfolding prepareCascadeTrigger_def Let_def by (intro keeps_intros)

lemma keeps_results [keeps_intros]: "side_free P \<Longrightarrow> keeps P (cascade_results D j)"
  unfolding cascade_results_def ds_connectors_def by (intro keeps_intros side_freeD)

lemma begin_Inr:
  assumes "begin_advance i n s = (Inr request, t)"
  shows "req_of i s = Some request \<and> isValidTransition (q_status request) n \<and> requests t = requests s"
proof -
  obtain x u where g: "getDeletionRequest i s = (Inr x, u)"
    and rest: "(case x of None \<Rightarrow> throw (not_found i) | Some request \<Rightarrow>
        if \<not> isValidTransition (q_status request) n then throw (invalid_transition (q_status request) n) else ret request) u = (Inr request, t)"
    using assms unfolding begin_advance_def by (elim bnd_InrE)
  from getRequest_Inr[OF g] rest show ?thesis by (auto split: option.splits if_splits)
qed

section \<open>The life cycle of a request\<close>

text \<open>Same person, same request: what an advance never changes.\<close>

definition same_person :: "deletion_request \<Rightarrow> deletion_request \<Rightarrow> bool" where
  "same_person d d' \<longleftrightarrow> q_id d' = q_id d \<and> q_user_id d' = q_user_id d \<and> q_tenant_id d' = q_tenant_id d \<and>
     q_created_at d' = q_created_at d \<and> q_requested_by d' = q_requested_by d"

lemma same_person_refl [simp]: "same_person d d"
  by (simp add: same_person_def)

lemma same_person_trans: "same_person a b \<Longrightarrow> same_person b c \<Longrightarrow> same_person a c"
  by (simp add: same_person_def)

lemma same_person_ops [simp]:
  "same_person d (push_status st t e) = same_person d e" "same_person d (apply_fields f e) = same_person d e"
  "same_person d (e\<lparr>q_wipes := w\<rparr>) = same_person d e"
  by (simp_all add: same_person_def push_status_def apply_fields_def)

text \<open>The declared transitions, the internal completion of a request with nothing to wipe, and the two roll-backs.\<close>

inductive lifecycle :: "request_status \<Rightarrow> request_status \<Rightarrow> bool" where
  declared: "isValidTransition a b \<Longrightarrow> lifecycle a b"
| nothing_to_wipe: "a \<in> {KEY_DESTROYED, CASCADE_PENDING, CASCADE_PARTIAL_FAILURE} \<Longrightarrow> lifecycle a CASCADE_COMPLETE"
| shred_failed: "lifecycle KEY_DESTROYED SHRED_REQUESTED"
| issuance_failed: "lifecycle CERTIFICATE_ISSUED CASCADE_COMPLETE"

inductive_cases lifecycle_from_issued: "lifecycle CERTIFICATE_ISSUED b"

definition ends :: "request_status \<Rightarrow> request_status \<Rightarrow> request_status set" where
  "ends a n = insert a (if \<not> isValidTransition a n then {} else (case n of
       CASCADE_PENDING \<Rightarrow> {CASCADE_PENDING, CASCADE_COMPLETE, CERTIFICATE_ISSUED, CASCADE_PARTIAL_FAILURE}
     | CASCADE_IN_PROGRESS \<Rightarrow> {CASCADE_IN_PROGRESS, CASCADE_COMPLETE, CERTIFICATE_ISSUED}
     | CASCADE_COMPLETE \<Rightarrow> {CASCADE_COMPLETE, CERTIFICATE_ISSUED}
     | _ \<Rightarrow> {n}))"

text \<open>One request stays the same person's with a status in S, and the others stay as they are.\<close>

definition confined :: "string \<Rightarrow> deletion_request \<Rightarrow> request_status set \<Rightarrow> (string \<times> deletion_request) list \<Rightarrow> 'z rworld_scheme \<Rightarrow> bool" where
  "confined i d S rs s \<longleftrightarrow> (\<forall>j. j \<noteq> i \<longrightarrow> req_of j s = map_of rs j) \<and>
     (\<exists>d'. req_of i s = Some d' \<and> same_person d d' \<and> q_status d' \<in> S)"

lemma requests_side: "side_free (\<lambda>s. Q (requests s))"
  by (simp add: side_free_def jworld_free_def lineage_free_def kms_free_def bq_free_def signer_free_def draw_free_def timeless_def)

lemma confined_side: "side_free (confined i d S rs)"
  unfolding confined_def req_of_def by (rule requests_side)

lemmas confined_free = confined_side side_freeD[OF confined_side]

lemma confined_timeless: "timeless (confined i d S rs)"
  unfolding confined_def req_of_def by (rule timelessI) simp

lemma confined_put: "confined i d S rs s \<Longrightarrow> same_person d e \<Longrightarrow> q_status e \<in> S \<Longrightarrow> confined i d S rs (put_req i e s)"
  by (simp add: confined_def)

lemma confined_update:
  assumes "\<And>e. same_person d e \<Longrightarrow> q_status e \<in> S \<Longrightarrow> same_person d (f e) \<and> q_status (f e) \<in> S"
  shows "keeps (confined i d S rs) (update_req i f)"
  unfolding update_req_def
  by (rule keeps_rtxn) (use assms in \<open>auto simp: confined_timeless confined_def split: option.splits\<close>)

lemma confined_status [keeps_intros]: "n \<in> S \<Longrightarrow> keeps (confined i d S rs) (updateDeletionRequestStatus i n f)"
  unfolding updateDeletionRequestStatus_def by (intro keeps_intros confined_update) simp

lemma confined_fields [keeps_intros]: "keeps (confined i d S rs) (updateDeletionRequestFields i f)"
  unfolding updateDeletionRequestFields_def by (intro keeps_intros confined_update) simp

lemma confined_wipe [keeps_intros]: "keeps (confined i d S rs) (updateJanitorWipeStatus i dst st x)"
  unfolding updateJanitorWipeStatus_def
  by (rule keeps_rtxn) (auto simp: confined_timeless confined_def split: option.splits)

lemma confined_claim [keeps_intros]: "n \<in> S \<Longrightarrow> keeps (confined i d S rs) (claimTransition i fs n)"
  unfolding claimTransition_def
  by (rule keeps_rtxn) (auto simp: confined_timeless confined_def split: option.splits if_splits)

lemma keeps_claim_case [keeps_intros]: "keeps P h \<Longrightarrow> keeps P (case c of NotClaimed current \<Rightarrow> ret current | Claimed \<Rightarrow> h)"
  by (cases c) (auto intro: keeps_ret)

lemma keeps_plan_case:
  "keeps P a \<Longrightarrow> (\<And>e. keeps P (b e)) \<Longrightarrow> (\<And>j ds. keeps P (c j ds)) \<Longrightarrow>
   keeps P (case plan of Shortcut \<Rightarrow> a | PlanFailed e \<Rightarrow> b e | Trigger j ds \<Rightarrow> c j ds)"
  by (cases plan) auto

lemma confined_shred [keeps_intros]: "keeps (confined i d S rs) (shredKeyForUser u t r)"
  unfolding shredKeyForUser_def Let_def
  by (intro keeps_intros keeps_rwrite confined_timeless) (simp add: confined_def req_of_def)

lemmas confined_handlers = claimed_then_def finish_advance_def or_roll_back_def handle_key_destroyed_def handle_certificate_def
  handle_partial_failure_def trigger_cascade_def

lemma confined_key: "q_status r \<in> S \<Longrightarrow> KEY_DESTROYED \<in> S \<Longrightarrow> keeps (confined i d S rs) (handle_key_destroyed D i op r)"
  unfolding confined_handlers by (intro keeps_intros confined_free)

lemma confined_certificate: "q_status r \<in> S \<Longrightarrow> CERTIFICATE_ISSUED \<in> S \<Longrightarrow> keeps (confined i d S rs) (handle_certificate D i op r)"
  unfolding confined_handlers by (intro keeps_intros confined_free)

lemma confined_partial: "CASCADE_PARTIAL_FAILURE \<in> S \<Longrightarrow> keeps (confined i d S rs) (handle_partial_failure D i op fs r)"
  unfolding confined_handlers by (intro keeps_intros confined_free)

lemma confined_trigger: "n \<in> S \<Longrightarrow> keeps (confined i d S rs) (trigger_cascade D i op n ev job ds r)"
  unfolding confined_handlers by (intro keeps_intros confined_free)

lemma valid_certificate [simp]: "isValidTransition a CERTIFICATE_ISSUED \<longleftrightarrow> a = CASCADE_COMPLETE"
  by (cases a) (simp_all add: isValidTransition_def transitions_def)

lemma confined_advance_certificate:
  "CASCADE_COMPLETE \<in> S \<Longrightarrow> CERTIFICATE_ISSUED \<in> S \<Longrightarrow> keeps (confined i d S rs) (advance_certificate D i op)"
  unfolding advance_certificate_def
  by (rule keeps_bnd_result) (auto intro!: keeps_begin confined_free confined_certificate dest!: begin_Inr)

lemma confined_shortcut:
  "CASCADE_COMPLETE \<in> S \<Longrightarrow> CERTIFICATE_ISSUED \<in> S \<Longrightarrow> keeps (confined i d S rs) (shortcutToCascadeComplete D i op)"
  unfolding shortcutToCascadeComplete_def by (intro keeps_intros confined_advance_certificate)

lemma confined_complete:
  "CASCADE_COMPLETE \<in> S \<Longrightarrow> CERTIFICATE_ISSUED \<in> S \<Longrightarrow> keeps (confined i d S rs) (handle_complete D i op)"
  unfolding handle_complete_def by (intro keeps_intros confined_advance_certificate)

lemma confined_advance_partial: "CASCADE_PARTIAL_FAILURE \<in> S \<Longrightarrow> keeps (confined i d S rs) (advance_partial_failure D i op fs)"
  unfolding advance_partial_failure_def by (intro keeps_intros confined_free confined_partial)

lemma confined_start: "req_of i s = Some d \<Longrightarrow> q_status d \<in> S \<Longrightarrow> confined i d S (requests s) s"
  by (simp add: confined_def req_of_def)

lemma confined_pending:
  assumes "{CASCADE_PENDING, CASCADE_COMPLETE, CERTIFICATE_ISSUED, CASCADE_PARTIAL_FAILURE} \<subseteq> S"
  shows "keeps (confined i d S rs) (handle_pending D i op r)"
  unfolding handle_pending_def
  by (intro keeps_bnd keeps_prepare confined_free keeps_plan_case confined_shortcut confined_advance_partial confined_trigger)
    (use assms in auto)

lemma confined_in_progress:
  assumes "{CASCADE_IN_PROGRESS, CASCADE_COMPLETE, CERTIFICATE_ISSUED} \<subseteq> S"
  shows "keeps (confined i d S rs) (handle_in_progress D i op r)"
  unfolding handle_in_progress_def
  by (intro keeps_bnd keeps_prepare confined_free keeps_plan_case confined_shortcut keeps_ret confined_trigger)
    (use assms in auto)

lemma advance_confined:
  fixes s :: "'z dworld_scheme"
  assumes run: "advanceRequest D i n op fs s = (r, s')" and d: "req_of i s = Some d"
  shows "confined i d (ends (q_status d) n) (requests s) s'"
proof -
  let ?S = "ends (q_status d) n"
  have s: "confined i d ?S (requests s) s" using d by (rule confined_start) (simp add: ends_def)
  obtain b u where b: "begin_advance i n s = (b, u)" by fastforce
  have u: "confined i d ?S (requests s) u" by (rule keepsE[OF keeps_begin[OF confined_timeless] s b])
  show ?thesis
  proof (cases b)
    case (Inl e)
    then show ?thesis using run b u by (simp add: advanceRequest_def bnd_apply)
  next
    case (Inr request)
    with begin_Inr[of i n s request u] b d have rq: "request = d" "isValidTransition (q_status d) n" by auto
    define m :: "('z dworld_scheme, deletion_request) eff" where "m = (case n of
       KEY_DESTROYED \<Rightarrow> handle_key_destroyed D i op d
     | CASCADE_PENDING \<Rightarrow> handle_pending D i op d
     | CASCADE_IN_PROGRESS \<Rightarrow> handle_in_progress D i op d
     | CASCADE_COMPLETE \<Rightarrow> handle_complete D i op
     | CASCADE_PARTIAL_FAILURE \<Rightarrow> handle_partial_failure D i op fs d
     | CERTIFICATE_ISSUED \<Rightarrow> handle_certificate D i op d
     | SHRED_REQUESTED \<Rightarrow> bnd (updateDeletionRequestStatus i n no_fields) (\<lambda>_. ret (d\<lparr>q_status := n\<rparr>)))"
    have "keeps (confined i d ?S (requests s)) m"
      using rq(2) unfolding m_def
      by (cases n) (auto simp: ends_def intro!: confined_key confined_pending confined_in_progress confined_complete
          confined_partial confined_certificate keeps_intros)
    moreover have "m u = (r, s')" using run b Inr rq(1) by (simp add: advanceRequest_def bnd_apply m_def)
    ultimately show ?thesis using u by (metis keepsE)
  qed
qed

lemma advance_missing:
  assumes run: "advanceRequest D i n op fs s = (r, s')" and d: "req_of i s = None"
  shows "requests s' = requests s"
proof -
  obtain b u where b: "begin_advance i n s = (b, u)" by fastforce
  have u: "requests u = requests s"
    by (rule keepsE[OF keeps_begin[OF side_freeD(5)[OF requests_side[of "\<lambda>x. x = requests s"]]] refl b])
  then show ?thesis
    using run b d begin_Inr[of i n s] by (cases b) (auto simp: advanceRequest_def bnd_apply)
qed

lemma lifecycle_declared: "isValidTransition a b \<Longrightarrow> lifecycle\<^sup>*\<^sup>* a b"
  by (blast intro: lifecycle.declared)

lemma lifecycle_steps:
  "isValidTransition a b \<Longrightarrow> lifecycle\<^sup>*\<^sup>* b c \<Longrightarrow> lifecycle\<^sup>*\<^sup>* a c"
  by (meson converse_rtranclp_into_rtranclp lifecycle.declared)

lemma ends_lifecycle: "b \<in> ends a n \<Longrightarrow> lifecycle\<^sup>*\<^sup>* a b"
proof -
  have complete: "lifecycle\<^sup>*\<^sup>* CASCADE_COMPLETE CERTIFICATE_ISSUED"
    by (rule lifecycle_declared) simp
  have done_early: "lifecycle\<^sup>*\<^sup>* a CASCADE_COMPLETE \<and> lifecycle\<^sup>*\<^sup>* a CERTIFICATE_ISSUED"
    if "a \<in> {KEY_DESTROYED, CASCADE_PENDING, CASCADE_PARTIAL_FAILURE}" for a
    using lifecycle.nothing_to_wipe[OF that] complete by (meson converse_rtranclp_into_rtranclp r_into_rtranclp)
  have valid: "isValidTransition a CASCADE_PENDING \<Longrightarrow> a = KEY_DESTROYED"
    "isValidTransition a CASCADE_IN_PROGRESS \<Longrightarrow> a \<in> {CASCADE_PENDING, CASCADE_PARTIAL_FAILURE}" for a
    by (cases a; simp add: isValidTransition_def transitions_def)+
  have pf: "lifecycle\<^sup>*\<^sup>* KEY_DESTROYED CASCADE_PARTIAL_FAILURE"
    by (rule lifecycle_declared) (simp add: isValidTransition_def transitions_def)
  assume b: "b \<in> ends a n"
  show ?thesis
  proof (cases "b = a \<or> b = n \<or> \<not> isValidTransition a n")
    case True
    then show ?thesis using b lifecycle_declared[of a n] by (auto simp: ends_def split: if_splits)
  next
    case False
    show ?thesis
    proof (cases "n = CASCADE_COMPLETE")
      case True
      with False b have "isValidTransition a CASCADE_COMPLETE" "b = CERTIFICATE_ISSUED" by (auto simp: ends_def split: if_splits)
      then show ?thesis using lifecycle_steps complete by blast
    next
      case no: False
      with False b have n: "n = CASCADE_PENDING \<or> n = CASCADE_IN_PROGRESS"
        by (cases n) (auto simp: ends_def split: if_splits)
      with False b have "b \<in> {CASCADE_COMPLETE, CERTIFICATE_ISSUED} \<or> a = KEY_DESTROYED \<and> b = CASCADE_PARTIAL_FAILURE"
        using valid[of a] by (auto simp: ends_def split: if_splits)
      moreover have "a \<in> {KEY_DESTROYED, CASCADE_PENDING, CASCADE_PARTIAL_FAILURE}"
        using n False valid[of a] by blast
      ultimately show ?thesis using done_early[of a] pf by blast
    qed
  qed
qed

text \<open>
  C2. The service refines the life cycle of a request: under every pattern of failures an advance
  leaves every other request as it was, keeps the person, tenant and identity of its own, and moves
  its status along declared transitions, the completion of a request with nothing to wipe, and the
  two roll-backs only; where it may end is listed per requested status.
\<close>

theorem advance_refines_lifecycle:
  assumes "advanceRequest D i n op fs s = (r, s')"
  shows "(\<forall>j. j \<noteq> i \<longrightarrow> req_of j s' = req_of j s) \<and>
    (case req_of i s of
       None \<Rightarrow> req_of i s' = None
     | Some d \<Rightarrow> (\<exists>d'. req_of i s' = Some d' \<and> same_person d d' \<and>
         q_status d' \<in> ends (q_status d) n \<and> lifecycle\<^sup>*\<^sup>* (q_status d) (q_status d')))"
proof (cases "req_of i s")
  case None
  with advance_missing[OF assms] show ?thesis by (simp add: req_of_def)
next
  case (Some d)
  with advance_confined[OF assms Some] show ?thesis
    by (auto simp: confined_def req_of_def intro: ends_lifecycle)
qed

section \<open>A failed wipe withholds the certificate\<close>

text \<open>Ledger and bucket.\<close>

definition store_of :: "'z cworld_scheme \<Rightarrow> (string \<rightharpoonup> chain_state) \<times> (string \<rightharpoonup> chain_entry) \<times> (string \<rightharpoonup> gcs_object)" where
  "store_of s = (chains s, entries s, objects s)"

lemma store_frees:
  fixes x :: "(string \<rightharpoonup> chain_state) \<times> (string \<rightharpoonup> chain_entry) \<times> (string \<rightharpoonup> gcs_object)"
  shows "jworld_free (\<lambda>s. store_of s = x)" "bq_free (\<lambda>s. store_of s = x)" "requests_free (\<lambda>s. store_of s = x)"
    "timeless (\<lambda>s. store_of s = x)" "lineage_free (\<lambda>s. store_of s = x)"
  by (simp_all add: store_of_def jworld_free_def lineage_free_def kms_free_def bq_free_def requests_free_def timeless_def)

lemma store_results: "keeps (\<lambda>s. store_of s = x) (cascade_results D j)"
  unfolding cascade_results_def ds_connectors_def by (intro keeps_intros store_frees)

lemma store_record: "keeps (\<lambda>s. store_of s = x) (record_results i js rs es)"
  unfolding record_results_def record_janitor_def record_redaction_def by (intro keeps_intros store_frees)

lemma store_partial: "keeps (\<lambda>s. store_of s = x) (advanceRequest D i CASCADE_PARTIAL_FAILURE op fs)"
  unfolding advance_again advance_partial_failure_def handle_partial_failure_def claimed_then_def finish_advance_def
  by (intro keeps_intros store_frees)

lemma confined_record: "keeps (confined i d S rs) (record_results i js rs' es)"
  unfolding record_results_def record_janitor_def record_redaction_def by (intro keeps_intros confined_free)

lemma confined_advance_case:
  "CASCADE_PARTIAL_FAILURE \<in> S \<Longrightarrow> keeps (confined i d S rs) (advanceRequest D i CASCADE_PARTIAL_FAILURE op fs)"
  unfolding advance_again by (rule confined_advance_partial)

lemma catch_bnd_Inr: "m s = (Inr x, u) \<Longrightarrow> catch (bnd m f) h s = catch (f x) h u"
  by (simp add: catch_apply bnd_apply)

lemma catch_bnd_Inl: "m s = (Inl e, u) \<Longrightarrow> catch (bnd m f) h s = h e u"
  by (simp add: catch_apply bnd_apply)

lemma catch_done: "m s = (Inr x, u) \<Longrightarrow> catch (bnd m (\<lambda>_. ret ())) h s = (Inr (), u)"
  by (simp add: catch_apply bnd_apply)

lemma keeps_conj: "keeps P m \<Longrightarrow> keeps Q m \<Longrightarrow> keeps (\<lambda>s. P s \<and> Q s) m"
  by (simp add: keeps_def)

text \<open>
  C1. A cascade in which any wipe failed, or that could not finish wiping, issues nothing: ledger and
  bucket stay as they were whatever else fails, and the request is not moved to a completed status.
\<close>

theorem failed_wipe_withholds:
  assumes run: "run_cascade D j s = (r, s')" and d: "req_of (cj_request j) s = Some d"
    and failed: "\<forall>js rs es. fst (cascade_results D j s) = Inr (js, rs, es) \<longrightarrow>
      (\<exists>t \<in> set js. jt_status t \<noteq> TASK_COMPLETE) \<or> (\<exists>x \<in> set (rs @ es). \<not> rr_success x)"
  shows "chains s' = chains s \<and> entries s' = entries s \<and> objects s' = objects s \<and>
    (\<exists>d'. req_of (cj_request j) s' = Some d' \<and> q_status d' \<in> {q_status d, CASCADE_PARTIAL_FAILURE})"
proof -
  let ?S = "{q_status d, CASCADE_PARTIAL_FAILURE}" and ?i = "cj_request j"
  define P :: "'a dworld_scheme \<Rightarrow> bool" where "P = (\<lambda>w. store_of w = store_of s)"
  define Q :: "'a dworld_scheme \<Rightarrow> bool" where "Q = confined ?i d ?S (requests s)"
  define R where "R = (\<lambda>w. P w \<and> Q w)"
  have partial: "keeps R (advanceRequest D ?i CASCADE_PARTIAL_FAILURE op fs)" for op fs
    unfolding R_def P_def Q_def by (intro keeps_conj store_partial confined_advance_case) simp
  obtain res u where c: "cascade_results D j s = (res, u)" by fastforce
  have "P u" unfolding P_def by (rule keepsE[OF store_results refl c])
  moreover have "Q u" unfolding Q_def
    by (rule keepsE[OF keeps_results[OF confined_side] confined_start[OF d] c]) simp
  ultimately have u: "R u" by (simp add: R_def)
  let ?first = "\<lambda>(js, rs, es). bnd (record_results ?i js rs es) (\<lambda>_.
        bnd (advanceRequest D ?i (next_status js rs es) (cj_operation j) (failed_destinations js rs es)) (\<lambda>_. ret ()))"
  let ?recover = "\<lambda>err. swallow
         (bnd (advanceRequest D ?i CASCADE_PARTIAL_FAILURE (cj_operation j) [''internal-error: '' @ message_of err]) (\<lambda>_. ret ()))"
  have recover: "keeps R (?recover e)" for e by (intro keeps_intros partial)
  have first: "keeps R (?first (js, rs, es))" if "res = Inr (js, rs, es)" for js rs es
  proof -
    have "next_status js rs es = CASCADE_PARTIAL_FAILURE"
      using failed c that by (auto simp: next_status_def filter_empty_conv)
    moreover have "keeps R (record_results ?i js rs es)"
      unfolding R_def P_def Q_def by (intro keeps_conj store_record confined_record)
    ultimately show ?thesis by (simp add: keeps_bnd keeps_ret partial)
  qed
  have "R s'"
  proof (cases res)
    case (Inl e)
    have "run_cascade D j s = ?recover e u"
      unfolding run_cascade_def by (rule catch_bnd_Inl) (simp add: c Inl)
    with run have "?recover e u = (r, s')" by simp
    then show ?thesis using keepsE[OF recover u] by blast
  next
    case (Inr x)
    obtain js rs es where x: "x = (js, rs, es)" by (cases x) auto
    have "run_cascade D j s = catch (?first x) ?recover u"
      unfolding run_cascade_def by (rule catch_bnd_Inr) (simp add: c Inr)
    with run have e: "catch (?first x) ?recover u = (r, s')" by simp
    have "keeps R (?first x)" unfolding x by (rule first) (simp add: Inr x)
    then have "keeps R (catch (?first x) ?recover)" by (intro keeps_catch recover)
    from keepsE[OF this u e] show ?thesis .
  qed
  then show ?thesis by (auto simp: R_def P_def Q_def store_of_def confined_def)
qed

section \<open>A cascade settles\<close>

text \<open>No remote call still to come fails.\<close>

definition quiet :: "'z env_scheme \<Rightarrow> bool" where
  "quiet s \<longleftrightarrow> outcomes s = []"

lemma quiet_next [simp]: "quiet s \<Longrightarrow> next_call s = (Ok, s)"
  by (simp add: quiet_def)

lemma quiet_rread: "keeps quiet (rread f)"
  by (rule keepsI) (simp add: rread_def)

lemma quiet_rtxn: "(\<And>s. quiet s \<Longrightarrow> quiet (snd (f s))) \<Longrightarrow> keeps quiet (rtxn f)"
  by (rule keepsI) (auto simp: rtxn_def split: prod.splits sum.splits, (metis snd_conv)+)

lemma quiet_rwrite: "(\<And>s. quiet s \<Longrightarrow> quiet (f s)) \<Longrightarrow> keeps quiet (rwrite f)"
  unfolding rwrite_def by (rule quiet_rtxn) simp

lemma quiet_rcall: "keeps quiet (rcall f)"
  unfolding rcall_def by (rule quiet_rtxn) simp

lemma quiet_modify: "(\<And>s. quiet s \<Longrightarrow> quiet (f s)) \<Longrightarrow> keeps quiet (modify f)"
  by (rule keeps_modify)

lemmas quiet_intros = quiet_rread quiet_rcall keeps_bnd keeps_catch keeps_swallow keeps_ret keeps_throw keeps_gets keeps_if
  keeps_option keeps_prod keeps_sum keeps_lift keeps_mapEff keeps_forEach keeps_both

lemma quiet_newest: "keeps quiet (newest_version c)"
  unfolding newest_version_def by (intro quiet_intros)

lemma quiet_version: "keeps quiet (signer_getCurrentSigningKeyVersion G)"
  unfolding signer_getCurrentSigningKeyVersion_def
  by (intro quiet_intros quiet_newest quiet_modify) (simp add: quiet_def)

lemma quiet_fingerprint: "keeps quiet (getKeyFingerprint G)"
  unfolding getKeyFingerprint_def getPublicKey_def Let_def
  by (intro quiet_intros quiet_version quiet_modify) (simp add: quiet_def)

lemma quiet_claims: "keeps quiet (generateClaims G inp)"
  unfolding generateClaims_def signer_getKeyStatus_def signer_getDeletionRequest_def signer_getLatestCompleted_def
    getManualRegistryEntriesForTenant_def
  by (intro quiet_intros quiet_fingerprint)

lemma quiet_sign: "keeps quiet (signClaims num G c p n)"
  unfolding signClaims_def asymmetricSign_def Let_def by (intro quiet_intros quiet_version)

lemma quiet_append: "keeps quiet (appendToChain ry t r (\<lambda>p n. signClaims num G c p (Some n)))"
  unfolding appendToChain_def append_attempt_def
  by (intro keeps_runTransaction quiet_intros quiet_sign quiet_rtxn) (simp add: quiet_def commit_append_def)

lemma quiet_ghosts: "keeps quiet (getGhostDataFindings u t)"
  unfolding getGhostDataFindings_def by (intro quiet_intros)

lemma quiet_witnesses: "keeps quiet (attempt_timestamp V h)" "keeps quiet (attempt_rekor V h p)"
  unfolding attempt_timestamp_def attempt_rekor_def requestTimestamp_def publishCertificateHash_def recordTsaTimestamp_def
    recordRekorEntry_def update_entry_def rekor_version_path_def asymmetricSign_def getPublicKey_def Let_def
  by (intro quiet_intros quiet_modify quiet_rtxn; simp add: quiet_def split: option.splits)+

lemma quiet_upload: "keeps quiet (uploadCertificate b u r t a i k)"
  unfolding uploadCertificate_def save_object_def Let_def
  by (intro quiet_intros quiet_rwrite) (simp_all add: quiet_def)

lemma quiet_issue: "keeps quiet (issueAndStoreCertificate V u r t)"
  unfolding issueAndStoreCertificate_def
  by (intro quiet_intros quiet_ghosts quiet_claims quiet_append quiet_witnesses quiet_upload)

lemma quiet_record: "keeps quiet (record_quietly D e)"
  unfolding record_quietly_def recordEvent_def publishMessage_def log_event_def Let_def
  by (intro quiet_intros quiet_modify quiet_rwrite) (simp_all add: quiet_def)

lemma quiet_update: "keeps quiet (update_req i f)"
  unfolding update_req_def by (rule quiet_rtxn) (simp add: quiet_def put_req_def split: option.splits)

lemma quiet_wipe: "keeps quiet (updateJanitorWipeStatus i d st x)"
  unfolding updateJanitorWipeStatus_def by (rule quiet_rtxn) (simp add: quiet_def put_req_def split: option.splits)

lemma quiet_results: "keeps quiet (record_results i js rs es)"
  unfolding record_results_def record_janitor_def record_redaction_def by (intro quiet_intros quiet_wipe)

text \<open>The writes of the repository, when no call fails.\<close>

lemma quiet_update_run:
  "quiet s \<Longrightarrow> req_of i s = Some d \<Longrightarrow> update_req i f s = (Inr (), put_req i (f d) s)"
  by (simp add: update_req_def rtxn_def)

lemma quiet_status_run:
  "quiet s \<Longrightarrow> req_of i s = Some d \<Longrightarrow>
   updateDeletionRequestStatus i n no_fields s = (Inr (), put_req i (apply_fields no_fields (push_status n (now s) d)) s)"
  by (simp add: updateDeletionRequestStatus_def quiet_update_run)

lemma quiet_claim_run:
  "quiet s \<Longrightarrow> req_of i s = Some d \<Longrightarrow> claimTransition i [q_status d] n s = (Inr Claimed, put_req i (push_status n (now s) d) s)"
  by (simp add: claimTransition_def rtxn_def)

lemma quiet_begin_run:
  "quiet s \<Longrightarrow> req_of i s = Some d \<Longrightarrow> isValidTransition (q_status d) n \<Longrightarrow> begin_advance i n s = (Inr d, s)"
  by (simp add: begin_advance_def getDeletionRequest_def rread_def bnd_apply)

lemma quiet_put [simp]: "quiet (put_req i d s) = quiet s"
  by (simp add: quiet_def put_req_def)

text \<open>What the auditing and the finishing write leave of a claimed request.\<close>

lemma quiet_finish:
  fixes s :: "'z dworld_scheme"
  assumes q: "quiet s" and d: "req_of i s = Some d"
  shows "\<exists>r s'. bnd (record_quietly D e) (\<lambda>_. finish_advance i q n f) s = (Inr r, s') \<and> quiet s' \<and>
    (\<exists>d'. req_of i s' = Some d' \<and> q_status d' = q_status d \<and> (uf_certificate_gcs_path f \<noteq> None \<longrightarrow> q_certificate_gcs_path d' = uf_certificate_gcs_path f))"
proof -
  obtain t where t: "record_quietly D e s = (Inr (), t)"
    unfolding record_quietly_def using swallow_total[of "bnd (recordEvent (ds_lineage D) e) (\<lambda>_. ret ())" s] by blast
  have qt: "quiet t" by (rule keepsE[OF quiet_record q t])
  have "requests t = requests s"
    by (rule keepsE[OF keeps_record_quietly[OF side_freeD(6)[OF requests_side[of "\<lambda>x. x = requests s"]]] refl t])
  then have dt: "req_of i t = Some d" using d by (simp add: req_of_def)
  obtain x u where fin: "finish_advance i q n f t = (Inr x, u)" "quiet u"
    "req_of i u = Some (if f = no_fields then d else apply_fields f d)"
  proof (cases "f = no_fields")
    case True
    then show thesis using that qt dt by (simp add: finish_advance_def updateDeletionRequestFields_def)
  next
    case False
    then show thesis using that qt dt quiet_update_run[OF qt dt, of "apply_fields f"]
      by (simp add: finish_advance_def updateDeletionRequestFields_def bnd_apply)
  qed
  have "bnd (record_quietly D e) (\<lambda>_. finish_advance i q n f) s = (Inr x, u)"
    using t fin(1) by (simp add: bnd_apply)
  moreover have "q_status (if f = no_fields then d else apply_fields f d) = q_status d" by simp
  moreover have "uf_certificate_gcs_path f \<noteq> None \<Longrightarrow>
      q_certificate_gcs_path (if f = no_fields then d else apply_fields f d) = uf_certificate_gcs_path f"
    by (auto simp: no_fields_def apply_fields_def set_opt_def)
  ultimately show ?thesis using fin(2,3) by blast
qed

lemma bnd_run: "m s = (Inr a, t) \<Longrightarrow> bnd m f s = f a t"
  by (simp add: bnd_apply)

lemma bnd_run_Inl: "m s = (Inl e, t) \<Longrightarrow> bnd m f s = (Inl e, t)"
  by (simp add: bnd_apply)

text \<open>A claimed handler, when no call fails.\<close>

lemma quiet_claimed_then:
  assumes "quiet s" and "req_of i s = Some d"
  shows "claimed_then i d n h s = h (put_req i (push_status n (now s) d) s)"
  unfolding claimed_then_def by (subst bnd_run, rule quiet_claim_run[OF assms]) simp

lemma quiet_partial:
  assumes q: "quiet s" and d: "req_of i s = Some d" and v: "isValidTransition (q_status d) CASCADE_PARTIAL_FAILURE"
  shows "\<exists>r s' d'. advanceRequest D i CASCADE_PARTIAL_FAILURE op fs s = (Inr r, s') \<and>
    req_of i s' = Some d' \<and> q_status d' = CASCADE_PARTIAL_FAILURE"
proof -
  let ?d = "push_status CASCADE_PARTIAL_FAILURE (now s) d" and ?t = "put_req i (push_status CASCADE_PARTIAL_FAILURE (now s) d) s"
  have t: "quiet ?t" "req_of i ?t = Some ?d" using q by simp_all
  have "advanceRequest D i CASCADE_PARTIAL_FAILURE op fs s = handle_partial_failure D i op fs d s"
    unfolding advance_again advance_partial_failure_def by (rule bnd_run) (rule quiet_begin_run[OF q d v])
  also have "\<dots> = bnd (record_quietly D (request_event d (tenant_of_request d) i op ''CASCADE_PARTIAL_FAILURE'' ''janitor-service''
      [(''failedDestinations'', JArr (map JStr fs))])) (\<lambda>_. finish_advance i d CASCADE_PARTIAL_FAILURE no_fields) ?t"
    unfolding handle_partial_failure_def by (rule quiet_claimed_then[OF q d])
  finally show ?thesis using quiet_finish[OF t] by fastforce
qed

text \<open>Issuing, when no call fails: the certificate's address is recorded, or the claim is rolled back.\<close>

lemma quiet_certificate:
  assumes q: "quiet s" and d: "req_of i s = Some d" and st: "q_status d = CASCADE_COMPLETE"
  shows "\<exists>r s' d'. advanceRequest D i CERTIFICATE_ISSUED op fs s = (r, s') \<and> req_of i s' = Some d' \<and> quiet s' \<and>
    (case r of Inr _ \<Rightarrow> q_status d' = CERTIFICATE_ISSUED \<and> q_certificate_gcs_path d' \<noteq> None
     | Inl _ \<Rightarrow> q_status d' = CASCADE_COMPLETE)"
proof -
  let ?t = "put_req i (push_status CERTIFICATE_ISSUED (now s) d) s" and ?d = "push_status CERTIFICATE_ISSUED (now s) d"
  let ?issue = "issueAndStoreCertificate (ds_certificates D) (q_user_id d) (q_id d) (tenant_of_request d)"
  have t: "quiet ?t" "req_of i ?t = Some ?d" using q by simp_all
  define rest where "rest = (\<lambda>p :: string \<times> string. bnd (gets now) (\<lambda>t.
        bnd (record_quietly D (request_event d (tenant_of_request d) i op
              ''CERTIFICATE_ISSUED'' ''certificate-service'' [(''certificate_gcs_path'', JStr (snd p))])) (\<lambda>_.
        finish_advance i d CERTIFICATE_ISSUED
          (no_fields\<lparr>uf_certificate_issued_at := Some t, uf_certificate_gcs_path := Some (snd p)\<rparr>))) :: ('a dworld_scheme, deletion_request) eff)"
  have "advanceRequest D i CERTIFICATE_ISSUED op fs s = handle_certificate D i op d s"
    unfolding advance_again advance_certificate_def by (rule bnd_run, rule quiet_begin_run[OF q d]) (simp add: st)
  also have "\<dots> = bnd (or_roll_back i d ?issue) rest ?t"
    unfolding handle_certificate_def rest_def split_beta by (rule quiet_claimed_then[OF q d])
  finally have run: "advanceRequest D i CERTIFICATE_ISSUED op fs s = bnd (or_roll_back i d ?issue) rest ?t" .
  obtain x u where iss: "?issue ?t = (x, u)" by fastforce
  have qu: "quiet u" by (rule keepsE[OF quiet_issue t(1) iss])
  have "requests u = requests ?t"
    by (rule keepsE[OF keeps_issue[OF requests_side[of "\<lambda>x. x = requests ?t"]] refl iss])
  then have du: "req_of i u = Some ?d" using t(2) by (simp add: req_of_def)
  show ?thesis
  proof (cases x)
    case (Inr p)
    have "or_roll_back i d ?issue ?t = (Inr p, u)" by (simp add: or_roll_back_def catch_apply iss Inr)
    then have "advanceRequest D i CERTIFICATE_ISSUED op fs s = rest p u" unfolding run by (rule bnd_run)
    also have "\<dots> = bnd (record_quietly D (request_event d (tenant_of_request d) i op
              ''CERTIFICATE_ISSUED'' ''certificate-service'' [(''certificate_gcs_path'', JStr (snd p))])) (\<lambda>_.
        finish_advance i d CERTIFICATE_ISSUED
          (no_fields\<lparr>uf_certificate_issued_at := Some (now u), uf_certificate_gcs_path := Some (snd p)\<rparr>)) u"
      by (simp add: rest_def)
    finally show ?thesis
      using quiet_finish[OF qu du] by fastforce
  next
    case (Inl e)
    have "or_roll_back i d ?issue ?t = (Inl e, put_req i (apply_fields no_fields (push_status CASCADE_COMPLETE (now u) ?d)) u)"
      using quiet_status_run[OF qu du, of CASCADE_COMPLETE] by (simp add: or_roll_back_def catch_apply iss Inl bnd_apply st)
    then have "advanceRequest D i CERTIFICATE_ISSUED op fs s = (Inl e, put_req i (apply_fields no_fields (push_status CASCADE_COMPLETE (now u) ?d)) u)"
      unfolding run by (rule bnd_run_Inl)
    then show ?thesis using qu by simp
  qed
qed

lemma forEach_total: "(\<And>y v. \<exists>t. f y v = (Inr (), t)) \<Longrightarrow> \<exists>t. forEach f xs v = (Inr (), t)"
proof (induction xs arbitrary: v)
  case (Cons x xs)
  then obtain t where "f x v = (Inr (), t)" by blast
  with Cons.IH[OF Cons.prems, of t] show ?case by (simp add: bnd_apply)
qed simp

lemma bnd_total: "\<exists>t. m s = (Inr (), t) \<Longrightarrow> (\<And>v. \<exists>t. f () v = (Inr (), t)) \<Longrightarrow> \<exists>t. bnd m f s = (Inr (), t)"
  by (auto simp: bnd_apply)

lemma record_results_total: "\<exists>t. record_results i js rs es s = (Inr (), t)"
  unfolding record_results_def record_janitor_def record_redaction_def
  by (intro bnd_total forEach_total swallow_total)

lemma quiet_complete:
  assumes q: "quiet s" and d: "req_of i s = Some d" and v: "isValidTransition (q_status d) CASCADE_COMPLETE"
  shows "\<exists>r s' d'. advanceRequest D i CASCADE_COMPLETE op fs s = (r, s') \<and> req_of i s' = Some d' \<and> quiet s' \<and>
    (case r of Inr _ \<Rightarrow> q_status d' = CERTIFICATE_ISSUED \<and> q_certificate_gcs_path d' \<noteq> None
     | Inl _ \<Rightarrow> q_status d' = CASCADE_COMPLETE)"
proof -
  let ?d = "apply_fields no_fields (push_status CASCADE_COMPLETE (now s) d)"
  have "advanceRequest D i CASCADE_COMPLETE op fs s = handle_complete D i op s"
    unfolding advanceRequest_def by (subst bnd_run, rule quiet_begin_run[OF q d v]) simp
  also have "\<dots> = advanceRequest D i CERTIFICATE_ISSUED op fs (put_req i ?d s)"
    unfolding handle_complete_def advance_again by (rule bnd_run) (rule quiet_status_run[OF q d])
  finally show ?thesis using quiet_certificate[of "put_req i ?d s" i ?d D op fs] q by simp
qed

text \<open>What \<open>run_cascade\<close> does with a throw, and how the advance after a cascade ends.\<close>

abbreviation recovery :: "deletion_service \<Rightarrow> cascade_job \<Rightarrow> exn \<Rightarrow> ('z dworld_scheme, unit) eff" where
  "recovery D j err \<equiv> swallow
     (bnd (advanceRequest D (cj_request j) CASCADE_PARTIAL_FAILURE (cj_operation j) [''internal-error: '' @ message_of err]) (\<lambda>_. ret ()))"

lemma recovery_partial:
  assumes "quiet w" and "req_of (cj_request j) w = Some e" and "q_status e \<in> {CASCADE_PENDING, CASCADE_IN_PROGRESS, CASCADE_COMPLETE}"
  shows "\<exists>w' e'. recovery D j err w = (Inr (), w') \<and> req_of (cj_request j) w' = Some e' \<and> q_status e' = CASCADE_PARTIAL_FAILURE"
proof -
  have "isValidTransition (q_status e) CASCADE_PARTIAL_FAILURE"
    using assms(3) by (auto simp: isValidTransition_def transitions_def)
  from quiet_partial[OF assms(1,2) this, of D "cj_operation j" "[''internal-error: '' @ message_of err]"]
  show ?thesis by (fastforce simp: swallow_apply bnd_apply)
qed

lemma next_advance_settles:
  assumes q: "quiet w" and d: "req_of (cj_request j) w = Some d" and st: "q_status d \<in> {CASCADE_PENDING, CASCADE_IN_PROGRESS}"
  shows "\<exists>s' d'. catch (bnd (advanceRequest D (cj_request j) (next_status js rs es) (cj_operation j) (failed_destinations js rs es)) (\<lambda>_. ret ()))
      (recovery D j) w = (Inr (), s') \<and> req_of (cj_request j) s' = Some d' \<and>
    (q_status d' = CASCADE_PARTIAL_FAILURE \<or> q_status d' = CERTIFICATE_ISSUED \<and> q_certificate_gcs_path d' \<noteq> None)"
proof (cases "next_status js rs es = CASCADE_COMPLETE")
  case True
  let ?adv = "advanceRequest D (cj_request j) (next_status js rs es) (cj_operation j) (failed_destinations js rs es)"
  have "isValidTransition (q_status d) CASCADE_COMPLETE" using st by (auto simp: isValidTransition_def transitions_def)
  from quiet_complete[OF q d this, of D "cj_operation j" "failed_destinations js rs es"]
  obtain r v d2 where a: "?adv w = (r, v)" and d2: "req_of (cj_request j) v = Some d2" "quiet v"
    and r: "case r of Inr _ \<Rightarrow> q_status d2 = CERTIFICATE_ISSUED \<and> q_certificate_gcs_path d2 \<noteq> None
      | Inl _ \<Rightarrow> q_status d2 = CASCADE_COMPLETE" unfolding True by blast
  show ?thesis
  proof (cases r)
    case (Inl er)
    have "catch (bnd ?adv (\<lambda>_. ret ())) (recovery D j) w = recovery D j er v" by (rule catch_bnd_Inl) (simp add: a Inl)
    then show ?thesis using recovery_partial[OF d2(2,1), of D er] r Inl by auto
  next
    case (Inr y)
    have "catch (bnd ?adv (\<lambda>_. ret ())) (recovery D j) w = (Inr (), v)" by (rule catch_done) (rule a[unfolded Inr])
    then show ?thesis using d2 r Inr by auto
  qed
next
  case False
  let ?adv = "advanceRequest D (cj_request j) (next_status js rs es) (cj_operation j) (failed_destinations js rs es)"
  from False have n: "next_status js rs es = CASCADE_PARTIAL_FAILURE" by (simp add: next_status_def split: if_splits)
  have "isValidTransition (q_status d) CASCADE_PARTIAL_FAILURE" using st by (auto simp: isValidTransition_def transitions_def)
  from quiet_partial[OF q d this, of D "cj_operation j" "failed_destinations js rs es"]
  obtain y v d2 where a: "?adv w = (Inr y, v)" and d2: "req_of (cj_request j) v = Some d2" "q_status d2 = CASCADE_PARTIAL_FAILURE"
    unfolding n by blast
  have "catch (bnd ?adv (\<lambda>_. ret ())) (recovery D j) w = (Inr (), v)" by (rule catch_done) (rule a)
  then show ?thesis using d2 by auto
qed

text \<open>
  C5. A cascade never stalls silently: whatever happened to the wipes (failures, lost answers,
  permanent errors), once no further call fails the job ends with the request visibly settled, either
  with an issued certificate and its address, or in the failure state from which it can be retried.
\<close>

theorem cascade_settles:
  assumes d: "req_of (cj_request j) s = Some d" and st: "q_status d \<in> {CASCADE_PENDING, CASCADE_IN_PROGRESS}"
    and q: "quiet (snd (cascade_results D j s))"
  shows "\<exists>s' d'. run_cascade D j s = (Inr (), s') \<and> req_of (cj_request j) s' = Some d' \<and>
    (q_status d' = CASCADE_PARTIAL_FAILURE \<or> q_status d' = CERTIFICATE_ISSUED \<and> q_certificate_gcs_path d' \<noteq> None)"
proof -
  let ?i = "cj_request j"
  obtain res u where c: "cascade_results D j s = (res, u)" by fastforce
  have qu: "quiet u" using q c by simp
  have "requests u = requests s"
    by (rule keepsE[OF keeps_results[OF requests_side[of "\<lambda>x. x = requests s"]] refl c])
  then have du: "req_of ?i u = Some d" using d by (simp add: req_of_def)
  show ?thesis
  proof (cases res)
    case (Inl e)
    have "run_cascade D j s = recovery D j e u"
      unfolding run_cascade_def by (rule catch_bnd_Inl) (simp add: c Inl)
    then show ?thesis using recovery_partial[OF qu du, of D e] st by auto
  next
    case (Inr x)
    obtain js rs es where x: "x = (js, rs, es)" by (cases x) auto
    let ?adv = "advanceRequest D ?i (next_status js rs es) (cj_operation j) (failed_destinations js rs es)"
    obtain rr w where rec: "record_results ?i js rs es u = (rr, w)" by fastforce
    have rr: "rr = Inr ()" using record_results_total[of ?i js rs es u] rec by simp
    have qw: "quiet w" by (rule keepsE[OF quiet_results qu rec])
    have "confined ?i d {q_status d} (requests u) w"
      by (rule keepsE[OF confined_record confined_start[OF du] rec]) simp
    then obtain d1 where d1: "req_of ?i w = Some d1" "q_status d1 = q_status d" by (auto simp: confined_def)
    have "run_cascade D j s = catch (bnd (record_results ?i js rs es) (\<lambda>_. bnd ?adv (\<lambda>_. ret ()))) (recovery D j) u"
      unfolding run_cascade_def by (subst catch_bnd_Inr, rule c[unfolded Inr x]) simp
    also have "\<dots> = catch (bnd ?adv (\<lambda>_. ret ())) (recovery D j) w"
      by (rule catch_bnd_Inr) (simp add: rec rr)
    finally show ?thesis using next_advance_settles[OF qw d1(1), of D js rs es] st d1(2) by simp
  qed
qed

section \<open>A concrete cascade\<close>

definition toy_deletions :: deletion_service where
  "toy_deletions = \<lparr>ds_lineage = toy_lineage, ds_jitter = (\<lambda>_. 0), ds_hubspot = toy_hs, ds_salesforce = None,
     ds_certificates = toy_service, ds_redaction = True\<rparr>"

definition toy_job :: cascade_job where
  "toy_job = \<lparr>cj_request = ''r1'', cj_user = ''u'', cj_tenant = ''t'', cj_operation = ''op'', cj_redacts = False, cj_copies = False\<rparr>"

definition pending_request :: deletion_request where
  "pending_request = (new_request ''u'' ''r1'' ''t'' None 7)\<lparr>q_status := CASCADE_PENDING\<rparr>"

definition toy_dworld :: dworld where
  "toy_dworld = cworld.extend (toy_cworld [getDocId ''t'' ''u'' \<mapsto> toy_key_doc] [(''r1'', pending_request)] []) (dworld.fields [])"

lemmas toy_dworld_defs = toy_dworld_def dworld.defs toy_cworld_defs

lemma toy_pending: "req_of ''r1'' toy_dworld = Some pending_request" "q_status pending_request = CASCADE_PENDING"
  by (simp_all add: req_of_def toy_dworld_defs pending_request_def)

lemma toy_cascade:
  "\<exists>r t. cascade_results toy_deletions toy_job toy_dworld = (Inr ([r], [], []), t) \<and> jt_status r \<noteq> TASK_COMPLETE \<and> quiet t"
proof -
  let ?cs = "ds_connectors toy_deletions :: (string \<times> dworld connector) list"
  have ks: "getKeyStatus ''u'' ''t'' toy_dworld = (Inr (Some (status_view toy_key_doc 5000)), toy_dworld)"
    by (simp add: getKeyStatus_def no_faults toy_dworld_defs bnd_apply)
  have pl: "plan_tasks ?cs ''u'' (planned_destinations (Some (status_view toy_key_doc 5000))) =
     [\<lparr>jt_userId = ''u'', jt_destination = ''Salesforce'', jt_status = TASK_PENDING, jt_attempts = 0, jt_recordsFound = None\<rparr>]"
    by (simp add: ds_connectors_def toy_deletions_def plan_tasks_def planned_destinations_def status_view_def toy_key_doc_def
        getConnector_registry lower_salesforce)
  have cp: "createCleanupPlan ?cs ''u'' ''t'' toy_dworld =
     (Inr [\<lparr>jt_userId = ''u'', jt_destination = ''Salesforce'', jt_status = TASK_PENDING, jt_attempts = 0, jt_recordsFound = None\<rparr>], toy_dworld)"
    unfolding createCleanupPlan_def bnd_apply ks prod.case sum.case pl by simp
  have "\<exists>r t. processCleanup toy_lineage (\<lambda>_. 0) ?cs ''u'' ''t'' toy_dworld = (Inr [r], t) \<and> jt_status r \<noteq> TASK_COMPLETE \<and> quiet t"
    unfolding processCleanup_def bnd_apply[of "createCleanupPlan cs u t" for cs u t] cp prod.case sum.case
    by (simp add: bnd_apply process_task_def getConnector_registry ds_connectors_def toy_deletions_def
        lower_salesforce Let_def MAX_RETRIES_def numeral_3_eq_3 toy_log catch_apply salesforce_wipe_def truthy_def
        config_error_def backoff_def publishFailedWipe_def swallow_apply no_faults quiet_def toy_dworld_defs
        del: wipe_loop.simps(1) add: wipe_loop.simps)
  then show ?thesis by (auto simp: cascade_results_def both_def toy_job_def toy_deletions_def)
qed

lemma advance_refines_lifecycle_witness:
  "\<exists>d'. req_of ''r1'' (snd (advanceRequest toy_deletions ''r1'' CASCADE_PARTIAL_FAILURE ''op'' [] toy_dworld)) = Some d' \<and>
     same_person pending_request d' \<and> q_status d' \<in> {CASCADE_PENDING, CASCADE_PARTIAL_FAILURE}"
  using advance_refines_lifecycle[of toy_deletions "''r1''" CASCADE_PARTIAL_FAILURE "''op''" "[]" toy_dworld, OF surjective_pairing] toy_pending
  by (auto simp: ends_def isValidTransition_def transitions_def)

lemma failed_wipe_withholds_witness:
  "\<exists>r s'. run_cascade toy_deletions toy_job toy_dworld = (r, s') \<and> chains s' = chains toy_dworld \<and> objects s' = objects toy_dworld"
proof -
  obtain r s' where run: "run_cascade toy_deletions toy_job toy_dworld = (r, s')" by fastforce
  show ?thesis
    using failed_wipe_withholds[OF run, of pending_request] toy_pending toy_cascade run by (auto simp: toy_job_def)
qed

lemma cascade_settles_witness:
  "\<exists>s' d'. run_cascade toy_deletions toy_job toy_dworld = (Inr (), s') \<and> req_of ''r1'' s' = Some d' \<and>
     (q_status d' = CASCADE_PARTIAL_FAILURE \<or> q_status d' = CERTIFICATE_ISSUED)"
  using cascade_settles[of toy_job toy_dworld pending_request toy_deletions] toy_pending toy_cascade
  by (fastforce simp: toy_job_def)

end
