(* ===== verification/AnalystAccess.thy ===== *)
theory AnalystAccess
  imports DeletionService
begin

text \<open>
  Credentials of analysts, auditors and external systems: \<open>src/services/analyst-access-service.ts\<close>, its
  Firestore repository \<open>src/gcp/analyst-access-repository.ts\<close>, and the routes
  \<open>src/routes/analyst-claims.ts\<close>, \<open>src/routes/admin-session-credentials.ts\<close> and
  \<open>src/routes/admin-service-credentials.ts\<close>. Random bytes, SHA-256 and the library's test for an email
  address are fields of the service record. A claim of a one-time link is split into its read and its
  transaction, so that claims can be interleaved; \<open>claim\<close> is their composition.
\<close>

section \<open>Credential records\<close>

datatype access_role = ANALYST | AUDITOR
datatype access_source = CLAIM_LINK | CONSOLE_SESSION
datatype access_kind = ANALYST_KIND | SERVICE_KIND

record access_doc =
  ac_claim_token_hash :: string
  ac_credential_key_hash :: "string option"
  ac_tenant_id :: string
  ac_analyst_email :: string
  ac_created_at :: int
  ac_expires_at :: int
  ac_claimed_at :: "int option"
  ac_revoked_at :: "int option"
  ac_role :: "access_role option"
  ac_source :: "access_source option"
  ac_credential_expires_at :: "int option"
  ac_kind :: "access_kind option"

record aworld = dworld +
  access :: "(string \<times> access_doc) list"

definition access_of :: "string \<Rightarrow> 'z aworld_scheme \<Rightarrow> access_doc option" where
  "access_of h s = map_of (access s) h"

definition put_access :: "string \<Rightarrow> access_doc \<Rightarrow> 'z aworld_scheme \<Rightarrow> 'z aworld_scheme" where
  "put_access h d s = s\<lparr>access := AList.update h d (access s)\<rparr>"

section \<open>The repository\<close>

definition new_claim :: "string \<Rightarrow> string \<Rightarrow> string \<Rightarrow> int \<Rightarrow> access_role \<Rightarrow> int \<Rightarrow> access_doc" where
  "new_claim tenantId analystEmail claimTokenHash expiresAt role t =
     \<lparr>ac_claim_token_hash = claimTokenHash, ac_credential_key_hash = None, ac_tenant_id = tenantId,
      ac_analyst_email = analystEmail, ac_created_at = t, ac_expires_at = expiresAt, ac_claimed_at = None,
      ac_revoked_at = None, ac_role = Some role, ac_source = None, ac_credential_expires_at = None, ac_kind = None\<rparr>"

definition repo_createClaim :: "string \<Rightarrow> string \<Rightarrow> string \<Rightarrow> int \<Rightarrow> access_role \<Rightarrow> ('z aworld_scheme, unit) eff" where
  "repo_createClaim tenantId analystEmail claimTokenHash expiresAt role =
     bnd (gets now) (\<lambda>t. rwrite (put_access claimTokenHash (new_claim tenantId analystEmail claimTokenHash expiresAt role t)))"

definition getClaimByTokenHash :: "string \<Rightarrow> ('z aworld_scheme, access_doc option) eff" where
  "getClaimByTokenHash claimTokenHash = rread (access_of claimTokenHash)"

definition claimAndIssueCredential :: "string \<Rightarrow> string \<Rightarrow> ('z aworld_scheme, access_doc option) eff" where
  "claimAndIssueCredential claimTokenHash credentialKeyHash =
     rtxn (\<lambda>s. case access_of claimTokenHash s of
       None \<Rightarrow> (Inr None, s)
     | Some d \<Rightarrow>
         if ac_claimed_at d \<noteq> None then (Inr None, s)
         else (let d' = d\<lparr>ac_claimed_at := Some (now s), ac_credential_key_hash := Some credentialKeyHash\<rparr> in
               (Inr (Some d'), put_access claimTokenHash d' s)))"

definition session_doc :: "string \<Rightarrow> string \<Rightarrow> string \<Rightarrow> int \<Rightarrow> int \<Rightarrow> access_doc" where
  "session_doc tenantId analystEmail keyHash expiresAt t =
     \<lparr>ac_claim_token_hash = keyHash, ac_credential_key_hash = Some keyHash, ac_tenant_id = tenantId,
      ac_analyst_email = analystEmail, ac_created_at = t, ac_expires_at = expiresAt, ac_claimed_at = Some t,
      ac_revoked_at = None, ac_role = None, ac_source = Some CONSOLE_SESSION,
      ac_credential_expires_at = Some expiresAt, ac_kind = None\<rparr>"

definition createSessionCredential :: "string \<Rightarrow> string \<Rightarrow> string \<Rightarrow> int \<Rightarrow> ('z aworld_scheme, unit) eff" where
  "createSessionCredential tenantId analystEmail keyHash expiresAt =
     bnd (gets now) (\<lambda>t. rwrite (put_access keyHash (session_doc tenantId analystEmail keyHash expiresAt t)))"

text \<open>\<open>where('credential_key_hash', '==', h).limit(1)\<close>\<close>

definition holder_of :: "string \<Rightarrow> 'z aworld_scheme \<Rightarrow> access_doc option" where
  "holder_of h s = find (\<lambda>d. ac_credential_key_hash d = Some h) (map snd (access s))"

definition repo_resolveCredential :: "string \<Rightarrow> ('z aworld_scheme, access_doc option) eff" where
  "repo_resolveCredential h = rread (holder_of h)"

text \<open>\<open>new Date('2099-01-01T00:00:00Z')\<close>\<close>

definition FAR_FUTURE :: int where
  "FAR_FUTURE = 4070908800000"

definition service_doc :: "string \<Rightarrow> string \<Rightarrow> string \<Rightarrow> int \<Rightarrow> access_doc" where
  "service_doc tenantId callerName keyHash t =
     \<lparr>ac_claim_token_hash = keyHash, ac_credential_key_hash = Some keyHash, ac_tenant_id = tenantId,
      ac_analyst_email = callerName, ac_created_at = t, ac_expires_at = FAR_FUTURE, ac_claimed_at = Some t,
      ac_revoked_at = None, ac_role = None, ac_source = Some CONSOLE_SESSION,
      ac_credential_expires_at = None, ac_kind = Some SERVICE_KIND\<rparr>"

definition createServiceCredential :: "string \<Rightarrow> string \<Rightarrow> string \<Rightarrow> ('z aworld_scheme, unit) eff" where
  "createServiceCredential tenantId callerName keyHash =
     bnd (gets now) (\<lambda>t. rwrite (put_access keyHash (service_doc tenantId callerName keyHash t)))"

definition issued_to :: "string \<Rightarrow> string \<Rightarrow> access_doc \<Rightarrow> bool" where
  "issued_to tenantId callerName d =
     (ac_tenant_id d = tenantId \<and> ac_analyst_email d = callerName \<and> ac_kind d = Some SERVICE_KIND)"

definition revoke_doc :: "int \<Rightarrow> string \<Rightarrow> ('z aworld_scheme, unit) eff" where
  "revoke_doc t h = rtxn (\<lambda>s. case access_of h s of
     None \<Rightarrow> (Inl (CodeErr 5), s)
   | Some d \<Rightarrow> (Inr (), put_access h (d\<lparr>ac_revoked_at := Some t\<rparr>) s))"

definition revokeServiceCredentialsFor :: "string \<Rightarrow> string \<Rightarrow> ('z aworld_scheme, nat) eff" where
  "revokeServiceCredentialsFor tenantId callerName =
     bnd (rread (\<lambda>s. filter (\<lambda>(h, d). issued_to tenantId callerName d) (access s))) (\<lambda>docs.
     bnd (gets now) (\<lambda>t.
     let toRevoke = filter (\<lambda>(h, d). ac_revoked_at d = None) docs in
     bnd (promiseAll (revoke_doc t) (map fst toRevoke)) (\<lambda>_. ret (length toRevoke))))"

section \<open>The service\<close>

record access_service =
  av_random :: "nat \<Rightarrow> nat \<Rightarrow> bytes"
  av_sha :: "bytes \<Rightarrow> bytes"
  av_isEmail :: "string \<Rightarrow> bool"

definition CLAIM_EXPIRY_MS :: int where
  "CLAIM_EXPIRY_MS = 7 * 24 * 60 * 60 * 1000"

definition SESSION_CREDENTIAL_TTL_MS :: int where
  "SESSION_CREDENTIAL_TTL_MS = 60 * 60 * 1000"

definition generateSecret :: "access_service \<Rightarrow> ('z aworld_scheme, string) eff" where
  "generateSecret A =
     bnd (gets (\<lambda>s. b64url (av_random A (draws s) 32))) (\<lambda>x.
     bnd (modify (\<lambda>s. s\<lparr>draws := draws s + 1\<rparr>)) (\<lambda>_. ret x))"

definition hash_secret :: "access_service \<Rightarrow> string \<Rightarrow> string" where
  "hash_secret A v = hex_of (av_sha A (utf8 v))"

definition createClaim :: "access_service \<Rightarrow> string \<Rightarrow> string \<Rightarrow> access_role \<Rightarrow> ('z aworld_scheme, string) eff" where
  "createClaim A tenantId analystEmail role =
     bnd (generateSecret A) (\<lambda>claimToken.
     bnd (gets now) (\<lambda>t.
     bnd (repo_createClaim tenantId analystEmail (hash_secret A claimToken) (t + CLAIM_EXPIRY_MS) role) (\<lambda>_.
     ret claimToken)))"

record issued_key =
  ik_apiKey :: string
  ik_analystEmail :: string
  ik_role :: access_role

definition role_of :: "access_doc \<Rightarrow> access_role" where
  "role_of d = (case ac_role d of None \<Rightarrow> ANALYST | Some r \<Rightarrow> r)"

text \<open>\<open>claim\<close> up to and including the expiry check, and the rest.\<close>

definition claim_check :: "access_service \<Rightarrow> string \<Rightarrow> ('z aworld_scheme, access_doc option) eff" where
  "claim_check A claimToken =
     bnd (getClaimByTokenHash (hash_secret A claimToken)) (\<lambda>r. case r of
       None \<Rightarrow> ret None
     | Some d \<Rightarrow>
         bnd (gets now) (\<lambda>t.
         if ac_claimed_at d \<noteq> None \<or> ac_expires_at d < t then ret None else ret (Some d)))"

definition claim_take :: "access_service \<Rightarrow> string \<Rightarrow> access_doc \<Rightarrow> ('z aworld_scheme, issued_key option) eff" where
  "claim_take A claimToken d =
     bnd (generateSecret A) (\<lambda>apiKey.
     bnd (claimAndIssueCredential (hash_secret A claimToken) (hash_secret A apiKey)) (\<lambda>claimed. case claimed of
       None \<Rightarrow> ret None
     | Some _ \<Rightarrow> ret (Some \<lparr>ik_apiKey = apiKey, ik_analystEmail = ac_analyst_email d, ik_role = role_of d\<rparr>)))"

definition claim :: "access_service \<Rightarrow> string \<Rightarrow> ('z aworld_scheme, issued_key option) eff" where
  "claim A claimToken =
     bnd (claim_check A claimToken) (\<lambda>r. case r of None \<Rightarrow> ret None | Some d \<Rightarrow> claim_take A claimToken d)"

record identity =
  id_tenantId :: string
  id_analystEmail :: string
  id_role :: access_role
  id_kind :: "access_kind option"

definition identity_of :: "access_doc \<Rightarrow> identity" where
  "identity_of d = \<lparr>id_tenantId = ac_tenant_id d, id_analystEmail = ac_analyst_email d, id_role = role_of d, id_kind = ac_kind d\<rparr>"

definition expired_at :: "int \<Rightarrow> access_doc \<Rightarrow> bool" where
  "expired_at t d = (case ac_credential_expires_at d of None \<Rightarrow> False | Some e \<Rightarrow> e < t)"

definition resolveCredential :: "access_service \<Rightarrow> string \<Rightarrow> ('z aworld_scheme, identity option) eff" where
  "resolveCredential A presentedApiKey =
     bnd (repo_resolveCredential (hash_secret A presentedApiKey)) (\<lambda>r.
     bnd (gets now) (\<lambda>t. case r of
       None \<Rightarrow> ret None
     | Some d \<Rightarrow> if ac_revoked_at d \<noteq> None \<or> expired_at t d then ret None else ret (Some (identity_of d))))"

definition mintSessionCredential :: "access_service \<Rightarrow> string \<Rightarrow> string \<Rightarrow> ('z aworld_scheme, string \<times> int) eff" where
  "mintSessionCredential A tenantId analystEmail =
     bnd (generateSecret A) (\<lambda>credential.
     bnd (gets now) (\<lambda>t.
     bnd (createSessionCredential tenantId analystEmail (hash_secret A credential) (t + SESSION_CREDENTIAL_TTL_MS)) (\<lambda>_.
     ret (credential, t + SESSION_CREDENTIAL_TTL_MS))))"

definition mintServiceCredential :: "access_service \<Rightarrow> string \<Rightarrow> string \<Rightarrow> ('z aworld_scheme, string) eff" where
  "mintServiceCredential A tenantId callerName =
     bnd (generateSecret A) (\<lambda>credential.
     bnd (createServiceCredential tenantId callerName (hash_secret A credential)) (\<lambda>_. ret credential))"

definition revokeServiceCredentials :: "string \<Rightarrow> string \<Rightarrow> ('z aworld_scheme, nat) eff" where
  "revokeServiceCredentials tenantId callerName = revokeServiceCredentialsFor tenantId callerName"

section \<open>Routes\<close>

definition string_errors :: "string \<Rightarrow> nat \<Rightarrow> string option \<Rightarrow> string list" where
  "string_errors f m v = (case v of
       None \<Rightarrow> [f @ '' is required'']
     | Some x \<Rightarrow> (if x = [] then [f @ '' is not allowed to be empty''] else []) @
         (if length x \<le> m then [] else [f @ '' is too long'']))"

definition email_error :: "access_service \<Rightarrow> string \<Rightarrow> string list" where
  "email_error A e = (if av_isEmail A e then [] else [''must be a valid email''])"

definition validateEmails :: "access_service \<Rightarrow> string \<Rightarrow> string list option \<Rightarrow> exn + string list" where
  "validateEmails A f v = (case v of
       None \<Rightarrow> Inl (Invalid [f @ '' is required''])
     | Some es \<Rightarrow> reject_errors
         (concat (map (email_error A) es) @ (if es = [] then [f @ '' must contain at least 1 items''] else []) @
          (if length es \<le> 50 then [] else [f @ '' must contain less than or equal to 50 items''])) es)"

definition validateCaller :: "string option \<Rightarrow> exn + string" where
  "validateCaller v = reject_errors (string_errors ''callerName'' 255 v) (or_else v [])"

definition validateEmail :: "access_service \<Rightarrow> string option \<Rightarrow> exn + string" where
  "validateEmail A v = (case v of
       None \<Rightarrow> Inl (Invalid [''email is required''])
     | Some e \<Rightarrow> reject_errors (email_error A e) e)"

definition is_token_char :: "char \<Rightarrow> bool" where
  "is_token_char c = (is_lower c \<or> is_upper c \<or> is_digit c \<or> c = CHR ''_'' \<or> c = CHR ''-'')"

definition validateToken :: "string \<Rightarrow> exn + string" where
  "validateToken t = reject_errors
     ((if list_all is_token_char t \<and> t \<noteq> [] then [] else [''token must be a valid base64url string'']) @
      (if 20 \<le> length t \<and> length t \<le> 128 then [] else [''token length''])) t"

text \<open>\<open>POST /admin/analyst-claims\<close> and \<open>POST /admin/auditor-claims\<close>\<close>

definition one_claim :: "access_service \<Rightarrow> string \<Rightarrow> access_role \<Rightarrow> string \<Rightarrow> ('z aworld_scheme, json) eff" where
  "one_claim A tenantId role email =
     bnd (createClaim A tenantId email role) (\<lambda>claimToken.
     ret (JObj [(''email'', JStr email), (''claimToken'', JStr claimToken)]))"

definition post_analyst_claims :: "access_service \<Rightarrow> http_request \<Rightarrow> string list option \<Rightarrow> ('z aworld_scheme, reply) eff" where
  "post_analyst_claims A rq analystEmails =
     catch
       (bnd (lift (validateEmails A ''analystEmails'' analystEmails)) (\<lambda>es.
        bnd (promiseAll (one_claim A (tenant_of rq) ANALYST) es) (\<lambda>claimTokens.
        ret (send 201 [(''claimTokens'', JArr claimTokens)]))))
       (on_error ''Failed to create analyst claim tokens'')"

definition post_auditor_claims :: "access_service \<Rightarrow> http_request \<Rightarrow> string list option \<Rightarrow> ('z aworld_scheme, reply) eff" where
  "post_auditor_claims A rq auditorEmails =
     catch
       (bnd (lift (validateEmails A ''auditorEmails'' auditorEmails)) (\<lambda>es.
        bnd (promiseAll (one_claim A (tenant_of rq) AUDITOR) es) (\<lambda>claimTokens.
        ret (send 201 [(''claimTokens'', JArr claimTokens)]))))
       (on_error ''Failed to create auditor claim tokens'')"

definition role_str :: "access_role \<Rightarrow> string" where
  "role_str r = (case r of ANALYST \<Rightarrow> ''analyst'' | AUDITOR \<Rightarrow> ''auditor'')"

definition post_claim :: "access_service \<Rightarrow> string \<Rightarrow> ('z aworld_scheme, reply) eff" where
  "post_claim A token =
     catch
       (bnd (lift (validateToken token)) (\<lambda>t.
        bnd (claim A t) (\<lambda>result. ret (case result of
          None \<Rightarrow> reply_error 410 ''This claim link is invalid, expired, or already used''
        | Some k \<Rightarrow> send 200 [(''apiKey'', JStr (ik_apiKey k)), (''analystEmail'', JStr (ik_analystEmail k)),
            (''role'', JStr (role_str (ik_role k)))]))))
       (on_error ''Failed to claim analyst credential'')"

definition post_session_credential :: "access_service \<Rightarrow> http_request \<Rightarrow> string option \<Rightarrow> ('z aworld_scheme, reply) eff" where
  "post_session_credential A rq email =
     catch
       (bnd (lift (validateEmail A email)) (\<lambda>e.
        bnd (mintSessionCredential A (tenant_of rq) e) (\<lambda>(credential, expiresAt).
        ret (send 201 [(''credential'', JStr credential), (''expiresAt'', JStr (isoString expiresAt))]))))
       (on_error ''Failed to mint session credential'')"

definition post_service_credential :: "access_service \<Rightarrow> http_request \<Rightarrow> string option \<Rightarrow> ('z aworld_scheme, reply) eff" where
  "post_service_credential A rq callerName =
     catch
       (bnd (lift (validateCaller callerName)) (\<lambda>c.
        bnd (mintServiceCredential A (tenant_of rq) c) (\<lambda>credential.
        ret (send 201 [(''credential'', JStr credential), (''tenantId'', JStr (tenant_of rq)), (''callerName'', JStr c)]))))
       (on_error ''Failed to mint service credential'')"

definition post_revoke_service :: "http_request \<Rightarrow> string option \<Rightarrow> ('z aworld_scheme, reply) eff" where
  "post_revoke_service rq callerName =
     catch
       (bnd (lift (validateCaller callerName)) (\<lambda>c.
        bnd (revokeServiceCredentials (tenant_of rq) c) (\<lambda>revokedCount.
        ret (send 200 [(''tenantId'', JStr (tenant_of rq)), (''callerName'', JStr c), (''revokedCount'', JNum (int revokedCount))]))))
       (on_error ''Failed to revoke service credentials'')"

section \<open>Claims that race\<close>

text \<open>
  Callers who present the same link: each reads the record and, if the link looks unused, runs the
  transaction later. Between their steps anything may happen that leaves the record of this link alone.
\<close>

datatype caller_state = Clicking | Checked access_doc | Answered "exn + issued_key option"

definition after_check :: "exn + access_doc option \<Rightarrow> caller_state" where
  "after_check r = (case r of Inl e \<Rightarrow> Answered (Inl e) | Inr None \<Rightarrow> Answered (Inr None) | Inr (Some d) \<Rightarrow> Checked d)"

inductive claim_step ::
  "access_service \<Rightarrow> string \<Rightarrow> 'z aworld_scheme \<times> (nat \<Rightarrow> caller_state) \<Rightarrow> 'z aworld_scheme \<times> (nat \<Rightarrow> caller_state) \<Rightarrow> bool"
  for A tok where
  check: "who i = Clicking \<Longrightarrow> claim_check A tok s = (r, s') \<Longrightarrow> claim_step A tok (s, who) (s', who(i := after_check r))"
| take: "who i = Checked d \<Longrightarrow> claim_take A tok d s = (r, s') \<Longrightarrow> claim_step A tok (s, who) (s', who(i := Answered r))"
| meanwhile: "access_of (hash_secret A tok) s' = access_of (hash_secret A tok) s \<Longrightarrow> now s \<le> now s' \<Longrightarrow>
    claim_step A tok (s, who) (s', who)"

definition holds_key :: "caller_state \<Rightarrow> issued_key \<Rightarrow> bool" where
  "holds_key c k \<longleftrightarrow> c = Answered (Inr (Some k))"

text \<open>A link that can no longer be claimed.\<close>

definition dead_link :: "string \<Rightarrow> 'z aworld_scheme \<Rightarrow> bool" where
  "dead_link h s \<longleftrightarrow> (\<forall>d. access_of h s = Some d \<longrightarrow> ac_claimed_at d \<noteq> None \<or> ac_expires_at d < now s)"

definition race_ok :: "access_service \<Rightarrow> string \<Rightarrow> 'z aworld_scheme \<times> (nat \<Rightarrow> caller_state) \<Rightarrow> bool" where
  "race_ok A tok = (\<lambda>(s, who).
     (\<forall>i j k l. holds_key (who i) k \<and> holds_key (who j) l \<longrightarrow> i = j) \<and>
     (\<forall>i k. holds_key (who i) k \<longrightarrow> (\<exists>d. access_of (hash_secret A tok) s = Some d \<and> ac_claimed_at d \<noteq> None \<and>
        ac_credential_key_hash d = Some (hash_secret A (ik_apiKey k)))))"

definition race_dead :: "access_service \<Rightarrow> string \<Rightarrow> 'z aworld_scheme \<times> (nat \<Rightarrow> caller_state) \<Rightarrow> bool" where
  "race_dead A tok = (\<lambda>(s, who). dead_link (hash_secret A tok) s \<and> (\<forall>i. (\<forall>d. who i \<noteq> Checked d) \<and> (\<forall>k. \<not> holds_key (who i) k)))"

lemma access_put [simp]: "access_of h (put_access h' d s) = (if h = h' then Some d else access_of h s)"
  by (simp add: access_of_def put_access_def update_conv')

lemma access_next [simp]: "access_of h (snd (next_call s)) = access_of h s"
  by (auto simp: next_call_def access_of_def split: list.splits)

lemma access_draws [simp]: "access_of h (s\<lparr>draws := n\<rparr>) = access_of h s"
  by (simp add: access_of_def)

lemma secret_run: "generateSecret A s = (Inr (b64url (av_random A (draws s) 32)), s\<lparr>draws := draws s + 1\<rparr>)"
  by (simp add: generateSecret_def bnd_apply)

lemma check_frame:
  assumes "claim_check A tok s = (r, s')"
  shows "access_of h s' = access_of h s \<and> now s \<le> now s' \<and>
    (\<forall>d. r = Inr (Some d) \<longrightarrow> access_of (hash_secret A tok) s = Some d \<and> ac_claimed_at d = None \<and> now s' \<le> ac_expires_at d)"
proof -
  obtain x u where rd: "getClaimByTokenHash (hash_secret A tok) s = (x, u)" by fastforce
  have u: "u = snd (next_call s)" using rd rread_snd by (metis getClaimByTokenHash_def snd_conv)
  then have fr: "access_of h' u = access_of h' s" "now s \<le> now u" for h' by (simp_all add: next_call_clock)
  have x: "x = Inr v \<Longrightarrow> v = access_of (hash_secret A tok) u" for v
    using rd rread_Inr unfolding getClaimByTokenHash_def by metis
  show ?thesis
    using assms fr x unfolding claim_check_def by (auto simp: bnd_apply rd split: sum.splits option.splits if_splits)
qed

lemma issue_cases:
  fixes s :: "'z aworld_scheme"
  assumes "claimAndIssueCredential h k s = (r, s')"
  shows "access_of h s' = access_of h s \<and> (\<forall>d. r \<noteq> Inr (Some d)) \<or>
    (\<exists>d t. access_of h s = Some d \<and> ac_claimed_at d = None \<and>
      access_of h s' = Some (d\<lparr>ac_claimed_at := Some t, ac_credential_key_hash := Some k\<rparr>))"
proof -
  let ?f = "(\<lambda>s. case access_of h s of
       None \<Rightarrow> (Inr None, s)
     | Some d \<Rightarrow>
         if ac_claimed_at d \<noteq> None then (Inr None, s)
         else (let d' = d\<lparr>ac_claimed_at := Some (now s), ac_credential_key_hash := Some k\<rparr> in (Inr (Some d'), put_access h d' s)))
       :: 'z aworld_scheme \<Rightarrow> (exn + access_doc option) \<times> 'z aworld_scheme"
  let ?t = "snd (next_call s)"
  have body: "access_of h s' = access_of h s \<and> a = None \<or>
    (\<exists>d t. access_of h s = Some d \<and> ac_claimed_at d = None \<and>
      access_of h s' = Some (d\<lparr>ac_claimed_at := Some t, ac_credential_key_hash := Some k\<rparr>))"
    if f: "?f ?t = (Inr a, s')" for a
  proof (cases "access_of h s")
    case None
    with f show ?thesis by auto
  next
    case (Some d)
    show ?thesis
    proof (cases "ac_claimed_at d = None")
      case True
      with f Some have "s' = put_access h (d\<lparr>ac_claimed_at := Some (now ?t), ac_credential_key_hash := Some k\<rparr>) ?t"
        by (simp add: Let_def)
      with True Some show ?thesis by auto
    qed (use f Some in auto)
  qed
  have run: "rtxn ?f s = (r, s')" using assms by (simp add: claimAndIssueCredential_def)
  show ?thesis
  proof (cases "\<exists>d. r = Inr (Some d)")
    case True
    then obtain d where "r = Inr (Some d)" by blast
    from rtxn_Inr[OF run[unfolded this]] body show ?thesis by blast
  next
    case False
    have "s' = ?t \<or> (\<exists>a. ?f ?t = (Inr a, s'))" using rtxn_cases[of ?f s] run by simp
    then show ?thesis using False body by auto
  qed
qed

lemma issue_clock: "keeps (\<lambda>s. T \<le> now s) (claimAndIssueCredential h k)"
  unfolding claimAndIssueCredential_def
  by (rule clock_rtxn) (auto simp: put_access_def Let_def split: option.splits if_splits)

lemma take_cases:
  assumes "claim_take A tok d0 s = (r, s')"
  shows "now s \<le> now s' \<and>
    (access_of (hash_secret A tok) s' = access_of (hash_secret A tok) s \<and> (\<forall>k. r \<noteq> Inr (Some k)) \<or>
     (\<exists>d t a. access_of (hash_secret A tok) s = Some d \<and> ac_claimed_at d = None \<and>
       access_of (hash_secret A tok) s' = Some (d\<lparr>ac_claimed_at := Some t, ac_credential_key_hash := Some (hash_secret A a)\<rparr>) \<and>
       (\<forall>k. r = Inr (Some k) \<longrightarrow> ik_apiKey k = a)))"
proof -
  let ?a = "b64url (av_random A (draws s) 32)" and ?s = "s\<lparr>draws := Suc (draws s)\<rparr>" and ?h = "hash_secret A tok"
  obtain x u where iss: "claimAndIssueCredential ?h (hash_secret A ?a) ?s = (x, u)" by fastforce
  have clk: "now s \<le> now u" by (rule keepsE[OF issue_clock _ iss]) simp
  have run: "s' = u \<and> (\<forall>k. r = Inr (Some k) \<longrightarrow> ik_apiKey k = ?a \<and> (\<exists>d. x = Inr (Some d)))"
    using assms unfolding claim_take_def by (auto simp: bnd_apply secret_run iss split: sum.splits option.splits)
  then have run': "s' = u" "\<And>k. r = Inr (Some k) \<Longrightarrow> ik_apiKey k = ?a \<and> (\<exists>d. x = Inr (Some d))" by auto
  show ?thesis
  proof (cases "access_of ?h u = access_of ?h ?s \<and> (\<forall>d. x \<noteq> Inr (Some d))")
    case True
    then show ?thesis using clk run' by auto
  next
    case False
    then obtain d t where d: "access_of ?h ?s = Some d" "ac_claimed_at d = None"
      "access_of ?h u = Some (d\<lparr>ac_claimed_at := Some t, ac_credential_key_hash := Some (hash_secret A ?a)\<rparr>)"
      using issue_cases[OF iss] by blast
    show ?thesis
    proof (intro conjI disjI2)
      show "now s \<le> now s'" using clk run'(1) by simp
      show "\<exists>d t a. access_of ?h s = Some d \<and> ac_claimed_at d = None \<and>
          access_of ?h s' = Some (d\<lparr>ac_claimed_at := Some t, ac_credential_key_hash := Some (hash_secret A a)\<rparr>) \<and>
          (\<forall>k. r = Inr (Some k) \<longrightarrow> ik_apiKey k = a)"
        using d run' by auto
    qed
  qed
qed

lemma not_holding [simp]: "\<not> holds_key Clicking k" "\<not> holds_key (Checked d) k" "\<not> holds_key (after_check r) k"
  by (auto simp: holds_key_def after_check_def split: sum.splits option.splits)

lemma race_step: "claim_step A tok c c' \<Longrightarrow> race_ok A tok c \<Longrightarrow> race_ok A tok c'"
proof (induction rule: claim_step.induct)
  case (check who i s r s')
  then show ?case using check_frame[OF check(2)] by (simp add: race_ok_def)
next
  case (take who i d s r s')
  let ?h = "hash_secret A tok"
  show ?case
  proof (cases "access_of ?h s' = access_of ?h s \<and> (\<forall>k. r \<noteq> Inr (Some k))")
    case True
    then have "\<not> holds_key (Answered r) k" for k by (simp add: holds_key_def)
    then show ?thesis using True take(3) by (simp add: race_ok_def)
  next
    case False
    then obtain e t a where e: "access_of ?h s = Some e" "ac_claimed_at e = None"
      "access_of ?h s' = Some (e\<lparr>ac_claimed_at := Some t, ac_credential_key_hash := Some (hash_secret A a)\<rparr>)"
      "\<forall>k. r = Inr (Some k) \<longrightarrow> ik_apiKey k = a"
      using take_cases[OF take(2)] by blast
    have "\<not> holds_key (who j) k" for j k using take(3) e(1,2) by (auto simp: race_ok_def)
    then show ?thesis using e(3,4) by (auto simp: race_ok_def holds_key_def)
  qed
next
  case (meanwhile s' s who)
  then show ?case by (simp add: race_ok_def)
qed

lemma dead_step: "claim_step A tok c c' \<Longrightarrow> race_dead A tok c \<Longrightarrow> race_dead A tok c'"
proof (induction rule: claim_step.induct)
  case (check who i s r s')
  let ?h = "hash_secret A tok"
  have fr: "access_of ?h s' = access_of ?h s" "now s \<le> now s'"
    "\<And>d. r = Inr (Some d) \<Longrightarrow> access_of ?h s = Some d \<and> ac_claimed_at d = None \<and> now s' \<le> ac_expires_at d"
    using check_frame[OF check(2)] by auto
  have dead: "dead_link ?h s" using check(3) by (simp add: race_dead_def)
  then have "after_check r \<noteq> Checked d" for d
    using fr by (fastforce simp: after_check_def dead_link_def split: sum.splits option.splits)
  moreover have "dead_link ?h s'" using dead fr(1,2) by (fastforce simp: dead_link_def)
  ultimately show ?case using check(3) by (simp add: race_dead_def)
next
  case (take who i d s r s')
  then show ?case by (simp add: race_dead_def)
next
  case (meanwhile s' s who)
  then have "dead_link (hash_secret A tok) s'" by (fastforce simp: race_dead_def dead_link_def)
  with meanwhile(3) show ?case by (simp add: race_dead_def)
qed

lemma race_steps:
  assumes "(claim_step A tok)\<^sup>*\<^sup>* c c'" and "P c" and "\<And>x y. claim_step A tok x y \<Longrightarrow> P x \<Longrightarrow> P y"
  shows "P c'"
  using assms(1) by (induction rule: rtranclp_induct) (use assms(2,3) in auto)

text \<open>
  C6. A one-time link is good for one key: however the reads and transactions of any number of callers
  who present it are interleaved, and whatever calls fail, at most one of them is handed a key, and it
  is the key the record then stands for; a link that was used or had expired before yields none.
\<close>

theorem claim_issues_one_key:
  assumes "(claim_step A tok)\<^sup>*\<^sup>* (s, \<lambda>_. Clicking) (s', who)"
  shows "(\<forall>i j k l. holds_key (who i) k \<and> holds_key (who j) l \<longrightarrow> i = j) \<and>
    (\<forall>i k. holds_key (who i) k \<longrightarrow> \<not> dead_link (hash_secret A tok) s \<and>
      (\<exists>d. access_of (hash_secret A tok) s' = Some d \<and> ac_credential_key_hash d = Some (hash_secret A (ik_apiKey k))))"
proof -
  have "race_ok A tok (s, \<lambda>_. Clicking)" unfolding race_ok_def by auto
  from race_steps[where P = "race_ok A tok", OF assms this race_step] have "race_ok A tok (s', who)" .
  moreover have "race_dead A tok (s', who)" if "dead_link (hash_secret A tok) s"
  proof -
    have "race_dead A tok (s, \<lambda>_. Clicking)" using that by (simp add: race_dead_def)
    from race_steps[where P = "race_dead A tok", OF assms this dead_step] show ?thesis .
  qed
  ultimately show ?thesis unfolding race_ok_def race_dead_def prod.case by blast
qed

section \<open>Revocation\<close>

definition revoked_if :: "(string \<Rightarrow> bool) \<Rightarrow> int \<Rightarrow> string \<times> access_doc \<Rightarrow> string \<times> access_doc" where
  "revoked_if P t = (\<lambda>(h, d). (h, if P h then d\<lparr>ac_revoked_at := Some t\<rparr> else d))"

lemma update_as_map:
  "distinct (map fst al) \<Longrightarrow> k \<in> fst ` set al \<Longrightarrow> AList.update k v al = map (\<lambda>(h, d). (h, if h = k then v else d)) al"
proof (induction al)
  case (Cons x al)
  have "map (\<lambda>(h, d). (h, if h = fst x then v else d)) al = al" if "fst x \<notin> fst ` set al"
    using that by (intro map_idI) (auto simp: split_beta image_iff intro: prod_eqI)
  then show ?case using Cons by (cases x) auto
qed simp

lemma revoke_doc_Inr:
  assumes "revoke_doc t h s = (Inr x, s')" and "distinct (map fst (access s))"
  shows "access s' = map (revoked_if (\<lambda>k. k = h) t) (access s)"
proof -
  have a: "access (snd (next_call s)) = access s" by (auto simp: next_call_def split: list.splits)
  obtain d where d: "map_of (access s) h = Some d" "access s' = AList.update h (d\<lparr>ac_revoked_at := Some t\<rparr>) (access s)"
    using rtxn_Inr[OF assms(1)[unfolded revoke_doc_def]] a
    by (auto simp: access_of_def put_access_def split: option.splits)
  then have "h \<in> fst ` set (access s)" by (metis domI dom_map_of_conv_image_fst)
  then have "access s' = map (\<lambda>(k, e). (k, if k = h then d\<lparr>ac_revoked_at := Some t\<rparr> else e)) (access s)"
    using d(2) update_as_map[OF assms(2)] by simp
  also have "\<dots> = map (revoked_if (\<lambda>k. k = h) t) (access s)"
  proof -
    have "d = e" if "(h, e) \<in> set (access s)" for e using d(1) map_of_is_SomeI[OF assms(2) that] by simp
    then show ?thesis by (intro map_cong) (auto simp: revoked_if_def)
  qed
  finally show ?thesis .
qed

lemma revoked_if_keys [simp]: "map fst (map (revoked_if P t) al) = map fst al"
  by (auto simp: revoked_if_def)

lemma revoke_all:
  assumes "settleAll (revoke_doc t) hs s = (rs, s')" and "allInr rs = Inr ys" and "distinct (map fst (access s))"
  shows "access s' = map (revoked_if (\<lambda>h. h \<in> set hs) t) (access s)"
  using assms
proof (induction hs arbitrary: s rs ys)
  case Nil
  then show ?case by (auto simp: revoked_if_def)
next
  case (Cons h hs)
  obtain r u where r: "revoke_doc t h s = (r, u)" by fastforce
  obtain rs1 where rest: "settleAll (revoke_doc t) hs u = (rs1, s')" and rs: "rs = r # rs1"
    using Cons.prems(1) r by (auto simp: Let_def split: prod.splits)
  obtain v ys1 where v: "r = Inr v" "allInr rs1 = Inr ys1"
    using Cons.prems(2) rs by (cases r) (auto split: sum.splits)
  have u: "access u = map (revoked_if (\<lambda>k. k = h) t) (access s)"
    by (rule revoke_doc_Inr[OF r[unfolded v(1)] Cons.prems(3)])
  have "access s' = map (revoked_if (\<lambda>h. h \<in> set hs) t) (access u)"
    by (rule Cons.IH[OF rest v(2)]) (simp add: u Cons.prems(3) del: map_map)
  then show ?case unfolding u by (auto simp: revoked_if_def)
qed

text \<open>
  C17. Revoking an integration cuts it off: once the call returns, none of its credentials resolves any
  more, at any time, the returned number is that of the credentials it held unrevoked, and every
  other credential record is what it was.
\<close>

theorem revocation_cuts_off:
  assumes run: "revokeServiceCredentials t c s = (Inr n, s')" and dis: "distinct (map fst (access s))"
  shows "(\<forall>A key w i w'. access w = access s' \<and> resolveCredential A key w = (Inr (Some i), w') \<longrightarrow>
      \<not> (id_tenantId i = t \<and> id_analystEmail i = c \<and> id_kind i = Some SERVICE_KIND)) \<and>
    n = length (filter (\<lambda>d. issued_to t c d \<and> ac_revoked_at d = None) (map snd (access s))) \<and>
    list_all2 (\<lambda>x y. fst y = fst x \<and> (issued_to t c (snd x) \<and> ac_revoked_at (snd x) = None \<or> snd y = snd x)) (access s) (access s')"
proof -
  let ?mine = "\<lambda>(h :: string, d). issued_to t c d" and ?live = "\<lambda>(h :: string, d). ac_revoked_at d = None"
  obtain docs u where docs: "rread (\<lambda>s. filter ?mine (access s)) s = (Inr docs, u)"
    and rest: "bnd (gets now) (\<lambda>t. let toRevoke = filter ?live docs in
       bnd (promiseAll (revoke_doc t) (map fst toRevoke)) (\<lambda>_. ret (length toRevoke))) u = (Inr n, s')"
    using run unfolding revokeServiceCredentials_def revokeServiceCredentialsFor_def by (rule bnd_InrE)
  have a: "access u = access s" "docs = filter ?mine (access u)"
    using rread_Inr[OF docs] by (auto simp: next_call_def split: list.splits)
  define xs where "xs = filter ?live (filter ?mine (access s))"
  obtain v w where all: "promiseAll (revoke_doc (now u)) (map fst xs) u = (Inr v, w)" and n: "n = length xs" "s' = w"
    using rest unfolding xs_def a by (auto simp: Let_def elim: bnd_InrE)
  obtain rs where rs: "settleAll (revoke_doc (now u)) (map fst xs) u = (rs, w)" "allInr rs = Inr v"
    using all by (auto simp: promiseAll_def Let_def split: prod.splits)
  have acc: "access s' = map (revoked_if (\<lambda>h. h \<in> fst ` set xs) (now u)) (access s)"
    using revoke_all[OF rs] dis a(1) n(2) by simp
  have mem: "h \<in> fst ` set xs \<longleftrightarrow> issued_to t c d \<and> ac_revoked_at d = None" if "(h, d) \<in> set (access s)" for h d
  proof -
    have "e = d" if "(h, e) \<in> set (access s)" for e
      using map_of_is_SomeI[OF dis that] map_of_is_SomeI[OF dis \<open>(h, d) \<in> set (access s)\<close>] by simp
    moreover have "h \<in> fst ` set xs \<longleftrightarrow> (\<exists>e. (h, e) \<in> set (access s) \<and> issued_to t c e \<and> ac_revoked_at e = None)"
      unfolding xs_def by (force simp: image_iff)
    ultimately show ?thesis using that by blast
  qed
  have upd: "list_all2 (\<lambda>x y. fst y = fst x \<and> (issued_to t c (snd x) \<and> ac_revoked_at (snd x) = None \<or> snd y = snd x)) (access s) (access s')"
    unfolding acc by (auto simp: list_all2_map2 list_all2_same revoked_if_def mem split: if_splits)
  have none: "ac_revoked_at d \<noteq> None" if "(h, d) \<in> set (access s')" "issued_to t c d" for h d
  proof -
    have "(h, d) \<in> revoked_if (\<lambda>h. h \<in> fst ` set xs) (now u) ` set (access s)"
      using that(1) unfolding acc by simp
    then obtain e where e: "(h, e) \<in> set (access s)" "d = (if h \<in> fst ` set xs then e\<lparr>ac_revoked_at := Some (now u)\<rparr> else e)"
      by (auto simp: revoked_if_def)
    with that(2) mem[OF e(1)] show ?thesis by (auto simp: issued_to_def split: if_splits)
  qed
  have "\<not> (id_tenantId i = t \<and> id_analystEmail i = c \<and> id_kind i = Some SERVICE_KIND)"
    if w: "access x = access s'" "resolveCredential A key x = (Inr (Some i), x')" for A key x i x'
  proof -
    obtain d y where d: "rread (holder_of (hash_secret A key)) x = (Inr (Some d), y)" "ac_revoked_at d = None" "i = identity_of d"
      using w(2) unfolding resolveCredential_def repo_resolveCredential_def
      by (auto simp: bnd_apply split: prod.splits sum.splits option.splits if_splits)
    have "access y = access x" using rread_Inr[OF d(1)] by (auto simp: next_call_def split: list.splits)
    then have "d \<in> snd ` set (access s')"
      using rread_Inr[OF d(1)] w(1) unfolding holder_of_def by (metis find_Some_iff in_set_conv_nth list.set_map nth_mem)
    then obtain h where "(h, d) \<in> set (access s')" by auto
    from none[OF this] d(2,3) show ?thesis by (auto simp: identity_of_def issued_to_def)
  qed
  moreover have "n = length (filter (\<lambda>d. issued_to t c d \<and> ac_revoked_at d = None) (map snd (access s)))"
    unfolding n(1) xs_def by (simp add: filter_map o_def split_beta conj_commute)
  ultimately show ?thesis using upd by blast
qed

section \<open>A concrete link and a concrete integration\<close>

definition toy_access :: access_service where
  "toy_access = \<lparr>av_random = (\<lambda>n k. [of_nat n]), av_sha = rev, av_isEmail = (\<lambda>_. True)\<rparr>"

definition toy_aworld :: "(string \<times> access_doc) list \<Rightarrow> aworld" where
  "toy_aworld docs = dworld.extend toy_dworld (aworld.fields docs)"

lemmas toy_aworld_defs = toy_aworld_def aworld.defs toy_dworld_defs

definition toy_link :: access_doc where
  "toy_link = new_claim ''t'' ''a@b.c'' (hash_secret toy_access ''link'') 9000 ANALYST 1000"

lemma toy_outcomes [simp]: "outcomes (toy_aworld docs) = []" "now (toy_aworld docs) = 5000" "draws (toy_aworld docs) = 0"
  "access (toy_aworld docs) = docs"
  by (simp_all add: toy_aworld_defs)

lemma claim_issues_one_key_witness:
  "\<exists>s' who k. (claim_step toy_access ''link'')\<^sup>*\<^sup>* (toy_aworld [(hash_secret toy_access ''link'', toy_link)], \<lambda>_. Clicking) (s', who) \<and>
     holds_key (who 0) k \<and> \<not> holds_key (who 1) k \<and>
     map_option ac_credential_key_hash (access_of (hash_secret toy_access ''link'') s') = Some (Some (hash_secret toy_access (ik_apiKey k)))"
proof -
  let ?h = "hash_secret toy_access ''link''" and ?s = "toy_aworld [(hash_secret toy_access ''link'', toy_link)]"
  have d: "access_of ?h ?s = Some toy_link" "ac_claimed_at toy_link = None" "ac_expires_at toy_link = 9000"
    by (simp_all add: access_of_def toy_link_def new_claim_def)
  have c: "claim_check toy_access ''link'' ?s = (Inr (Some toy_link), ?s)"
    using d by (simp add: claim_check_def getClaimByTokenHash_def bnd_apply no_faults)
  obtain k t where t: "claim_take toy_access ''link'' toy_link ?s = (Inr (Some k), t)"
  proof -
    have "\<exists>k t. claim_take toy_access ''link'' toy_link ?s = (Inr (Some k), t)"
      using d by (simp add: claim_take_def bnd_apply secret_run claimAndIssueCredential_def no_faults Let_def)
    then show thesis using that by blast
  qed
  let ?w0 = "\<lambda>_ :: nat. Clicking" and ?w1 = "(\<lambda>_ :: nat. Clicking)(0 := Checked toy_link)"
  have "claim_step toy_access ''link'' (?s, ?w0) (?s, ?w1)"
    using claim_step.check[of ?w0 0 toy_access "''link''" ?s, OF refl c] by (simp add: after_check_def)
  moreover have "claim_step toy_access ''link'' (?s, ?w1) (t, ?w1(0 := Answered (Inr (Some k))))"
    by (rule claim_step.take[OF _ t]) simp
  ultimately have run: "(claim_step toy_access ''link'')\<^sup>*\<^sup>* (?s, ?w0) (t, ?w1(0 := Answered (Inr (Some k))))"
    by (meson r_into_rtranclp rtranclp_trans)
  have key: "holds_key ((?w1(0 := Answered (Inr (Some k)))) 0) k" by (simp add: holds_key_def)
  from claim_issues_one_key[OF run, THEN conjunct2, rule_format, OF key]
  obtain d where e: "access_of ?h t = Some d" "ac_credential_key_hash d = Some (hash_secret toy_access (ik_apiKey k))" by blast
  have "\<not> holds_key ((?w1(0 := Answered (Inr (Some k)))) 1) k" by (simp add: holds_key_def)
  moreover have "map_option ac_credential_key_hash (access_of ?h t) = Some (Some (hash_secret toy_access (ik_apiKey k)))"
    using e by simp
  ultimately show ?thesis using run key by blast
qed

lemma revocation_cuts_off_witness:
  "\<exists>s'. revokeServiceCredentials ''t'' ''crm'' (toy_aworld [(''h'', service_doc ''t'' ''crm'' ''h'' 3), (''g'', service_doc ''t'' ''erp'' ''g'' 4)]) = (Inr 1, s') \<and>
     map_of (access s') ''g'' = Some (service_doc ''t'' ''erp'' ''g'' 4)"
proof -
  let ?s = "toy_aworld [(''h'', service_doc ''t'' ''crm'' ''h'' 3), (''g'', service_doc ''t'' ''erp'' ''g'' 4)]"
  obtain n s' where run: "revokeServiceCredentials ''t'' ''crm'' ?s = (Inr n, s')"
  proof -
    have "\<exists>n s'. revokeServiceCredentials ''t'' ''crm'' ?s = (Inr n, s')"
      by (simp add: revokeServiceCredentials_def revokeServiceCredentialsFor_def bnd_apply no_faults issued_to_def service_doc_def
          promiseAll_def revoke_doc_def access_of_def Let_def)
    then show thesis using that by blast
  qed
  have dis: "distinct (map fst (access ?s))" by simp
  from revocation_cuts_off[OF run dis]
  have "n = 1" "\<exists>x. access s' = [(''h'', x), (''g'', service_doc ''t'' ''erp'' ''g'' 4)]"
    by (auto simp: issued_to_def service_doc_def list_all2_Cons1)
  with run show ?thesis by auto
qed

end
