(* ===== verification/Auth.thy ===== *)
theory Auth
  imports AnalystAccess
begin

text \<open>
  Who may call which route: \<open>src/middleware/auth.ts\<close>, the \<open>onRequest\<close> hook of \<open>src/main.ts\<close> and the
  request context of \<open>src/middleware/request-logging.ts\<close>. \<open>admit\<close> runs the two hooks in the order in
  which the server runs them and yields the request as the handlers see it.
\<close>

section \<open>Paths\<close>

text \<open>\<open>/^pre[^/]+suf$/\<close>, where \<open>suf\<close> is empty or begins with a slash\<close>

definition segment_path :: "string \<Rightarrow> string \<Rightarrow> string \<Rightarrow> bool" where
  "segment_path pre suf path =
     (startsWith pre path \<and>
      (let rest = drop (length pre) path in
       takeWhile (\<lambda>c. c \<noteq> CHR ''/'') rest \<noteq> [] \<and> dropWhile (\<lambda>c. c \<noteq> CHR ''/'') rest = suf))"

definition analyst_paths :: "string list" where
  "analyst_paths = [''/encrypt'', ''/decrypt'', ''/pii-registry/resources'', ''/deletion-requests'', ''/pii-vault/decrypt'']"

definition isAnalystCredentialAllowedPath :: "string \<Rightarrow> bool" where
  "isAnalystCredentialAllowedPath path = (path \<in> set analyst_paths \<or> segment_path ''/pii-registry/resources/'' [] path)"

definition isAuditorCredentialAllowedPath :: "string \<Rightarrow> bool" where
  "isAuditorCredentialAllowedPath path = segment_path ''/audit/key-status/'' [] path"

definition isServiceCredentialAllowedPath :: "string \<Rightarrow> bool" where
  "isServiceCredentialAllowedPath path =
     (path \<in> {''/deletion-requests''} \<or> segment_path ''/deletion-requests/'' [] path \<or>
      segment_path ''/deletion-requests/'' ''/advance'' path \<or> segment_path ''/certificate/'' [] path)"

definition isAllowedForCredential :: "access_role \<Rightarrow> access_kind option \<Rightarrow> string \<Rightarrow> bool" where
  "isAllowedForCredential role kind path =
     (if role = AUDITOR then isAuditorCredentialAllowedPath path
      else if kind = Some SERVICE_KIND then isServiceCredentialAllowedPath path
      else isAnalystCredentialAllowedPath path)"

definition isExemptFromAuth :: "string \<Rightarrow> bool" where
  "isExemptFromAuth path =
     (path = ''/health'' \<or> path = ''/version'' \<or> segment_path ''/admin/analyst-claims/'' ''/claim'' path \<or>
      path = ''/internal/decrypted-views/batch-decrypt'' \<or>
      path \<in> {''/public-key'', ''/rekor-signing-public-key'', ''/.well-known/jwks.json''} \<or>
      segment_path ''/certificate-chain/by-hash/'' [] path)"

section \<open>Authorization\<close>

record auth_result =
  au_authorized :: bool
  au_analystEmail :: "string option"
  au_role :: "access_role option"
  au_tenantId :: "string option"
  au_service :: bool

definition refused :: auth_result where
  "refused = \<lparr>au_authorized = False, au_analystEmail = None, au_role = None, au_tenantId = None, au_service = False\<rparr>"

definition resolveAuth ::
  "access_service \<Rightarrow> string \<Rightarrow> string option \<Rightarrow> string \<Rightarrow> string \<Rightarrow> ('z aworld_scheme, auth_result) eff" where
  "resolveAuth A path providedKey sharedApiKey requestTenantId =
     (if providedKey = Some sharedApiKey then ret (refused\<lparr>au_authorized := True\<rparr>)
      else if truthy providedKey \<and>
          (isAnalystCredentialAllowedPath path \<or> isAuditorCredentialAllowedPath path \<or> isServiceCredentialAllowedPath path) then
        bnd (resolveCredential A (the providedKey)) (\<lambda>r. ret (case r of
          None \<Rightarrow> refused
        | Some i \<Rightarrow>
            if id_tenantId i = requestTenantId \<and> isAllowedForCredential (id_role i) (id_kind i) path then
              \<lparr>au_authorized = True, au_analystEmail = Some (id_analystEmail i), au_role = Some (id_role i),
               au_tenantId = Some (id_tenantId i), au_service = (id_kind i = Some SERVICE_KIND)\<rparr>
            else refused))
      else ret refused)"

section \<open>The hooks\<close>

record http_headers =
  hd_url :: string
  hd_apiKey :: "string option"
  hd_authorization :: "string option"
  hd_tenant :: "string option"
  hd_correlationId :: "string option"

text \<open>\<open>s.replace(p, '')\<close>: the first occurrence.\<close>

fun remove_first :: "string \<Rightarrow> string \<Rightarrow> string" where
  "remove_first p [] = []"
| "remove_first p (x # xs) = (if startsWith p (x # xs) then drop (length p) (x # xs) else x # remove_first p xs)"

definition path_of :: "http_headers \<Rightarrow> string" where
  "path_of H = hd (split_on (CHR ''?'') (hd_url H))"

definition provided_key :: "http_headers \<Rightarrow> string option" where
  "provided_key H = (case hd_apiKey H of Some k \<Rightarrow> Some k | None \<Rightarrow> map_option (remove_first ''Bearer '') (hd_authorization H))"

definition request_tenant :: "http_headers \<Rightarrow> string" where
  "request_tenant H = or_else (map_option trim (hd_tenant H)) default_tenant"

record request_context =
  rc_correlationId :: string
  rc_startTime :: int
  rc_analystEmail :: "string option"
  rc_role :: "access_role option"

definition fresh_context :: "string \<Rightarrow> int \<Rightarrow> request_context" where
  "fresh_context uuid t = \<lparr>rc_correlationId = uuid, rc_startTime = t, rc_analystEmail = None, rc_role = None\<rparr>"

definition getRequestContext :: "string \<Rightarrow> int \<Rightarrow> request_context option \<Rightarrow> request_context" where
  "getRequestContext uuid t c = (case c of None \<Rightarrow> fresh_context uuid t | Some x \<Rightarrow> x)"

text \<open>\<open>onRequest\<close>: the outer \<open>None\<close> is the 401 reply; \<open>VAULT_API_KEY\<close> absent means no hook.\<close>

definition on_request ::
  "access_service \<Rightarrow> string option \<Rightarrow> string \<Rightarrow> http_headers \<Rightarrow> ('z aworld_scheme, request_context option option) eff" where
  "on_request A apiKey uuid H =
     (if \<not> truthy apiKey \<or> isExemptFromAuth (path_of H) then ret (Some None)
      else
        bnd (resolveAuth A (path_of H) (provided_key H) (the apiKey) (request_tenant H)) (\<lambda>result.
        bnd (gets now) (\<lambda>t.
        if \<not> au_authorized result then ret None
        else ret (Some (if truthy (au_analystEmail result) \<or> au_role result \<noteq> None then
            (let c = getRequestContext uuid t None in
             Some (c\<lparr>rc_analystEmail := (if truthy (au_analystEmail result) then au_analystEmail result else None),
                     rc_role := au_role result\<rparr>))
          else None)))))"

text \<open>\<open>preHandler\<close>: the context is a new one, whatever the first hook put there.\<close>

definition pre_handler :: "string \<Rightarrow> http_headers \<Rightarrow> request_context option \<Rightarrow> ('z env_scheme, request_context) eff" where
  "pre_handler uuid H old = bnd (gets now) (\<lambda>t. ret (fresh_context (or_else (hd_correlationId H) uuid) t))"

definition admit :: "access_service \<Rightarrow> string option \<Rightarrow> string \<Rightarrow> http_headers \<Rightarrow> ('z aworld_scheme, http_request option) eff" where
  "admit A apiKey uuid H =
     bnd (on_request A apiKey uuid H) (\<lambda>c. case c of
       None \<Rightarrow> ret None
     | Some old \<Rightarrow>
         bnd (pre_handler uuid H old) (\<lambda>ctx.
         ret (Some \<lparr>rq_tenant = hd_tenant H, rq_correlationId = rc_correlationId ctx, rq_analystEmail = rc_analystEmail ctx\<rparr>)))"

section \<open>What a credential reaches\<close>

lemma segment_starts: "segment_path pre suf path \<Longrightarrow> startsWith pre path"
  by (simp add: segment_path_def)

lemma starts_take: "startsWith p path \<Longrightarrow> n \<le> length p \<Longrightarrow> take n path = take n p"
  by (metis min.absorb1 startsWith_def take_take)

lemma segment_take: "segment_path p suf path \<Longrightarrow> 3 \<le> length p \<Longrightarrow> take 3 path = take 3 p"
  by (rule starts_take[OF segment_starts])

lemma scope_not_admin:
  assumes "isAllowedForCredential role kind path" and "pre \<in> {''/admin/'', ''/key/'', ''/internal/''}"
  shows "\<not> startsWith pre path"
proof
  assume pre: "startsWith pre path"
  have "take 3 path \<in> {''/en'', ''/de'', ''/pi'', ''/au'', ''/ce''}"
    using assms(1) unfolding isAllowedForCredential_def isAuditorCredentialAllowedPath_def isServiceCredentialAllowedPath_def
      isAnalystCredentialAllowedPath_def analyst_paths_def
    by (auto dest: segment_take split: if_splits)
  moreover have "take 3 path \<in> {''/ad'', ''/ke'', ''/in''}"
    using starts_take[OF pre, of 3] assms(2) by auto
  ultimately show False by auto
qed

text \<open>The credential that lets a request through.\<close>

definition grants :: "access_service \<Rightarrow> string \<Rightarrow> string \<Rightarrow> string \<Rightarrow> int \<Rightarrow> access_doc \<Rightarrow> bool" where
  "grants A key path tenantId t d \<longleftrightarrow>
     ac_credential_key_hash d = Some (hash_secret A key) \<and> ac_revoked_at d = None \<and> \<not> expired_at t d \<and>
     ac_tenant_id d = tenantId \<and> isAllowedForCredential (role_of d) (ac_kind d) path"

lemma resolve_Inr:
  assumes "resolveCredential A key s = (Inr (Some i), s')"
  shows "\<exists>d \<in> snd ` set (access s'). ac_credential_key_hash d = Some (hash_secret A key) \<and> ac_revoked_at d = None \<and>
    \<not> expired_at (now s') d \<and> i = identity_of d \<and> access s' = access s"
proof -
  obtain d where d: "rread (holder_of (hash_secret A key)) s = (Inr (Some d), s')" "ac_revoked_at d = None"
      "\<not> expired_at (now s') d" "i = identity_of d"
    using assms unfolding resolveCredential_def repo_resolveCredential_def
    by (auto simp: bnd_apply split: prod.splits sum.splits option.splits if_splits)
  have "access s' = access s" using rread_Inr[OF d(1)] by (auto simp: next_call_def split: list.splits)
  moreover have f: "find (\<lambda>d. ac_credential_key_hash d = Some (hash_secret A key)) (map snd (access s')) = Some d"
    using rread_Inr[OF d(1)] by (simp add: holder_of_def)
  then have "d \<in> snd ` set (access s')" "ac_credential_key_hash d = Some (hash_secret A key)"
    by (metis find_Some_iff list.set_map nth_mem, metis (mono_tags, lifting) find_Some_iff)
  ultimately show ?thesis using d by blast
qed

lemma resolveAuth_authorized:
  assumes "resolveAuth A path provided shared tenantId s = (Inr r, s')" and "au_authorized r"
  shows "provided = Some shared \<or>
    (\<exists>key. provided = Some key \<and> (\<exists>d \<in> snd ` set (access s'). grants A key path tenantId (now s') d) \<and> access s' = access s)"
proof (cases "provided = Some shared")
  case False
  then obtain key i where k: "provided = Some key" "resolveCredential A key s = (Inr (Some i), s')"
    "id_tenantId i = tenantId" "isAllowedForCredential (id_role i) (id_kind i) path"
    using assms unfolding resolveAuth_def
    by (auto simp: refused_def bnd_apply truthy_def split: if_splits prod.splits sum.splits option.splits)
  with resolve_Inr[OF k(2)] show ?thesis by (fastforce simp: grants_def identity_of_def)
qed simp

text \<open>What a request off the public paths has shown when it gets past the hooks.\<close>

lemma admitted_right:
  assumes run: "admit A (Some k) uuid H s = (Inr (Some rq), s')" and "k \<noteq> []" and nex: "\<not> isExemptFromAuth (path_of H)"
  shows "rq_tenant rq = hd_tenant H \<and> (provided_key H = Some k \<or>
    (\<exists>key. provided_key H = Some key \<and> (\<exists>d \<in> snd ` set (access s'). grants A key (path_of H) (request_tenant H) (now s') d) \<and> access s' = access s))"
proof -
  obtain c u where h: "on_request A (Some k) uuid H s = (Inr (Some c), u)"
    and rest: "bnd (pre_handler uuid H c) (\<lambda>ctx. ret (Some \<lparr>rq_tenant = hd_tenant H, rq_correlationId = rc_correlationId ctx,
        rq_analystEmail = rc_analystEmail ctx\<rparr>)) u = (Inr (Some rq), s')"
    using run unfolding admit_def by (auto simp: bnd_apply split: prod.splits sum.splits option.splits)
  have s': "s' = u" "rq_tenant rq = hd_tenant H" using rest by (auto simp: pre_handler_def bnd_apply)
  obtain r where r: "resolveAuth A (path_of H) (provided_key H) k (request_tenant H) s = (Inr r, u)" "au_authorized r"
    using h nex assms(2) unfolding on_request_def
    by (auto simp: bnd_apply truthy_def split: prod.splits sum.splits if_splits)
  then show ?thesis using resolveAuth_authorized[OF r] s' by metis
qed

text \<open>
  C15. Nobody gets past the hooks without a right: with a key configured, a request reaches its handler
  only on a public path, or with that key, or with a credential that is recorded, neither revoked nor
  expired, of the very tenant the handler then works for, and whose kind is allowed on this path; no
  credential reaches a path under /admin/, /key/ or /internal/.
\<close>

theorem admission_scoped:
  assumes run: "admit A (Some k) uuid H s = (Inr (Some rq), s')" and "k \<noteq> []"
  shows "isExemptFromAuth (path_of H) \<or> provided_key H = Some k \<or>
    (\<exists>key. provided_key H = Some key \<and> (\<exists>d \<in> snd ` set (access s). grants A key (path_of H) (request_tenant H) (now s') d) \<and>
      (map_option trim (rq_tenant rq) = rq_tenant rq \<longrightarrow> tenant_of rq = request_tenant H) \<and>
      (\<forall>pre \<in> {''/admin/'', ''/key/'', ''/internal/''}. \<not> startsWith pre (path_of H)))"
proof (cases "isExemptFromAuth (path_of H)")
  case False
  note right = admitted_right[OF run assms(2) False]
  have ten: "map_option trim (rq_tenant rq) = rq_tenant rq \<Longrightarrow> tenant_of rq = request_tenant H"
    using right unfolding tenant_of_def request_tenant_def by simp
  have adm: "\<not> startsWith pre (path_of H)" if "grants A key (path_of H) (request_tenant H) t d" "pre \<in> {''/admin/'', ''/key/'', ''/internal/''}"
    for key t d pre
    using scope_not_admin that unfolding grants_def by blast
  from right show ?thesis using ten adm by metis
qed simp

text \<open>The person whose credential was used is forgotten before the handler runs.\<close>

lemma attribution_lost:
  "admit A k uuid H s = (Inr (Some rq), s') \<Longrightarrow> rq_analystEmail rq = None"
  unfolding admit_def pre_handler_def fresh_context_def
  by (auto simp: bnd_apply split: prod.splits sum.splits option.splits)

section \<open>A concrete request\<close>

definition toy_headers :: http_headers where
  "toy_headers = \<lparr>hd_url = ''/encrypt?x=1'', hd_apiKey = Some ''key'', hd_authorization = None, hd_tenant = Some ''t'',
     hd_correlationId = None\<rparr>"

definition toy_session :: "(string \<times> access_doc) list" where
  "toy_session = [(''h'', session_doc ''t'' ''a@b.c'' (hash_secret toy_access ''key'') 9000 1000)]"

lemma toy_admitted: "\<exists>rq s'. admit toy_access (Some ''master'') ''uuid'' toy_headers (toy_aworld toy_session) = (Inr (Some rq), s')"
proof -
  let ?s = "toy_aworld toy_session"
  have H: "path_of toy_headers = ''/encrypt''" "provided_key toy_headers = Some ''key''" "request_tenant toy_headers = ''t''"
    by (simp_all add: path_of_def provided_key_def request_tenant_def toy_headers_def or_else_def trim_def is_space_def)
  have r: "resolveCredential toy_access ''key'' ?s = (Inr (Some (identity_of (session_doc ''t'' ''a@b.c'' (hash_secret toy_access ''key'') 9000 1000))), ?s)"
    by (simp add: resolveCredential_def repo_resolveCredential_def bnd_apply no_faults holder_of_def toy_session_def session_doc_def
        expired_at_def)
  have p: "isAnalystCredentialAllowedPath ''/encrypt''" "\<not> isExemptFromAuth ''/encrypt''"
    by (simp_all add: isAnalystCredentialAllowedPath_def analyst_paths_def isExemptFromAuth_def segment_path_def startsWith_def)
  have "on_request toy_access (Some ''master'') ''uuid'' toy_headers ?s =
      (Inr (Some (Some ((fresh_context ''uuid'' 5000)\<lparr>rc_analystEmail := Some ''a@b.c'', rc_role := Some ANALYST\<rparr>))), ?s)"
    using p by (simp add: on_request_def H truthy_def resolveAuth_def bnd_apply r identity_of_def session_doc_def
        isAllowedForCredential_def role_of_def getRequestContext_def Let_def)
  then show ?thesis by (simp add: admit_def bnd_apply pre_handler_def)
qed

lemma admission_scoped_witness:
  "\<exists>rq s' d. admit toy_access (Some ''master'') ''uuid'' toy_headers (toy_aworld toy_session) = (Inr (Some rq), s') \<and>
     d \<in> snd ` set toy_session \<and> grants toy_access ''key'' ''/encrypt'' ''t'' (now s') d"
proof -
  obtain rq s' where run: "admit toy_access (Some ''master'') ''uuid'' toy_headers (toy_aworld toy_session) = (Inr (Some rq), s')"
    using toy_admitted by blast
  have H: "path_of toy_headers = ''/encrypt''" "provided_key toy_headers = Some ''key''" "request_tenant toy_headers = ''t''"
    by (simp_all add: path_of_def provided_key_def request_tenant_def toy_headers_def or_else_def trim_def is_space_def)
  have e: "\<not> isExemptFromAuth ''/encrypt''"
    by (simp add: isExemptFromAuth_def segment_path_def startsWith_def)
  show ?thesis
    using admission_scoped[OF run] run e unfolding H by auto
qed

end
