(* ===== verification/Doubles.thy ===== *)
theory Doubles
  imports Prelude "HOL-Library.Log_Nat"
begin

text \<open>
  The arithmetic of the language's numbers where a result is not exact: division, multiplication and
  addition of IEEE doubles, each the exact result rounded to 53 bits, half to even. Values are rationals;
  the exponents that the program meets are far from the limits of the format, so there is no overflow or
  gradual underflow. \<open>Math.round\<close> rounds to the nearest integer, half up.
\<close>

definition expo :: "rat \<Rightarrow> int" where
  "expo x = (case quotient_of x of (n, d) \<Rightarrow>
     let k = bitlen n - bitlen d in if x < 2 powi k then k - 1 else k)"

text \<open>To the nearest integer, half to even.\<close>

definition nearest :: "rat \<Rightarrow> int" where
  "nearest y = (let f = \<lfloor>y\<rfloor>; r = y - of_int f in
     if r < 1 / 2 then f else if 1 / 2 < r then f + 1 else if even f then f else f + 1)"

definition fl :: "rat \<Rightarrow> rat" where
  "fl x = (if x = 0 then 0 else let u = 2 powi (expo \<bar>x\<bar> - 52) in of_int (nearest (x / u)) * u)"

definition fadd :: "rat \<Rightarrow> rat \<Rightarrow> rat" where
  "fadd a b = fl (a + b)"

definition fmul :: "rat \<Rightarrow> rat \<Rightarrow> rat" where
  "fmul a b = fl (a * b)"

definition fdiv :: "rat \<Rightarrow> rat \<Rightarrow> rat" where
  "fdiv a b = fl (a / b)"

definition math_round :: "rat \<Rightarrow> int" where
  "math_round x = \<lfloor>x + 1 / 2\<rfloor>"

section \<open>Rounding keeps integer bounds\<close>

lemma expo_bounds:
  assumes "0 < x"
  shows "2 powi (expo x) \<le> x" "x < 2 powi (expo x + 1)"
proof -
  obtain n d where q: "quotient_of x = (n, d)" by fastforce
  have d: "0 < d" by (rule quotient_of_denom_pos[OF q])
  have x: "x = of_int n / of_int d" by (rule quotient_of_div[OF q])
  have n: "0 < n" using assms d by (simp add: x zero_less_divide_iff)
  have bits: "(2 :: rat) powi (bitlen m - 1) \<le> of_int m \<and> of_int m < (2 :: rat) powi bitlen m" if "0 < m" for m
  proof -
    have "1 \<le> bitlen m" using that by (simp add: bitlen_alt_def)
    moreover have "of_int (2 ^ nat (bitlen m - 1)) \<le> (of_int m :: rat)" "(of_int m :: rat) < of_int (2 ^ nat (bitlen m))"
      using bitlen_bounds[OF that] by (simp_all only: of_int_le_iff of_int_less_iff)
    ultimately show ?thesis by (simp add: power_int_def)
  qed
  let ?k = "bitlen n - bitlen d"
  have low: "2 powi (?k - 1) \<le> x"
  proof -
    have "(2 :: rat) powi (bitlen n - 1) / 2 powi bitlen d \<le> of_int n / of_int d"
      using bits[OF n] bits[OF d] d n by (intro frac_le) auto
    moreover have "(2 :: rat) powi (?k - 1) = 2 powi (bitlen n - 1) / 2 powi bitlen d"
      by (simp add: power_int_diff[symmetric] algebra_simps)
    ultimately show ?thesis by (simp add: x)
  qed
  have high: "x < 2 powi (?k + 1)"
  proof -
    have "of_int n / of_int d < (2 :: rat) powi bitlen n / 2 powi (bitlen d - 1)"
      using bits[OF n] bits[OF d] d n by (intro frac_less) auto
    moreover have "(2 :: rat) powi (?k + 1) = 2 powi bitlen n / 2 powi (bitlen d - 1)"
      by (simp add: power_int_diff[symmetric] algebra_simps)
    ultimately show ?thesis by (simp add: x)
  qed
  show "2 powi (expo x) \<le> x" "x < 2 powi (expo x + 1)"
    using low high by (auto simp: expo_def q Let_def not_less)
qed

lemma nearest_le: "y \<le> of_int m \<Longrightarrow> nearest y \<le> m"
  unfolding nearest_def Let_def by (auto split: if_splits) linarith+

lemma nearest_ge: "of_int m \<le> y \<Longrightarrow> m \<le> nearest y"
  unfolding nearest_def Let_def by (auto split: if_splits) linarith+

lemma nearest_int [simp]: "nearest (of_int m) = m"
  by (simp add: nearest_def)

text \<open>An integer of at most 53 bits is a multiple of the unit of every smaller number.\<close>

lemma int_on_grid:
  assumes "0 < x" "x \<le> of_int b" "b < 2 ^ 53"
  shows "\<exists>m. of_int b / 2 powi (expo x - 52) = (of_int m :: rat)"
proof -
  have "(2 :: rat) powi (expo x) < 2 powi 53"
    using expo_bounds(1)[OF assms(1)] assms(2,3) by (simp add: power_int_def)
  then have "expo x < 53" by (intro power_int_le_imp_less_exp[of "2 :: rat"]) simp_all
  then have "expo x \<le> 52" by simp
  then have "of_int b / (2 :: rat) powi (expo x - 52) = of_int (b * 2 ^ nat (52 - expo x))"
    by (simp add: power_int_def field_simps)
  then show ?thesis by blast
qed

lemma fl_nonneg: "0 \<le> x \<Longrightarrow> 0 \<le> fl x"
  using nearest_ge[of 0] by (simp add: fl_def Let_def)

lemma fl_le:
  assumes "0 \<le> x" "x \<le> of_int b" "b < 2 ^ 53"
  shows "fl x \<le> of_int b"
proof (cases "x = 0")
  case False
  then have x: "0 < x" using assms by simp
  define u :: rat where "u = 2 powi (expo x - 52)"
  have u: "0 < u" by (simp add: u_def)
  obtain m where m: "of_int b / u = of_int m" using int_on_grid[OF x assms(2,3)] by (auto simp: u_def)
  have "x / u \<le> of_int m" using assms(2) u by (simp add: m[symmetric] divide_right_mono)
  then have "of_int (nearest (x / u)) \<le> (of_int m :: rat)" by (simp add: nearest_le)
  then have "of_int (nearest (x / u)) * u \<le> of_int b" using u by (simp add: m[symmetric] pos_le_divide_eq)
  then show ?thesis using x by (simp add: fl_def Let_def u_def)
qed (use assms in \<open>simp add: fl_def\<close>)

lemma fl_int:
  assumes "0 \<le> b" "b < 2 ^ 53"
  shows "fl (of_int b) = of_int b"
proof (cases "b = 0")
  case False
  then have b: "(0 :: rat) < of_int b" using assms by simp
  define u :: rat where "u = 2 powi (expo (of_int b) - 52)"
  have u: "u \<noteq> 0" by (simp add: u_def)
  obtain m where m: "of_int b / u = of_int m" using int_on_grid[OF b order.refl assms(2)] by (auto simp: u_def)
  have "fl (of_int b) = of_int (nearest (of_int b / u)) * u" using b by (simp add: fl_def Let_def u_def)
  also have "\<dots> = of_int m * u" unfolding m by simp
  also have "\<dots> = of_int b" using u by (simp add: m[symmetric])
  finally show ?thesis .
qed (simp add: fl_def)

lemma math_round_bounds: "of_int a \<le> x \<Longrightarrow> x \<le> of_int b \<Longrightarrow> a \<le> math_round x \<and> math_round x \<le> b"
  unfolding math_round_def by linarith

lemma math_round_int [simp]: "math_round (of_int a) = a"
  unfolding math_round_def by linarith

end
