(* ===== verification/PiiCoverage.thy ===== *)
theory PiiCoverage
  imports PiiDeclare Doubles "HOL-Library.Product_Lexorder" "HOL-Library.Multiset"
begin

text \<open>
  The coverage score: \<open>src/services/pii-coverage.ts\<close>. Weights are multiples of one half, which doubles add
  exactly; the quotient and the percentage are rounded as doubles are (theory Doubles). The dash in one of the reasons is written as a hyphen.
\<close>

datatype coverage_state = EXPOSED | PARTIAL | PROTECTED

text \<open>The order in which the report lists its items: the table \<open>order\<close> of computeCoverage.\<close>

definition state_order :: "coverage_state \<Rightarrow> nat" where
  "state_order c = (case c of EXPOSED \<Rightarrow> 0 | PARTIAL \<Rightarrow> 1 | PROTECTED \<Rightarrow> 2)"

instantiation coverage_state :: linorder
begin

definition less_eq_coverage_state :: "coverage_state \<Rightarrow> coverage_state \<Rightarrow> bool" where
  "less_eq_coverage_state a b = (state_order a \<le> state_order b)"

definition less_coverage_state :: "coverage_state \<Rightarrow> coverage_state \<Rightarrow> bool" where
  "less_coverage_state a b = (state_order a < state_order b)"

instance
  by standard (auto simp: less_eq_coverage_state_def less_coverage_state_def state_order_def split: coverage_state.splits)

end

record coverage_item =
  ci_resourceId :: string
  ci_system :: string
  ci_state :: coverage_state
  ci_weight :: rat
  ci_reasons :: "string list"

record coverage_sums =
  cs_protected :: rat
  cs_partial :: rat
  cs_exposed :: rat
  cs_total :: rat

record coverage_report =
  cv_score :: int
  cv_counts :: coverage_sums
  cv_weights :: coverage_sums
  cv_items :: "coverage_item list"

section \<open>Weights\<close>

definition field_sensitivity :: "pii_classification \<Rightarrow> rat" where
  "field_sensitivity c = (case c of
     DIRECT_IDENTIFIER \<Rightarrow> 3 | SENSITIVE \<Rightarrow> 3 | CONTACT \<Rightarrow> 2 | QUASI_IDENTIFIER \<Rightarrow> 2 | BEHAVIORAL \<Rightarrow> 1 | SYSTEM_IDENTIFIER \<Rightarrow> 1 / 2)"

definition entryWeight :: "pii_entry \<Rightarrow> rat" where
  "entryWeight e = max (1 / 2) (foldl (\<lambda>acc f. acc + field_sensitivity (pf_classification f)) 0 (pe_piiFields e))"

definition has_part :: "string \<Rightarrow> string list \<Rightarrow> bool" where
  "has_part n parts = list_ex (\<lambda>p. includesStr p n) parts"

definition columnSensitivity :: "string \<Rightarrow> rat" where
  "columnSensitivity name =
     (let n = toLowerCase name in
      if has_part n [''email'', ''ssn'', ''social'', ''dob'', ''birth'', ''passport'', ''tax''] then 3
      else if has_part n [''phone'', ''mobile'', ''name'', ''address'', ''street'', ''city'', ''zip'', ''postal''] then 2
      else if has_part n [''ip'', ''geo'', ''device'', ''lat'', ''lon''] then 2
      else if has_part n [''_id'', ''id'', ''uuid'', ''token''] then 1 / 2
      else 2)"

definition discoveryWeight :: "WarehouseDiscoveryFinding \<Rightarrow> rat" where
  "discoveryWeight w = max 1 (foldl (\<lambda>acc c. acc + columnSensitivity c) 0 (wf_columns w))"

section \<open>Classification\<close>

definition fieldIsShredSafe :: "pii_field \<Rightarrow> bool" where
  "fieldIsShredSafe f =
     (pf_handling f = ENCRYPT \<or> pf_handling f = TOKENIZE \<or>
      pf_classification f = SYSTEM_IDENTIFIER \<and> pf_handling f = HASH_SURROGATE)"

definition weak_fields :: "pii_entry \<Rightarrow> string" where
  "weak_fields e =
     (let w = join_with '', '' (map (\<lambda>f. pf_name f @ ''='' @ handling_str (pf_handling f)) (filter (\<lambda>f. \<not> fieldIsShredSafe f) (pe_piiFields e)))
      in if w = [] then ''no fields'' else w)"

definition partial_reasons :: "pii_entry \<Rightarrow> policy_status \<Rightarrow> string list" where
  "partial_reasons e st =
     (if pe_piiFields e \<noteq> [] \<and> list_all fieldIsShredSafe (pe_piiFields e) then [] else [''not key-reversible: '' @ weak_fields e]) @
     (if pe_deletionStrategy e \<noteq> CRYPTO_SHRED
      then [''deletion strategy is '' @ deletion_str (pe_deletionStrategy e) @ '', not CRYPTO_SHRED''] else []) @
     (if truthy (pe_userIdColumn e) then [] else [''no user identity link (userIdColumn) - no per-user key'']) @
     (if st = WARN then [''policy WARNs''] else [])"

definition classifyEntry :: "pii_entry \<Rightarrow> policy_status \<Rightarrow> coverage_state \<times> string list" where
  "classifyEntry e st =
     (if st = FAIL then (EXPOSED, [''policy evaluation FAILs''])
      else if partial_reasons e st = [] then (PROTECTED, []) else (PARTIAL, partial_reasons e st))"

definition declared_item :: "(pii_entry \<Rightarrow> policy_status) \<Rightarrow> pii_entry \<Rightarrow> coverage_item" where
  "declared_item evaluate e = (case classifyEntry e (evaluate e) of (st, rs) \<Rightarrow>
     \<lparr>ci_resourceId = pe_resourceId e, ci_system = system_str (pe_system e), ci_state = st, ci_weight = entryWeight e, ci_reasons = rs\<rparr>)"

definition undeclared_item :: "WarehouseDiscoveryFinding \<Rightarrow> coverage_item" where
  "undeclared_item w =
     \<lparr>ci_resourceId = wf_resourceId w, ci_system = wf_system w, ci_state = EXPOSED, ci_weight = discoveryWeight w,
      ci_reasons = [if wf_registryStatus w = ''DRIFTED'' then ''schema drift vs registry'' else ''discovered but undeclared'']\<rparr>"

definition toCoverageItems ::
  "pii_entry list \<Rightarrow> (pii_entry \<Rightarrow> policy_status) \<Rightarrow> WarehouseDiscoveryFinding list \<Rightarrow> coverage_item list" where
  "toCoverageItems es evaluate discovery =
     map (declared_item evaluate) es @
     map undeclared_item (filter (\<lambda>w. wf_resourceId w \<notin> set (map pe_resourceId es)) discovery)"

section \<open>The score\<close>

definition no_sums :: "rat \<Rightarrow> coverage_sums" where
  "no_sums n = \<lparr>cs_protected = 0, cs_partial = 0, cs_exposed = 0, cs_total = n\<rparr>"

definition add_state :: "coverage_state \<Rightarrow> rat \<Rightarrow> coverage_sums \<Rightarrow> coverage_sums" where
  "add_state st w s = (case st of
     PROTECTED \<Rightarrow> s\<lparr>cs_protected := cs_protected s + w\<rparr>
   | PARTIAL \<Rightarrow> s\<lparr>cs_partial := cs_partial s + w\<rparr>
   | EXPOSED \<Rightarrow> s\<lparr>cs_exposed := cs_exposed s + w\<rparr>)"

definition add_item :: "coverage_sums \<times> coverage_sums \<Rightarrow> coverage_item \<Rightarrow> coverage_sums \<times> coverage_sums" where
  "add_item acc i = (case acc of (counts, weights) \<Rightarrow>
     (add_state (ci_state i) 1 counts,
      add_state (ci_state i) (ci_weight i) (weights\<lparr>cs_total := cs_total weights + ci_weight i\<rparr>)))"

definition score_of :: "coverage_sums \<Rightarrow> int" where
  "score_of w = (if cs_total w = 0 then 100
     else math_round (fmul (fdiv (cs_protected w + 1 / 2 * cs_partial w) (cs_total w)) 100))"

definition computeCoverage :: "coverage_item list \<Rightarrow> coverage_report" where
  "computeCoverage items =
     (case foldl add_item (no_sums (of_nat (length items)), no_sums 0) items of (counts, weights) \<Rightarrow>
      \<lparr>cv_score = score_of weights, cv_counts = counts, cv_weights = weights,
       cv_items = sort_key (\<lambda>i. (ci_state i, - ci_weight i)) items\<rparr>)"

section \<open>What the score says\<close>

definition weight_in :: "coverage_state \<Rightarrow> coverage_item list \<Rightarrow> rat" where
  "weight_in st items = sum_list (map ci_weight (filter (\<lambda>i. ci_state i = st) items))"

definition count_in :: "coverage_state \<Rightarrow> coverage_item list \<Rightarrow> rat" where
  "count_in st items = of_nat (length (filter (\<lambda>i. ci_state i = st) items))"

definition sums_of :: "(coverage_state \<Rightarrow> rat) \<Rightarrow> rat \<Rightarrow> coverage_sums" where
  "sums_of f n = \<lparr>cs_protected = f PROTECTED, cs_partial = f PARTIAL, cs_exposed = f EXPOSED, cs_total = n\<rparr>"

lemma add_items:
  "foldl add_item (sums_of f n, sums_of g m) items =
     (sums_of (\<lambda>st. f st + count_in st items) n,
      sums_of (\<lambda>st. g st + weight_in st items) (m + sum_list (map ci_weight items)))"
proof (induction items arbitrary: f g m)
  case (Cons i rest)
  have "add_item (sums_of f n, sums_of g m) i =
     (sums_of (\<lambda>st. f st + count_in st [i]) n, sums_of (\<lambda>st. g st + weight_in st [i]) (m + ci_weight i))"
    by (cases "ci_state i") (simp_all add: add_item_def add_state_def sums_of_def count_in_def weight_in_def)
  then show ?case by (simp add: Cons.IH add.assoc) (simp add: count_in_def weight_in_def sums_of_def)
qed (simp add: count_in_def weight_in_def)

lemma report_sums:
  "cv_counts (computeCoverage items) = sums_of (\<lambda>st. count_in st items) (of_nat (length items))"
  "cv_weights (computeCoverage items) = sums_of (\<lambda>st. weight_in st items) (sum_list (map ci_weight items))"
  using add_items[of "\<lambda>_. 0" "of_nat (length items)" "\<lambda>_. 0" 0 items]
  by (simp_all add: computeCoverage_def no_sums_def sums_of_def)

lemma weights_split:
  "weight_in PROTECTED items + weight_in PARTIAL items + weight_in EXPOSED items = sum_list (map ci_weight items)"
  "count_in PROTECTED items + count_in PARTIAL items + count_in EXPOSED items = of_nat (length items)"
  by (induction items) (auto simp: weight_in_def count_in_def split: coverage_state.splits, (metis coverage_state.exhaust)+)

lemma weight_nonneg: "list_all (\<lambda>i. 0 \<le> ci_weight i) items \<Longrightarrow> 0 \<le> weight_in st items"
  by (auto simp: weight_in_def list_all_iff intro!: sum_list_nonneg)

lemma score_bounds:
  assumes "0 \<le> p" "0 \<le> q" "0 \<le> x" "p + q + x = t"
  shows "0 \<le> score_of \<lparr>cs_protected = p, cs_partial = q, cs_exposed = x, cs_total = t\<rparr>"
    and "score_of \<lparr>cs_protected = p, cs_partial = q, cs_exposed = x, cs_total = t\<rparr> \<le> 100"
proof -
  have "0 \<le> math_round (fmul (fdiv (p + 1 / 2 * q) t) 100) \<and> math_round (fmul (fdiv (p + 1 / 2 * q) t) 100) \<le> 100" if "t \<noteq> 0"
  proof -
    have t: "0 < t" using assms that by linarith
    have "0 \<le> (p + 1 / 2 * q) / t" "(p + 1 / 2 * q) / t \<le> of_int 1"
      using assms t by (auto simp: pos_divide_le_eq)
    then have d: "0 \<le> fdiv (p + 1 / 2 * q) t" "fdiv (p + 1 / 2 * q) t \<le> 1"
      unfolding fdiv_def using fl_nonneg fl_le[of _ 1] by auto
    then have "0 \<le> fdiv (p + 1 / 2 * q) t * 100" "fdiv (p + 1 / 2 * q) t * 100 \<le> of_int 100" by simp_all
    then have "of_int 0 \<le> fmul (fdiv (p + 1 / 2 * q) t) 100" "fmul (fdiv (p + 1 / 2 * q) t) 100 \<le> of_int 100"
      unfolding fmul_def using fl_nonneg fl_le[of _ 100] by auto
    then show ?thesis by (rule math_round_bounds)
  qed
  then show "0 \<le> score_of \<lparr>cs_protected = p, cs_partial = q, cs_exposed = x, cs_total = t\<rparr>"
    and "score_of \<lparr>cs_protected = p, cs_partial = q, cs_exposed = x, cs_total = t\<rparr> \<le> 100"
    by (auto simp: score_of_def)
qed


lemma sensitivity_pos: "0 < field_sensitivity c" "0 < columnSensitivity n"
  by (simp_all add: field_sensitivity_def columnSensitivity_def Let_def split: pii_classification.splits)

lemma items_positive: "i \<in> set (toCoverageItems es ev ds) \<Longrightarrow> 0 < ci_weight i"
  by (auto simp: toCoverageItems_def declared_item_def undeclared_item_def entryWeight_def discoveryWeight_def less_max_iff_disj
      split: prod.splits)

lemma no_weight_no_items:
  assumes "list_all (\<lambda>i. 0 < ci_weight i) items" and "sum_list (map ci_weight items) = 0"
  shows "items = []"
proof (cases items)
  case (Cons i rest)
  have "0 \<le> sum_list (map ci_weight rest)" using assms(1) Cons by (intro sum_list_nonneg) (auto simp: list_all_iff less_imp_le)
  then show ?thesis using assms Cons by simp
qed simp

lemma all_in_state:
  assumes "list_all (\<lambda>i. ci_state i = st) items"
  shows "weight_in st' items = (if st' = st then sum_list (map ci_weight items) else 0)"
  using assms by (auto simp: weight_in_def list_all_iff filter_empty_conv intro!: arg_cong[where f = sum_list] filter_True)

lemma coverage_extremes:
  assumes pos: "list_all (\<lambda>i. 0 < ci_weight i) items"
  shows "list_all (\<lambda>i. ci_state i = PROTECTED) items \<Longrightarrow> cv_score (computeCoverage items) = 100"
    and "items \<noteq> [] \<Longrightarrow> list_all (\<lambda>i. ci_state i = EXPOSED) items \<Longrightarrow> cv_score (computeCoverage items) = 0"
proof -
  have sc: "cv_score (computeCoverage items) = score_of (sums_of (\<lambda>st. weight_in st items) (sum_list (map ci_weight items)))"
    using report_sums(2)[of items] by (simp add: computeCoverage_def split: prod.splits)
  have one: "fl 1 = 1" "fl 100 = 100" using fl_int[of 1] fl_int[of 100] by simp_all
  show "list_all (\<lambda>i. ci_state i = PROTECTED) items \<Longrightarrow> cv_score (computeCoverage items) = 100"
    using math_round_int[of 100] by (simp add: sc score_of_def sums_of_def all_in_state fdiv_def fmul_def one)
  show "items \<noteq> [] \<Longrightarrow> list_all (\<lambda>i. ci_state i = EXPOSED) items \<Longrightarrow> cv_score (computeCoverage items) = 0"
    using no_weight_no_items[OF pos] math_round_int[of 0]
    by (auto simp: sc score_of_def sums_of_def all_in_state fdiv_def fmul_def fl_def)
qed

text \<open>
  C27. The coverage score is a percentage: it lies between 0 and 100 for every registry and every set of
  findings; it is 100 when nothing is partial or exposed and 0 when something is known and all of it is
  exposed. The report's counts and weights add up to their totals, and its list holds exactly the items,
  exposed ones first and the heavier ones first among equals.
\<close>

theorem coverage_score_bounds:
  "0 \<le> cv_score (computeCoverage (toCoverageItems es ev ds)) \<and> cv_score (computeCoverage (toCoverageItems es ev ds)) \<le> 100 \<and>
   (list_all (\<lambda>i. ci_state i = PROTECTED) (toCoverageItems es ev ds) \<longrightarrow> cv_score (computeCoverage (toCoverageItems es ev ds)) = 100) \<and>
   (toCoverageItems es ev ds \<noteq> [] \<and> list_all (\<lambda>i. ci_state i = EXPOSED) (toCoverageItems es ev ds) \<longrightarrow>
     cv_score (computeCoverage (toCoverageItems es ev ds)) = 0) \<and>
   (let c = cv_counts (computeCoverage (toCoverageItems es ev ds)); w = cv_weights (computeCoverage (toCoverageItems es ev ds)) in
     cs_protected c + cs_partial c + cs_exposed c = cs_total c \<and> cs_total c = of_nat (length (toCoverageItems es ev ds)) \<and>
     cs_protected w + cs_partial w + cs_exposed w = cs_total w \<and> cs_total w = sum_list (map ci_weight (toCoverageItems es ev ds))) \<and>
   mset (cv_items (computeCoverage (toCoverageItems es ev ds))) = mset (toCoverageItems es ev ds) \<and>
   sorted (map (\<lambda>i. (ci_state i, - ci_weight i)) (cv_items (computeCoverage (toCoverageItems es ev ds))))"
proof -
  let ?items = "toCoverageItems es ev ds"
  have pos: "list_all (\<lambda>i. 0 < ci_weight i) ?items" by (simp add: list_all_iff items_positive)
  then have nonneg: "list_all (\<lambda>i. 0 \<le> ci_weight i) ?items" by (auto simp: list_all_iff less_imp_le)
  have sc: "cv_score (computeCoverage ?items) =
      score_of \<lparr>cs_protected = weight_in PROTECTED ?items, cs_partial = weight_in PARTIAL ?items,
                cs_exposed = weight_in EXPOSED ?items, cs_total = sum_list (map ci_weight ?items)\<rparr>"
    using report_sums(2)[of ?items] by (simp add: computeCoverage_def sums_of_def split: prod.splits)
  have "cv_items (computeCoverage ?items) = sort_key (\<lambda>i. (ci_state i, - ci_weight i)) ?items"
    by (simp add: computeCoverage_def split: prod.splits)
  then show ?thesis
    using score_bounds[OF weight_nonneg[OF nonneg] weight_nonneg[OF nonneg] weight_nonneg[OF nonneg] weights_split(1)]
      coverage_extremes[OF pos] weights_split[of ?items]
    unfolding sc[symmetric] report_sums sums_of_def Let_def by auto
qed

text \<open>
  A declared resource counts as protected exactly when its deletion really is a crypto-shred: the policy
  passes, it has fields and every one of them is unreadable without the user's key, its strategy is
  CRYPTO_SHRED and its rows are linked to a user; and it counts as exposed exactly when the policy fails.
  Undeclared findings count as exposed unless a declared resource has their id.
\<close>

theorem coverage_states_exact:
  "(fst (classifyEntry e st) = PROTECTED) =
     (st = PASS \<and> pe_piiFields e \<noteq> [] \<and> list_all fieldIsShredSafe (pe_piiFields e) \<and>
      pe_deletionStrategy e = CRYPTO_SHRED \<and> truthy (pe_userIdColumn e)) \<and>
   (fst (classifyEntry e st) = EXPOSED) = (st = FAIL) \<and>
   (snd (classifyEntry e st) = []) = (fst (classifyEntry e st) = PROTECTED) \<and>
   map ci_resourceId (toCoverageItems es ev ds) =
     map pe_resourceId es @ filter (\<lambda>r. r \<notin> set (map pe_resourceId es)) (map wf_resourceId ds)"
proof -
  have "map ci_resourceId (toCoverageItems es ev ds) =
     map pe_resourceId es @ filter (\<lambda>r. r \<notin> set (map pe_resourceId es)) (map wf_resourceId ds)"
    by (simp add: toCoverageItems_def comp_def declared_item_def undeclared_item_def filter_map split: prod.splits)
  moreover have "(st = PASS) = (st \<noteq> FAIL \<and> st \<noteq> WARN)" by (cases st) auto
  ultimately show ?thesis by (auto simp: classifyEntry_def partial_reasons_def)
qed

section \<open>A concrete report\<close>

definition toy_finding :: WarehouseDiscoveryFinding where
  "toy_finding = \<lparr>wf_resourceId = ''r'', wf_system = ''bigquery'', wf_datasetId = None, wf_tableId = None, wf_registryStatus = ''UNDECLARED'',
     wf_columns = [''email''], wf_recommendedAction = None, wf_lastSeen = 0\<rparr>"

lemma coverage_score_bounds_witness:
  "cv_score (computeCoverage (toCoverageItems [] (\<lambda>_. PASS) [])) = 100 \<and>
   cv_score (computeCoverage (toCoverageItems [] (\<lambda>_. PASS) [toy_finding])) = 0"
  using coverage_score_bounds[of "[]" "\<lambda>_. PASS" "[]"] coverage_score_bounds[of "[]" "\<lambda>_. PASS" "[toy_finding]"]
  by (simp add: toCoverageItems_def undeclared_item_def)

end
