(* ===== verification/PiiRoutes.thy ===== *)
theory PiiRoutes
  imports Auth PiiCoverage
begin

text \<open>
  The registry's HTTP API: \<open>src/routes/pii-registry.ts\<close>, with the readers it is given:
  \<open>src/gcp/bigquery-schema-service.ts\<close>, \<open>src/services/pii-content-findings-lookup.ts\<close> and
  \<open>src/gcp/pii-vault-sync-trigger.ts\<close>. What BigQuery's metadata, the content scan's table, the Cloud Run
  API and the sync worker answer is an argument. A reply keeps the entries, evaluations and reports it
  shows instead of their JSON text, and leaves out the time it was sent at; a dash in a message is written as a
  hyphen.
\<close>

section \<open>Resource identifiers in a path\<close>

definition hex_value :: "char \<Rightarrow> nat option" where
  "hex_value c = (let n = char_code c in
     if 48 \<le> n \<and> n \<le> 57 then Some (n - 48)
     else if 65 \<le> n \<and> n \<le> 70 then Some (n - 55)
     else if 97 \<le> n \<and> n \<le> 102 then Some (n - 87) else None)"

text \<open>One escape \<open>%XX\<close> at the start of a string.\<close>

definition pct :: "string \<Rightarrow> (nat \<times> string) option" where
  "pct s = (case s of
     c # h # l # r \<Rightarrow> if c = CHR ''%'' then (case (hex_value h, hex_value l) of
         (Some a, Some b) \<Rightarrow> Some (16 * a + b, r) | _ \<Rightarrow> None) else None
   | _ \<Rightarrow> None)"

fun continuation :: "nat \<Rightarrow> string \<Rightarrow> (nat list \<times> string) option" where
  "continuation 0 s = Some ([], s)"
| "continuation (Suc n) s = (case pct s of
     None \<Rightarrow> None
   | Some (b, r) \<Rightarrow> if b div 64 = 2 then map_option (\<lambda>(bs, r'). (b # bs, r')) (continuation n r) else None)"

definition trailing_bytes :: "nat \<Rightarrow> nat option" where
  "trailing_bytes b = (if b div 32 = 6 then Some 1 else if b div 16 = 14 then Some 2 else if b div 8 = 30 then Some 3 else None)"

definition code_point :: "nat list \<Rightarrow> nat" where
  "code_point bs = (case bs of [] \<Rightarrow> 0 | b # r \<Rightarrow> foldl (\<lambda>acc x. acc * 64 + x mod 64) (b mod 2 ^ (6 - length r)) r)"

definition well_formed :: "nat list \<Rightarrow> bool" where
  "well_formed bs = (let c = code_point bs in
     [0x80, 0x800, 0x10000] ! (length bs - 2) \<le> c \<and> c \<le> 0x10FFFF \<and> \<not> (0xD800 \<le> c \<and> c \<le> 0xDFFF))"

lemma pct_shorter: "pct s = Some (b, r) \<Longrightarrow> length r < length s"
  by (auto simp: pct_def split: list.splits option.splits if_splits)

lemma continuation_shorter: "continuation n s = Some (bs, r) \<Longrightarrow> length r \<le> length s"
  by (induction n s arbitrary: bs r rule: continuation.induct)
    (auto split: option.splits if_splits prod.splits dest!: pct_shorter, fastforce)

text \<open>\<open>decodeURIComponent\<close>; \<open>None\<close> is the \<open>URIError\<close> it throws.\<close>

function uri_decode :: "string \<Rightarrow> string option" where
  "uri_decode s = (case s of
     [] \<Rightarrow> Some []
   | x # xs \<Rightarrow>
       if x \<noteq> CHR ''%'' then map_option (\<lambda>r. x # r) (uri_decode xs)
       else (case pct s of
          None \<Rightarrow> None
        | Some (b, r) \<Rightarrow>
            if b < 128 then map_option (\<lambda>t. char_of b # t) (uri_decode r)
            else (case trailing_bytes b of
               None \<Rightarrow> None
             | Some n \<Rightarrow> (case continuation n r of
                  None \<Rightarrow> None
                | Some (bs, r') \<Rightarrow>
                    if well_formed (b # bs) then map_option (\<lambda>t. map char_of (b # bs) @ t) (uri_decode r') else None))))"
  by pat_completeness auto
termination
  by (relation "measure length") (auto dest!: pct_shorter continuation_shorter)

declare uri_decode.simps [simp del]

definition decodeURIComponent :: "string \<Rightarrow> exn + string" where
  "decodeURIComponent s = (case uri_decode s of None \<Rightarrow> Inl (Err ''URI malformed'') | Some r \<Rightarrow> Inr r)"

lemma hex_value_digit: "n < 16 \<Longrightarrow> hex_value (hex_digit n) = Some n"
  by (auto simp: hex_value_def hex_digit_def Let_def char_code_def)

text \<open>What a client encodes into a path is what the handler reads out of it.\<close>

lemma uri_roundtrip:
  "list_all (\<lambda>c. char_code c < 128) s \<Longrightarrow> decodeURIComponent (encodeURIComponent s) = Inr s"
proof -
  assume "list_all (\<lambda>c. char_code c < 128) s"
  then have "uri_decode (encodeURIComponent s) = Some s"
  proof (induction s)
    case Nil
    then show ?case by (simp add: encodeURIComponent_def uri_decode.simps)
  next
    case (Cons c s)
    have e: "encodeURIComponent (c # s) = (if is_unreserved c then [c]
        else [CHR ''%'', hex_digit (char_code c div 16), hex_digit (char_code c mod 16)]) @ encodeURIComponent s"
      by (simp add: encodeURIComponent_def)
    show ?case
    proof (cases "is_unreserved c")
      case True
      moreover have "c \<noteq> CHR ''%''" using True by (auto simp: is_unreserved_def char_ranges)
      ultimately show ?thesis using Cons e by (subst uri_decode.simps) simp
    next
      case False
      have c: "char_code c div 16 < 16" "16 * (char_code c div 16) + char_code c mod 16 = char_code c"
        using Cons.prems by (simp_all add: div_less_iff_less_mult)
      have "pct (encodeURIComponent (c # s)) = Some (char_code c, encodeURIComponent s)"
        using False c(2) by (simp add: e pct_def hex_value_digit[OF c(1)] hex_value_digit)
      then show ?thesis using Cons False e by (subst uri_decode.simps) (simp add: char_code_def)
    qed
  qed
  then show ?thesis by (simp add: decodeURIComponent_def)
qed


section \<open>The readers\<close>

record schema_row =
  sr_column_name :: string
  sr_data_type :: string
  sr_is_nullable :: string
  sr_ordinal_position :: int

record discovered_column =
  dc_name :: string
  dc_dataType :: string
  dc_nullable :: bool
  dc_ordinalPosition :: int

text \<open>BigQuery's metadata of a table, by project, dataset and table.\<close>

record bq_metadata =
  bm_columns :: "string \<times> string \<times> string \<Rightarrow> schema_row list"
  bm_tableType :: "string \<times> string \<times> string \<Rightarrow> string option"

definition discovered_of :: "schema_row \<Rightarrow> discovered_column" where
  "discovered_of r = \<lparr>dc_name = sr_column_name r, dc_dataType = sr_data_type r, dc_nullable = (sr_is_nullable r = ''YES''),
     dc_ordinalPosition = sr_ordinal_position r\<rparr>"

definition getColumns :: "bq_metadata \<Rightarrow> string \<Rightarrow> ('z pworld_scheme, discovered_column list) eff" where
  "getColumns M resourceId =
     bnd (lift (parseBigQueryResourceId resourceId)) (\<lambda>target.
     rread (\<lambda>_. map discovered_of (sort_key sr_ordinal_position (bm_columns M target))))"

definition getTableType :: "bq_metadata \<Rightarrow> string \<Rightarrow> ('z pworld_scheme, string option) eff" where
  "getTableType M resourceId =
     bnd (lift (parseBigQueryResourceId resourceId)) (\<lambda>target. rread (\<lambda>_. bm_tableType M target))"

record content_row =
  cr_system :: string
  cr_catalog :: string
  cr_schema :: string
  cr_table :: string
  cr_column_name :: string
  cr_json_path :: "string option"
  cr_classification :: string
  cr_pattern :: string
  cr_match_count :: int
  cr_sampled_rows :: int
  cr_scanned_at :: int

record content_finding =
  cf_resourceId :: string
  cf_columnName :: string
  cf_jsonPath :: string
  cf_classification :: string
  cf_pattern :: string
  cf_matchCount :: int
  cf_sampledRows :: int
  cf_scannedAt :: int

definition content_finding_of :: "content_row \<Rightarrow> content_finding" where
  "content_finding_of r =
     \<lparr>cf_resourceId = cr_system r @ '':'' @ cr_catalog r @ ''.'' @ cr_schema r @ ''.'' @ cr_table r,
      cf_columnName = cr_column_name r, cf_jsonPath = the (cr_json_path r), cf_classification = cr_classification r,
      cf_pattern = cr_pattern r, cf_matchCount = cr_match_count r, cf_sampledRows = cr_sampled_rows r, cf_scannedAt = cr_scanned_at r\<rparr>"

text \<open>The query keeps the rows with a path, newest first, at most 200.\<close>

definition getPathLevelFindings :: "content_row list \<Rightarrow> ('z env_scheme, content_finding list) eff" where
  "getPathLevelFindings rows =
     rread (\<lambda>_. map content_finding_of
       (take 200 (sort_key (\<lambda>r. - cr_scanned_at r) (filter (\<lambda>r. cr_json_path r \<noteq> None) rows))))"

section \<open>The sync trigger\<close>

record sync_result =
  sy_status :: string
  sy_resources_queued :: int
  sy_chunks_queued :: int
  sy_errors :: "(string \<times> string) list"
  sy_runId :: "string option"

text \<open>The world with the trigger's cached address and the posts the worker has received.\<close>

record piworld = aworld +
  worker_url :: "string option"
  sync_posts :: "(string \<times> bool \<times> string option) list"

record sync_worker =
  sw_projectId :: string
  sw_region :: string
  sw_serviceName :: string
  sw_uri :: "string \<Rightarrow> string option"
  sw_reply :: "string option \<Rightarrow> sync_result"

definition resolveWorkerUrl :: "sync_worker \<Rightarrow> ('z piworld_scheme, string) eff" where
  "resolveWorkerUrl W =
     bnd (gets worker_url) (\<lambda>cached.
     if truthy cached then ret (the cached)
     else
       bnd (rread (\<lambda>_. ())) (\<lambda>_.
       bnd (rread (\<lambda>_. sw_uri W (''https://run.googleapis.com/v2/projects/'' @ sw_projectId W @ ''/locations/'' @ sw_region W @
              ''/services/'' @ sw_serviceName W))) (\<lambda>uri.
       if \<not> truthy uri then throw (Err (''Cloud Run Admin API returned no uri for service '' @ sw_serviceName W))
       else bnd (modify (\<lambda>s. s\<lparr>worker_url := uri\<rparr>)) (\<lambda>_. ret (the uri)))))"

definition trigger :: "sync_worker \<Rightarrow> string option \<Rightarrow> ('z piworld_scheme, sync_result) eff" where
  "trigger W resourceId =
     bnd (resolveWorkerUrl W) (\<lambda>workerUrl.
     bnd (rread (\<lambda>_. ())) (\<lambda>_.
     let scope = (if truthy resourceId then resourceId else None) in
     bnd (rwrite (\<lambda>s. s\<lparr>sync_posts := sync_posts s @ [(workerUrl @ ''/api/v1/pii-vault-sync'', True, scope)]\<rparr>)) (\<lambda>_.
     ret (sw_reply W scope))))"

section \<open>Options and replies\<close>

record 's pii_options =
  po_store :: "'s declaration_store option"
  po_writeToken :: "string option"
  po_discovery :: "(string \<Rightarrow> ('s, WarehouseDiscoveryFinding list) eff) option"
  po_content :: "content_row list option"
  po_schema :: "bq_metadata option"
  po_sync :: "sync_worker option"
  po_hook :: "redaction_service option"

datatype pii_reply =
    Failure nat string
  | Conflict string mutation_code
  | Rejected "declaration_error list"
  | Listing "pii_entry list"
  | OneResource pii_entry policy_evaluation
  | PolicyReport policy_status "policy_evaluation list"
  | CoverageReport coverage_report
  | WorkQueue "WarehouseDiscoveryFinding list" "content_finding list"
  | ColumnList string "discovered_column list"
  | SyncStarted sync_result
  | Saved nat pii_entry policy_evaluation "string option" "string option"
  | RemovedResource string
  | MarkedSynced string "int option"
  | MarkedAttempted string "int option"

definition pii_status :: "pii_reply \<Rightarrow> nat" where
  "pii_status r = (case r of Failure c _ \<Rightarrow> c | Conflict _ _ \<Rightarrow> 409 | Rejected _ \<Rightarrow> 400 | Saved c _ _ _ _ \<Rightarrow> c | _ \<Rightarrow> 200)"

definition tenantOf :: "http_request \<Rightarrow> string" where
  "tenantOf rq = or_else (map_option trim (rq_tenant rq)) default_tenant"

text \<open>\<open>requireWriteAuth\<close>: the reply that ends the request, if any.\<close>

definition bearer_of :: "string option \<Rightarrow> string" where
  "bearer_of authorization = (case authorization of None \<Rightarrow> []
     | Some h \<Rightarrow> if startsWith ''Bearer '' h then drop (length ''Bearer '') h else [])"

definition requireWriteAuth :: "'s pii_options \<Rightarrow> http_request \<Rightarrow> string option \<Rightarrow> pii_reply option" where
  "requireWriteAuth Q rq authorization =
     (if truthy (rq_analystEmail rq) then None
      else if \<not> truthy (po_writeToken Q) then Some (Failure 503 ''Registry write API is not enabled'')
      else if bearer_of authorization \<noteq> the (po_writeToken Q) then Some (Failure 401 ''Unauthorized'')
      else None)"

definition guarded ::
  "'s pii_options \<Rightarrow> http_request \<Rightarrow> string option \<Rightarrow> ('s, pii_reply) eff \<Rightarrow> ('s, pii_reply) eff" where
  "guarded Q rq authorization handler =
     (case requireWriteAuth Q rq authorization of Some r \<Rightarrow> ret r | None \<Rightarrow> handler)"


section \<open>Reading the registry\<close>

record list_query =
  lq_system :: "string option"
  lq_ownerConnector :: "string option"
  lq_scanEnabled :: "string option"

definition list_resources :: "http_request \<Rightarrow> list_query \<Rightarrow> ('z piworld_scheme, pii_reply) eff" where
  "list_resources rq q =
     bnd (gets registry) (\<lambda>m. ret (Listing (listEntries m
       \<lparr>f_tenantId = Some (tenantOf rq), f_system = lq_system q, f_ownerConnector = lq_ownerConnector q,
        f_scanEnabled = map_option (\<lambda>v. v = ''true'') (lq_scanEnabled q), f_actorEmail = None\<rparr>)))"

definition get_resource :: "http_request \<Rightarrow> string \<Rightarrow> ('z piworld_scheme, pii_reply) eff" where
  "get_resource rq path =
     bnd (lift (decodeURIComponent path)) (\<lambda>resourceId.
     bnd (gets registry) (\<lambda>m. ret (case getEntry m resourceId (Some (tenantOf rq)) of
         None \<Rightarrow> Failure 404 ''Resource not found in PII registry''
       | Some e \<Rightarrow> OneResource e (evaluateEntry e))))"

definition policy_rollup :: "policy_evaluation list \<Rightarrow> policy_status" where
  "policy_rollup evs =
     (if list_ex (\<lambda>v. pv_status v = FAIL) evs then FAIL else if list_ex (\<lambda>v. pv_status v = WARN) evs then WARN else PASS)"

definition get_policy :: "http_request \<Rightarrow> ('z piworld_scheme, pii_reply) eff" where
  "get_policy rq =
     bnd (gets registry) (\<lambda>m. let evs = evaluateAll m (Some (tenantOf rq)) in ret (PolicyReport (policy_rollup evs) evs))"

definition discovery_of :: "'s pii_options \<Rightarrow> string \<Rightarrow> ('s, WarehouseDiscoveryFinding list) eff" where
  "discovery_of Q tenantId = (case po_discovery Q of None \<Rightarrow> ret [] | Some f \<Rightarrow> f tenantId)"

definition get_coverage :: "'z piworld_scheme pii_options \<Rightarrow> http_request \<Rightarrow> ('z piworld_scheme, pii_reply) eff" where
  "get_coverage Q rq =
     catch
       (bnd (gets (\<lambda>s. listEntries (registry s) (no_filters\<lparr>f_tenantId := Some (tenantOf rq)\<rparr>))) (\<lambda>es.
        bnd (discovery_of Q (tenantOf rq)) (\<lambda>ds.
        ret (CoverageReport (computeCoverage (toCoverageItems es (\<lambda>e. pv_status (evaluateEntry e)) ds))))))
       (\<lambda>_. ret (Failure 500 ''Internal server error''))"

definition not_declared :: "registry \<Rightarrow> string \<Rightarrow> string \<Rightarrow> bool" where
  "not_declared m tenantId resourceId = (getEntry m resourceId (Some tenantId) = None)"

definition undeclared_content :: "'z piworld_scheme pii_options \<Rightarrow> string \<Rightarrow> ('z piworld_scheme, content_finding list) eff" where
  "undeclared_content Q tenantId =
     (case po_content Q of
        None \<Rightarrow> ret []
      | Some rows \<Rightarrow>
          catch (bnd (getPathLevelFindings rows) (\<lambda>cs.
                 bnd (gets registry) (\<lambda>m. ret (filter (\<lambda>c. not_declared m tenantId (cf_resourceId c)) cs))))
            (\<lambda>_. ret []))"

definition get_discovery :: "'z piworld_scheme pii_options \<Rightarrow> http_request \<Rightarrow> ('z piworld_scheme, pii_reply) eff" where
  "get_discovery Q rq =
     (let tenantId = tenantOf rq in
      catch
        (bnd (discovery_of Q tenantId) (\<lambda>findings.
         bnd (gets registry) (\<lambda>m.
         let undeclared = filter (\<lambda>w. not_declared m tenantId (wf_resourceId w)) findings in
         bnd (undeclared_content Q tenantId) (\<lambda>content. ret (WorkQueue undeclared content)))))
        (\<lambda>_. ret (Failure 500 ''Internal server error'')))"

definition get_schema :: "'z piworld_scheme pii_options \<Rightarrow> string option \<Rightarrow> ('z piworld_scheme, pii_reply) eff" where
  "get_schema Q resourceId =
     (if \<not> truthy resourceId then ret (Failure 400 ''resourceId query parameter is required'')
      else case po_schema Q of
        None \<Rightarrow> ret (Failure 503 ''Schema introspection is not configured'')
      | Some M \<Rightarrow>
          catch (bnd (getColumns M (the resourceId)) (\<lambda>cols. ret (ColumnList (the resourceId) cols)))
            (\<lambda>e. ret (case e of
                BadResourceId m \<Rightarrow> Failure 400 m
              | _ \<Rightarrow> Failure 502 ''Failed to read the table schema - check the resource ID and that Key Vault has access to it.'')))"

section \<open>Changing the registry\<close>

definition post_sync_now ::
  "'z piworld_scheme pii_options \<Rightarrow> http_request \<Rightarrow> string option \<Rightarrow> string option \<Rightarrow> ('z piworld_scheme, pii_reply) eff" where
  "post_sync_now Q rq authorization resourceId =
     guarded Q rq authorization
       (case po_sync Q of
          None \<Rightarrow> ret (Failure 503 ''On-demand sync is not configured'')
        | Some W \<Rightarrow> catch (bnd (trigger W resourceId) (\<lambda>r. ret (SyncStarted r)))
            (\<lambda>_. ret (Failure 502 ''Failed to reach the PII sync worker'')))"

text \<open>The two checks against BigQuery's metadata: the message of a refusal. A check that fails lets the declaration pass.\<close>

definition view_refusal :: "bq_metadata option \<Rightarrow> pii_entry \<Rightarrow> ('z pworld_scheme, string option) eff" where
  "view_refusal M e =
     (case M of
        Some M' \<Rightarrow>
          if pe_sourceRedactionStrategy e = Some REDACT_IN_PLACE \<and> pe_system e = Bigquery then
            catch (bnd (getTableType M' (pe_resourceId e)) (\<lambda>tableType.
                   ret (case tableType of
                     None \<Rightarrow> None
                   | Some ty \<Rightarrow> if ty = ''VIEW'' \<or> ty = ''MATERIALIZED VIEW'' then
                       Some (''sourceRedactionStrategy REDACT_IN_PLACE requires a real BigQuery table, but '' @ [CHR 0x22] @ pe_resourceId e @
                         [CHR 0x22] @ '' is a '' @ toLowerCase ty @ '' -- BigQuery does not allow UPDATE against a view. Use SHADOW_COPY instead, or redact-in-place against the view'' @
                         [CHR 0x27] @ ''s own underlying base table.'')
                     else None)))
              (\<lambda>_. ret None)
          else ret None
      | None \<Rightarrow> ret None)"

definition referenced_columns :: "pii_entry \<Rightarrow> string list" where
  "referenced_columns e = defined_columns [pe_userIdColumn e, pe_tenantIdColumn e] @ map pf_name (pe_piiFields e)"

definition column_refusal :: "bq_metadata option \<Rightarrow> pii_entry \<Rightarrow> ('z pworld_scheme, string option) eff" where
  "column_refusal M e =
     (let strategies = resolveSourceRedactionStrategies e in
      case M of
        Some M' \<Rightarrow>
          if strategies \<noteq> [] \<and> pe_system e = Bigquery then
            catch (bnd (getColumns M' (pe_resourceId e)) (\<lambda>columns.
                   let realNames = uniq (map dc_name columns);
                       missing = uniq (filter (\<lambda>n. n \<notin> set realNames) (referenced_columns e)) in
                   ret (if columns \<noteq> [] \<and> missing \<noteq> [] then
                       Some (''sourceRedactionStrategies ('' @ join_with '', '' (map strategy_str strategies) @ '') reference column(s) that don'' @
                         [CHR 0x27] @ ''t exist on '' @ [CHR 0x22] @ pe_resourceId e @ [CHR 0x22] @ '': '' @ join_with '', '' missing @
                         ''. This resource'' @ [CHR 0x27] @ ''s real columns are: '' @ join_with '', '' realNames @ ''.'')
                     else None)))
              (\<lambda>_. ret None)
          else ret None
      | None \<Rightarrow> ret None)"

text \<open>The hook's failure is reported, not thrown.\<close>

definition error_text :: "('s, unit) eff \<Rightarrow> ('s, string option) eff" where
  "error_text m = catch (bnd m (\<lambda>_. ret None)) (\<lambda>e. ret (if message_of e = [] then None else Some (message_of e)))"

definition save_declaration ::
  "'z pworld_scheme pii_options \<Rightarrow> bool \<Rightarrow> pii_entry \<Rightarrow> ('z pworld_scheme, pii_reply) eff" where
  "save_declaration Q created entry =
     catch
       (bnd (upsertEntry (po_store Q) entry) (\<lambda>saved.
        bnd (error_text (case po_hook Q of None \<Rightarrow> ret () | Some V \<Rightarrow> ensureShadowCopy V saved)) (\<lambda>shadowCopyError.
        bnd (error_text (case po_hook Q of None \<Rightarrow> ret () | Some V \<Rightarrow> ensureEncryptedCopyTable saved)) (\<lambda>encryptedCopyError.
        ret (Saved (if created then 201 else 200) saved (evaluateEntry saved) shadowCopyError encryptedCopyError)))))
       (\<lambda>e. ret (case e of MutationErr m c \<Rightarrow> Conflict m c | _ \<Rightarrow> Failure 500 ''Failed to persist declaration''))"

definition upsert ::
  "'z pworld_scheme pii_options \<Rightarrow> http_request \<Rightarrow> declaration_input \<Rightarrow> string option \<Rightarrow> ('z pworld_scheme, pii_reply) eff" where
  "upsert Q rq decl resourceIdFromPath =
     (let tenantId = tenantOf rq;
          input = (if truthy resourceIdFromPath then decl\<lparr>di_resourceId := resourceIdFromPath\<rparr> else decl) in
      bnd (gets (\<lambda>s. if truthy (di_resourceId input) then getEntry (registry s) (the (di_resourceId input)) (Some tenantId) else None)) (\<lambda>existing.
      if truthy resourceIdFromPath \<and> (case existing of None \<Rightarrow> False | Some e \<Rightarrow> pe_ownerConnector e \<noteq> MANUAL_OWNER_CONNECTOR) then
        ret (Failure 409 ''This resource is platform-managed and cannot be edited'')
      else
        bnd (gets now) (\<lambda>t.
        case buildManualEntry input tenantId t existing (rq_analystEmail rq) of
          Inl errors \<Rightarrow> ret (Rejected errors)
        | Inr entry \<Rightarrow>
            bnd (view_refusal (po_schema Q) entry) (\<lambda>v. case v of Some m \<Rightarrow> ret (Failure 400 m) | None \<Rightarrow>
            bnd (column_refusal (po_schema Q) entry) (\<lambda>c. case c of Some m \<Rightarrow> ret (Failure 400 m) | None \<Rightarrow>
            save_declaration Q (\<not> truthy resourceIdFromPath \<and> existing = None) entry)))))"

definition post_resource ::
  "'z piworld_scheme pii_options \<Rightarrow> http_request \<Rightarrow> string option \<Rightarrow> declaration_input \<Rightarrow> ('z piworld_scheme, pii_reply) eff" where
  "post_resource Q rq authorization decl = guarded Q rq authorization (upsert Q rq decl None)"

definition put_resource ::
  "'z piworld_scheme pii_options \<Rightarrow> http_request \<Rightarrow> string option \<Rightarrow> string \<Rightarrow> declaration_input \<Rightarrow> ('z piworld_scheme, pii_reply) eff" where
  "put_resource Q rq authorization path decl =
     guarded Q rq authorization
       (bnd (lift (decodeURIComponent path)) (\<lambda>resourceId. upsert Q rq decl (Some resourceId)))"

text \<open>\<open>RegistryMutationError\<close> is a conflict, anything else a failure.\<close>

definition mutation_error :: "string \<Rightarrow> exn \<Rightarrow> ('s, pii_reply) eff" where
  "mutation_error m e = ret (case e of MutationErr t c \<Rightarrow> Conflict t c | _ \<Rightarrow> Failure 500 m)"

definition delete_resource ::
  "'z piworld_scheme pii_options \<Rightarrow> http_request \<Rightarrow> string option \<Rightarrow> string \<Rightarrow> ('z piworld_scheme, pii_reply) eff" where
  "delete_resource Q rq authorization path =
     guarded Q rq authorization
       (bnd (lift (decodeURIComponent path)) (\<lambda>resourceId.
        bnd (gets (\<lambda>s. getEntry (registry s) resourceId (Some (tenantOf rq)))) (\<lambda>existingBeforeRemoval.
        catch
          (bnd (removeEntry (po_store Q) resourceId (tenantOf rq)) (\<lambda>removed.
           if \<not> removed then ret (Failure 404 ''No manual declaration found for this tenant'')
           else
             bnd (case existingBeforeRemoval of None \<Rightarrow> ret () | Some e \<Rightarrow>
                    (case po_hook Q of None \<Rightarrow> ret () | Some _ \<Rightarrow> swallow (dropShadowCopyIfExists e))) (\<lambda>_.
             ret (RemovedResource resourceId))))
          (mutation_error ''Failed to remove declaration''))))"

text \<open>The date parser of the language on a body's string, \<open>None\<close> for no or an invalid date.\<close>

definition post_mark_synced ::
  "'z piworld_scheme pii_options \<Rightarrow> http_request \<Rightarrow> string option \<Rightarrow> string \<Rightarrow> int option \<Rightarrow> ('z piworld_scheme, pii_reply) eff" where
  "post_mark_synced Q rq authorization path lastSyncedAt =
     guarded Q rq authorization
       (case lastSyncedAt of
          None \<Rightarrow> ret (Failure 400 ''lastSyncedAt must be a valid ISO8601 timestamp'')
        | Some t \<Rightarrow>
            catch
              (bnd (lift (decodeURIComponent path)) (\<lambda>resourceId.
               bnd (markResourceSynced (po_store Q) resourceId (tenantOf rq) t) (\<lambda>updated. ret (case updated of
                 None \<Rightarrow> Failure 404 ''No manual declaration found for this tenant''
               | Some e \<Rightarrow> MarkedSynced (pe_resourceId e) (pe_lastSyncedAt e)))))
              (mutation_error ''Failed to advance sync watermark''))"

definition post_mark_attempted ::
  "'z piworld_scheme pii_options \<Rightarrow> http_request \<Rightarrow> string option \<Rightarrow> string \<Rightarrow> int option \<Rightarrow> ('z piworld_scheme, pii_reply) eff" where
  "post_mark_attempted Q rq authorization path lastSyncAttemptAt =
     guarded Q rq authorization
       (case lastSyncAttemptAt of
          None \<Rightarrow> ret (Failure 400 ''lastSyncAttemptAt must be a valid ISO8601 timestamp'')
        | Some t \<Rightarrow>
            catch
              (bnd (lift (decodeURIComponent path)) (\<lambda>resourceId.
               bnd (markResourceSyncAttempted (po_store Q) resourceId (tenantOf rq) t) (\<lambda>updated. ret (case updated of
                 None \<Rightarrow> Failure 404 ''No manual declaration found for this tenant''
               | Some e \<Rightarrow> MarkedAttempted (pe_resourceId e) (pe_lastSyncAttemptAt e)))))
              (mutation_error ''Failed to record sync attempt''))"

section \<open>Who changes the registry\<close>

text \<open>
  C9. Whatever credential admits a request, the registry's write routes answer 401 or 503 and change nothing
  unless the request carries the write token: also an analyst's credential, which the allowlist lets through
  to them, since the identity that the first hook resolved is gone when the write check looks for it.
\<close>

theorem registry_writes_gated:
  assumes adm: "admit A key uuid H s0 = (Inr (Some rq), s)"
    and no: "\<not> truthy (po_writeToken Q) \<or> bearer_of auth \<noteq> the (po_writeToken Q)"
  shows "\<exists>c m. c \<in> {401, 503} \<and>
    post_sync_now Q rq auth r s = (Inr (Failure c m), s) \<and>
    post_resource Q rq auth d s = (Inr (Failure c m), s) \<and>
    put_resource Q rq auth p d s = (Inr (Failure c m), s) \<and>
    delete_resource Q rq auth p s = (Inr (Failure c m), s) \<and>
    post_mark_synced Q rq auth p t s = (Inr (Failure c m), s) \<and>
    post_mark_attempted Q rq auth p t s = (Inr (Failure c m), s)"
proof -
  have "\<not> truthy (rq_analystEmail rq)" using attribution_lost[OF adm] by (simp add: truthy_def)
  then have "\<exists>c m. c \<in> {401, 503} \<and> requireWriteAuth Q rq auth = Some (Failure c m)"
    using no by (auto simp: requireWriteAuth_def)
  then show ?thesis
    by (auto simp: guarded_def post_sync_now_def post_resource_def put_resource_def delete_resource_def post_mark_synced_def
        post_mark_attempted_def)
qed

section \<open>Declaring\<close>

lemma entries_timeless: "timeless (\<lambda>s. registry s = m \<and> decl_docs s = D)"
  by (simp add: timeless_def)

lemma entries_bq_free: "bq_free (\<lambda>s. registry s = m \<and> decl_docs s = D)"
  by (simp add: bq_free_def timeless_def)

lemma keeps_view_refusal [keeps_intros]: "timeless P \<Longrightarrow> keeps P (view_refusal M e)"
  unfolding view_refusal_def getTableType_def by (intro keeps_intros)

lemma keeps_column_refusal [keeps_intros]: "timeless P \<Longrightarrow> keeps P (column_refusal M e)"
  unfolding column_refusal_def getColumns_def Let_def by (intro keeps_intros)

lemma keeps_error_text [keeps_intros]: "keeps P m \<Longrightarrow> keeps P (error_text m)"
  unfolding error_text_def by (intro keeps_intros)

lemma error_text_runs: "\<exists>x t. error_text m s = (Inr x, t)"
  by (auto simp: error_text_def catch_apply bnd_apply split: prod.splits sum.splits)

lemma save_cases:
  fixes s :: "'z pworld_scheme"
  assumes run: "save_declaration Q created e s = (Inr r, s')" and st: "po_store Q = Some (firestore_store mirrored)"
    and t: "pe_tenantId e = Some t"
  shows "(\<exists>x y. r = Saved (if created then 201 else 200) e (evaluateEntry e) x y) \<and>
      registry s' = AList.update (keyOf (Some t) (pe_resourceId e)) e (registry s) \<and>
      decl_of t (pe_resourceId e) s' = Some (merge_entry e (decl_of t (pe_resourceId e) s)) \<or>
    (\<exists>c m. r = Failure c m) \<and> registry s' = registry s \<or> (\<exists>m c. r = Conflict m c) \<and> registry s' = registry s"
proof -
  obtain a w where up: "upsertEntry (Some (firestore_store mirrored)) e s = (a, w)" by fastforce
  show ?thesis
  proof (cases a)
    case (Inl x)
    then have "registry w = registry s" using fs.upsert_cases[OF up] by auto
    then show ?thesis using run up Inl st
      by (cases x) (auto simp: save_declaration_def catch_apply bnd_apply)
  next
    case (Inr e')
    with fs.upsert_cases[OF up] t have e': "e' = e"
      and w: "registry w = AList.update (keyOf (Some t) (pe_resourceId e)) e (registry s)" by auto
    have d: "decl_of t (pe_resourceId e) w = Some (merge_entry e (decl_of t (pe_resourceId e) s))"
      using declaration_durable[OF up] Inr t by auto
    let ?sh = "error_text (case po_hook Q of None \<Rightarrow> ret () | Some V \<Rightarrow> ensureShadowCopy V e) :: ('z pworld_scheme, string option) eff"
    let ?en = "error_text (case po_hook Q of None \<Rightarrow> ret () | Some V \<Rightarrow> ensureEncryptedCopyTable e) :: ('z pworld_scheme, string option) eff"
    obtain x v where sh: "?sh w = (Inr x, v)" by (metis error_text_runs)
    obtain y u where en: "?en v = (Inr y, u)" by (metis error_text_runs)
    have ksh: "keeps (\<lambda>s. registry s = registry w \<and> decl_docs s = decl_docs w) ?sh"
      and ken: "keeps (\<lambda>s. registry s = registry w \<and> decl_docs s = decl_docs w) ?en"
      by (intro keeps_intros entries_bq_free)+
    have "registry v = registry w \<and> decl_docs v = decl_docs w" by (rule keepsE[OF ksh _ sh]) simp
    from keepsE[OF ken this en] have "registry u = registry w" "decl_docs u = decl_docs w" by simp_all
    moreover have "save_declaration Q created e s = (Inr (Saved (if created then 201 else 200) e (evaluateEntry e) x y), u)"
      using up Inr e' st sh en by (simp add: save_declaration_def catch_apply bnd_apply)
    ultimately show ?thesis using run w d by (auto simp: decl_of_def)
  qed
qed

lemma built_entry:
  assumes "buildManualEntry i t n ex a = Inr e"
  shows "pe_ownerConnector e = MANUAL_OWNER_CONNECTOR" "pe_tenantId e = Some t" "pe_resourceId e = the (di_resourceId i)"
    "isNonEmptyString (di_resourceId i)"
proof -
  have none: "declaration_errors i t = []" and e: "e = manual_entry i t n ex a"
    using assms by (auto simp: buildManualEntry_def Let_def split: if_splits)
  show "isNonEmptyString (di_resourceId i)"
    using none by (auto simp: declaration_errors_def simp del: imp_disjL split: if_splits)
  show "pe_ownerConnector e = MANUAL_OWNER_CONNECTOR" "pe_tenantId e = Some t" "pe_resourceId e = the (di_resourceId i)"
    by (simp_all add: e manual_entry_def)
qed

lemma built_from:
  assumes "buildManualEntry i t n ex a = Inr e"
  shows "acceptable i t" "carries i e" "pe_updatedAt e = Some n" "pe_lastModifiedBy e = a"
    "pe_createdAt e = (case Option.bind ex pe_createdAt of Some c \<Rightarrow> Some c | None \<Rightarrow> Some n)"
    "pe_declaredBy e = (case Option.bind ex pe_declaredBy of Some d \<Rightarrow> Some d | None \<Rightarrow> a)"
proof -
  have none: "declaration_errors i t = []" and e: "e = manual_entry i t n ex a"
    using assms by (auto simp: buildManualEntry_def Let_def split: if_splits)
  show ok: "acceptable i t" using none by (simp add: no_errors_iff)
  show "carries i e" unfolding e by (rule carries_manual[OF ok])
qed (use assms in \<open>auto simp: buildManualEntry_def Let_def manual_entry_def split: if_splits\<close>)

text \<open>An entry that was built is refused, or saved in a world with the same registry.\<close>

lemma checked_save:
  fixes s :: "'z piworld_scheme"
  assumes rest: "bnd (view_refusal (po_schema Q) e) (\<lambda>v. case v of Some m \<Rightarrow> ret (Failure 400 m) | None \<Rightarrow>
      bnd (column_refusal (po_schema Q) e) (\<lambda>c. case c of Some m \<Rightarrow> ret (Failure 400 m) | None \<Rightarrow>
      save_declaration Q created e)) s = (Inr r, s')"
  obtains m where "r = Failure 400 m" and "registry s' = registry s"
    | w where "registry w = registry s" and "decl_docs w = decl_docs s" and "save_declaration Q created e w = (Inr r, s')"
proof -
  obtain v u where v: "view_refusal (po_schema Q) e s = (Inr v, u)"
    and rest': "(case v of Some m \<Rightarrow> ret (Failure 400 m) | None \<Rightarrow>
        bnd (column_refusal (po_schema Q) e) (\<lambda>c. case c of Some m \<Rightarrow> ret (Failure 400 m) | None \<Rightarrow>
        save_declaration Q created e)) u = (Inr r, s')"
    using rest by (rule bnd_InrE)
  have u: "registry u = registry s \<and> decl_docs u = decl_docs s"
    by (rule keepsE[OF keeps_view_refusal[OF entries_timeless] _ v]) simp
  show thesis
  proof (cases v)
    case (Some m)
    show thesis by (rule that(1)[of m]) (use rest' u Some in auto)
  next
    case None
    then obtain c w where c: "column_refusal (po_schema Q) e u = (Inr c, w)"
      and rest'': "(case c of Some m \<Rightarrow> ret (Failure 400 m) | None \<Rightarrow> save_declaration Q created e) w = (Inr r, s')"
      using rest' by (simp only: option.case) (erule bnd_InrE)
    have w: "registry w = registry s \<and> decl_docs w = decl_docs s"
      by (rule keepsE[OF keeps_column_refusal[OF entries_timeless] u c])
    show thesis
    proof (cases c)
      case (Some m)
      show thesis by (rule that(1)[of m]) (use rest'' w Some in auto)
    next
      case None
      show thesis by (rule that(2)[OF conjunct1[OF w] conjunct2[OF w]]) (use rest'' None in simp)
    qed
  qed
qed

text \<open>
  C12. A declaration is answered as saved only if it is acceptable, and what is saved is what was submitted: the entry
  carries every item of the body (the path's id where the path names one), defaults where it is silent, the caller's
  tenant, the instant and the caller's identity, and keeps creation instant and author of an entry that was there. The
  registry then holds exactly that entry under tenant and id, everything else in it is as it was, the stored document
  holds its merge with the document before, GET on the encoded id answers with it and its policy evaluation, and the
  answer is 201 exactly when the id was not known to the tenant before. A declaration answered with a list of errors
  was not acceptable; and any other answer than saved leaves the registry alone.
\<close>

theorem declaration_saved:
  fixes s :: "'z piworld_scheme"
  assumes run: "upsert Q rq decl path s = (Inr r, s')" and st: "po_store Q = Some (firestore_store mirrored)"
  defines "submitted \<equiv> (if truthy path then decl\<lparr>di_resourceId := path\<rparr> else decl)"
  shows "case r of
      Saved c e ev x y \<Rightarrow>
        acceptable submitted (tenantOf rq) \<and> carries submitted e \<and>
        pe_tenantId e = Some (tenantOf rq) \<and> pe_ownerConnector e = MANUAL_OWNER_CONNECTOR \<and>
        pe_updatedAt e = Some (now s) \<and> pe_lastModifiedBy e = rq_analystEmail rq \<and>
        (case getEntry (registry s) (pe_resourceId e) (Some (tenantOf rq)) of
           None \<Rightarrow> pe_createdAt e = Some (now s) \<and> pe_declaredBy e = rq_analystEmail rq
         | Some old \<Rightarrow> (pe_createdAt old \<noteq> None \<longrightarrow> pe_createdAt e = pe_createdAt old) \<and>
             (pe_declaredBy old \<noteq> None \<longrightarrow> pe_declaredBy e = pe_declaredBy old)) \<and>
        ev = evaluateEntry e \<and>
        registry s' = AList.update (keyOf (Some (tenantOf rq)) (pe_resourceId e)) e (registry s) \<and>
        decl_of (tenantOf rq) (pe_resourceId e) s' = Some (merge_entry e (decl_of (tenantOf rq) (pe_resourceId e) s)) \<and>
        (c = 201) = (\<not> truthy path \<and> getEntry (registry s) (pe_resourceId e) (Some (tenantOf rq)) = None) \<and>
        (list_all (\<lambda>c. char_code c < 128) (pe_resourceId e) \<longrightarrow>
          get_resource rq (encodeURIComponent (pe_resourceId e)) s' = (Inr (OneResource e ev), s'))
    | Rejected errs \<Rightarrow> \<not> acceptable submitted (tenantOf rq) \<and> registry s' = registry s
    | _ \<Rightarrow> registry s' = registry s"
proof -
  let ?t = "tenantOf rq"
  define ex where "ex = (if truthy (di_resourceId submitted) then getEntry (registry s) (the (di_resourceId submitted)) (Some ?t) else None)"
  show ?thesis
  proof (cases "truthy path \<and> (case ex of None \<Rightarrow> False | Some e \<Rightarrow> pe_ownerConnector e \<noteq> MANUAL_OWNER_CONNECTOR)")
    case True
    then show ?thesis using run unfolding upsert_def Let_def submitted_def[symmetric]
      by (auto simp: bnd_apply ex_def[symmetric])
  next
    case False
    show ?thesis
    proof (cases "buildManualEntry submitted ?t (now s) ex (rq_analystEmail rq)")
      case (Inl errs)
      then have "\<not> acceptable submitted ?t"
        by (auto simp: no_errors_iff[symmetric] buildManualEntry_def Let_def split: if_splits)
      then show ?thesis using run False Inl unfolding upsert_def Let_def submitted_def[symmetric]
        by (auto simp: bnd_apply ex_def[symmetric] if_not_P)
    next
      case (Inr e)
      note b = built_entry[OF Inr]
      have rest: "bnd (view_refusal (po_schema Q) e) (\<lambda>v. case v of Some m \<Rightarrow> ret (Failure 400 m) | None \<Rightarrow>
            bnd (column_refusal (po_schema Q) e) (\<lambda>c. case c of Some m \<Rightarrow> ret (Failure 400 m) | None \<Rightarrow>
            save_declaration Q (\<not> truthy path \<and> ex = None) e)) s = (Inr r, s')"
        using run False Inr unfolding upsert_def Let_def submitted_def[symmetric]
        by (simp add: bnd_apply[of "gets f" for f] ex_def[symmetric] if_not_P)
      from rest show ?thesis
      proof (cases rule: checked_save)
        case (1 m)
        then show ?thesis by simp
      next
        case (2 w)
        have k: "getEntry (registry s') (pe_resourceId e) (Some ?t) = Some e"
          if "registry s' = AList.update (keyOf (Some ?t) (pe_resourceId e)) e (registry w)"
          using that by (simp add: getEntry_def update_conv')
        have ne: "pe_resourceId e \<noteq> []" using b(3,4)
          by (auto simp: isNonEmptyString_def trim_def split: option.splits)
        then have ex: "ex = getEntry (registry s) (pe_resourceId e) (Some ?t)"
          using b(3,4) by (auto simp: ex_def truthy_def isNonEmptyString_def split: option.splits)
        note made = built_from[OF Inr]
        from save_cases[OF 2(3) st b(2)] show ?thesis
          using b made 2(1,2) k ex uri_roundtrip[of "pe_resourceId e"]
          by (auto simp: get_resource_def bnd_apply decl_of_def split: option.splits)
      qed
    qed
  qed
qed

text \<open>
  The refusal of views looks at the legacy strategy field alone: a declaration that names the strategy in the
  array, as the console does, passes it even if the table is known to be a view.
\<close>

lemma view_guard_bypassed:
  assumes "resolveSourceRedactionStrategies e = [REDACT_IN_PLACE]" and "pe_sourceRedactionStrategy e = Some NONE"
    and "bm_tableType M t = Some ''VIEW''"
  shows "view_refusal (Some M) e s = (Inr None, s)"
  using assms(2) by (simp add: view_refusal_def)

lemma view_refused:
  assumes "pe_sourceRedactionStrategy e = Some REDACT_IN_PLACE" "pe_system e = Bigquery" "outcomes s = []"
    and "parseBigQueryResourceId (pe_resourceId e) = Inr x" "bm_tableType M x = Some ''VIEW''"
  shows "\<exists>m. view_refusal (Some M) e s = (Inr (Some m), s)"
  using assms by (simp add: view_refusal_def getTableType_def catch_apply bnd_apply no_faults)

section \<open>A concrete declaration\<close>

definition toy_piworld :: piworld where
  "toy_piworld = aworld.extend (toy_aworld toy_session) (piworld.fields None [])"

definition toy_options :: "piworld pii_options" where
  "toy_options = \<lparr>po_store = Some (firestore_store False), po_writeToken = Some ''w'', po_discovery = None, po_content = None,
     po_schema = None, po_sync = None, po_hook = None\<rparr>"

lemmas toy_piworld_defs = toy_piworld_def piworld.defs aworld.defs toy_aworld_def

definition toy_saved :: pii_entry where
  "toy_saved = manual_entry toy_declaration ''t'' 5000 None None"

lemma toy_declared_reply:
  "\<exists>ev x y s'. upsert toy_options toy_rq toy_declaration None toy_piworld = (Inr (Saved 201 toy_saved ev x y), s')"
proof -
  have w: "registry toy_piworld = []" "now toy_piworld = 5000" "outcomes toy_piworld = []"
    by (simp_all add: toy_piworld_defs toy_dworld_defs toy_registry_world_def)
  have t: "tenantOf toy_rq = ''t''"
    by (simp add: tenantOf_def toy_rq_def or_else_def truthy_def trim_def is_space_def)
  have "declaration_errors toy_declaration ''t'' = []"
    by (simp add: declaration_errors_def toy_declaration_def isNonEmptyString_def trim_def is_space_def resource_form_def
        char_ranges Let_def SYSTEMS_def bad_def strategy_errors_def requested_strategies_def ARRAY_STRATEGIES_def field_errors_def)
  then have b: "buildManualEntry toy_declaration ''t'' 5000 None None = Inr toy_saved"
    by (simp add: buildManualEntry_def Let_def toy_saved_def)
  have e: "pe_ownerConnector toy_saved = MANUAL_OWNER_CONNECTOR" "pe_tenantId toy_saved = Some ''t''"
    by (simp_all add: toy_saved_def manual_entry_def)
  have "\<exists>s'. upsertEntry (po_store toy_options) toy_saved toy_piworld = (Inr toy_saved, s')"
    using e w by (simp add: upsertEntry_def toy_options_def truthy_def firestore_store_def repo_upsert_def bnd_apply no_faults set_entry_def modify_def Let_def)
  then obtain s' where up: "upsertEntry (po_store toy_options) toy_saved toy_piworld = (Inr toy_saved, s')" by blast
  have "save_declaration toy_options True toy_saved toy_piworld = (Inr (Saved 201 toy_saved (evaluateEntry toy_saved) None None), s')"
    using up by (simp add: save_declaration_def catch_apply bnd_apply error_text_def toy_options_def)
  moreover have "getEntry [] i tn = None" for i tn by (simp add: getEntry_def getEntries_def split: option.splits)
  ultimately show ?thesis
    using b w t
    by (simp add: upsert_def Let_def bnd_apply view_refusal_def column_refusal_def toy_options_def toy_rq_def truthy_def)
qed

lemma declaration_saved_witness:
  "\<exists>s' :: piworld. get_resource toy_rq (encodeURIComponent ''bigquery:p.d.t'') s' = (Inr (OneResource toy_saved (evaluateEntry toy_saved)), s') \<and>
     registry s' = [(keyOf (Some ''t'') ''bigquery:p.d.t'', toy_saved)]"
proof -
  obtain ev x y s' where run: "upsert toy_options toy_rq toy_declaration None toy_piworld = (Inr (Saved 201 toy_saved ev x y), s')"
    using toy_declared_reply by blast
  have w: "registry toy_piworld = []"
    by (simp add: toy_piworld_defs toy_dworld_defs toy_registry_world_def)
  have t: "tenantOf toy_rq = ''t''"
    by (simp add: tenantOf_def toy_rq_def or_else_def truthy_def trim_def is_space_def)
  have r: "pe_resourceId toy_saved = ''bigquery:p.d.t''" by (simp add: toy_saved_def manual_entry_def toy_declaration_def)
  have st: "po_store toy_options = Some (firestore_store False)" by (simp add: toy_options_def)
  show ?thesis using declaration_saved[OF run st] w t r by (auto simp: char_code_def)
qed

lemma registry_writes_gated_witness:
  "\<exists>rq s c m. admit toy_access None ''uuid'' toy_headers toy_piworld = (Inr (Some rq), s) \<and>
     post_resource toy_options rq None toy_declaration s = (Inr (Failure c m), s) \<and> c \<in> {401, 503}"
proof -
  have "\<exists>rq s. admit toy_access None ''uuid'' toy_headers toy_piworld = (Inr (Some rq), s)"
    by (simp add: admit_def on_request_def bnd_apply pre_handler_def truthy_def)
  then obtain rq s where adm: "admit toy_access None ''uuid'' toy_headers toy_piworld = (Inr (Some rq), s)" by blast
  have "\<not> truthy (po_writeToken toy_options) \<or> bearer_of None \<noteq> the (po_writeToken toy_options)"
    by (simp add: toy_options_def bearer_of_def)
  from registry_writes_gated[OF adm this] adm show ?thesis by blast
qed

end
