(* ===== verification/AuditRoutes.thy ===== *)
theory AuditRoutes
  imports PiiRoutes
begin

text \<open>
  The audit routes: \<open>src/routes/audit.ts\<close>, \<open>src/routes/auditor-verify.ts\<close> and
  \<open>src/services/deletion-evidence.ts\<close>. ISO time stamps are instants; hours are doubles (theory Doubles). The comparator
  of the event lists never returns 0, so the order \<open>sort\<close> leaves elements in is up to the engine whenever two
  instants are equal: the sorting function is an argument, of which only what the language promises is assumed.
\<close>

section \<open>Events\<close>

datatype audit_type = PII_REGISTRY_DECLARED | PII_REGISTRY_MODIFIED | DELETION_REQUESTED

record audit_event =
  ae_type :: audit_type
  ae_resourceId :: string
  ae_actorEmail :: string
  ae_tenantId :: "string option"
  ae_timestamp :: int

definition declared_event :: "pii_entry \<Rightarrow> string option \<Rightarrow> audit_event list" where
  "declared_event e actorFilter =
     (case (pe_declaredBy e, pe_createdAt e) of
        (Some a, Some t) \<Rightarrow>
          if a \<noteq> [] \<and> (\<not> truthy actorFilter \<or> Some a = actorFilter) then
            [\<lparr>ae_type = PII_REGISTRY_DECLARED, ae_resourceId = pe_resourceId e, ae_actorEmail = a, ae_tenantId = pe_tenantId e, ae_timestamp = t\<rparr>]
          else []
      | _ \<Rightarrow> [])"

definition modified_event :: "pii_entry \<Rightarrow> string option \<Rightarrow> audit_event list" where
  "modified_event e actorFilter =
     (case (pe_lastModifiedBy e, pe_updatedAt e) of
        (Some a, Some t) \<Rightarrow>
          if a \<noteq> [] \<and> (\<not> truthy actorFilter \<or> Some a = actorFilter) \<and> Some t \<noteq> pe_createdAt e then
            [\<lparr>ae_type = PII_REGISTRY_MODIFIED, ae_resourceId = pe_resourceId e, ae_actorEmail = a, ae_tenantId = pe_tenantId e, ae_timestamp = t\<rparr>]
          else []
      | _ \<Rightarrow> [])"

definition eventsForRegistryEntry :: "pii_entry \<Rightarrow> string option \<Rightarrow> audit_event list" where
  "eventsForRegistryEntry e actorFilter = declared_event e actorFilter @ modified_event e actorFilter"

definition eventForDeletionRequest :: "deletion_request \<Rightarrow> audit_event option" where
  "eventForDeletionRequest request =
     (case q_requested_by request of
        None \<Rightarrow> None
      | Some a \<Rightarrow> if a = [] then None else
          Some \<lparr>ae_type = DELETION_REQUESTED, ae_resourceId = q_user_id request, ae_actorEmail = a, ae_tenantId = q_tenant_id request,
             ae_timestamp = q_created_at request\<rparr>)"

definition MAX_PAGE_SIZE :: nat where
  "MAX_PAGE_SIZE = 200"

definition DEFAULT_PAGE_SIZE :: nat where
  "DEFAULT_PAGE_SIZE = 50"

text \<open>\<open>Number(raw)\<close>, \<open>None\<close> if it is not finite; \<open>slice\<close> drops the fraction.\<close>

definition parsePageSize :: "rat option \<Rightarrow> rat" where
  "parsePageSize parsed = (case parsed of
     None \<Rightarrow> of_nat DEFAULT_PAGE_SIZE
   | Some n \<Rightarrow> if n \<le> 0 then of_nat DEFAULT_PAGE_SIZE else min n (of_nat MAX_PAGE_SIZE))"

definition slice0 :: "rat \<Rightarrow> 'a list \<Rightarrow> 'a list" where
  "slice0 n xs = take (nat \<lfloor>n\<rfloor>) xs"

datatype audit_reply =
    AuditFailed nat string
  | ActorTrail string "audit_event list"
  | ResourceTrail string "audit_event list"

type_synonym event_sort = "audit_event list \<Rightarrow> audit_event list"

definition get_audit_actor :: "event_sort \<Rightarrow> http_request \<Rightarrow> string \<Rightarrow> rat option \<Rightarrow> ('z pworld_scheme, audit_reply) eff" where
  "get_audit_actor srt rq email limit =
     (let tenantId = tenant_of rq in
      catch
        (bnd (gets (\<lambda>s. concat (map (\<lambda>e. eventsForRegistryEntry e (Some email))
                 (listEntries (registry s) (no_filters\<lparr>f_tenantId := Some tenantId, f_actorEmail := Some email\<rparr>))))) (\<lambda>registryEvents.
         bnd (listByRequestedBy email tenantId MAX_PAGE_SIZE None) (\<lambda>deletionRequests.
         let deletionEvents = List.map_filter eventForDeletionRequest deletionRequests;
             events = slice0 (parsePageSize limit) (srt (registryEvents @ deletionEvents)) in
         ret (ActorTrail email events))))
        (\<lambda>_. ret (AuditFailed 500 ''Failed to load audit trail'')))"

definition get_audit_resource :: "event_sort \<Rightarrow> http_request \<Rightarrow> string \<Rightarrow> ('z pworld_scheme, audit_reply) eff" where
  "get_audit_resource srt rq path =
     catch
       (bnd (lift (decodeURIComponent path)) (\<lambda>resourceId.
        bnd (gets (\<lambda>s. getEntry (registry s) resourceId (Some (tenant_of rq)))) (\<lambda>entry. ret (case entry of
            None \<Rightarrow> AuditFailed 404 ''No registry entry found for this resource''
          | Some e \<Rightarrow> ResourceTrail (pe_resourceId e) (srt (eventsForRegistryEntry e None))))))
       (\<lambda>_. ret (AuditFailed 500 ''Failed to load audit trail''))"

section \<open>The deletion evidence of a period\<close>

record incomplete_request =
  ir_id :: string
  ir_userId :: string
  ir_status :: request_status
  ir_createdAt :: int
  ir_ageHours :: rat

record evidence_report =
  er_totalRequests :: nat
  er_certificateIssued :: nat
  er_incomplete :: "incomplete_request list"
  er_partialFailures :: nat
  er_median :: "rat option"

definition hoursBetween :: "int \<Rightarrow> int \<Rightarrow> rat" where
  "hoursBetween t0 t1 = fdiv (of_int (t1 - t0)) 3600000"

definition median :: "rat list \<Rightarrow> rat option" where
  "median values =
     (if values = [] then None
      else (let sorted = sort values; mid = length sorted div 2 in
        Some (if even (length sorted) then fdiv (fadd (sorted ! (mid - 1)) (sorted ! mid)) 2 else sorted ! mid)))"

definition incomplete_of :: "int \<Rightarrow> deletion_request \<Rightarrow> incomplete_request" where
  "incomplete_of t request =
     \<lparr>ir_id = q_id request, ir_userId = q_user_id request, ir_status = q_status request, ir_createdAt = q_created_at request,
      ir_ageHours = fdiv (of_int (math_round (fmul (hoursBetween (q_created_at request) t) 10))) 10\<rparr>"

record evidence_sums =
  es_incomplete :: "incomplete_request list"
  es_times :: "rat list"
  es_issued :: nat
  es_partial :: nat

definition add_request :: "int \<Rightarrow> evidence_sums \<Rightarrow> deletion_request \<Rightarrow> evidence_sums" where
  "add_request t a request =
     (let a1 = (if q_status request = CASCADE_PARTIAL_FAILURE then a\<lparr>es_partial := es_partial a + 1\<rparr> else a) in
      if q_status request = CERTIFICATE_ISSUED then
        (let a2 = a1\<lparr>es_issued := es_issued a1 + 1\<rparr> in
         case q_certificate_issued_at request of
           None \<Rightarrow> a2
         | Some c \<Rightarrow> a2\<lparr>es_times := es_times a2 @ [hoursBetween (q_created_at request) c]\<rparr>)
      else a1\<lparr>es_incomplete := es_incomplete a1 @ [incomplete_of t request]\<rparr>)"

definition computeDeletionEvidence :: "deletion_request list \<Rightarrow> int \<Rightarrow> evidence_report" where
  "computeDeletionEvidence rqs t =
     (let a = foldl (add_request t) \<lparr>es_incomplete = [], es_times = [], es_issued = 0, es_partial = 0\<rparr> rqs in
      \<lparr>er_totalRequests = length rqs, er_certificateIssued = es_issued a, er_incomplete = es_incomplete a,
       er_partialFailures = es_partial a, er_median = median (es_times a)\<rparr>)"

datatype evidence_reply =
    EvidenceFailed nat string
  | Evidence string int int evidence_report int

text \<open>A bound is absent, an instant, or not a date: \<open>Some None\<close>.\<close>

definition period_bound :: "int option option \<Rightarrow> int \<Rightarrow> int option" where
  "period_bound bound d0 = (case bound of None \<Rightarrow> Some d0 | Some d \<Rightarrow> d)"

definition NINETY_DAYS :: int where
  "NINETY_DAYS = 90 * 24 * 60 * 60 * 1000"

definition get_deletion_evidence ::
  "http_request \<Rightarrow> int option option \<Rightarrow> int option option \<Rightarrow> ('z rworld_scheme, evidence_reply) eff" where
  "get_deletion_evidence rq qfrom qto =
     bnd (gets now) (\<lambda>t.
     case (period_bound qfrom (t - NINETY_DAYS), period_bound qto t) of
       (Some fromDate, Some toDate) \<Rightarrow>
         catch
           (bnd (listByTenantAndDateRange (tenant_of rq) fromDate toDate) (\<lambda>rqs.
            bnd (gets now) (\<lambda>t'. ret (Evidence (tenant_of rq) fromDate toDate (computeDeletionEvidence rqs t') t'))))
           (\<lambda>_. ret (EvidenceFailed 500 ''Failed to compute deletion evidence''))
     | _ \<Rightarrow> ret (EvidenceFailed 400 ''from/to must be valid dates''))"

section \<open>The auditor's question\<close>

definition get_key_erasure :: "http_request \<Rightarrow> string \<Rightarrow> ('z kworld_scheme, reply) eff" where
  "get_key_erasure rq userId =
     catch
       (bnd (hasActiveKeyMaterial userId (tenant_of rq)) (\<lambda>b.
        ret (send 200 [(''userId'', JStr userId), (''hasActiveKeyMaterial'', JBool b)])))
       (\<lambda>e. ret (send 500 [(''error'', JStr ''Failed to check key status''), (''message'', JStr (message_of e)), (''statusCode'', JNum 500)]))"

section \<open>The newest events of an actor\<close>

text \<open>What the language promises of \<open>sort\<close>: a permutation, ordered whenever the comparator is consistent.\<close>

definition js_sort_ok :: "event_sort \<Rightarrow> bool" where
  "js_sort_ok srt \<longleftrightarrow> (\<forall>xs. mset (srt xs) = mset xs \<and>
     (distinct (map ae_timestamp xs) \<longrightarrow> sorted (map (\<lambda>e. - ae_timestamp e) (srt xs))))"

abbreviation latest :: "audit_event \<Rightarrow> int" where
  "latest e \<equiv> - ae_timestamp e"

lemma js_sort_distinct:
  assumes "js_sort_ok srt" and d: "distinct (map ae_timestamp xs)"
  shows "srt xs = sort_key latest xs"
proof (rule map_sorted_distinct_set_unique[where f = latest])
  have m: "mset (srt xs) = mset xs" and s: "sorted (map latest (srt xs))" using assms by (simp_all add: js_sort_ok_def)
  have set: "set (srt xs) = set xs" using m by (metis set_mset_mset)
  have "inj_on ae_timestamp (set xs)" using d by (simp add: distinct_map)
  then show i: "inj_on latest (set (srt xs) \<union> set (sort_key latest xs))" by (simp add: set inj_on_def)
  have "distinct (srt xs)" using d m mset_eq_imp_distinct_iff by (metis distinct_map)
  then show "distinct (map latest (srt xs))" using i by (simp add: distinct_map set inj_on_def)
  show "sorted (map latest (srt xs))" by (fact s)
  show "sorted (map latest (sort_key latest xs))" by simp
  show "distinct (map latest (sort_key latest xs))" using d by (auto simp: distinct_map inj_on_def)
  show "set (srt xs) = set (sort_key latest xs)" by (simp add: set)
qed

lemma sorted_split:
  "sorted (map f xs) \<Longrightarrow> xs = filter (\<lambda>x. f x \<le> (k :: int)) xs @ filter (\<lambda>x. \<not> f x \<le> k) xs"
proof (induction xs)
  case (Cons x xs)
  show ?case
  proof (cases "f x \<le> k")
    case False
    then have "\<forall>y \<in> set xs. \<not> f y \<le> k" using Cons.prems by (auto intro: order_trans)
    then show ?thesis using False by (simp add: filter_False filter_id_conv)
  qed (use Cons in auto)
qed simp

lemma take_sort_filter:
  assumes "n \<le> length (filter (\<lambda>x. f x \<le> (k :: int)) xs)"
  shows "take n (sort_key f xs) = take n (sort_key f (filter (\<lambda>x. f x \<le> k) xs))"
proof -
  let ?s = "sort_key f xs"
  have "?s = filter (\<lambda>x. f x \<le> k) ?s @ filter (\<lambda>x. \<not> f x \<le> k) ?s" by (rule sorted_split) simp
  then have "take n ?s = take n (filter (\<lambda>x. f x \<le> k) ?s @ filter (\<lambda>x. \<not> f x \<le> k) ?s)" by simp
  also have "\<dots> = take n (filter (\<lambda>x. f x \<le> k) ?s)" using assms by (simp add: filter_sort)
  finally show ?thesis by (simp add: filter_sort)
qed

text \<open>Cutting one sorted part of a list to \<open>m\<close> elements does not change the first \<open>n \<le> m\<close> of the whole.\<close>

lemma take_sort_cut:
  assumes n: "n \<le> m" and D: "sorted (map f D)" and d: "distinct (map f (D :: 'a list))"
  shows "take n (sort_key f (A @ take m D)) = take n (sort_key (f :: 'a \<Rightarrow> int) (A @ D))"
proof (cases "length D \<le> m \<or> m = 0")
  case True
  then show ?thesis using n by auto
next
  case False
  define k where "k = f (D ! (m - 1))"
  have all: "\<forall>x \<in> set (take m D). f x \<le> k"
    using D False by (auto simp: k_def in_set_conv_nth sorted_iff_nth_mono)
  have none: "\<forall>x \<in> set (drop m D). \<not> f x \<le> k"
  proof
    fix x assume "x \<in> set (drop m D)"
    then obtain j where j: "x = D ! (m + j)" "m + j < length D" by (auto simp: in_set_conv_nth)
    have "f (D ! (m - 1)) \<le> f x" using D j False by (simp add: sorted_iff_nth_mono)
    moreover have "f (D ! (m - 1)) \<noteq> f x" using d j False by (simp add: distinct_conv_nth)
    ultimately show "\<not> f x \<le> k" by (simp add: k_def)
  qed
  have keep: "filter (\<lambda>x. f x \<le> k) (take m D) = take m D" using all by (simp add: filter_id_conv)
  have "filter (\<lambda>x. f x \<le> k) D = filter (\<lambda>x. f x \<le> k) (take m D) @ filter (\<lambda>x. f x \<le> k) (drop m D)"
    by (metis append_take_drop_id filter_append)
  then have fD: "filter (\<lambda>x. f x \<le> k) D = take m D" using none keep by (simp add: filter_False)
  have "length (take m D) = m" using False by simp
  then have "n \<le> length (filter (\<lambda>x. f x \<le> k) (A @ D))" "n \<le> length (filter (\<lambda>x. f x \<le> k) (A @ take m D))"
    using n fD keep by simp_all
  from take_sort_filter[OF this(1)] take_sort_filter[OF this(2)] show ?thesis by (simp add: fD keep)
qed

lemma sort_key_perm:
  assumes "mset xs = mset ys" and d: "distinct (map f xs)"
  shows "sort_key (\<lambda>x. - f x :: int) xs = sort_key (\<lambda>x. - f x) ys"
proof (rule map_sorted_distinct_set_unique[where f = "\<lambda>x. - f x"])
  have set: "set xs = set ys" using assms(1) by (metis set_mset_mset)
  have i: "inj_on f (set xs)" "distinct xs" using d by (simp_all add: distinct_map)
  have "distinct ys" using i(2) assms(1) mset_eq_imp_distinct_iff by blast
  then show "distinct (map (\<lambda>x. - f x) (sort_key (\<lambda>x. - f x) ys))" using i(1) set by (simp add: distinct_map inj_on_def)
  show "inj_on (\<lambda>x. - f x) (set (sort_key (\<lambda>x. - f x) xs) \<union> set (sort_key (\<lambda>x. - f x) ys))" using i(1) set by (simp add: inj_on_def)
  show "distinct (map (\<lambda>x. - f x) (sort_key (\<lambda>x. - f x) xs))" using i by (simp add: distinct_map inj_on_def)
  show "set (sort_key (\<lambda>x. - f x) xs) = set (sort_key (\<lambda>x. - f x) ys)" by (simp add: set)
qed simp_all

definition actor_trail :: "string \<Rightarrow> string \<Rightarrow> 'z pworld_scheme \<Rightarrow> audit_event list" where
  "actor_trail email t s =
     concat (map (\<lambda>e. eventsForRegistryEntry e (Some email))
       (listEntries (registry s) (no_filters\<lparr>f_tenantId := Some t, f_actorEmail := Some email\<rparr>))) @
     List.map_filter eventForDeletionRequest
       (filter (\<lambda>d. q_requested_by d = Some email \<and> q_tenant_id d = Some t) (map snd (requests s)))"

lemma page_size_bounds: "nat \<lfloor>parsePageSize limit\<rfloor> \<le> MAX_PAGE_SIZE"
  by (auto simp: parsePageSize_def DEFAULT_PAGE_SIZE_def MAX_PAGE_SIZE_def min_def split: option.splits) linarith+

definition deletion_event :: "deletion_request \<Rightarrow> audit_event" where
  "deletion_event d = \<lparr>ae_type = DELETION_REQUESTED, ae_resourceId = q_user_id d, ae_actorEmail = the (q_requested_by d),
     ae_tenantId = q_tenant_id d, ae_timestamp = q_created_at d\<rparr>"

lemma deletion_events:
  "email \<noteq> [] \<Longrightarrow> \<forall>d \<in> set ds. q_requested_by d = Some email \<Longrightarrow> List.map_filter eventForDeletionRequest ds = map deletion_event ds"
  by (induction ds) (simp_all add: List.map_filter_def eventForDeletionRequest_def deletion_event_def)

lemma map_filter_none: "\<forall>d \<in> set ds. f d = None \<Longrightarrow> List.map_filter f ds = []"
  by (induction ds) (simp_all add: List.map_filter_def)

lemma trail_cut:
  assumes d: "distinct (map ae_timestamp (A @ List.map_filter eventForDeletionRequest ds))" and n: "n \<le> m"
    and own: "\<forall>d \<in> set ds. q_requested_by d = Some email"
  shows "distinct (map ae_timestamp (A @ List.map_filter eventForDeletionRequest (take m (newest_first ds)))) \<and>
    take n (sort_key latest (A @ List.map_filter eventForDeletionRequest (take m (newest_first ds)))) =
    take n (sort_key latest (A @ List.map_filter eventForDeletionRequest ds))"
proof (cases "email = []")
  case True
  then have "\<forall>d \<in> set ds. eventForDeletionRequest d = None" using own by (simp add: eventForDeletionRequest_def)
  moreover then have "\<forall>d \<in> set (take m (newest_first ds)). eventForDeletionRequest d = None" by (metis in_set_takeD set_newest_first)
  ultimately show ?thesis using d by (simp add: map_filter_none)
next
  case False
  let ?D = "map deletion_event (newest_first ds)"
  have own': "\<forall>d \<in> set (newest_first ds). q_requested_by d = Some email" "\<forall>d \<in> set (take m (newest_first ds)). q_requested_by d = Some email"
    using own by (auto dest: in_set_takeD)
  have mf: "List.map_filter eventForDeletionRequest ds = map deletion_event ds"
    "List.map_filter eventForDeletionRequest (take m (newest_first ds)) = take m ?D"
    using deletion_events[OF False own] deletion_events[OF False own'(2)] by (simp_all add: take_map)
  have perm: "mset (A @ ?D) = mset (A @ map deletion_event ds)" by (simp add: newest_first_def)
  have dd: "distinct (map ae_timestamp (A @ ?D))"
    using d[unfolded mf] perm by (metis mset_eq_imp_distinct_iff mset_map)
  have s: "sorted (map latest ?D)" using newest_first_sorted[of ds] by (simp add: sorted_map sorted_wrt_map deletion_event_def)
  have "distinct (map latest ?D)" using dd by (simp add: distinct_map inj_on_def)
  from take_sort_cut[OF n s this, of A] sort_key_perm[OF perm dd]
  have "take n (sort_key latest (A @ take m ?D)) = take n (sort_key latest (A @ map deletion_event ds))" by simp
  moreover have "distinct (map ae_timestamp (A @ take m ?D))"
    using dd by (metis append.assoc append_take_drop_id distinct_append map_append)
  ultimately show ?thesis unfolding mf by blast
qed

lemma entry_events_own:
  "x \<in> set (eventsForRegistryEntry e (Some a)) \<Longrightarrow> a \<noteq> [] \<Longrightarrow> ae_actorEmail x = a \<and> ae_tenantId x = pe_tenantId e"
  by (auto simp: eventsForRegistryEntry_def declared_event_def modified_event_def truthy_def split: option.splits if_splits)

lemma listEntries_tenant: "e \<in> set (listEntries m fs) \<Longrightarrow> f_tenantId fs = Some t \<Longrightarrow> pe_tenantId e = None \<or> pe_tenantId e = Some t"
  by (simp add: listEntries_def visibleTo_def)

lemma trail_own:
  assumes "email \<noteq> []" and "e \<in> set (actor_trail email t s)"
  shows "ae_actorEmail e = email \<and> (ae_tenantId e = None \<or> ae_tenantId e = Some t)"
proof -
  let ?ds = "filter (\<lambda>d. q_requested_by d = Some email \<and> q_tenant_id d = Some t) (map snd (requests s))"
  have ds: "List.map_filter eventForDeletionRequest ?ds = map deletion_event ?ds"
    by (rule deletion_events[OF assms(1)]) simp
  from assms(2) consider x where "e \<in> set (eventsForRegistryEntry x (Some email))"
      "x \<in> set (listEntries (registry s) (no_filters\<lparr>f_tenantId := Some t, f_actorEmail := Some email\<rparr>))"
    | "e \<in> set (map deletion_event ?ds)"
    unfolding actor_trail_def ds by auto
  then show ?thesis
  proof cases
    case (1 x)
    then show ?thesis using entry_events_own[OF 1(1) assms(1)] listEntries_tenant[OF 1(2), of t] by (simp add: no_filters_def)
  next
    case 2
    then show ?thesis by (auto simp: deletion_event_def)
  qed
qed

text \<open>
  C25. The audit trail of a person is complete up to its limit and theirs alone. Whatever order the engine
  leaves equal instants in, if the instants of the person's events in the caller's tenant (declarations,
  modifications and deletion requests) are pairwise different, the answer holds exactly the newest ones, newest
  first, as many as the limit admits, although of the deletion requests only the newest two hundred are
  read; every event names the person and belongs to the caller's tenant or to the platform. The answer fails only if the
  read of the deletion requests fails.
\<close>

theorem audit_trail_complete:
  fixes s :: "'z pworld_scheme"
  assumes srt: "js_sort_ok srt" and run: "get_audit_actor srt rq email limit s = (Inr r, s')" and email: "email \<noteq> []"
    and d: "distinct (map ae_timestamp (actor_trail email (tenant_of rq) s))"
  shows "case r of
      ActorTrail a evs \<Rightarrow> a = email \<and>
        evs = take (nat \<lfloor>parsePageSize limit\<rfloor>) (sort_key (\<lambda>e. - ae_timestamp e) (actor_trail email (tenant_of rq) s)) \<and>
        (\<forall>e \<in> set evs. ae_actorEmail e = email \<and> (ae_tenantId e = None \<or> ae_tenantId e = Some (tenant_of rq)))
    | AuditFailed c m \<Rightarrow> c = 500 \<and> outcomes s \<noteq> []
    | _ \<Rightarrow> False"
proof -
  let ?t = "tenant_of rq" and ?n = "nat \<lfloor>parsePageSize limit\<rfloor>"
  let ?A = "concat (map (\<lambda>e. eventsForRegistryEntry e (Some email))
       (listEntries (registry s) (no_filters\<lparr>f_tenantId := Some ?t, f_actorEmail := Some email\<rparr>)))"
  let ?ds = "filter (\<lambda>d. q_requested_by d = Some email \<and> q_tenant_id d = Some ?t) (map snd (requests s))"
  obtain oc w where n: "next_call s = (oc, w)" by (cases "next_call s")
  have w: "requests w = requests s" "oc = Ok \<or> outcomes s \<noteq> []" using n by (auto simp: next_call_def split: list.splits)
  show ?thesis
  proof (cases "oc = Ok")
    case False
    then have "r = AuditFailed 500 ''Failed to load audit trail''" using run n
      by (cases oc) (auto simp: get_audit_actor_def Let_def catch_apply bnd_apply listByRequestedBy_def rread_def)
    then show ?thesis using w False by simp
  next
    case True
    let ?E = "?A @ List.map_filter eventForDeletionRequest (take MAX_PAGE_SIZE (newest_first ?ds))"
    have q: "listByRequestedBy email ?t MAX_PAGE_SIZE None s = (Inr (take MAX_PAGE_SIZE (newest_first ?ds)), w)"
      using True n w by (simp add: listByRequestedBy_def rread_def query_def)
    have r: "r = ActorTrail email (take ?n (srt ?E))"
      using run q by (simp add: get_audit_actor_def Let_def catch_apply bnd_apply slice0_def)
    have cut: "distinct (map ae_timestamp ?E)" "take ?n (sort_key latest ?E) = take ?n (sort_key latest (actor_trail email ?t s))"
      using trail_cut[OF d[unfolded actor_trail_def] page_size_bounds, of email] by (auto simp: actor_trail_def)
    have "take ?n (srt ?E) = take ?n (sort_key latest (actor_trail email ?t s))"
      using cut(2) js_sort_distinct[OF srt cut(1)] by simp
    moreover have "\<forall>e \<in> set (take ?n (sort_key latest (actor_trail email ?t s))).
        ae_actorEmail e = email \<and> (ae_tenantId e = None \<or> ae_tenantId e = Some ?t)"
      using trail_own[OF email] by (metis in_set_takeD set_sort)
    ultimately show ?thesis by (simp add: r)
  qed
qed

lemma sort_key_js: "js_sort_ok (sort_key latest)"
  by (simp add: js_sort_ok_def)

section \<open>The evidence of a period\<close>

abbreviation issued :: "deletion_request \<Rightarrow> bool" where
  "issued d \<equiv> q_status d = CERTIFICATE_ISSUED"

definition cert_hours :: "deletion_request list \<Rightarrow> rat list" where
  "cert_hours ds = List.map_filter (\<lambda>d. map_option (hoursBetween (q_created_at d)) (q_certificate_issued_at d)) (filter issued ds)"

lemma evidence_sums:
  "foldl (add_request t) a ds =
     \<lparr>es_incomplete = es_incomplete a @ map (incomplete_of t) (filter (\<lambda>d. \<not> issued d) ds), es_times = es_times a @ cert_hours ds,
      es_issued = es_issued a + length (filter issued ds),
      es_partial = es_partial a + length (filter (\<lambda>d. q_status d = CASCADE_PARTIAL_FAILURE) ds)\<rparr>"
proof (induction ds arbitrary: a)
  case Nil
  then show ?case by (simp add: cert_hours_def List.map_filter_def)
next
  case (Cons d ds)
  have one: "add_request t a d =
     \<lparr>es_incomplete = es_incomplete a @ map (incomplete_of t) (filter (\<lambda>d. \<not> issued d) [d]), es_times = es_times a @ cert_hours [d],
      es_issued = es_issued a + length (filter issued [d]),
      es_partial = es_partial a + length (filter (\<lambda>d. q_status d = CASCADE_PARTIAL_FAILURE) [d])\<rparr>"
    by (cases a) (simp add: add_request_def Let_def cert_hours_def List.map_filter_def split: option.splits)
  have split: "cert_hours (d # ds) = cert_hours [d] @ cert_hours ds"
    by (simp add: cert_hours_def List.map_filter_def)
  show ?case unfolding foldl_Cons one Cons.IH split by simp
qed

lemma half_bounds:
  assumes "0 \<le> a" "a \<le> of_int n" "0 \<le> b" "b \<le> of_int n" "n < 2 ^ 52"
  shows "0 \<le> fdiv (fadd a b) 2 \<and> fdiv (fadd a b) 2 \<le> of_int n"
proof -
  have "fadd a b \<le> of_int (2 * n)" using assms unfolding fadd_def by (intro fl_le) simp_all
  moreover have "0 \<le> fadd a b" using assms unfolding fadd_def by (intro fl_nonneg) simp
  ultimately show ?thesis unfolding fdiv_def using assms(5) by (intro conjI fl_nonneg fl_le) simp_all
qed

lemma median_bounds:
  assumes all: "\<forall>x \<in> set xs. 0 \<le> x \<and> x \<le> of_int n" and n: "n < 2 ^ 52" and m: "median xs = Some m"
  shows "0 \<le> m \<and> m \<le> of_int n"
proof -
  let ?s = "sort xs" and ?k = "length xs div 2"
  have ne: "xs \<noteq> []" using m by (auto simp: median_def)
  have at: "0 \<le> ?s ! i \<and> ?s ! i \<le> of_int n" if "i < length xs" for i
    using all that by (metis length_sort nth_mem set_sort)
  have "?k < length xs" "?k - 1 < length xs" using ne by (cases xs; simp)+
  then show ?thesis
    using m ne at half_bounds[OF _ _ _ _ n, of "?s ! (?k - 1)" "?s ! ?k"] by (auto simp: median_def Let_def split: if_splits)
qed

lemma hours_bounds:
  assumes "0 \<le> t1 - t0" "t1 - t0 \<le> n * 3600000" "n < 2 ^ 52"
  shows "0 \<le> hoursBetween t0 t1 \<and> hoursBetween t0 t1 \<le> of_int n"
proof -
  have "of_int (t1 - t0) / (3600000 :: rat) \<le> of_int n"
    using assms(2) by (simp add: pos_divide_le_eq flip: of_int_mult)
  moreover have "0 \<le> of_int (t1 - t0) / (3600000 :: rat)" using assms(1) by simp
  ultimately show ?thesis using assms(3) unfolding hoursBetween_def fdiv_def by (intro conjI fl_nonneg fl_le) simp_all
qed

text \<open>
  C26. The evidence of a period accounts for every deletion request of the caller's tenant in it, by default
  those of the last ninety days: the total is their number, the certificates issued and the requests listed as
  incomplete add up to it, the list holds exactly the requests without a certificate, the partial failures
  are counted, and the median of the hours to the certificate, in double arithmetic, lies between zero and every
  whole number of hours that bounds them all. The route fails only on a bound that is no date or a failed query.
\<close>

theorem evidence_complete:
  fixes s :: "'z rworld_scheme"
  assumes run: "get_deletion_evidence rq qfrom qto s = (Inr r, s')"
  shows "case r of
      Evidence t f u rep g \<Rightarrow>
        t = tenant_of rq \<and> period_bound qfrom (now s - NINETY_DAYS) = Some f \<and> period_bound qto (now s) = Some u \<and>
        (\<exists>ds. mset ds = mset (filter (\<lambda>d. q_tenant_id d = Some t \<and> f \<le> q_created_at d \<and> q_created_at d \<le> u) (map snd (requests s))) \<and>
          er_totalRequests rep = length ds \<and>
          er_certificateIssued rep = length (filter (\<lambda>d. q_status d = CERTIFICATE_ISSUED) ds) \<and>
          er_certificateIssued rep + length (er_incomplete rep) = er_totalRequests rep \<and>
          map ir_id (er_incomplete rep) = map q_id (filter (\<lambda>d. q_status d \<noteq> CERTIFICATE_ISSUED) ds) \<and>
          er_partialFailures rep = length (filter (\<lambda>d. q_status d = CASCADE_PARTIAL_FAILURE) ds) \<and>
          (\<forall>n m. n < 2 ^ 52 \<and> er_median rep = Some m \<and>
             (\<forall>d \<in> set ds. \<forall>c. q_certificate_issued_at d = Some c \<longrightarrow> 0 \<le> c - q_created_at d \<and> c - q_created_at d \<le> n * 3600000) \<longrightarrow>
             0 \<le> m \<and> m \<le> of_int n))
    | EvidenceFailed c m \<Rightarrow> c = 400 \<and> (qfrom = Some None \<or> qto = Some None) \<and> s' = s \<or> c = 500 \<and> outcomes s \<noteq> []"
proof -
  obtain oc w where n: "next_call s = (oc, w)" by (cases "next_call s")
  have w: "requests w = requests s" "oc = Ok \<or> outcomes s \<noteq> []" using n by (auto simp: next_call_def split: list.splits)
  show ?thesis
  proof (cases "qfrom = Some None \<or> qto = Some None")
    case True
    then have "r = EvidenceFailed 400 ''from/to must be valid dates'' \<and> s' = s"
      using run by (auto simp: get_deletion_evidence_def period_bound_def split: option.splits)
    then show ?thesis using True by simp
  next
    case False
    then obtain f u where p: "period_bound qfrom (now s - NINETY_DAYS) = Some f" "period_bound qto (now s) = Some u"
      by (cases qfrom; cases "the qfrom"; cases qto; cases "the qto") (auto simp: period_bound_def)
    let ?in = "\<lambda>d. q_tenant_id d = Some (tenant_of rq) \<and> f \<le> q_created_at d \<and> q_created_at d \<le> u"
    let ?ds = "newest_first (filter ?in (map snd (requests s)))"
    show ?thesis
    proof (cases "oc = Ok")
      case False
      then have "r = EvidenceFailed 500 ''Failed to compute deletion evidence''" using run n p
        by (cases oc) (auto simp: get_deletion_evidence_def catch_apply bnd_apply listByTenantAndDateRange_def rread_def)
      then show ?thesis using w False by simp
    next
      case True
      then have "get_deletion_evidence rq qfrom qto s =
          (Inr (Evidence (tenant_of rq) f u (computeDeletionEvidence ?ds (now w)) (now w)), w)"
        using n p w by (simp add: get_deletion_evidence_def catch_apply bnd_apply listByTenantAndDateRange_def rread_def query_def)
      then have r: "r = Evidence (tenant_of rq) f u (computeDeletionEvidence ?ds (now w)) (now w)" using run by simp
      let ?rep = "computeDeletionEvidence ?ds (now w)"
      have times: "0 \<le> m \<and> m \<le> of_int k" if "k < 2 ^ 52" "er_median ?rep = Some m"
        "\<forall>d \<in> set ?ds. \<forall>c. q_certificate_issued_at d = Some c \<longrightarrow> 0 \<le> c - q_created_at d \<and> c - q_created_at d \<le> k * 3600000" for k m
      proof (rule median_bounds[OF _ that(1)])
        show "median (cert_hours ?ds) = Some m" using that(2) by (simp add: computeDeletionEvidence_def evidence_sums)
        show "\<forall>x \<in> set (cert_hours ?ds). 0 \<le> x \<and> x \<le> of_int k"
          using that(3) hours_bounds[OF _ _ that(1)] by (auto simp: cert_hours_def List.map_filter_def split: option.splits)
      qed
      have ds: "mset ?ds = mset (filter ?in (map snd (requests s)))" by (simp add: newest_first_def)
      have rep: "er_totalRequests ?rep = length ?ds" "er_certificateIssued ?rep = length (filter issued ?ds)"
        "er_incomplete ?rep = map (incomplete_of (now w)) (filter (\<lambda>d. \<not> issued d) ?ds)"
        "er_partialFailures ?rep = length (filter (\<lambda>d. q_status d = CASCADE_PARTIAL_FAILURE) ?ds)"
        by (simp_all add: computeDeletionEvidence_def evidence_sums)
      have "er_certificateIssued ?rep + length (er_incomplete ?rep) = er_totalRequests ?rep"
        "map ir_id (er_incomplete ?rep) = map q_id (filter (\<lambda>d. \<not> issued d) ?ds)"
        unfolding rep by (simp_all only: length_map sum_length_filter_compl) (simp add: incomplete_of_def o_def)
      then show ?thesis
        unfolding r evidence_reply.case using p ds rep(1,2,4) times by (intro conjI refl exI[of _ ?ds] allI impI) blast+
    qed
  qed
qed

section \<open>The auditor's answer\<close>

text \<open>
  C19. The auditor's independent check is sound: when it answers, it says whether the key document holds
  material now, and when it says that there is none, no version of the user's key can be read and so none of the
  user's values can be decrypted; a destroyed key is reported as such. It changes nothing.
\<close>

theorem auditor_answer_sound:
  fixes s :: "'z kworld_scheme"
  assumes run: "get_key_erasure rq u s = (Inr r, s')"
  defines "doc \<equiv> keys s (getDocId (tenant_of rq) u)"
  shows "keys s' = keys s \<and> (code r = 200 \<and>
      (\<exists>b. field ''hasActiveKeyMaterial'' r = Some (JBool b) \<and> (\<not> b \<longrightarrow> (\<forall>v. read_material doc v = None)) \<and>
        ((\<exists>d. doc = Some d \<and> kd_status d = SHREDDED) \<longrightarrow> \<not> b)) \<or>
    code r = 500 \<and> outcomes s \<noteq> [])"
proof -
  obtain oc w where n: "next_call s = (oc, w)" by (cases "next_call s")
  have w: "keys w = keys s" "oc = Ok \<or> outcomes s \<noteq> []" using n by (auto simp: next_call_def split: list.splits)
  have sound: "\<not> doc_has_material doc \<longrightarrow> (\<forall>v. read_material doc v = None)"
  proof (cases doc)
    case (Some d)
    then show ?thesis by (cases "kd_status d") (simp_all add: doc_has_material_def read_material_def)
  qed (simp add: read_material_def)
  have gone: "(\<exists>d. doc = Some d \<and> kd_status d = SHREDDED) \<longrightarrow> \<not> doc_has_material doc"
    by (auto simp: doc_has_material_def)
  show ?thesis
  proof (cases "oc = Ok")
    case True
    then have "get_key_erasure rq u s =
        (Inr (send 200 [(''userId'', JStr u), (''hasActiveKeyMaterial'', JBool (doc_has_material doc))]), w)"
      using n w by (simp add: get_key_erasure_def hasActiveKeyMaterial_def catch_apply bnd_apply rread_def doc_def)
    then show ?thesis using run w sound gone by auto
  next
    case False
    then show ?thesis using run n w by (cases oc) (auto simp: get_key_erasure_def hasActiveKeyMaterial_def catch_apply bnd_apply rread_def)
  qed
qed

section \<open>A concrete trail\<close>

definition toy_trail :: pworld where
  "toy_trail = (toy_registry_world [] [])\<lparr>requests :=
     [(''r1'', (new_request ''u'' ''r1'' ''t'' (Some ''a@x'') 100)\<lparr>q_status := CERTIFICATE_ISSUED, q_certificate_issued_at := Some 7200100\<rparr>),
      (''r2'', new_request ''v'' ''r2'' ''t'' (Some ''a@x'') 200)]\<rparr>"

lemma toy_trail_events:
  "actor_trail ''a@x'' ''t'' toy_trail = map deletion_event (map snd (requests toy_trail))"
  "outcomes toy_trail = []"
  by (simp_all add: actor_trail_def toy_trail_def toy_registry_world_def rworld.defs pworld.defs toy_requests_def listEntries_def
      getEntries_def new_request_def List.map_filter_def eventForDeletionRequest_def deletion_event_def
      jworld.defs toy_saas_def)

lemma audit_trail_complete_witness:
  "\<exists>s'. get_audit_actor (sort_key latest) toy_rq ''a@x'' (Some 1) toy_trail =
     (Inr (ActorTrail ''a@x'' [\<lparr>ae_type = DELETION_REQUESTED, ae_resourceId = ''v'', ae_actorEmail = ''a@x'', ae_tenantId = Some ''t'',
        ae_timestamp = 200\<rparr>]), s')"
proof -
  have t: "tenant_of toy_rq = ''t''" by (simp add: tenant_of_def toy_rq_def or_else_def)
  obtain r s' where run: "get_audit_actor (sort_key latest) toy_rq ''a@x'' (Some 1) toy_trail = (r, s')" by fastforce
  have "\<exists>x. r = Inr x"
    using run by (auto simp: get_audit_actor_def Let_def catch_apply bnd_apply split: prod.splits sum.splits)
  then obtain x where x: "r = Inr x" by blast
  have d: "distinct (map ae_timestamp (actor_trail ''a@x'' (tenant_of toy_rq) toy_trail))"
    unfolding t toy_trail_events by (simp add: toy_trail_def deletion_event_def new_request_def)
  have sorted: "take (nat \<lfloor>parsePageSize (Some 1)\<rfloor>) (sort_key latest (actor_trail ''a@x'' (tenant_of toy_rq) toy_trail)) =
      [\<lparr>ae_type = DELETION_REQUESTED, ae_resourceId = ''v'', ae_actorEmail = ''a@x'', ae_tenantId = Some ''t'', ae_timestamp = 200\<rparr>]"
    unfolding t toy_trail_events by (simp add: toy_trail_def deletion_event_def new_request_def parsePageSize_def MAX_PAGE_SIZE_def)
  show ?thesis
    using audit_trail_complete[OF sort_key_js run[unfolded x] _ d, unfolded sorted] run x toy_trail_events(2)
    by (cases x) auto
qed

lemma evidence_complete_witness:
  "\<exists>t f u rep g s'. get_deletion_evidence toy_rq (Some (Some 0)) (Some (Some 1000)) toy_trail = (Inr (Evidence t f u rep g), s') \<and>
     er_totalRequests rep = 2 \<and> er_certificateIssued rep = 1"
proof -
  have t: "tenant_of toy_rq = ''t''" by (simp add: tenant_of_def toy_rq_def or_else_def)
  obtain t f u rep g s' where run: "get_deletion_evidence toy_rq (Some (Some 0)) (Some (Some 1000)) toy_trail = (Inr (Evidence t f u rep g), s')"
    using toy_trail_events(2)
    by (simp add: get_deletion_evidence_def period_bound_def catch_apply bnd_apply listByTenantAndDateRange_def no_faults)
  have input: "filter (\<lambda>d. q_tenant_id d = Some t \<and> f \<le> q_created_at d \<and> q_created_at d \<le> u) (map snd (requests toy_trail)) =
      map snd (requests toy_trail)"
    using evidence_complete[OF run] by (simp add: t period_bound_def) (simp add: toy_trail_def new_request_def)
  from evidence_complete[OF run] obtain ds where ds: "mset ds = mset (map snd (requests toy_trail))" "er_totalRequests rep = length ds"
    "er_certificateIssued rep = length (filter (\<lambda>d. q_status d = CERTIFICATE_ISSUED) ds)"
    unfolding evidence_reply.case input by blast
  have "length ds = length (map snd (requests toy_trail))" by (rule mset_eq_length[OF ds(1)])
  moreover have "length (filter (\<lambda>d. q_status d = CERTIFICATE_ISSUED) ds) =
      length (filter (\<lambda>d. q_status d = CERTIFICATE_ISSUED) (map snd (requests toy_trail)))"
    by (rule mset_eq_length) (simp only: mset_filter ds(1))
  ultimately have "er_totalRequests rep = 2" "er_certificateIssued rep = 1"
    unfolding ds(2,3) by (simp_all add: toy_trail_def new_request_def)
  then show ?thesis using run by blast
qed

lemma auditor_answer_sound_witness:
  "\<exists>r s'. get_key_erasure toy_rq ''u'' toy_saas = (Inr r, s') \<and> code r = 200 \<and> field ''hasActiveKeyMaterial'' r = Some (JBool False)"
proof -
  obtain x s' where x: "get_key_erasure toy_rq ''u'' toy_saas = (x, s')" by fastforce
  then obtain r where run: "get_key_erasure toy_rq ''u'' toy_saas = (Inr r, s')"
    by (cases x) (auto simp: get_key_erasure_def catch_apply bnd_apply split: prod.splits sum.splits)
  have "keys toy_saas (getDocId (tenant_of toy_rq) ''u'') = Some toy_key_doc" "kd_status toy_key_doc = SHREDDED" "outcomes toy_saas = []"
    by (simp_all add: toy_saas_def tenant_of_def toy_rq_def or_else_def toy_key_doc_def shred_doc_def Let_def)
  then show ?thesis using auditor_answer_sound[OF run] run by auto
qed

end
