(* ===== verification/LineageRoutes.thy ===== *)
theory LineageRoutes
  imports CertSigner
begin

text \<open>
  The lineage routes, \<open>src/routes/lineage.ts\<close>: recording a data movement, the destinations of a user, and the
  preview of a deletion. An event that names a user also adds its destination to the user's key document,
  from which the janitor plans a cleanup.
\<close>

section \<open>Recording a data movement\<close>

record lineage_body =
  lb_user :: user_body
  lb_source :: string
  lb_destination :: string
  lb_eventType :: "string option"
  lb_event_type :: "string option"
  lb_deletionRequestId :: "string option"
  lb_deletion_request_id :: "string option"
  lb_dataClassification :: "string option"
  lb_data_classification :: "string option"
  lb_retentionPolicy :: "string option"
  lb_retention_policy :: "string option"
  lb_context :: "(string \<times> json) list option"
  lb_metadata :: "(string \<times> json) list option"

definition label_errors :: "string \<Rightarrow> string \<Rightarrow> string list" where
  "label_errors what v =
     (if v = [] then [what @ '' cannot be empty''] else []) @
     (if length v \<le> 128 then [] else [what @ '' must not exceed 128 characters''])"

definition text_errors :: "string option \<Rightarrow> string list" where
  "text_errors v = opt_errors (\<lambda>x. if x = [] then [''is not allowed to be empty''] else []) v"

definition lineageDataClassifications :: "string list" where
  "lineageDataClassifications = [''PII'', ''ENCRYPTED_ONLY'', ''UNSTRUCTURED_CACHE'', ''GHOST_DATA'', ''AUDIT_TRAIL'', ''METADATA'', ''UNKNOWN'']"

definition one_of_errors :: "string list \<Rightarrow> string option \<Rightarrow> string list" where
  "one_of_errors allowed v = opt_errors (\<lambda>x. if x \<in> set allowed then [] else [''must be one of the listed values'']) v"

definition retention_policies :: "string list" where
  "retention_policies = [''DELETE'', ''REDACT'', ''IMMUTABLE'']"

definition validateLineage :: "lineage_body \<Rightarrow> exn + lineage_body" where
  "validateLineage b = reject_errors
     (opt_errors userId_errors (ub_userId (lb_user b)) @ opt_errors userId_errors (ub_user_id (lb_user b)) @
      label_errors ''Source'' (lb_source b) @ label_errors ''Destination'' (lb_destination b) @
      text_errors (lb_eventType b) @ text_errors (lb_event_type b) @
      text_errors (lb_deletionRequestId b) @ text_errors (lb_deletion_request_id b) @
      one_of_errors lineageDataClassifications (lb_dataClassification b) @ one_of_errors lineageDataClassifications (lb_data_classification b) @
      one_of_errors retention_policies (lb_retentionPolicy b) @ one_of_errors retention_policies (lb_retention_policy b) @
      (if ub_userId (lb_user b) = None \<and> ub_user_id (lb_user b) = None
       then [''value must contain at least one of [userId, user_id]''] else []))
     b"

text \<open>\<open>\{ ...payload, userId, tenantId, context \}\<close>\<close>

definition movement_event :: "lineage_body \<Rightarrow> string \<Rightarrow> lineage_event" where
  "movement_event b tenantId =
     \<lparr>le_userId = Some (body_user (lb_user b)), le_user_id = ub_user_id (lb_user b), le_tenantId = Some tenantId, le_tenant_id = None,
      le_operationId = None, le_operation_id = None, le_source = lb_source b, le_destination = lb_destination b,
      le_eventType = lb_eventType b, le_event_type = lb_event_type b,
      le_deletionRequestId = lb_deletionRequestId b, le_deletion_request_id = lb_deletion_request_id b,
      le_context = (case lb_context b of Some c \<Rightarrow> Some c | None \<Rightarrow> lb_metadata b), le_metadata = lb_metadata b,
      le_dataClassification = lb_dataClassification b, le_data_classification = lb_data_classification b,
      le_retentionPolicy = lb_retentionPolicy b, le_retention_policy = lb_retention_policy b\<rparr>"

definition isResourceLevelGhostFinding :: "lineage_body \<Rightarrow> bool" where
  "isResourceLevelGhostFinding b =
     (or_opt (lb_dataClassification b) (lb_data_classification b) = Some ''GHOST_DATA'' \<and> body_user (lb_user b) = ''UNKNOWN'')"

definition lineage_error :: "exn \<Rightarrow> ('s, reply) eff" where
  "lineage_error e = ret (case e of
     Invalid _ \<Rightarrow> reply_error 400 (message_of e)
   | _ \<Rightarrow> reply_error 500 (or_else (Some (message_of e)) ''Internal server error''))"

definition post_lineage_event :: "lineage_repo \<Rightarrow> http_request \<Rightarrow> lineage_body \<Rightarrow> ('z lworld_scheme, reply) eff" where
  "post_lineage_event L rq b =
     catch
       (bnd (lift (validateLineage b)) (\<lambda>payload.
        let tenantId = tenant_of rq; userId = body_user (lb_user payload) in
        bnd (if isResourceLevelGhostFinding payload then ret ()
             else addDestinationToUser userId (lb_destination payload) tenantId) (\<lambda>_.
        bnd (recordEvent L (movement_event payload tenantId)) (\<lambda>eventId.
        bnd (gets now) (\<lambda>t.
        ret (send 201 [(''status'', JStr ''RECORDED''), (''eventId'', JStr eventId), (''timestamp'', JStr (isoString t))]))))))
       lineage_error"

section \<open>The destinations of a user\<close>

definition validateUserParam :: "string \<Rightarrow> exn + string" where
  "validateUserParam u = reject_errors (userId_errors u) u"

definition first_some :: "'a option list \<Rightarrow> 'a option" where
  "first_some xs = (case filter (\<lambda>x. x \<noteq> None) xs of [] \<Rightarrow> None | x # _ \<Rightarrow> x)"

definition hotPathDestinationsToLineage :: "string list \<Rightarrow> int \<Rightarrow> LineageDestination list" where
  "hotPathDestinationsToLineage destinations lastSeen =
     map (\<lambda>d. \<lparr>ld_name = d, ld_lastSeen = lastSeen\<rparr>) (uniq destinations)"

text \<open>Shredded, rotated or created: the instant a destination of the key document is shown with.\<close>

definition hot_path_seen :: "key_status_view option \<Rightarrow> int \<Rightarrow> int" where
  "hot_path_seen keyStatus t =
     (case keyStatus of None \<Rightarrow> t
      | Some k \<Rightarrow> (case first_some [ks_shred_at k, ks_rotated_at k] of Some x \<Rightarrow> x | None \<Rightarrow> ks_created_at k))"

definition user_destinations :: "string \<Rightarrow> string \<Rightarrow> ('z lworld_scheme, UserLineage \<times> LineageDestination list \<times> string) eff" where
  "user_destinations userId tenantId =
     bnd (getUserLineage userId tenantId) (\<lambda>lineage.
     if ul_destinations lineage \<noteq> [] then ret (lineage, ul_destinations lineage, ''bigquery'')
     else
       bnd (getKeyStatus userId tenantId) (\<lambda>keyStatus.
       bnd (gets now) (\<lambda>t.
       let ds = hotPathDestinationsToLineage (planned_destinations keyStatus) (hot_path_seen keyStatus t) in
       ret (lineage, ds, if ds \<noteq> [] then ''firestore-hot-path'' else ''bigquery''))))"

definition destination_json :: "LineageDestination \<Rightarrow> json" where
  "destination_json d = JObj [(''name'', JStr (ld_name d)), (''lastSeen'', JStr (isoString (ld_lastSeen d)))]"

definition get_user_lineage :: "http_request \<Rightarrow> string \<Rightarrow> ('z lworld_scheme, reply) eff" where
  "get_user_lineage rq param =
     catch
       (bnd (lift (validateUserParam param)) (\<lambda>userId.
        bnd (user_destinations userId (tenant_of rq)) (\<lambda>(lineage, ds, readModel).
        bnd (gets now) (\<lambda>t.
        ret (send 200 [(''userId'', JStr (ul_userId lineage)), (''tenantId'', JStr (tenant_of rq)),
          (''destinations'', JArr (map destination_json ds)), (''readModel'', JStr readModel), (''timestamp'', JStr (isoString t))])))))
       lineage_error"

section \<open>The preview of a deletion\<close>

definition impacted_destinations :: "UserLineage \<Rightarrow> key_status_view option \<Rightarrow> JanitorTask list \<Rightarrow> string list" where
  "impacted_destinations lineage keyStatus cleanupTasks =
     uniq ((if ul_destinations lineage \<noteq> [] then map ld_name (ul_destinations lineage) else planned_destinations keyStatus) @
           map jt_destination cleanupTasks)"

definition get_deletion_plan ::
  "(rat \<Rightarrow> string) \<Rightarrow> (string \<times> 'z jworld_scheme connector) list \<Rightarrow> http_request \<Rightarrow> string \<Rightarrow> ('z jworld_scheme, reply) eff" where
  "get_deletion_plan num cs rq param =
     catch
       (bnd (lift (validateUserParam param)) (\<lambda>userId.
        let tenantId = tenant_of rq in
        bnd (createCleanupPlan cs userId tenantId) (\<lambda>cleanupTasks.
        bnd (getUserLineage userId tenantId) (\<lambda>lineage.
        bnd (getGhostDataFindings userId tenantId) (\<lambda>ghosts.
        bnd (if ul_destinations lineage = [] then getKeyStatus userId tenantId else ret None) (\<lambda>keyStatus.
        let impacted = impacted_destinations lineage keyStatus cleanupTasks in
        if impacted = [] \<and> ghosts = [] then ret (reply_error 404 ''User not found in lineage graph'')
        else
          bnd (gets now) (\<lambda>t.
          ret (send 200 [(''userId'', JStr userId), (''tenantId'', JStr tenantId),
            (''impactedDestinations'', JArr (map JStr impacted)),
            (''mathematicalErasure'', JObj [(''status'', JStr ''PENDING''),
               (''stores'', JArr [JStr ''bigquery'', JStr ''gcs-landing-zone'', JStr ''firestore-logs''])]),
            (''ghostDataSummary'', JArr (map (ghost_json num) ghosts)), (''timestamp'', JStr (isoString t))]))))))))
       lineage_error"

section \<open>What recording does, and what the preview shows\<close>

lemma array_union_mem: "x \<in> set (array_union x xs)"
  by (auto simp: array_union_def split: option.splits)

lemma addDestination_cases:
  fixes s :: "'z kworld_scheme" and t u :: string
  defines "i \<equiv> getDocId t u"
  obtains w where "addDestinationToUser u x t s = (Inr (), w)"
    and "keys w = keys s \<or> (\<exists>d. keys s i = Some d \<and> keys w = (keys s)(i \<mapsto> d\<lparr>kd_destinations := Some (array_union x (kd_destinations d))\<rparr>))"
    and "outcomes s = [] \<Longrightarrow> outcomes w = [] \<and>
      keys w i = map_option (\<lambda>d. d\<lparr>kd_destinations := Some (array_union x (kd_destinations d))\<rparr>) (keys s i)"
proof -
  let ?w = "snd (addDestinationToUser u x t s)"
  obtain oc v where n: "next_call s = (oc, v)" by (cases "next_call s")
  have k: "keys v = keys s" using n by (auto simp: next_call_def split: list.splits)
  have r: "addDestinationToUser u x t s = (Inr (), ?w)"
    by (simp add: addDestinationToUser_def Let_def swallow_apply split: prod.splits sum.splits)
  have "keys ?w = keys s \<or> (\<exists>d. keys s i = Some d \<and> keys ?w = (keys s)(i \<mapsto> d\<lparr>kd_destinations := Some (array_union x (kd_destinations d))\<rparr>))"
    using k n by (cases oc; simp add: addDestinationToUser_def Let_def swallow_apply rtxn_def i_def split: option.splits)
  moreover have "outcomes s = [] \<Longrightarrow> outcomes ?w = [] \<and>
      keys ?w i = map_option (\<lambda>d. d\<lparr>kd_destinations := Some (array_union x (kd_destinations d))\<rparr>) (keys s i)"
    by (simp add: addDestinationToUser_def Let_def swallow_apply no_faults i_def split: option.splits)
  ultimately show thesis using that r by blast
qed

lemma recordEvent_quiet:
  fixes w :: "'z lworld_scheme"
  assumes "recordEvent L e w = (r, v)" and "outcomes w = []"
  shows "outcomes v = []"
  using assms
  by (auto simp: recordEvent_def publishMessage_def log_event_def bnd_apply catch_apply no_faults Let_def split: if_splits)

lemma plan_contains:
  fixes v :: "'z jworld_scheme"
  assumes "\<exists>d ds. keys v (getDocId t u) = Some d \<and> kd_destinations d = Some ds \<and> x \<in> set ds" and "getConnector cs x \<noteq> None" and "outcomes v = []"
  shows "\<exists>tasks. fst (createCleanupPlan cs u t v) = Inr tasks \<and> x \<in> set (map jt_destination tasks)"
  using assms
  by (auto simp: createCleanupPlan_def getKeyStatus_def bnd_apply no_faults plan_tasks_def planned_destinations_def status_view_def image_image)

lemma keys_lineage_free: "lineage_free (\<lambda>s. Q (keys s))"
  by (simp add: lineage_free_def kms_free_def timeless_def)

lemma log_untouched:
  fixes s :: "'z lworld_scheme"
  assumes "addDestinationToUser u x t s = (r, w)"
  shows "published w = published s \<and> logged w = logged s"
proof -
  define Q where "Q = (\<lambda>v :: 'z lworld_scheme. published v = published s \<and> logged v = logged s)"
  have "timeless Q" by (simp add: Q_def timeless_def)
  then have "keeps Q (addDestinationToUser u x t)"
    unfolding addDestinationToUser_def Let_def
    by (intro keeps_intros keeps_rtxn) (auto simp: Q_def split: option.splits)
  from keepsE[OF this _ assms] show ?thesis by (simp add: Q_def)
qed

text \<open>
  What the audit trail has to say of a movement: the caller's tenant, the user, source and destination the body
  names, and a context with the five standard entries, which an entry of the body's own context (its last under a
  name) replaces. Of a pair of spellings the camel-case one counts when it is not empty.
\<close>

definition movement_recorded :: "lineage_body \<Rightarrow> string \<Rightarrow> lineage_payload \<Rightarrow> bool" where
  "movement_recorded b tenantId p \<longleftrightarrow>
     lp_tenant_id p = tenantId \<and> lp_user_id p = body_user (lb_user b) \<and>
     lp_source p = lb_source b \<and> lp_destination p = lb_destination b \<and>
     map_of (lp_context p) =
       [''event_type'' \<mapsto> JStr (or_else (or_opt (lb_eventType b) (lb_event_type b)) ''UNKNOWN''),
        ''operation_id'' \<mapsto> JStr (lp_event_id p),
        ''deletion_request_id'' \<mapsto> JStr (or_else (or_opt (lb_deletionRequestId b) (lb_deletion_request_id b)) ''NONE''),
        ''data_classification'' \<mapsto> JStr (or_else (or_opt (lb_dataClassification b) (lb_data_classification b)) ''UNKNOWN''),
        ''retention_policy'' \<mapsto> JStr (or_else (or_opt (lb_retentionPolicy b) (lb_retention_policy b)) ''UNKNOWN'')] ++
       map_of (rev (case lb_context b of Some c \<Rightarrow> c | None \<Rightarrow> (case lb_metadata b of Some m \<Rightarrow> m | None \<Rightarrow> [])))"

lemma validated_user: "validateLineage b = Inr b' \<Longrightarrow> body_user (lb_user b) \<noteq> []"
  by (auto simp: validateLineage_def reject_errors_def body_user_def or_else_def or_opt_def truthy_def opt_errors_def userId_errors_def
      split: option.splits if_splits)

lemma movement_payload:
  assumes "validateLineage b = Inr b" and "t \<noteq> []"
  shows "movement_recorded b t (avroPayload e n (movement_event b t))" and "lp_event_id (avroPayload e n (movement_event b t)) = e"
proof -
  have ne: "lb_source b \<noteq> []" "lb_destination b \<noteq> []" "body_user (lb_user b) \<noteq> []"
    using assms(1) validated_user[of b] by (auto simp: validateLineage_def reject_errors_def label_errors_def split: if_splits)
  have some: "or_opt (Some x) y = Some x" "or_else (Some x) d = x" if "x \<noteq> []" for x y d
    using that by (simp_all add: or_opt_def or_else_def truthy_def)
  have std: "[''retention_policy'' \<mapsto> a, ''data_classification'' \<mapsto> c, ''deletion_request_id'' \<mapsto> d, ''operation_id'' \<mapsto> e, ''event_type'' \<mapsto> f] =
      [''event_type'' \<mapsto> f, ''operation_id'' \<mapsto> e, ''deletion_request_id'' \<mapsto> d, ''data_classification'' \<mapsto> c, ''retention_policy'' \<mapsto> a]"
    for a c d e f :: json
    by (rule ext) simp
  show "movement_recorded b t (avroPayload e n (movement_event b t))"
    by (cases "lb_context b"; cases "lb_metadata b")
      (simp_all add: movement_recorded_def avroPayload_def movement_event_def map_of_spread some std ne assms(2)
        or_opt_def[of None None] or_else_def[of None])
  show "lp_event_id (avroPayload e n (movement_event b t)) = e" by (simp add: avroPayload_def)
qed

text \<open>
  C8. Recording a movement never touches key material: a refused event changes nothing; an accepted one is
  answered 201 with the id of exactly one new event, appended to the topic, to the log when publishing fails, or to both when
  only the topic's answer is lost, that carries the caller's
  tenant and the user, source, destination and labels of the body; and of all key documents it can change only the
  destinations of the named user's, to which it adds its own. A finding about a resource, not a user, changes none. If
  no call fails, the user has a key document and a connector serves the destination, the user's next cleanup plan
  contains it.
\<close>

theorem lineage_event_effects:
  fixes s :: "'z jworld_scheme"
  assumes run: "post_lineage_event L rq b s = (res, s')"
  defines "u \<equiv> body_user (lb_user b)" and "i \<equiv> getDocId (tenant_of rq) (body_user (lb_user b))"
  shows "\<exists>r. res = Inr r \<and>
    (if validateLineage b \<noteq> Inr b then code r = 400 \<and> s' = s
     else code r = 201 \<and>
     (\<exists>p. movement_recorded b (tenant_of rq) p \<and> field ''eventId'' r = Some (JStr (lp_event_id p)) \<and>
        (published s' = published s @ [p] \<and> (logged s' = logged s \<or> logged s' = logged s @ [p]) \<or>
         published s' = published s \<and> logged s' = logged s @ [p])) \<and>
     (keys s' = keys s \<or> \<not> isResourceLevelGhostFinding b \<and>
        (\<exists>d. keys s i = Some d \<and> keys s' = (keys s)(i \<mapsto> d\<lparr>kd_destinations := Some (array_union (lb_destination b) (kd_destinations d))\<rparr>))) \<and>
     (outcomes s = [] \<and> \<not> isResourceLevelGhostFinding b \<and> keys s i \<noteq> None \<and> getConnector cs (lb_destination b) \<noteq> None \<longrightarrow>
        (\<exists>tasks. fst (createCleanupPlan cs u (tenant_of rq) s') = Inr tasks \<and> lb_destination b \<in> set (map jt_destination tasks))))"
proof (cases "validateLineage b")
  case (Inl e)
  then show ?thesis using run
    by (auto simp: post_lineage_event_def catch_apply bnd_apply validateLineage_def reject_errors_def lineage_error_def reply_error_def split: if_splits)
next
  case (Inr b')
  then have b': "b' = b" by (auto simp: validateLineage_def reject_errors_def split: if_splits)
  let ?t = "tenant_of rq"
  let ?add = "(if isResourceLevelGhostFinding b then ret () else addDestinationToUser u (lb_destination b) ?t) :: ('z jworld_scheme, unit) eff"
  obtain w where add: "?add s = (Inr (), w)"
    and kw: "keys w = keys s \<or> \<not> isResourceLevelGhostFinding b \<and>
        (\<exists>d. keys s i = Some d \<and> keys w = (keys s)(i \<mapsto> d\<lparr>kd_destinations := Some (array_union (lb_destination b) (kd_destinations d))\<rparr>))"
    and ok: "outcomes s = [] \<Longrightarrow> \<not> isResourceLevelGhostFinding b \<Longrightarrow> outcomes w = [] \<and>
      keys w i = map_option (\<lambda>d. d\<lparr>kd_destinations := Some (array_union (lb_destination b) (kd_destinations d))\<rparr>) (keys s i)"
    and trail: "published w = published s" "logged w = logged s"
  proof (cases "isResourceLevelGhostFinding b")
    case True
    then show thesis using that[of s] by (simp add: ret_def)
  next
    case False
    obtain w where w: "addDestinationToUser u (lb_destination b) ?t s = (Inr (), w)"
      "keys w = keys s \<or> (\<exists>d. keys s i = Some d \<and> keys w = (keys s)(i \<mapsto> d\<lparr>kd_destinations := Some (array_union (lb_destination b) (kd_destinations d))\<rparr>))"
      "outcomes s = [] \<Longrightarrow> outcomes w = [] \<and>
        keys w i = map_option (\<lambda>d. d\<lparr>kd_destinations := Some (array_union (lb_destination b) (kd_destinations d))\<rparr>) (keys s i)"
      unfolding i_def u_def by (rule addDestination_cases[of "body_user (lb_user b)" "lb_destination b" ?t s]) blast
    show thesis by (rule that[of w]) (simp_all add: False w log_untouched[OF w(1)])
  qed
  let ?e = "movement_event b ?t"
  obtain v where rec: "recordEvent L ?e w = (Inr (ulid L (draws w)), v)"
    and p: "newly_recorded (avroPayload (ulid L (draws w)) (now w * 1000) ?e) w v"
    using recordEvent_spec[of L ?e w] by blast
  have "post_lineage_event L rq b s =
      (Inr (send 201 [(''status'', JStr ''RECORDED''), (''eventId'', JStr (ulid L (draws w))), (''timestamp'', JStr (isoString (now v)))]), v)"
    using Inr[unfolded b'] add[unfolded u_def] rec
    by (simp add: post_lineage_event_def catch_apply bnd_apply Let_def)
  then have fin: "res = Inr (send 201 [(''status'', JStr ''RECORDED''), (''eventId'', JStr (ulid L (draws w))), (''timestamp'', JStr (isoString (now v)))])"
    "s' = v"
    using run by simp_all
  have kv: "keys v = keys w" by (rule keepsE[OF keeps_recordEvent[OF keys_lineage_free] refl rec])
  have "?t \<noteq> []" by (simp add: tenant_of_def or_else_def default_tenant_def split: option.splits)
  then have pay: "movement_recorded b ?t (avroPayload x y ?e)" "lp_event_id (avroPayload x y ?e) = x" for x y
    using movement_payload[OF Inr[unfolded b']] by blast+
  have "\<exists>tasks. fst (createCleanupPlan cs u ?t v) = Inr tasks \<and> lb_destination b \<in> set (map jt_destination tasks)"
    if o: "outcomes s = []" "\<not> isResourceLevelGhostFinding b" and d: "keys s i \<noteq> None" and c: "getConnector cs (lb_destination b) \<noteq> None"
    using ok[OF o] d kv array_union_mem recordEvent_quiet[OF rec] unfolding i_def u_def
    by (intro plan_contains[OF _ c]) fastforce+
  then show ?thesis
    using fin p[unfolded newly_recorded_def trail] pay kv kw Inr[unfolded b']
    by (auto simp: field_def send_def)
qed

definition toy_move :: lineage_body where
  "toy_move = \<lparr>lb_user = toy_body, lb_source = ''crm-etl'', lb_destination = ''Salesforce'', lb_eventType = Some ''DATA_MOVEMENT'',
     lb_event_type = None, lb_deletionRequestId = None, lb_deletion_request_id = None, lb_dataClassification = Some ''PII'',
     lb_data_classification = None, lb_retentionPolicy = None, lb_retention_policy = None, lb_context = None, lb_metadata = None\<rparr>"

definition toy_moving :: jworld where
  "toy_moving = toy_saas\<lparr>keys := [getDocId ''t'' ''u'' \<mapsto> new_key_doc ''u'' [7] 1000]\<rparr>"

lemma toy_move_facts: "validateLineage toy_move = Inr toy_move" "\<not> isResourceLevelGhostFinding toy_move"
  "body_user (lb_user toy_move) = ''u''" "lb_destination toy_move = ''Salesforce''" "tenant_of toy_rq = ''t''"
  by (simp_all add: validateLineage_def reject_errors_def toy_move_def toy_body_def opt_errors_def userId_errors_def is_user_char_def
      char_ranges label_errors_def text_errors_def one_of_errors_def lineageDataClassifications_def
      isResourceLevelGhostFinding_def body_user_def or_else_def or_opt_def truthy_def tenant_of_def toy_rq_def)

lemma lineage_event_effects_witness:
  "\<exists>r w tasks. post_lineage_event toy_lineage toy_rq toy_move toy_moving = (Inr r, w) \<and> code r = 201 \<and>
     fst (createCleanupPlan (connectorRegistry toy_hs (Some ''k'')) ''u'' ''t'' w) = Inr tasks \<and>
     ''Salesforce'' \<in> set (map jt_destination tasks)"
proof -
  let ?cs = "connectorRegistry toy_hs (Some ''k'')"
  obtain res w where run: "post_lineage_event toy_lineage toy_rq toy_move toy_moving = (res, w)"
    by (cases "post_lineage_event toy_lineage toy_rq toy_move toy_moving")
  have "getConnector ?cs (lb_destination toy_move) \<noteq> None" "outcomes toy_moving = []"
    "keys toy_moving (getDocId ''t'' ''u'') \<noteq> None"
    by (simp_all add: toy_move_facts getConnector_registry lower_salesforce toy_moving_def toy_saas_def)
  then show ?thesis
    using lineage_event_effects[OF run, of ?cs] run unfolding toy_move_facts by (auto simp: toy_move_facts)
qed

lemma set_impacted: "set (impacted_destinations l k ts) =
    (if ul_destinations l \<noteq> [] then ld_name ` set (ul_destinations l) else set (planned_destinations k)) \<union> jt_destination ` set ts"
  by (simp add: impacted_destinations_def)

definition held_destinations :: "string \<Rightarrow> string \<Rightarrow> 'z kworld_scheme \<Rightarrow> string list" where
  "held_destinations t u s = (case keys s (getDocId t u) of None \<Rightarrow> [] | Some d \<Rightarrow> (case kd_destinations d of None \<Rightarrow> [] | Some ds \<Rightarrow> ds))"

lemma getKeyStatus_result:
  fixes s :: "'z kworld_scheme"
  assumes "getKeyStatus u t s = (r, v)"
  shows "r = Inl IoErr \<and> outcomes s \<noteq> [] \<or> (\<exists>ks. r = Inr ks \<and> planned_destinations ks = held_destinations t u s)"
proof -
  obtain oc w where n: "next_call s = (oc, w)" by (cases "next_call s")
  then have "keys w = keys s" "oc = Ok \<or> outcomes s \<noteq> []" by (auto simp: next_call_def split: list.splits)
  then show ?thesis using assms n
    by (cases oc; cases "keys s (getDocId t u)")
      (clarsimp simp: getKeyStatus_def bnd_apply rread_def planned_destinations_def held_destinations_def status_view_def)+
qed

lemma set_plan_tasks: "jt_destination ` set (plan_tasks cs u ds) = {d \<in> set ds. getConnector cs d \<noteq> None}"
  by (auto simp: plan_tasks_def image_image)

lemma lineage_query_events:
  assumes "d \<in> set (lineage_query u t es)"
  shows "ld_name d \<in> {be_destination e | e. e \<in> set es \<and> be_user e = u \<and> be_tenant e = t}"
  using assms by (auto simp: lineage_query_def Let_def)

lemma getUserLineage_result:
  fixes s :: "'z lworld_scheme"
  assumes "getUserLineage u t s = (r, s')"
  shows "\<exists>l. r = Inr l \<and> (ul_destinations l = [] \<or> ul_destinations l = lineage_query u t (bq_events s'))"
  using assms by (simp add: getUserLineage_def catch_apply bnd_apply rread_def split: prod.splits outcome.splits) auto

abbreviation served :: "(string \<times> 'z jworld_scheme connector) list \<Rightarrow> string list \<Rightarrow> string set" where
  "served cs ds \<equiv> {d \<in> set ds. getConnector cs d \<noteq> None}"

abbreviation event_destinations :: "string \<Rightarrow> string \<Rightarrow> 'z lworld_scheme \<Rightarrow> string set" where
  "event_destinations u t s \<equiv> {be_destination e | e. e \<in> set (bq_events s) \<and> be_user e = u \<and> be_tenant e = t}"

text \<open>What a list of impacted destinations holds, whichever read model it was built from.\<close>

definition plan_list_ok :: "(string \<times> 'z jworld_scheme connector) list \<Rightarrow> string \<Rightarrow> string \<Rightarrow> 'z jworld_scheme \<Rightarrow> string list \<Rightarrow> bool" where
  "plan_list_ok cs u t s imp \<longleftrightarrow> distinct imp \<and> served cs (held_destinations t u s) \<subseteq> set imp \<and>
     set imp \<subseteq> set (held_destinations t u s) \<union> event_destinations u t s"

lemma impacted_ok:
  assumes "ul_destinations l = [] \<and> planned_destinations ks = held_destinations t u s \<or>
      ul_destinations l \<noteq> [] \<and> ul_destinations l = lineage_query u t (bq_events s)"
  shows "plan_list_ok cs u t s (impacted_destinations l ks (plan_tasks cs u (held_destinations t u s)))"
proof -
  have "ld_name ` set (ul_destinations l) \<subseteq> event_destinations u t s"
    using assms lineage_query_events by fastforce
  then show ?thesis
    using assms unfolding plan_list_ok_def by (auto simp: set_impacted set_plan_tasks) (auto simp: impacted_destinations_def)
qed

lemma plan_frame:
  fixes s :: "'z jworld_scheme"
  assumes run: "get_deletion_plan num cs rq u s = (res, s')"
  shows "keys s' = keys s \<and> bq_events s' = bq_events s \<and> published s' = published s \<and> logged s' = logged s"
proof -
  define Q where "Q = (\<lambda>w :: 'z jworld_scheme. keys w = keys s \<and> bq_events w = bq_events s \<and> published w = published s \<and> logged w = logged s)"
  have tQ: "timeless Q" by (simp add: Q_def timeless_def)
  have kept: "keeps Q (get_deletion_plan num cs rq u)"
    unfolding get_deletion_plan_def Let_def lineage_error_def
    by (intro keeps_catch keeps_bnd keeps_lift keeps_ret keeps_createCleanupPlan keeps_getUserLineage
        keeps_getGhostDataFindings keeps_getKeyStatus keeps_gets keeps_if tQ)
  have "Q s'" by (rule keepsE[OF kept _ run]) (simp add: Q_def)
  then show ?thesis by (simp add: Q_def)
qed

lemma plan_reads:
  fixes s :: "'z jworld_scheme"
  assumes 1: "getKeyStatus u t s = (Inr ks, s1)" and 2: "getUserLineage u t s1 = (r2, s2)" and 3: "getGhostDataFindings u t s2 = (r3, s3)"
  shows "planned_destinations ks = held_destinations t u s \<and> held_destinations t u s3 = held_destinations t u s \<and>
    (\<exists>l g. r2 = Inr l \<and> r3 = Inr g \<and> (ul_destinations l = [] \<or> ul_destinations l = lineage_query u t (bq_events s)))"
proof -
  define Q where "Q = (\<lambda>w :: 'z jworld_scheme. keys w = keys s \<and> bq_events w = bq_events s)"
  have tQ: "timeless Q" by (simp add: Q_def timeless_def)
  have q1: "Q s1" by (rule keepsE[OF keeps_getKeyStatus[OF tQ] _ 1]) (simp add: Q_def)
  have q2: "Q s2" by (rule keepsE[OF keeps_getUserLineage[OF tQ] q1 2])
  have q3: "Q s3" by (rule keepsE[OF keeps_getGhostDataFindings[OF tQ] q2 3])
  obtain g where "r3 = Inr g" using getGhostDataFindings_total[of u t s2] 3 by auto
  then show ?thesis
    using getKeyStatus_result[OF 1] getUserLineage_result[OF 2] q2 q3 by (auto simp: Q_def held_destinations_def)
qed

lemmas plan_steps = get_deletion_plan_def createCleanupPlan_def catch_apply bnd_apply Let_def lineage_error_def reply_error_def
  send_def field_def

lemma plan_reply:
  fixes s :: "'z jworld_scheme"
  assumes run: "get_deletion_plan num cs rq u s = (res, s')" and valid: "validateUserParam u = Inr u"
  shows "\<exists>r. res = Inr r \<and> (code r = 500 \<or>
    (\<exists>imp. plan_list_ok cs u (tenant_of rq) s imp \<and>
      (code r = 404 \<and> imp = [] \<or> code r = 200 \<and> field ''impactedDestinations'' r = Some (JArr (map JStr imp)))))"
proof -
  let ?t = "tenant_of rq"
  obtain r1 s1 where 1: "getKeyStatus u ?t s = (r1, s1)" by (cases "getKeyStatus u ?t s")
  obtain r2 s2 where 2: "getUserLineage u ?t s1 = (r2, s2)" by (cases "getUserLineage u ?t s1")
  obtain r3 s3 where 3: "getGhostDataFindings u ?t s2 = (r3, s3)" by (cases "getGhostDataFindings u ?t s2")
  obtain r4 s4 where 4: "getKeyStatus u ?t s3 = (r4, s4)" by (cases "getKeyStatus u ?t s3")
  show ?thesis
  proof (cases r1)
    case (Inl e)
    then have "e = IoErr" using getKeyStatus_result[OF 1] by auto
    then show ?thesis using run valid Inl 1 by (auto simp: plan_steps)
  next
    case ks1: (Inr ks1)
    note reads = plan_reads[OF 1[unfolded ks1] 2 3]
    obtain l g where lg: "r2 = Inr l" "r3 = Inr g" "ul_destinations l = [] \<or> ul_destinations l = lineage_query u ?t (bq_events s)"
      using reads by blast
    note facts = run valid 1 2 3 ks1 lg(1,2) reads
    show ?thesis
    proof (cases "ul_destinations l = []")
      case False
      then show ?thesis using facts impacted_ok[of l None ?t u s cs] lg(3)
        by (auto simp: plan_steps split: if_splits intro!: exI[of _ "impacted_destinations l None (plan_tasks cs u (held_destinations ?t u s))"])
    next
      case True
      show ?thesis
      proof (cases r4)
        case (Inl e)
        then have "e = IoErr" using getKeyStatus_result[OF 4] by auto
        then show ?thesis using facts Inl 4 True by (auto simp: plan_steps)
      next
        case ks: (Inr ks)
        then have "planned_destinations ks = held_destinations ?t u s" using getKeyStatus_result[OF 4] reads by simp
        then show ?thesis using facts 4 True ks impacted_ok[of l ks ?t u s cs]
          by (auto simp: plan_steps split: if_splits intro!: exI[of _ "impacted_destinations l ks (plan_tasks cs u (held_destinations ?t u s))"])
      qed
    qed
  qed
qed

text \<open>
  C13. The preview of a deletion changes nothing, and shows at least what the deletion will clean: a
  successful answer lists each impacted destination once, among them every destination of the user's key
  document that a connector serves, that is every task of the janitor's plan, and none that is neither in the
  key document nor in the user's events in BigQuery. 404 means that the janitor has nothing to clean.
\<close>

theorem deletion_plan_covers_cleanup:
  fixes s :: "'z jworld_scheme"
  assumes run: "get_deletion_plan num cs rq u s = (res, s')"
  defines "held \<equiv> held_destinations (tenant_of rq) u s"
  shows "\<exists>r. res = Inr r \<and> keys s' = keys s \<and> bq_events s' = bq_events s \<and> published s' = published s \<and> logged s' = logged s \<and>
    code r \<in> {200, 400, 404, 500} \<and>
    (code r = 200 \<longrightarrow> (\<exists>imp. field ''impactedDestinations'' r = Some (JArr (map JStr imp)) \<and> distinct imp \<and>
       {d \<in> set held. getConnector cs d \<noteq> None} \<subseteq> set imp \<and>
       set imp \<subseteq> set held \<union> {be_destination e | e. e \<in> set (bq_events s) \<and> be_user e = u \<and> be_tenant e = tenant_of rq})) \<and>
    (code r = 404 \<longrightarrow> {d \<in> set held. getConnector cs d \<noteq> None} = {})"
proof (cases "validateUserParam u")
  case (Inl e)
  then show ?thesis using run plan_frame[OF run]
    by (auto simp: plan_steps validateUserParam_def reject_errors_def split: if_splits)
next
  case (Inr u')
  then have "validateUserParam u = Inr u" by (simp add: validateUserParam_def reject_errors_def split: if_splits)
  from plan_reply[OF run this] obtain r where r: "res = Inr r" and
    "code r = 500 \<or> (\<exists>imp. plan_list_ok cs u (tenant_of rq) s imp \<and>
      (code r = 404 \<and> imp = [] \<or> code r = 200 \<and> field ''impactedDestinations'' r = Some (JArr (map JStr imp))))" by blast
  then show ?thesis using plan_frame[OF run] unfolding plan_list_ok_def held_def by (elim disjE exE conjE) auto
qed

lemma deletion_plan_covers_cleanup_witness:
  "\<exists>r s' imp. get_deletion_plan (\<lambda>_. ''0'') (connectorRegistry toy_hs (Some ''k'')) toy_rq ''u'' toy_saas = (Inr r, s') \<and> code r = 200 \<and>
     field ''impactedDestinations'' r = Some (JArr (map JStr imp)) \<and> ''Salesforce'' \<in> set imp \<and> keys s' = keys toy_saas"
proof -
  let ?cs = "connectorRegistry toy_hs (Some ''k'')"
  obtain res s' where run: "get_deletion_plan (\<lambda>_. ''0'') ?cs toy_rq ''u'' toy_saas = (res, s')"
    by (cases "get_deletion_plan (\<lambda>_. ''0'') ?cs toy_rq ''u'' toy_saas")
  have held: "held_destinations ''t'' ''u'' toy_saas = [''Salesforce'', ''warehouse'']"
    by (simp add: held_destinations_def toy_saas_def toy_key_doc_def)
  have served: "''Salesforce'' \<in> {d \<in> set (held_destinations ''t'' ''u'' toy_saas). getConnector ?cs d \<noteq> None}"
    by (simp add: held getConnector_registry lower_salesforce)
  have "code r = 200" if "res = Inr r" for r
    using run that
    by (auto simp: get_deletion_plan_def createCleanupPlan_def catch_apply bnd_apply Let_def toy_move_facts send_def
        validateUserParam_def reject_errors_def userId_errors_def is_user_char_def char_ranges getKeyStatus_def no_faults toy_saas_def
        getUserLineage_def lineage_query_def getGhostDataFindings_def impacted_destinations_def planned_destinations_def
        status_view_def toy_key_doc_def)
  then show ?thesis
    using deletion_plan_covers_cleanup[OF run] served run unfolding toy_move_facts by fastforce
qed

end
