(* ===== verification/DeletionRoutes.thy ===== *)
theory DeletionRoutes
  imports Auth
begin

text \<open>
  The handlers that start, show and advance deletions: \<open>src/routes/deletion-requests.ts\<close> and
  \<open>DELETE /key/shred\<close> of \<open>src/routes/crypto.ts\<close>, with their schemas. The library's test for a UUID is an
  argument. A reply that shows a stored request keeps the request itself instead of its JSON text.
\<close>

section \<open>Schemas\<close>

record operation_body =
  ob_user :: user_body
  ob_operationId :: "string option"
  ob_operation_id :: "string option"

definition uuid_errors :: "(string \<Rightarrow> bool) \<Rightarrow> string option \<Rightarrow> string list" where
  "uuid_errors isUuid v = opt_errors (\<lambda>x. if isUuid x then [] else [''must be a valid GUID'']) v"

definition operation_of :: "operation_body \<Rightarrow> string" where
  "operation_of b = or_else (or_opt (ob_operationId b) (ob_operation_id b)) []"

definition validateCreate :: "(string \<Rightarrow> bool) \<Rightarrow> operation_body \<Rightarrow> exn + string \<times> string" where
  "validateCreate isUuid b = reject_errors
     (user_errors (ob_user b) @ uuid_errors isUuid (ob_operationId b) @ uuid_errors isUuid (ob_operation_id b) @
      (if ob_operationId b = None \<and> ob_operation_id b = None
       then [''value must contain at least one of [operationId, operation_id]''] else []))
     (body_user (ob_user b), operation_of b)"

definition validateRequestId :: "(string \<Rightarrow> bool) \<Rightarrow> string \<Rightarrow> exn + string" where
  "validateRequestId isUuid i = reject_errors (uuid_errors isUuid (Some i)) i"

record advance_body =
  nb_newStatus :: "request_status option"
  nb_new_status :: "request_status option"
  nb_operationId :: "string option"
  nb_operation_id :: "string option"

definition validateAdvance :: "(string \<Rightarrow> bool) \<Rightarrow> advance_body \<Rightarrow> exn + request_status \<times> string" where
  "validateAdvance isUuid b =
     (case (nb_newStatus b, nb_new_status b) of
        (None, None) \<Rightarrow> Inl (Invalid [''value must contain at least one of [newStatus, new_status]''])
      | (st, st') \<Rightarrow> reject_errors
          (uuid_errors isUuid (nb_operationId b) @ uuid_errors isUuid (nb_operation_id b) @
           (if nb_operationId b = None \<and> nb_operation_id b = None
            then [''value must contain at least one of [operationId, operation_id]''] else []))
          (case st of Some n \<Rightarrow> n | None \<Rightarrow> the st', or_else (or_opt (nb_operationId b) (nb_operation_id b)) []))"

definition nonempty_errors :: "string option \<Rightarrow> string list" where
  "nonempty_errors v = opt_errors (\<lambda>x. if x = [] then [''is not allowed to be empty''] else []) v"

definition validateShred :: "operation_body \<Rightarrow> exn + string" where
  "validateShred b = reject_errors
     (user_errors (ob_user b) @ nonempty_errors (ob_operationId b) @ nonempty_errors (ob_operation_id b))
     (body_user (ob_user b))"

section \<open>Replies\<close>

datatype deletion_reply = Plain reply | Shown nat deletion_request "bool option"

definition reply_code :: "deletion_reply \<Rightarrow> nat" where
  "reply_code r = (case r of Plain p \<Rightarrow> code p | Shown c _ _ \<Rightarrow> c)"

text \<open>\<open>String(error)\<close> of the plain object that a failed validation throws.\<close>

definition thrown_text :: "exn \<Rightarrow> string" where
  "thrown_text e = (case e of Invalid _ \<Rightarrow> ''[object Object]'' | _ \<Rightarrow> message_of e)"

definition deletion_error :: "string \<Rightarrow> exn \<Rightarrow> ('s, deletion_reply) eff" where
  "deletion_error m e = ret (Plain (send 500 [(''error'', JStr m), (''message'', JStr (thrown_text e)), (''statusCode'', JNum 500)]))"

definition no_such_request :: deletion_reply where
  "no_such_request = Plain (reply_error 404 ''Deletion request not found'')"

text \<open>\<open>request.tenant_id ?? 'default-tenant'\<close>\<close>

definition shown_tenant :: "deletion_request \<Rightarrow> string" where
  "shown_tenant d = (case q_tenant_id d of None \<Rightarrow> default_tenant | Some t \<Rightarrow> t)"

section \<open>Deletion requests\<close>

definition post_deletion_request ::
  "deletion_service \<Rightarrow> (string \<Rightarrow> bool) \<Rightarrow> http_request \<Rightarrow> operation_body \<Rightarrow> ('z dworld_scheme, deletion_reply) eff" where
  "post_deletion_request D isUuid rq b =
     catch
       (bnd (lift (validateCreate isUuid b)) (\<lambda>(userId, operationId).
        bnd (createRequest D userId operationId (tenant_of rq) (rq_analystEmail rq)) (\<lambda>(deletionRequest, alreadyExisted).
        ret (Shown (if alreadyExisted then 200 else 201) deletionRequest (Some alreadyExisted)))))
       (deletion_error ''Failed to create deletion request'')"

definition get_deletion_request ::
  "(string \<Rightarrow> bool) \<Rightarrow> http_request \<Rightarrow> string \<Rightarrow> ('z dworld_scheme, deletion_reply) eff" where
  "get_deletion_request isUuid rq i =
     catch
       (bnd (lift (validateRequestId isUuid i)) (\<lambda>deletionRequestId.
        bnd (getRequest deletionRequestId) (\<lambda>r. ret (case r of
          None \<Rightarrow> no_such_request
        | Some d \<Rightarrow> if shown_tenant d \<noteq> tenant_of rq then no_such_request else Shown 200 d None))))
       (deletion_error ''Failed to get deletion request'')"

definition post_advance ::
  "deletion_service \<Rightarrow> (string \<Rightarrow> bool) \<Rightarrow> http_request \<Rightarrow> string \<Rightarrow> advance_body \<Rightarrow> ('z dworld_scheme, deletion_reply) eff" where
  "post_advance D isUuid rq i b =
     catch
       (bnd (lift (validateRequestId isUuid i)) (\<lambda>deletionRequestId.
        bnd (lift (validateAdvance isUuid b)) (\<lambda>(newStatus, opId).
        bnd (getRequest deletionRequestId) (\<lambda>existing. case existing of
          None \<Rightarrow> ret no_such_request
        | Some d \<Rightarrow>
            if shown_tenant d \<noteq> tenant_of rq then ret no_such_request
            else bnd (advanceRequest D deletionRequestId newStatus opId []) (\<lambda>updated. ret (Shown 200 updated None))))))
       (deletion_error ''Failed to advance deletion request'')"

section \<open>Shredding a key\<close>

definition shred_reply :: "string \<Rightarrow> string \<Rightarrow> string option \<Rightarrow> int \<Rightarrow> string \<Rightarrow> reply" where
  "shred_reply status userId i t m = send 200
     ([(''status'', JStr status)] @ user_fields userId @
      (case i of None \<Rightarrow> [] | Some x \<Rightarrow> [(''deletionRequestId'', JStr x), (''deletion_request_id'', JStr x)]) @
      [(''timestamp'', JStr (isoString t)), (''message'', JStr m)])"

definition in_progress_message :: string where
  "in_progress_message = ''Deletion process is already in progress or completed.''"

definition destroyed_message :: string where
  "destroyed_message = ''Key destroyed. All encrypted data is now mathematically unrecoverable.''"

definition start_shred :: "deletion_service \<Rightarrow> string \<Rightarrow> string \<Rightarrow> string \<Rightarrow> ('z dworld_scheme, reply) eff" where
  "start_shred D userId operationId tenantId =
     bnd (createRequest D userId operationId tenantId None) (\<lambda>(r, alreadyExisted).
     if alreadyExisted then
       bnd (gets now) (\<lambda>t. ret (shred_reply (request_status_str (q_status r)) userId (Some (q_id r)) t in_progress_message))
     else
       bnd (advanceRequest D (q_id r) KEY_DESTROYED operationId []) (\<lambda>r1.
       bnd (advanceRequest D (q_id r1) CASCADE_PENDING operationId []) (\<lambda>r2.
       bnd (gets now) (\<lambda>t. ret (shred_reply (request_status_str (q_status r2)) userId (Some (q_id r2)) t destroyed_message)))))"

definition delete_key_shred :: "deletion_service \<Rightarrow> http_request \<Rightarrow> operation_body \<Rightarrow> ('z dworld_scheme, reply) eff" where
  "delete_key_shred D rq b =
     (let tenantId = tenant_of rq in
      catch
        (bnd (lift (validateShred b)) (\<lambda>userId.
         bnd (gets now) (\<lambda>t0.
         let operationId = or_else (or_opt (ob_operationId b) (or_opt (ob_operation_id b) (Some (rq_correlationId rq))))
               (''shred-'' @ userId @ ''-'' @ int_str t0) in
         bnd (getRequest operationId) (\<lambda>existing. case existing of
           Some d \<Rightarrow> bnd (gets now) (\<lambda>t.
             ret (shred_reply (request_status_str (q_status d)) userId (Some (q_id d)) t in_progress_message))
         | None \<Rightarrow>
             bnd (getKeyStatus userId tenantId) (\<lambda>keyEntry. case keyEntry of
               None \<Rightarrow> ret (reply_error 404 ''User key not found'')
             | Some k \<Rightarrow>
                 if ks_status k = SHREDDED then
                   bnd (gets now) (\<lambda>t. ret (shred_reply ''CERTIFICATE_ISSUED'' userId None t
                     ''Key successfully shredded (already shredded and certificate issued)''))
                 else start_shred D userId operationId tenantId)))))
        (on_error ''Failed to shred key''))"

section \<open>Nobody reaches into another tenant's deletion\<close>

lemma getRequest_frame: "getRequest i s = (r, s') \<Longrightarrow> s' = snd (next_call s)"
  by (metis getDeletionRequest_def getRequest_def rread_snd snd_conv)

lemma getRequest_found: "getRequest i s = (Inr d, s') \<Longrightarrow> d = req_of i s"
  unfolding getRequest_def by (auto dest: getRequest_Inr)

text \<open>
  C20. Advancing is confined to the caller's tenant: a request of another tenant is not found, whatever
  status is asked for, and the call leaves requests, keys, ledger, bucket and started cascades alone;
  a request that GET shows belongs to the caller's tenant.
\<close>

theorem deletion_routes_tenant_scoped:
  assumes "req_of i s = Some d" and "shown_tenant d \<noteq> tenant_of rq"
  shows "(\<forall>rep s'. post_advance D isUuid rq i b s = (rep, s') \<longrightarrow>
      (\<exists>r. rep = Inr r \<and> reply_code r \<in> {404, 500}) \<and> requests s' = requests s \<and> keys s' = keys s \<and>
      chains s' = chains s \<and> entries s' = entries s \<and> objects s' = objects s \<and> cascades s' = cascades s) \<and>
    (\<forall>rep s'. get_deletion_request isUuid rq i s = (rep, s') \<longrightarrow> (\<exists>r. rep = Inr r \<and> reply_code r \<in> {404, 500}))"
proof (intro conjI allI impI)
  fix rep s' assume "get_deletion_request isUuid rq i s = (rep, s')"
  then show "\<exists>r. rep = Inr r \<and> reply_code r \<in> {404, 500}"
    using assms unfolding get_deletion_request_def validateRequestId_def
    by (auto simp: catch_apply bnd_apply deletion_error_def reply_code_def no_such_request_def reply_error_def
        reject_errors_def split: prod.splits sum.splits option.splits if_splits dest!: getRequest_found)
next
  fix rep s' assume run: "post_advance D isUuid rq i b s = (rep, s')"
  have "(\<exists>r. rep = Inr r \<and> reply_code r \<in> {404, 500}) \<and> (s' = s \<or> s' = snd (next_call s))"
  proof (cases "validateRequestId isUuid i")
    case (Inl e)
    then show ?thesis using run unfolding post_advance_def
      by (auto simp: catch_apply bnd_apply deletion_error_def reply_code_def)
  next
    case (Inr j)
    then have j: "j = i" by (auto simp: validateRequestId_def reject_errors_def split: if_splits)
    show ?thesis
    proof (cases "validateAdvance isUuid b")
      case (Inl e)
      then show ?thesis using run Inr unfolding post_advance_def
        by (auto simp: catch_apply bnd_apply deletion_error_def reply_code_def)
    next
      case (Inr x)
      obtain g u where g: "getRequest i s = (g, u)" by fastforce
      have u: "u = snd (next_call s)" by (rule getRequest_frame[OF g])
      show ?thesis
      proof (cases g)
        case (Inl e)
        then show ?thesis using run \<open>validateRequestId isUuid i = Inr j\<close> Inr g u unfolding post_advance_def j
          by (auto simp: catch_apply bnd_apply deletion_error_def reply_code_def split_beta)
      next
        case (Inr y)
        then have "y = Some d" using getRequest_found g assms(1) by metis
        then show ?thesis
          using run \<open>validateRequestId isUuid i = Inr j\<close> \<open>validateAdvance isUuid b = Inr x\<close> g u Inr assms(2) unfolding post_advance_def j
          by (auto simp: catch_apply bnd_apply deletion_error_def reply_code_def no_such_request_def reply_error_def split_beta)
      qed
    qed
  qed
  then show "(\<exists>r. rep = Inr r \<and> reply_code r \<in> {404, 500})" "requests s' = requests s" "keys s' = keys s"
      "chains s' = chains s" "entries s' = entries s" "objects s' = objects s" "cascades s' = cascades s"
    by (auto simp: next_call_def split: list.splits)
qed

section \<open>A shred that is answered has happened\<close>

lemma keys_side: "side_free (\<lambda>s. Q (keys s))" "requests_free (\<lambda>s. Q (keys s))"
  by (simp_all add: side_free_def jworld_free_def lineage_free_def kms_free_def bq_free_def signer_free_def draw_free_def
      timeless_def requests_free_def)

lemmas keys_frames = keys_side side_freeD[OF keys_side(1)]

lemma keys_certificate: "keeps (\<lambda>s. Q (keys s)) (advance_certificate D i op)"
  unfolding advance_certificate_def handle_certificate_def claimed_then_def finish_advance_def or_roll_back_def
  by (intro keeps_intros keys_frames)

lemma keys_cascade_pending: "keeps (\<lambda>s. Q (keys s)) (advanceRequest D i CASCADE_PENDING op fs)"
proof -
  have "keeps (\<lambda>s. Q (keys s)) (handle_pending D i op r)" for r
    unfolding handle_pending_def shortcutToCascadeComplete_def advance_partial_failure_def handle_partial_failure_def
      trigger_cascade_def claimed_then_def finish_advance_def
    by (intro keeps_bnd keeps_plan_case keys_certificate) (intro keeps_intros keys_frames)+
  note pending = this
  show ?thesis unfolding advanceRequest_def request_status.case
    by (intro keeps_bnd pending keeps_intros keys_frames)
qed

lemma createRequest_new:
  assumes "createRequest D u op t rb s = (Inr (r, False), s')" and "req_of op s = None"
  shows "\<exists>w. r = new_request u op t rb w \<and> req_of op s' = Some r"
proof -
  obtain s1 where a: "getActiveDeletionRequestForUser u t s = (Inr None, s1)"
    and rest: "bnd (createDeletionRequest u op t rb) (\<lambda>d. bnd (record_quietly D
               ((vault_event u (Some t) ''deletion-request-log'' ''SHRED_REQUESTED'' None [(''status'', JStr ''SHRED_REQUESTED'')])
                 \<lparr>le_operationId := Some op, le_deletionRequestId := Some op\<rparr>)) (\<lambda>_. ret (d, False))) s1 = (Inr (r, False), s')"
  proof -
    obtain x s0 where a: "getActiveDeletionRequestForUser u t s = (Inr x, s0)"
      and rest: "(case x of Some r \<Rightarrow> ret (r, True) | None \<Rightarrow> bnd (createDeletionRequest u op t rb) (\<lambda>d. bnd (record_quietly D
               ((vault_event u (Some t) ''deletion-request-log'' ''SHRED_REQUESTED'' None [(''status'', JStr ''SHRED_REQUESTED'')])
                 \<lparr>le_operationId := Some op, le_deletionRequestId := Some op\<rparr>)) (\<lambda>_. ret (d, False)))) s0 = (Inr (r, False), s')"
      using assms(1) unfolding createRequest_def by (rule bnd_InrE)
    have "x = None" using rest by (cases x) simp_all
    with a rest show thesis by (intro that) simp_all
  qed
  have s1: "req_of op s1 = None"
    using rread_Inr[OF a[unfolded getActiveDeletionRequestForUser_def]] assms(2) by (simp add: req_next_call)
  from rest obtain d s2 where c: "createDeletionRequest u op t rb s1 = (Inr d, s2)"
    and q: "bnd (record_quietly D ((vault_event u (Some t) ''deletion-request-log'' ''SHRED_REQUESTED'' None [(''status'', JStr ''SHRED_REQUESTED'')])
                 \<lparr>le_operationId := Some op, le_deletionRequestId := Some op\<rparr>)) (\<lambda>_. ret (d, False)) s2 = (Inr (r, False), s')"
    by (rule bnd_InrE)
  have d: "\<exists>w. d = new_request u op t rb w \<and> req_of op s2 = Some d"
    using rtxn_Inr[OF c[unfolded createDeletionRequest_def]] s1 by (auto simp: Let_def split: option.splits)
  have r: "r = d" using q by (auto simp: bnd_apply split: prod.splits sum.splits)
  have "keeps (\<lambda>w. requests w = requests s2) (bnd (record_quietly D e) (\<lambda>_. ret (d, False)))" for e
    by (intro keeps_intros side_freeD(6)[OF requests_side[of "\<lambda>x. x = requests s2"]])
  from keepsE[OF this refl q] have "requests s' = requests s2" .
  with d r show ?thesis by (auto simp: req_of_def)
qed

lemma advance_destroys:
  fixes s :: "'z dworld_scheme"
  assumes run: "advanceRequest D i KEY_DESTROYED op fs s = (Inr r1, s')" and d: "req_of i s = Some d"
  shows "\<exists>old t. keys s' (getDocId (tenant_of_request d) (q_user_id d)) = Some (shred_doc old t (Some i)) \<and> q_id r1 = q_id d"
proof -
  let ?k = "getDocId (tenant_of_request d) (q_user_id d)"
  obtain b s1 where b: "begin_advance i KEY_DESTROYED s = (Inr b, s1)" and h: "handle_key_destroyed D i op b s1 = (Inr r1, s')"
    using run unfolding advanceRequest_def by (auto elim: bnd_InrE)
  from begin_Inr[OF b] d have bd: "b = d" and s1: "req_of i s1 = Some d" by (auto simp: req_of_def)
  define body :: "('z dworld_scheme, deletion_request) eff" where "body = bnd (or_roll_back i d (shredKeyForUser (q_user_id d) (tenant_of_request d) (Some i))) (\<lambda>_.
        bnd (gets now) (\<lambda>t.
        bnd (record_quietly D (request_event d (tenant_of_request d) i op ''KEY_SHREDDED'' ''key-registry''
              [(''status'', JStr ''KEY_SHREDDED''), (''deletion_request_id'', JStr i), (''user_id'', JStr (q_user_id d))])) (\<lambda>_.
        finish_advance i d KEY_DESTROYED (no_fields\<lparr>uf_key_destroyed_at := Some t\<rparr>))))"
  have "bnd (claimTransition i [q_status d] KEY_DESTROYED) (\<lambda>c. case c of NotClaimed current \<Rightarrow> ret current | Claimed \<Rightarrow> body) s1 = (Inr r1, s')"
    using h unfolding bd handle_key_destroyed_def claimed_then_def body_def .
  then obtain c s2 where c: "claimTransition i [q_status d] KEY_DESTROYED s1 = (Inr c, s2)"
    and rest: "(case c of NotClaimed current \<Rightarrow> ret current | Claimed \<Rightarrow> body) s2 = (Inr r1, s')"
    by (rule bnd_InrE)
  have "c = Claimed" using rtxn_Inr[OF c[unfolded claimTransition_def]] s1 by (auto split: if_splits)
  with rest have "body s2 = (Inr r1, s')" by simp
  then obtain u s3 where sh: "or_roll_back i d (shredKeyForUser (q_user_id d) (tenant_of_request d) (Some i)) s2 = (Inr u, s3)"
    and fin: "bnd (gets now) (\<lambda>t.
        bnd (record_quietly D (request_event d (tenant_of_request d) i op ''KEY_SHREDDED'' ''key-registry''
              [(''status'', JStr ''KEY_SHREDDED''), (''deletion_request_id'', JStr i), (''user_id'', JStr (q_user_id d))])) (\<lambda>_.
        finish_advance i d KEY_DESTROYED (no_fields\<lparr>uf_key_destroyed_at := Some t\<rparr>))) s3 = (Inr r1, s')"
    unfolding body_def by (rule bnd_InrE)
  have "shredKeyForUser (q_user_id d) (tenant_of_request d) (Some i) s2 = (Inr u, s3)"
    using sh by (auto simp: or_roll_back_def catch_apply bnd_apply split: prod.splits sum.splits)
  then have k: "keys s3 ?k = Some (shred_doc (keys s2 ?k) (now s2) (Some i))" by (auto dest: shredKeyForUser_Inr)
  have "keeps (\<lambda>s. keys s ?k = x) (bnd (gets now) (\<lambda>t.
        bnd (record_quietly D e) (\<lambda>_. finish_advance i d KEY_DESTROYED (f t))))" for x e f
    unfolding finish_advance_def by (intro keeps_intros keys_frames[where Q = "\<lambda>m. m ?k = x"])
  from keepsE[OF this k fin] have "keys s' ?k = Some (shred_doc (keys s2 ?k) (now s2) (Some i))" .
  moreover have "q_id r1 = q_id d"
    using fin unfolding finish_advance_def
    by (auto simp: bnd_apply apply_fields_def split: prod.splits sum.splits)
  ultimately show ?thesis by blast
qed

lemma send_fields [simp]: "body (send c fs) = JObj fs"
  by (simp add: send_def)

text \<open>If the route answers that the key is destroyed, it is: the key document is a shredded one.\<close>

lemma tenant_of_nonempty: "tenant_of rq \<noteq> []"
  by (simp add: tenant_of_def or_else_def default_tenant_def split: option.splits)

lemma destroyed_message_only: "destroyed_message \<noteq> in_progress_message"
    "destroyed_message \<noteq> ''Key successfully shredded (already shredded and certificate issued)''"
  by (simp_all add: destroyed_message_def in_progress_message_def)

lemma start_shred_destroys:
  assumes st: "start_shred D u op t s2 = (Inr r, s')" and none: "req_of op s2 = None" and t: "t \<noteq> []"
    and ok: "field ''message'' r = Some (JStr destroyed_message)"
  shows "\<exists>old x. keys s' (getDocId t u) = Some (shred_doc old x (Some op))"
proof -
  let ?finish = "\<lambda>r1. bnd (advanceRequest D (q_id r1) CASCADE_PENDING op []) (\<lambda>r2.
       bnd (gets now) (\<lambda>t. ret (shred_reply (request_status_str (q_status r2)) u (Some (q_id r2)) t destroyed_message)))"
  obtain d e s3 where cr: "createRequest D u op t None s2 = (Inr (d, e), s3)"
    and more: "(if e then bnd (gets now) (\<lambda>t. ret (shred_reply (request_status_str (q_status d)) u (Some (q_id d)) t in_progress_message))
     else bnd (advanceRequest D (q_id d) KEY_DESTROYED op []) ?finish) s3 = (Inr r, s')"
    using st unfolding start_shred_def by (auto elim!: bnd_InrE)
  have e: "\<not> e" using more ok destroyed_message_only by (auto simp: shred_reply_def user_fields_def split: if_splits)
  with cr have cr: "createRequest D u op t None s2 = (Inr (d, False), s3)" by simp
  from createRequest_new[OF this none] obtain w where d: "d = new_request u op t None w" "req_of op s3 = Some d" by blast
  have td: "q_id d = op" "tenant_of_request d = t" "q_user_id d = u"
    using d(1) t by (simp_all add: tenant_of_request_def new_request_def or_else_def)
  obtain r1 s4 where a1: "advanceRequest D op KEY_DESTROYED op [] s3 = (Inr r1, s4)" and a2: "?finish r1 s4 = (Inr r, s')"
    using more e td(1) by (simp add: bnd_InrE) (erule bnd_InrE, blast)
  obtain old x where k4: "keys s4 (getDocId t u) = Some (shred_doc old x (Some op))"
    using advance_destroys[OF a1 d(2)] td by auto
  have "keeps (\<lambda>s. keys s (getDocId t u) = y) (?finish r1)" for y
    by (intro keeps_intros keys_cascade_pending[where Q = "\<lambda>m. m (getDocId t u) = y"])
  from keepsE[OF this k4 a2] show ?thesis by blast
qed

lemma shred_route_destroys:
  assumes run: "delete_key_shred D rq b s = (Inr r, s')" and ok: "code r = 200" "field ''message'' r = Some (JStr destroyed_message)"
  shows "\<exists>old t i. keys s' (getDocId (tenant_of rq) (body_user (ob_user b))) = Some (shred_doc old t (Some i))"
proof -
  let ?u = "body_user (ob_user b)" and ?t = "tenant_of rq"
  define op where "op = or_else (or_opt (ob_operationId b) (or_opt (ob_operation_id b) (Some (rq_correlationId rq))))
               (''shred-'' @ ?u @ ''-'' @ int_str (now s))"
  obtain s1 where g: "getRequest op s = (Inr None, s1)"
    and rest: "bnd (getKeyStatus ?u ?t) (\<lambda>keyEntry. case keyEntry of
               None \<Rightarrow> ret (reply_error 404 ''User key not found'')
             | Some k \<Rightarrow>
                 if ks_status k = SHREDDED then
                   bnd (gets now) (\<lambda>t. ret (shred_reply ''CERTIFICATE_ISSUED'' ?u None t
                     ''Key successfully shredded (already shredded and certificate issued)''))
                 else start_shred D ?u op ?t) s1 = (Inr r, s')"
    using run ok destroyed_message_only unfolding delete_key_shred_def Let_def validateShred_def op_def
    by (auto simp: catch_apply bnd_apply on_error_def reply400_def reply500_def reject_errors_def shred_reply_def user_fields_def
        split: prod.splits sum.splits option.splits exn.splits if_splits)
  obtain k s2 where ks: "getKeyStatus ?u ?t s1 = (Inr k, s2)" and st: "start_shred D ?u op ?t s2 = (Inr r, s')"
    using rest ok destroyed_message_only
    by (auto elim!: bnd_InrE simp: reply_error_def shred_reply_def user_fields_def split: option.splits if_splits)
  have "requests s1 = requests s" using getRequest_frame[OF g] by (simp add: requests_next_call)
  moreover have "requests s2 = requests s1"
    by (rule keepsE[OF keeps_getKeyStatus[of "\<lambda>w. requests w = requests s1"] refl ks]) (simp add: timeless_def)
  ultimately have "req_of op s2 = None" using getRequest_found[OF g] by (simp add: req_of_def)
  from start_shred_destroys[OF st this tenant_of_nonempty ok(2)] show ?thesis by blast
qed

text \<open>
  A key already shredded is reported as CERTIFICATE_ISSUED, whatever state the requests are in: the answer
  does not look at them beyond the one of the caller's operation id.
\<close>

lemma shredded_reported_issued:
  fixes s :: "'z dworld_scheme"
  assumes v: "validateShred b = Inr u" and i: "or_else (or_opt (ob_operationId b) (ob_operation_id b)) [] = op" "op \<noteq> []"
    and none: "req_of op s = None" and calls: "outcomes s = []"
    and k: "keys s (getDocId (tenant_of rq) u) = Some kd" "kd_status kd = SHREDDED"
  shows "\<exists>r. delete_key_shred D rq b s = (Inr r, s) \<and> field ''status'' r = Some (JStr ''CERTIFICATE_ISSUED'')"
proof -
  have "or_else (or_opt (ob_operationId b) (or_opt (ob_operation_id b) (Some c))) f = op" for c f
    using i by (auto simp: or_else_def or_opt_def truthy_def split: option.splits if_splits)
  moreover have "getRequest op s = (Inr None, s)"
    using none calls by (simp add: getRequest_def getDeletionRequest_def no_faults req_of_def)
  moreover have "getKeyStatus u (tenant_of rq) s = (Inr (Some (status_view kd (now s))), s)"
    using k calls by (simp add: getKeyStatus_def no_faults bnd_apply)
  ultimately show ?thesis using v k unfolding delete_key_shred_def Let_def
    by (simp add: catch_apply bnd_apply status_view_def shred_reply_def)
qed

section \<open>A concrete shred\<close>

definition toy_shred :: operation_body where
  "toy_shred = \<lparr>ob_user = toy_body, ob_operationId = Some ''op'', ob_operation_id = None\<rparr>"

definition toy_live :: dworld where
  "toy_live = cworld.extend (toy_cworld [getDocId ''t'' ''u'' \<mapsto> (new_key_doc ''u'' [7] 1000)\<lparr>kd_destinations := Some [''Salesforce'']\<rparr>] [] [])
     (dworld.fields [])"

lemma toy_rq_tenant: "tenant_of toy_rq = ''t''"
  by (simp add: tenant_of_def toy_rq_def or_else_def truthy_def)

lemma toy_shred_valid: "validateShred toy_shred = Inr ''u''"
  using toy_valid
  by (simp add: validateShred_def toy_shred_def validateUser_def nonempty_errors_def opt_errors_def reject_errors_def split: if_splits)

lemma toy_record:
  "record_quietly toy_deletions e s =
     (Inr (), s\<lparr>draws := draws s + 1, logged := logged s @ [avroPayload (nat_str (draws s)) (now s * 1000) e]\<rparr>)"
  by (simp add: record_quietly_def toy_deletions_def swallow_apply recordEvent_def toy_lineage_def Let_def bnd_apply catch_apply log_event_def)

definition shredding_request :: deletion_request where
  "shredding_request = new_request ''u'' ''op'' ''t'' None 5000"

lemma toy_create:
  "\<exists>lg. createRequest toy_deletions ''u'' ''op'' ''t'' None toy_live =
     (Inr (shredding_request, False), toy_live\<lparr>requests := [(''op'', shredding_request)], draws := 1, logged := lg\<rparr>)"
proof -
  have a: "getActiveDeletionRequestForUser ''u'' ''t'' toy_live = (Inr None, toy_live)"
    by (simp add: getActiveDeletionRequestForUser_def no_faults toy_live_def toy_dworld_defs query_def first_of_def newest_first_def)
  have b: "createDeletionRequest ''u'' ''op'' ''t'' None toy_live =
      (Inr shredding_request, toy_live\<lparr>requests := [(''op'', shredding_request)]\<rparr>)"
    by (simp add: createDeletionRequest_def no_faults toy_live_def toy_dworld_defs Let_def put_req_def req_of_def shredding_request_def)
  have c: "draws toy_live = 0" by (simp add: toy_live_def toy_dworld_defs)
  show ?thesis by (simp add: createRequest_def bnd_apply a b c toy_record exI)
qed


definition ready :: "dworld \<Rightarrow> bool" where
  "ready s = (outcomes s = [] \<and> registry s = [] \<and>
     (\<exists>k d. keys s (getDocId ''t'' ''u'') = Some k \<and> kd_destinations k = Some [''Salesforce''] \<and> req_of ''op'' s = Some d \<and>
        q_status d = KEY_DESTROYED \<and> q_user_id d = ''u'' \<and> q_tenant_id d = Some ''t'' \<and> q_id d = ''op''))"

lemma fields_set: "no_fields\<lparr>uf_key_destroyed_at := Some x\<rparr> \<noteq> no_fields" "no_fields\<lparr>uf_cascade_initiated_at := Some x\<rparr> \<noteq> no_fields"
  by (simp_all add: no_fields_def)

lemma toy_destroy:
  "\<exists>s' r. advanceRequest toy_deletions ''op'' KEY_DESTROYED ''op'' [] (toy_live\<lparr>requests := [(''op'', shredding_request)], draws := 1, logged := lg\<rparr>) =
     (Inr r, s') \<and> q_id r = ''op'' \<and> ready s'"
  unfolding advanceRequest_def begin_advance_def request_status.case handle_key_destroyed_def claimed_then_def or_roll_back_def finish_advance_def
   by (simp add: bnd_apply getDeletionRequest_def no_faults toy_live_def toy_dworld_defs Let_def put_req_def req_of_def shredding_request_def
     isValidTransition_def transitions_def claimTransition_def catch_apply shredKeyForUser_def toy_record updateDeletionRequestFields_def
     fields_set new_request_def tenant_of_request_def or_else_def truthy_def update_req_def push_status_def apply_fields_def ready_def shred_doc_def
     toy_registry_world_def)

lemma toy_pending_advance:
  assumes "ready s"
  shows "\<exists>s' r. advanceRequest toy_deletions ''op'' CASCADE_PENDING ''op'' [] s = (Inr r, s')"
proof -
  obtain k d where r: "outcomes s = []" "registry s = []"
    "keys s (getDocId ''t'' ''u'') = Some k" "kd_destinations k = Some [''Salesforce'']" "req_of ''op'' s = Some d"
        "q_status d = KEY_DESTROYED" "q_user_id d = ''u''" "q_tenant_id d = Some ''t''"
    using assms by (auto simp: ready_def)
  let ?cs = "ds_connectors toy_deletions :: (string \<times> dworld connector) list"
  have ks: "getKeyStatus ''u'' ''t'' s = (Inr (Some (status_view k (now s))), s)"
    using r by (simp add: getKeyStatus_def no_faults bnd_apply)
  have pl: "plan_tasks ?cs ''u'' (planned_destinations (Some (status_view k (now s)))) =
     [\<lparr>jt_userId = ''u'', jt_destination = ''Salesforce'', jt_status = TASK_PENDING, jt_attempts = 0, jt_recordsFound = None\<rparr>]"
    using r by (simp add: ds_connectors_def toy_deletions_def plan_tasks_def planned_destinations_def status_view_def 
        getConnector_registry lower_salesforce)
  have cp: "createCleanupPlan ?cs ''u'' ''t'' s =
     (Inr [\<lparr>jt_userId = ''u'', jt_destination = ''Salesforce'', jt_status = TASK_PENDING, jt_attempts = 0, jt_recordsFound = None\<rparr>], s)"
    unfolding createCleanupPlan_def bnd_apply ks prod.case sum.case pl by simp
  have t: "tenant_of_request d = ''t''" by (simp add: tenant_of_request_def r or_else_def truthy_def)
  show ?thesis
    unfolding advanceRequest_def begin_advance_def request_status.case handle_pending_def prepareCascadeTrigger_def trigger_cascade_def claimed_then_def
    using r
    by (simp add: bnd_apply getDeletionRequest_def no_faults isValidTransition_def transitions_def catch_apply t cp 
       claimTransition_def toy_record updateDeletionRequestFields_def fields_set update_req_def start_cascade_def Let_def planRedaction_def planEncryptedCopyDeletion_def
       put_req_def req_of_def update_conv' modify_def)
qed

lemma toy_shred_runs:
  "\<exists>r s'. delete_key_shred toy_deletions toy_rq toy_shred toy_live = (Inr r, s') \<and> code r = 200 \<and>
     field ''message'' r = Some (JStr destroyed_message)"
proof -
  have g: "getRequest ''op'' toy_live = (Inr None, toy_live)"
    by (simp add: getRequest_def getDeletionRequest_def no_faults toy_live_def toy_dworld_defs req_of_def)
  obtain k where k: "getKeyStatus ''u'' ''t'' toy_live = (Inr (Some k), toy_live)" "ks_status k = ACTIVE"
    by (simp add: getKeyStatus_def no_faults bnd_apply toy_live_def toy_dworld_defs status_view_def new_key_doc_def)
  obtain lg where c: "createRequest toy_deletions ''u'' ''op'' ''t'' None toy_live =
     (Inr (shredding_request, False), toy_live\<lparr>requests := [(''op'', shredding_request)], draws := 1, logged := lg\<rparr>)"
    using toy_create by blast
  obtain s1 r1 where d: "advanceRequest toy_deletions ''op'' KEY_DESTROYED ''op'' [] (toy_live\<lparr>requests := [(''op'', shredding_request)], draws := 1, logged := lg\<rparr>) =
     (Inr r1, s1)" "q_id r1 = ''op''" "ready s1" using toy_destroy by blast
  obtain s2 r2 where p: "advanceRequest toy_deletions ''op'' CASCADE_PENDING ''op'' [] s1 = (Inr r2, s2)"
    using toy_pending_advance[OF d(3)] by blast
  have o: "or_else (or_opt (ob_operationId toy_shred) (or_opt (ob_operation_id toy_shred) c)) f = ''op''" for c f
    by (simp add: toy_shred_def or_opt_def or_else_def truthy_def)
  have q: "q_id shredding_request = ''op''" by (simp add: shredding_request_def new_request_def)
  show ?thesis
    by (simp add: delete_key_shred_def Let_def toy_shred_valid toy_rq_tenant o catch_apply bnd_apply g k c d[unfolded One_nat_def] p q start_shred_def shred_reply_def user_fields_def)
qed

lemma deletion_routes_tenant_scoped_witness:
  "\<exists>r s'. post_advance toy_deletions (\<lambda>_. True) (toy_rq\<lparr>rq_tenant := Some ''other''\<rparr>) ''r1''
       \<lparr>nb_newStatus = Some CASCADE_PARTIAL_FAILURE, nb_new_status = None, nb_operationId = Some ''op'', nb_operation_id = None\<rparr> toy_dworld =
     (Inr r, s') \<and> reply_code r \<noteq> 200 \<and> requests s' = requests toy_dworld"
proof -
  have t: "shown_tenant pending_request \<noteq> tenant_of (toy_rq\<lparr>rq_tenant := Some ''other''\<rparr>)"
    by (simp add: shown_tenant_def pending_request_def new_request_def tenant_of_def toy_rq_def or_else_def truthy_def)
  obtain rep s' where run: "post_advance toy_deletions (\<lambda>_. True) (toy_rq\<lparr>rq_tenant := Some ''other''\<rparr>) ''r1''
       \<lparr>nb_newStatus = Some CASCADE_PARTIAL_FAILURE, nb_new_status = None, nb_operationId = Some ''op'', nb_operation_id = None\<rparr> toy_dworld =
     (rep, s')" by fastforce
  from deletion_routes_tenant_scoped[OF toy_pending(1) t, THEN conjunct1, rule_format, OF run] run show ?thesis by auto
qed
end
