(* ===== verification/PiiVault.thy ===== *)
theory PiiVault
  imports DeletionRoutes
begin

text \<open>
  Reading the PII vault: \<open>src/services/pii-vault-decryptor.ts\<close>, \<open>src/services/pii-vault-lookup.ts\<close> and the two
  routes that decrypt its values, \<open>src/routes/pii-vault-decrypt.ts\<close> (one value) and
  \<open>src/routes/decrypted-views-decrypt.ts\<close> (the batches of BigQuery's remote function). The vault table is part
  of the world; the verification of an ID token is an argument. Two rows synced at the same instant are
  taken in table order. The rate limit of the route is the framework's.
\<close>

section \<open>The table\<close>

record vault_row =
  vr_tenant_id :: string
  vr_user_id :: string
  vr_resource_id :: string
  vr_field_name :: string
  vr_encrypted_value :: "string option"
  vr_synced_at :: int

record vworld = dworld +
  vault_rows :: "vault_row list"

record lookup_params =
  lp_tenantId :: string
  lp_userId :: string
  lp_resourceId :: string
  lp_fieldName :: string

definition row_matches :: "lookup_params \<Rightarrow> vault_row \<Rightarrow> bool" where
  "row_matches p r = (vr_tenant_id r = lp_tenantId p \<and> vr_user_id r = lp_userId p \<and>
     vr_resource_id r = lp_resourceId p \<and> vr_field_name r = lp_fieldName p)"

definition lookup_rows :: "lookup_params \<Rightarrow> vault_row list \<Rightarrow> vault_row list" where
  "lookup_rows p rows = take 1 (sort_key (\<lambda>r. - vr_synced_at r) (filter (row_matches p) rows))"

definition findCiphertext :: "lookup_params \<Rightarrow> ('z vworld_scheme, string option) eff" where
  "findCiphertext p =
     bnd (rread (\<lambda>s. lookup_rows p (vault_rows s))) (\<lambda>rows.
     ret (case rows of [] \<Rightarrow> None | r # _ \<Rightarrow> vr_encrypted_value r))"

section \<open>Decrypting a value\<close>

text \<open>\<open>key_id:iv_b64:ciphertext_b64\<close>, the parts after the second colon put together again.\<close>

definition vault_parts :: "string \<Rightarrow> (string \<times> string \<times> string) option" where
  "vault_parts raw = (case split_on CHR '':'' raw of
     keyVersionId # iv # rest \<Rightarrow>
       if rest = [] then None
       else (let ciphertext = join_with [CHR '':''] rest in
         if keyVersionId = [] \<or> iv = [] \<or> ciphertext = [] then None else Some (keyVersionId, iv, ciphertext))
   | _ \<Rightarrow> None)"

definition decryptPiiVaultValue ::
  "vault \<Rightarrow> string option \<Rightarrow> string option \<Rightarrow> string option \<Rightarrow> ('z kmsworld_scheme, string option) eff" where
  "decryptPiiVaultValue V rawCiphertext userId tenantId =
     (if \<not> truthy rawCiphertext \<or> \<not> truthy userId then ret None
      else case vault_parts (the rawCiphertext) of
        None \<Rightarrow> ret None
      | Some (keyVersionId, iv, ciphertext) \<Rightarrow>
          let tenant = or_else tenantId default_tenant in
          bnd (getKeyForUser (the userId) tenant (Some keyVersionId)) (\<lambda>keyData. case keyData of
              None \<Rightarrow> ret None
            | Some km \<Rightarrow>
                catch
                  (bnd (decryptDataEncryptionKey (vt_kms V) (vt_client V) (encryptedDek km) (Some tenant)) (\<lambda>dek.
                   bnd (lift (gcm_decrypt (vt_gcm V) iv ciphertext (the userId) dek)) (\<lambda>plaintext. ret (Some plaintext))))
                  (\<lambda>_. ret None)))"

section \<open>One value: \<open>POST /pii-vault/decrypt\<close>\<close>

record decrypt_body =
  db_userId :: "string option"
  db_resourceId :: "string option"
  db_fieldName :: "string option"

definition ad_hoc_event :: "http_request \<Rightarrow> string \<Rightarrow> string \<Rightarrow> string \<Rightarrow> int \<Rightarrow> bool \<Rightarrow> lineage_event" where
  "ad_hoc_event rq userId resourceId fieldName t found =
     vault_event userId (Some (tenant_of rq)) ''pii-vault'' ''AD_HOC_DECRYPT_PERFORMED'' None
       [(''operation'', JStr ''AD_HOC_DECRYPT''), (''resourceId'', JStr resourceId), (''fieldName'', JStr fieldName),
        (''correlationId'', JStr (rq_correlationId rq)), (''timestamp'', JStr (isoString t)),
        (''analystEmail'', jopt (rq_analystEmail rq)), (''found'', JBool found)]"

text \<open>A failure of the key lookup is not caught: the framework answers it.\<close>

definition post_vault_decrypt :: "vault \<Rightarrow> http_request \<Rightarrow> decrypt_body \<Rightarrow> ('z vworld_scheme, reply) eff" where
  "post_vault_decrypt V rq b =
     (if \<not> truthy (db_userId b) \<or> \<not> truthy (db_resourceId b) \<or> \<not> truthy (db_fieldName b) then
        ret (send 400 [(''statusCode'', JNum 400), (''error'', JStr ''userId, resourceId, and fieldName are all required'')])
      else
        let tenantId = tenant_of rq; userId = the (db_userId b); resourceId = the (db_resourceId b); fieldName = the (db_fieldName b) in
        bnd (catch
              (bnd (findCiphertext \<lparr>lp_tenantId = tenantId, lp_userId = userId, lp_resourceId = resourceId, lp_fieldName = fieldName\<rparr>)
                (\<lambda>raw. ret (Inr raw)))
              (\<lambda>_. ret (Inl (send 500 [(''statusCode'', JNum 500), (''error'', JStr ''Lookup failed'')]))))
          (\<lambda>looked_up. case looked_up of
             Inl reply \<Rightarrow> ret reply
           | Inr rawCiphertext \<Rightarrow>
               bnd (decryptPiiVaultValue V rawCiphertext (Some userId) (Some tenantId)) (\<lambda>value.
               bnd (gets now) (\<lambda>t.
               bnd (audit V (ad_hoc_event rq userId resourceId fieldName t (value \<noteq> None))) (\<lambda>_.
               ret (send 200 [(''value'', jopt value)]))))))"

section \<open>A batch: \<open>POST /internal/decrypted-views/batch-decrypt\<close>\<close>

text \<open>
  \<open>verifyIdToken\<close> of the authentication library: the \<open>sub\<close> claim of a token with a valid signature that was
  issued for the audience, \<open>None\<close> for a token it rejects. Fetching the certificates may fail.
\<close>

type_synonym id_verifier = "string \<Rightarrow> string \<Rightarrow> string option option"

definition verifyCaller :: "id_verifier \<Rightarrow> string option \<Rightarrow> string \<Rightarrow> string \<Rightarrow> ('z env_scheme, bool) eff" where
  "verifyCaller verify authHeader allowedCallerUniqueId audience =
     (case authHeader of
        None \<Rightarrow> ret False
      | Some h \<Rightarrow>
          if \<not> startsWith ''Bearer '' h then ret False
          else catch
            (bnd (rread (\<lambda>_. verify (drop (length ''Bearer '') h) audience)) (\<lambda>payload. case payload of
                None \<Rightarrow> throw (Err ''invalid token'')
              | Some sub \<Rightarrow> ret (sub = Some allowedCallerUniqueId)))
            (\<lambda>_. ret False))"

type_synonym remote_call = "string option \<times> string option \<times> string option"

record batch_request =
  br_hostname :: string
  br_url :: string
  br_authorization :: "string option"
  br_calls :: "remote_call list option"

datatype batch_reply =
    Refused nat string
  | Replies "string option list"

definition post_batch_decrypt ::
  "vault \<Rightarrow> id_verifier \<Rightarrow> string \<Rightarrow> batch_request \<Rightarrow> ('z kmsworld_scheme, batch_reply) eff" where
  "post_batch_decrypt V verify allowedCallerUniqueId rq =
     (if allowedCallerUniqueId = [] then ret (Refused 503 ''Decrypted views not configured'')
      else
        bnd (verifyCaller verify (br_authorization rq) allowedCallerUniqueId (''https://'' @ br_hostname rq @ br_url rq)) (\<lambda>authorized.
        if \<not> authorized then ret (Refused 403 ''Forbidden'')
        else case br_calls rq of
          None \<Rightarrow> ret (Refused 400 ''Malformed request: missing calls array'')
        | Some calls \<Rightarrow>
            catch
              (bnd (promiseAll (\<lambda>(rawCiphertext, userId, tenantId). decryptPiiVaultValue V rawCiphertext userId tenantId) calls)
                (\<lambda>replies. ret (Replies replies)))
              (\<lambda>_. ret (Refused 500 ''Batch decrypt failed''))))"

section \<open>A destroyed key ends decryption\<close>

lemma keeps_vault_decrypt [keeps_intros]: "kms_free P \<Longrightarrow> keeps P (decryptPiiVaultValue V raw u t)"
  unfolding decryptPiiVaultValue_def Let_def
  by (intro keeps_intros; simp add: kms_free_timeless split: option.splits prod.splits; intro keeps_intros allI impI; simp add: kms_free_timeless)

lemma vault_decrypt_none:
  fixes s :: "'z kmsworld_scheme"
  assumes gone: "\<And>v. read_material (keys s (getDocId t u)) v = None" and t: "or_else ten default_tenant = t"
  shows "fst (decryptPiiVaultValue V raw (Some u) ten s) \<noteq> Inr (Some x)"
proof -
  have "r = Inl IoErr \<or> r = Inr None" if "getKeyForUser u t v s = (r, w)" for v r w
    using that gone by (auto simp: getKeyForUser_def bnd_apply rread_def keys_next_call split: prod.splits outcome.splits)
      (metis keys_next_call snd_conv)+
  then show ?thesis
    by (auto simp: decryptPiiVaultValue_def t bnd_apply Let_def split: option.splits prod.splits sum.splits)
qed

lemma batch_none:
  fixes s :: "'z kmsworld_scheme"
  assumes gone: "\<And>v. read_material (keys s (getDocId t u)) v = None"
    and run: "settleAll (\<lambda>(raw, uid, ten). decryptPiiVaultValue V raw uid ten) calls s = (rs, s')" and all: "allInr rs = Inr xs"
  shows "list_all2 (\<lambda>(raw, uid, ten) x. uid = Some u \<and> or_else ten default_tenant = t \<longrightarrow> x = None) calls xs"
  using gone run all
proof (induction calls arbitrary: s rs xs)
  case Nil
  then show ?case by simp
next
  case (Cons c calls)
  obtain raw uid ten where c: "c = (raw, uid, ten)" by (cases c)
  obtain r w where r: "decryptPiiVaultValue V raw uid ten s = (r, w)" by (cases "decryptPiiVaultValue V raw uid ten s")
  obtain rs' where rs: "rs = r # rs'" and rest: "settleAll (\<lambda>(raw, uid, ten). decryptPiiVaultValue V raw uid ten) calls w = (rs', s')"
    using Cons.prems(2) r by (auto simp: c Let_def split: prod.splits)
  obtain x xs' where x: "r = Inr x" "allInr rs' = Inr xs'" "xs = x # xs'"
    using Cons.prems(3) rs by (cases r) (auto split: sum.splits)
  have "kms_free (\<lambda>w. keys w = keys s)" for s :: "'z kmsworld_scheme" by (simp add: kms_free_def timeless_def)
  from keepsE[OF keeps_vault_decrypt[OF this] refl r] have k: "keys w = keys s" .
  have "uid = Some u \<and> or_else ten default_tenant = t \<longrightarrow> x = None"
    using vault_decrypt_none[of s t u ten V raw "the x"] Cons.prems(1) r x(1) by (cases x) auto
  moreover have "list_all2 (\<lambda>(raw, uid, ten) x. uid = Some u \<and> or_else ten default_tenant = t \<longrightarrow> x = None) calls xs'"
    using Cons.IH[OF _ rest x(2)] Cons.prems(1) k by simp
  ultimately show ?case by (simp add: c x(3))
qed

lemma findCiphertext_keys:
  fixes w :: "'z vworld_scheme"
  shows "findCiphertext p w = (r, z) \<Longrightarrow> keys z = keys w"
  by (auto simp: findCiphertext_def bnd_apply rread_def split: prod.splits outcome.splits dest!: arg_cong[where f = snd])

lemma vault_route_null:
  fixes w :: "'z vworld_scheme"
  assumes none: "\<And>raw x (z :: 'z vworld_scheme). keys z = keys w \<Longrightarrow>
      fst (decryptPiiVaultValue V raw (db_userId b) (Some (tenant_of rq)) z) \<noteq> Inr (Some x)"
    and run: "fst (post_vault_decrypt V rq b w) = Inr r" and ok: "code r = 200"
  shows "field ''value'' r = Some JNull"
proof -
  have given: "truthy (db_userId b)" "truthy (db_resourceId b)" "truthy (db_fieldName b)"
    using run ok by (auto simp: post_vault_decrypt_def split: if_splits)
  then have u: "db_userId b = Some (the (db_userId b))" by (auto simp: truthy_def split: option.splits)
  let ?p = "\<lparr>lp_tenantId = tenant_of rq, lp_userId = the (db_userId b), lp_resourceId = the (db_resourceId b), lp_fieldName = the (db_fieldName b)\<rparr>"
  obtain fr z where f: "findCiphertext ?p w = (fr, z)" by (cases "findCiphertext ?p w")
  show ?thesis
  proof (cases fr)
    case (Inl e)
    then show ?thesis using run ok given f by (auto simp: post_vault_decrypt_def Let_def bnd_apply catch_apply)
  next
    case (Inr raw)
    obtain dr y where d: "decryptPiiVaultValue V raw (db_userId b) (Some (tenant_of rq)) z = (dr, y)"
      by (cases "decryptPiiVaultValue V raw (db_userId b) (Some (tenant_of rq)) z")
    obtain q where "audit V (ad_hoc_event rq (the (db_userId b)) (the (db_resourceId b)) (the (db_fieldName b)) (now y) False) y = (Inr (), q)"
      using audit_total by blast
    then show ?thesis
      using run given f Inr d none[OF findCiphertext_keys[OF f], of raw "the (projr dr)"] u[symmetric]
      by (cases dr; cases "projr dr") (auto simp: post_vault_decrypt_def Let_def bnd_apply catch_apply jopt_def)
  qed
qed

lemma verifyCaller_keys:
  fixes w :: "'z kmsworld_scheme"
  shows "verifyCaller verify h caller audience w = (r, z) \<Longrightarrow> keys z = keys w"
proof -
  assume run: "verifyCaller verify h caller audience w = (r, z)"
  have t: "timeless (\<lambda>z. keys z = keys w)" by (simp add: timeless_def)
  have "keeps (\<lambda>z. keys z = keys w) (verifyCaller verify h caller audience)"
    unfolding verifyCaller_def by (intro keeps_intros t)
  from keepsE[OF this refl run] show ?thesis .
qed

lemma batch_route_none:
  fixes w :: "'z kmsworld_scheme"
  assumes gone: "\<And>v. read_material (keys w (getDocId t u)) v = None"
    and calls: "br_calls q = Some calls" and run: "fst (post_batch_decrypt V verify caller q w) = Inr (Replies xs)"
  shows "list_all2 (\<lambda>(raw, uid, ten) x. uid = Some u \<and> or_else ten default_tenant = t \<longrightarrow> x = None) calls xs"
proof -
  let ?v = "verifyCaller verify (br_authorization q) caller (''https://'' @ br_hostname q @ br_url q)"
  obtain vr z where v: "?v w = (vr, z)" by (cases "?v w")
  obtain rs y where s: "settleAll (\<lambda>(raw, uid, ten). decryptPiiVaultValue V raw uid ten) calls z = (rs, y)" by fastforce
  have "allInr rs = Inr xs"
    using run calls v s
    by (auto simp: post_batch_decrypt_def bnd_apply catch_apply promiseAll_def split: if_splits sum.splits)
  with s show ?thesis using gone verifyCaller_keys[OF v] by (intro batch_none) auto
qed

text \<open>
  C4. A destroyed key ends decryption on every route. If DELETE /key/shred answers 200 with the message that
  the key is destroyed, whatever calls failed on the way, then in every later world with the same key
  document no version of the user's key can be read: no value of the vault decrypts for the user, POST
  /pii-vault/decrypt answers null, and the batch of BigQuery's remote function holds null for every call of the
  user, at the call's own place.
\<close>

theorem shred_ends_decryption:
  fixes w :: "'z vworld_scheme"
  assumes run: "delete_key_shred D rq b s = (Inr r, s')" and ok: "code r = 200" "field ''message'' r = Some (JStr destroyed_message)"
    and same: "keys w (getDocId (tenant_of rq) (body_user (ob_user b))) = keys s' (getDocId (tenant_of rq) (body_user (ob_user b)))"
  defines "u \<equiv> body_user (ob_user b)"
  shows "(\<forall>v. read_material (keys s' (getDocId (tenant_of rq) u)) v = None) \<and>
    (\<forall>raw x. fst (decryptPiiVaultValue V raw (Some u) (Some (tenant_of rq)) w) \<noteq> Inr (Some x)) \<and>
    (\<forall>rq' b' r'. tenant_of rq' = tenant_of rq \<and> db_userId b' = Some u \<and> fst (post_vault_decrypt V rq' b' w) = Inr r' \<and> code r' = 200 \<longrightarrow>
       field ''value'' r' = Some JNull) \<and>
    (\<forall>verify caller q calls xs. br_calls q = Some calls \<and> fst (post_batch_decrypt V verify caller q w) = Inr (Replies xs) \<longrightarrow>
       list_all2 (\<lambda>(raw, uid, ten) x. uid = Some u \<and> or_else ten default_tenant = tenant_of rq \<longrightarrow> x = None) calls xs)"
proof -
  let ?t = "tenant_of rq"
  obtain old t i where doc: "keys s' (getDocId ?t u) = Some (shred_doc old t (Some i))"
    using shred_route_destroys[OF run ok] unfolding u_def by blast
  then have gone: "\<And>v. read_material (keys w (getDocId ?t u)) v = None" using same by (simp add: u_def)
  have ten: "or_else (Some ?t) default_tenant = ?t" by (simp add: or_else_def tenant_of_nonempty)
  have one: "fst (decryptPiiVaultValue V raw (Some u) (Some ?t) z) \<noteq> Inr (Some x)" if "keys z = keys w" for raw x and z :: "'z vworld_scheme"
    by (rule vault_decrypt_none[OF _ ten]) (use gone that in simp)
  have null: "field ''value'' r' = Some JNull"
    if "tenant_of rq' = ?t" "db_userId b' = Some u" "fst (post_vault_decrypt V rq' b' w) = Inr r'" "code r' = 200" for rq' b' r'
    using that one by (intro vault_route_null) auto
  have batch: "list_all2 (\<lambda>(raw, uid, ten) x. uid = Some u \<and> or_else ten default_tenant = ?t \<longrightarrow> x = None) calls xs"
    if "br_calls q = Some calls" "fst (post_batch_decrypt V verify caller q w) = Inr (Replies xs)" for verify caller q calls xs
    using that gone by (intro batch_route_none[where w = w]) auto
  show ?thesis using doc one null batch by auto
qed

definition toy_row :: "string \<Rightarrow> vault_row" where
  "toy_row v = \<lparr>vr_tenant_id = ''t'', vr_user_id = ''u'', vr_resource_id = ''bigquery:p.d.users'', vr_field_name = ''email'',
     vr_encrypted_value = Some v, vr_synced_at = 100\<rparr>"

definition with_rows :: "vault_row list \<Rightarrow> dworld \<Rightarrow> vworld" where
  "with_rows rows s = dworld.extend s (vworld.fields rows)"

lemma with_rows_simps [simp]: "keys (with_rows rows s) = keys s" "vault_rows (with_rows rows s) = rows" "outcomes (with_rows rows s) = outcomes s"
  "kms_keys (with_rows rows s) = kms_keys s"
  by (simp_all add: with_rows_def dworld.defs vworld.defs)

definition toy_ask :: decrypt_body where
  "toy_ask = \<lparr>db_userId = Some ''u'', db_resourceId = Some ''bigquery:p.d.users'', db_fieldName = Some ''email''\<rparr>"

lemma shred_ends_decryption_witness:
  "\<exists>r s'. delete_key_shred toy_deletions toy_rq toy_shred toy_live = (Inr r, s') \<and> code r = 200 \<and>
     read_material (keys s' (getDocId ''t'' ''u'')) (Some ''v1'') = None \<and>
     fst (decryptPiiVaultValue toy_vault (Some ''v1:AAAA:AAAA'') (Some ''u'') (Some ''t'') (with_rows [toy_row ''v1:AAAA:AAAA''] s')) \<noteq> Inr (Some ''x'')"
proof -
  obtain r s' where run: "delete_key_shred toy_deletions toy_rq toy_shred toy_live = (Inr r, s')" "code r = 200"
     "field ''message'' r = Some (JStr destroyed_message)" using toy_shred_runs by blast
  have u: "body_user (ob_user toy_shred) = ''u''" by (simp add: toy_shred_def toy_body_def body_user_def or_else_def or_opt_def truthy_def)
  show ?thesis
    using shred_ends_decryption[OF run, of "with_rows [toy_row ''v1:AAAA:AAAA''] s'" toy_vault] run unfolding u toy_rq_tenant by auto
qed

section \<open>A vault value decrypts under the version it was written with\<close>

definition vault_value :: "string \<Rightarrow> ChameleonEncryptionResult \<Rightarrow> string" where
  "vault_value v er = v @ '':'' @ ivB64 er @ '':'' @ ciphertextB64 er"

lemma b64_no_colon: "CHR '':'' \<notin> set (b64_encode bs)"
  using b64_encode_no_colon by blast

lemma vault_parts_value:
  assumes "gcm_encrypt G p u dek iv = Inr er" and "CHR '':'' \<notin> set v" and "v \<noteq> []" and "iv \<noteq> []" and "gcm_ok G"
  shows "vault_parts (vault_value v er) = Some (v, ivB64 er, ciphertextB64 er)"
proof -
  have iv: "ivB64 er = b64_encode iv" and ct: "\<exists>c a. ciphertextB64 er = b64_encode (c @ a) \<and> length a = 16"
    using assms(1,5) by (auto simp: gcm_encrypt_def gcm_ok_def split: if_splits prod.splits) (metis snd_conv)
  then have n: "CHR '':'' \<notin> set (ivB64 er)" "CHR '':'' \<notin> set (ciphertextB64 er)" "ivB64 er \<noteq> []" "ciphertextB64 er \<noteq> []"
    using assms(4) by (auto simp: b64_no_colon) (metis append_is_Nil_conv b64_encode_Nil list.size(3) zero_neq_numeral)
  show ?thesis
    using assms(2,3) n by (simp add: vault_parts_def vault_value_def split_on_append split_on_no_sep Let_def)
qed

lemma rotations_keep_version:
  fixes s :: "'z kworld_scheme"
  assumes "KeyRegistry.registry_ok s" and "mapEff (\<lambda>d. rotateKeyForUser u d t) ds s = (Inr vs, s1)" and "[] \<notin> set ds"
    and "truthy v" and "read_material (keys s (getDocId t u)) v = Some m"
  shows "\<exists>m'. read_material (keys s1 (getDocId t u)) v = Some m' \<and> encryptedDek m' = encryptedDek m"
  using assms
proof (induction ds arbitrary: s vs m)
  case (Cons d ds)
  obtain vn w vs' where r: "rotateKeyForUser u d t s = (Inr vn, w)" and rest: "mapEff (\<lambda>d. rotateKeyForUser u d t) ds w = (Inr vs', s1)"
    using Cons.prems(2) by (auto elim!: bnd_InrE)
  obtain m' where m': "read_material (keys w (getDocId t u)) v = Some m'" "encryptedDek m' = encryptedDek m"
    using rotate_keeps_versions[OF Cons.prems(1) r] Cons.prems(3-5) by auto
  have "KeyRegistry.registry_ok w" by (rule keepsE[OF keeps_rotateKeyForUser Cons.prems(1) r])
  from Cons.IH[OF this rest _ Cons.prems(4) m'(1)] show ?case using Cons.prems(3) m'(2) by auto
qed auto

text \<open>
  C10. What the pipeline encrypts for a user stays readable through the vault until the key is destroyed. A
  value encrypted for a user under the user's current key, stored as key version, IV and ciphertext, is
  decrypted to the plaintext by POST /pii-vault/decrypt after any number of rotations of the key, if no
  call fails; the row is the tenant's own newest one, and the lookup is recorded: one new event in the topic or the log
  with the tenant, the user, the resource and the field.
\<close>

theorem vault_value_roundtrip:
  fixes s s1 :: "'z vworld_scheme"
  assumes G: "gcm_ok (vt_gcm V)" and ok: "KeyRegistry.registry_ok s"
    and active: "read_material (keys s (getDocId (tenant_of rq) u)) None = Some km" "km_activeDekId km = Some v"
    and enc: "gcm_encrypt (vt_gcm V) p u dek iv = Inr er" "iv \<noteq> []"
    and rotated: "mapEff (\<lambda>d. rotateKeyForUser u d (tenant_of rq)) newDeks s = (Inr vs, s1)" "[] \<notin> set newDeks"
    and kms: "getKeyPath (vt_client V) (Some (tenant_of rq)) \<in> set (kms_keys s1)"
      "kms_decrypt (vt_kms V) (getKeyPath (vt_client V) (Some (tenant_of rq))) (encryptedDek km) = Inr (Some dek)"
    and ask: "db_userId b = Some u" "db_resourceId b = Some res" "db_fieldName b = Some f" "u \<noteq> []" "res \<noteq> []" "f \<noteq> []"
    and row: "lookup_rows \<lparr>lp_tenantId = tenant_of rq, lp_userId = u, lp_resourceId = res, lp_fieldName = f\<rparr> (vault_rows s1) = [row]"
      "vr_encrypted_value row = Some (vault_value v er)"
    and calm: "outcomes s1 = []"
  shows "\<exists>w. post_vault_decrypt V rq b s1 = (Inr (send 200 [(''value'', JStr p)]), w) \<and>
    (\<exists>pl. newly_recorded pl s1 w \<and> lp_tenant_id pl = tenant_of rq \<and> lp_user_id pl = u \<and>
       map_of (lp_context pl) ''event_type'' = Some (JStr ''AD_HOC_DECRYPT_PERFORMED'') \<and>
       map_of (lp_context pl) ''resourceId'' = Some (JStr res) \<and> map_of (lp_context pl) ''fieldName'' = Some (JStr f) \<and>
       map_of (lp_context pl) ''found'' = Some (JBool True))"
proof -
  let ?t = "tenant_of rq"
  obtain n where v: "v = version_id n" and m: "read_material (keys s (getDocId ?t u)) (Some v) = Some km"
    using active_material[OF ok active(1)] active(2) by auto
  have tv: "truthy (Some v)" "v \<noteq> []" "CHR '':'' \<notin> set v"
    using version_no_colon[of n] by (simp_all add: v version_id_def truthy_def)
  obtain m' where m': "read_material (keys s1 (getDocId ?t u)) (Some v) = Some m'" "encryptedDek m' = encryptedDek km"
    using rotations_keep_version[OF ok rotated tv(1) m] by blast
  have parts: "vault_parts (vault_value v er) = Some (v, ivB64 er, ciphertextB64 er)"
    by (rule vault_parts_value[OF enc(1) tv(3,2) enc(2) G])
  have find: "findCiphertext \<lparr>lp_tenantId = ?t, lp_userId = u, lp_resourceId = res, lp_fieldName = f\<rparr> s1 = (Inr (Some (vault_value v er)), s1)"
    using row calm by (simp add: findCiphertext_def bnd_apply no_faults)
  have "vault_value v er \<noteq> []" by (simp add: vault_value_def)
  then have dec: "decryptPiiVaultValue V (Some (vault_value v er)) (Some u) (Some ?t) s1 = (Inr (Some p), s1)"
    using parts m' kms calm ask(4) gcm_decrypt_encrypt[OF G enc(1)]
    by (simp add: decryptPiiVaultValue_def truthy_def or_else_def tenant_of_nonempty Let_def bnd_apply catch_apply no_faults
        getKeyForUser_def decryptDataEncryptionKey_def)
  let ?e = "ad_hoc_event rq u res f (now s1) True"
  obtain w where w: "recordEvent (vt_lineage V) ?e s1 = (Inr (ulid (vt_lineage V) (draws s1)), w)"
    and p: "newly_recorded (avroPayload (ulid (vt_lineage V) (draws s1)) (now s1 * 1000) ?e) s1 w"
    using recordEvent_spec[of "vt_lineage V" ?e s1] by blast
  have "post_vault_decrypt V rq b s1 = (Inr (send 200 [(''value'', JStr p)]), w)"
    using ask find dec w
    by (simp add: post_vault_decrypt_def truthy_def Let_def bnd_apply catch_apply audit_def swallow_apply jopt_def)
  moreover have "lp_tenant_id (avroPayload x y ?e) = ?t \<and> lp_user_id (avroPayload x y ?e) = u \<and>
      map_of (lp_context (avroPayload x y ?e)) ''event_type'' = Some (JStr ''AD_HOC_DECRYPT_PERFORMED'') \<and>
      map_of (lp_context (avroPayload x y ?e)) ''resourceId'' = Some (JStr res) \<and>
      map_of (lp_context (avroPayload x y ?e)) ''fieldName'' = Some (JStr f) \<and>
      map_of (lp_context (avroPayload x y ?e)) ''found'' = Some (JBool True)" for x y
    using ask(4) by (simp add: avroPayload_def ad_hoc_event_def vault_event_def map_of_spread or_else_def or_opt_def truthy_def tenant_of_nonempty)
  ultimately show ?thesis using p by blast
qed

definition toy_vaulted :: "string \<Rightarrow> vworld" where
  "toy_vaulted x = (with_rows [toy_row x] toy_live)\<lparr>outcomes := [],
     keys := [getDocId ''t'' ''u'' \<mapsto> new_key_doc ''u'' (1 # replicate 32 9) 1000], kms_keys := [getKeyPath toy_client (Some ''t'')]\<rparr>"

lemma toy_rotation:
  "\<exists>s1. mapEff (\<lambda>d. rotateKeyForUser ''u'' d ''t'') [[7]] (toy_vaulted x) = (Inr [version_id 2], s1) \<and> outcomes s1 = [] \<and>
     kms_keys s1 = [getKeyPath toy_client (Some ''t'')] \<and> vault_rows s1 = [toy_row x]"
  by (simp add: toy_vaulted_def rotateKeyForUser_def rotate_commit_def no_faults bnd_apply Let_def new_key_doc_def numeral_2_eq_2)

lemma vault_value_roundtrip_witness:
  "\<exists>er s1 w. gcm_encrypt clear_gcm ''hello'' ''u'' (replicate 32 9) [5] = Inr er \<and>
     mapEff (\<lambda>d. rotateKeyForUser ''u'' d ''t'') [[7]] (toy_vaulted (vault_value ''v1'' er)) = (Inr [version_id 2], s1) \<and>
     post_vault_decrypt toy_vault toy_rq toy_ask s1 = (Inr (send 200 [(''value'', JStr ''hello'')]), w)"
proof -
  obtain er where er: "gcm_encrypt clear_gcm ''hello'' ''u'' (replicate 32 9) [5] = Inr er"
    by (simp add: gcm_encrypt_def KEY_SIZE_def clear_gcm_def)
  let ?s = "toy_vaulted (vault_value ''v1'' er)"
  obtain s1 where rot: "mapEff (\<lambda>d. rotateKeyForUser ''u'' d ''t'') [[7]] ?s = (Inr [version_id 2], s1)" and o: "outcomes s1 = []"
    and k: "kms_keys s1 = [getKeyPath toy_client (Some ''t'')]" and rows: "vault_rows s1 = [toy_row (vault_value ''v1'' er)]"
    using toy_rotation by blast
  have ok: "KeyRegistry.registry_ok ?s" by (simp add: KeyRegistry.registry_ok_def toy_vaulted_def doc_ok_new)
  let ?km = "\<lparr>encryptedDek = 1 # replicate 32 9, km_activeDekId = Some ''v1'', km_encryptionVersion = ''v2''\<rparr> :: key_material"
  have m: "read_material (keys ?s (getDocId (tenant_of toy_rq) ''u'')) None = Some ?km"
    by (simp add: toy_rq_tenant toy_vaulted_def read_material_new)
  have row: "lookup_rows \<lparr>lp_tenantId = tenant_of toy_rq, lp_userId = ''u'', lp_resourceId = ''bigquery:p.d.users'', lp_fieldName = ''email''\<rparr> (vault_rows s1) =
      [toy_row (vault_value ''v1'' er)]"
    by (simp add: rows lookup_rows_def row_matches_def toy_row_def toy_rq_tenant)
  have kms: "getKeyPath (vt_client toy_vault) (Some (tenant_of toy_rq)) \<in> set (kms_keys s1)"
    "kms_decrypt (vt_kms toy_vault) (getKeyPath (vt_client toy_vault) (Some (tenant_of toy_rq))) (encryptedDek ?km) = Inr (Some (replicate 32 9))"
    by (simp_all add: k toy_rq_tenant toy_vault_def toy_kms_def)
  have "\<exists>w. post_vault_decrypt toy_vault toy_rq toy_ask s1 = (Inr (send 200 [(''value'', JStr ''hello'')]), w) \<and>
    (\<exists>pl. newly_recorded pl s1 w \<and> lp_tenant_id pl = tenant_of toy_rq \<and> lp_user_id pl = ''u'' \<and>
       map_of (lp_context pl) ''event_type'' = Some (JStr ''AD_HOC_DECRYPT_PERFORMED'') \<and>
       map_of (lp_context pl) ''resourceId'' = Some (JStr ''bigquery:p.d.users'') \<and> map_of (lp_context pl) ''fieldName'' = Some (JStr ''email'') \<and>
       map_of (lp_context pl) ''found'' = Some (JBool True))"
    by (rule vault_value_roundtrip[where iv = "[5]" and er = er, OF _ ok m _ _ _ rot[folded toy_rq_tenant] _ kms _ _ _ _ _ _ row])
      (simp_all add: toy_vault_def clear_gcm_ok er toy_ask_def toy_row_def o)
  then show ?thesis using er rot by blast
qed

section \<open>Who may decrypt in batches\<close>

lemma startsWith_split: "startsWith p s \<Longrightarrow> s = p @ drop (length p) s"
  by (metis append_take_drop_id startsWith_def)

lemma verifyCaller_true:
  fixes w :: "'z env_scheme"
  assumes run: "verifyCaller verify h caller audience w = (r, z)"
  shows "(r = Inr False \<or> r = Inr True \<and> (\<exists>tok. h = Some (''Bearer '' @ tok) \<and> verify tok audience = Some (Some caller))) \<and>
    (z = w \<or> z = snd (next_call w))"
proof (cases "\<exists>h'. h = Some h' \<and> startsWith ''Bearer '' h'")
  case True
  then obtain tok where h: "h = Some (''Bearer '' @ tok)" using startsWith_split by blast
  have "startsWith ''Bearer '' (''Bearer '' @ tok)" by (simp add: startsWith_def)
  then show ?thesis
    using run unfolding h
    by (cases "verify tok audience")
      (auto simp: verifyCaller_def bnd_apply catch_apply rread_def split: prod.splits outcome.splits)
next
  case False
  then show ?thesis using run by (auto simp: verifyCaller_def split: option.splits)
qed

text \<open>
  C18. Only BigQuery's connection can decrypt in batches. The route answers with values only if it is
  configured and the request carries a bearer token that the library verifies for the request's own
  host and path and whose subject is the configured caller; then there is one answer per call. Without such a
  token, or unconfigured, no key is looked up: the answer is 403 or 503 and of the remote services only the
  verification of the token is asked.
\<close>

theorem batch_decrypt_gated:
  fixes s :: "'z kmsworld_scheme"
  assumes run: "post_batch_decrypt V verify caller q s = (Inr r, s')"
  defines "audience \<equiv> ''https://'' @ br_hostname q @ br_url q"
  shows "(case r of
      Replies xs \<Rightarrow> caller \<noteq> [] \<and> (\<exists>tok. br_authorization q = Some (''Bearer '' @ tok) \<and> verify tok audience = Some (Some caller)) \<and>
        length xs = length (the (br_calls q))
    | Refused c m \<Rightarrow> c \<in> {400, 403, 500, 503} \<and>
        (c \<in> {403, 503} \<longrightarrow> s' = s \<or> s' = snd (next_call s)))"
proof (cases "caller = []")
  case True
  then show ?thesis using run by (auto simp: post_batch_decrypt_def)
next
  case False
  obtain vr z where v: "verifyCaller verify (br_authorization q) caller audience s = (vr, z)"
    by (cases "verifyCaller verify (br_authorization q) caller audience s")
  obtain b where b: "vr = Inr b" "z = s \<or> z = snd (next_call s)"
    "b \<longrightarrow> (\<exists>tok. br_authorization q = Some (''Bearer '' @ tok) \<and> verify tok audience = Some (Some caller))"
    using verifyCaller_true[OF v] by auto
  show ?thesis
  proof (cases "b \<and> br_calls q \<noteq> None")
    case True
    then obtain calls where c: "br_calls q = Some calls" by blast
    obtain rs y where st: "settleAll (\<lambda>(raw, uid, ten). decryptPiiVaultValue V raw uid ten) calls z = (rs, y)" by fastforce
    have len: "length rs = length calls" using length_settleAll[of _ calls z] st by (metis fst_conv)
    show ?thesis
      using run False v b True c st len length_allInr[of rs]
      by (auto simp: post_batch_decrypt_def bnd_apply catch_apply promiseAll_def audience_def split: sum.splits)
  next
    case nb: False
    then show ?thesis using run False v b
      by (auto simp: post_batch_decrypt_def bnd_apply audience_def split: if_splits option.splits)
  qed
qed

definition toy_verify :: id_verifier where
  "toy_verify tok audience = (if tok = ''sig'' \<and> audience = ''https://vault/batch'' then Some (Some ''42'') else None)"

definition toy_batch :: batch_request where
  "toy_batch = \<lparr>br_hostname = ''vault'', br_url = ''/batch'', br_authorization = Some ''Bearer sig'',
     br_calls = Some [(Some ''v1:AAAA:AAAA'', Some ''w'', Some ''t''), (None, Some ''u'', Some ''t'')]\<rparr>"

lemma batch_decrypt_gated_witness:
  "\<exists>xs s'. post_batch_decrypt toy_vault toy_verify ''42'' toy_batch (toy_vaulted []) = (Inr (Replies xs), s') \<and> length xs = 2 \<and>
     (\<exists>tok. br_authorization toy_batch = Some (''Bearer '' @ tok) \<and> toy_verify tok ''https://vault/batch'' = Some (Some ''42''))"
proof -
  have "vault_parts ''v1:AAAA:AAAA'' = Some (''v1'', ''AAAA'', ''AAAA'')" by (simp add: vault_parts_def Let_def)
  moreover have "getDocId ''t'' ''w'' \<noteq> getDocId ''t'' ''u''" by (simp add: getDocId_def)
  ultimately obtain s' where run: "post_batch_decrypt toy_vault toy_verify ''42'' toy_batch (toy_vaulted []) = (Inr (Replies [None, None]), s')"
    by (simp add: post_batch_decrypt_def toy_batch_def verifyCaller_def startsWith_def toy_verify_def bnd_apply catch_apply no_faults
        toy_vaulted_def promiseAll_def Let_def decryptPiiVaultValue_def truthy_def or_else_def getKeyForUser_def read_material_def)
  show ?thesis using batch_decrypt_gated[OF run] run by (simp add: toy_batch_def)
qed

end
