(* ===== verification/DecryptedViews.thy ===== *)
theory DecryptedViews
  imports PiiVault "HOL-Library.List_Lexorder" "HOL-Library.Char_ord"
begin

text \<open>
  Decrypted views: \<open>src/types/decrypted-view.ts\<close>, \<open>src/gcp/decrypted-views-repository.ts\<close>,
  \<open>src/services/decrypted-view-service.ts\<close> and \<open>src/routes/decrypted-views.ts\<close>. A view is declared for a tenant
  over fields of the vault, created in BigQuery with a grant for one service account, and revoked by
  dropping it; the declaration stays as a record. The documents, the views of BigQuery and their policies are
  part of the world; a new view has an empty policy.
\<close>

section \<open>Declarations\<close>

datatype view_status = ACTIVE_VIEW | REVOKED_VIEW

record view_declaration =
  vd_tenant_id :: string
  vd_view_name :: string
  vd_source_resource_id :: string
  vd_declared_fields :: "string list"
  vd_business_justification :: string
  vd_created_by :: string
  vd_bigquery_dataset :: string
  vd_bigquery_view_name :: string
  vd_status :: view_status
  vd_created_at :: int
  vd_revoked_at :: "int option"
  vd_revoked_by :: "string option"

type_synonym iam_binding = "string \<times> string list option"

record bq_view =
  bv_sql :: string
  bv_bindings :: "iam_binding list option"

record viewworld = vworld +
  view_docs :: "(string \<times> view_declaration) list"
  views :: "string \<times> string \<rightharpoonup> bq_view"

section \<open>The repository\<close>

definition view_docId :: "string \<Rightarrow> string \<Rightarrow> string" where
  "view_docId tenantId viewName = tenantId @ '':'' @ viewName"

definition set_doc :: "string \<Rightarrow> view_declaration \<Rightarrow> 'z viewworld_scheme \<Rightarrow> 'z viewworld_scheme" where
  "set_doc i d s = s\<lparr>view_docs := AList.update i d (view_docs s)\<rparr>"

definition view_create :: "view_declaration \<Rightarrow> ('z viewworld_scheme, view_declaration) eff" where
  "view_create declaration =
     (let i = view_docId (vd_tenant_id declaration) (vd_view_name declaration) in
      bnd (rread (\<lambda>s. map_of (view_docs s) i)) (\<lambda>existing.
      if (case existing of None \<Rightarrow> False | Some d \<Rightarrow> vd_status d = ACTIVE_VIEW) then
        throw (Err (''Decrypted view '' @ [CHR 0x22] @ vd_view_name declaration @ [CHR 0x22] @ '' already exists for tenant '' @ vd_tenant_id declaration))
      else
        bnd (gets now) (\<lambda>t.
        let stored = declaration\<lparr>vd_status := ACTIVE_VIEW, vd_created_at := t, vd_revoked_at := None, vd_revoked_by := None\<rparr> in
        bnd (rwrite (set_doc i stored)) (\<lambda>_. ret stored))))"

definition view_get :: "string \<Rightarrow> string \<Rightarrow> ('z viewworld_scheme, view_declaration option) eff" where
  "view_get tenantId viewName = rread (\<lambda>s. map_of (view_docs s) (view_docId tenantId viewName))"

definition view_listByTenant :: "string \<Rightarrow> ('z viewworld_scheme, view_declaration list) eff" where
  "view_listByTenant tenantId = rread (\<lambda>s. filter (\<lambda>d. vd_tenant_id d = tenantId) (map snd (view_docs s)))"

definition revoked_doc :: "int \<Rightarrow> string \<Rightarrow> view_declaration \<Rightarrow> view_declaration" where
  "revoked_doc t revokedBy d = d\<lparr>vd_status := REVOKED_VIEW, vd_revoked_at := Some t, vd_revoked_by := Some revokedBy\<rparr>"

text \<open>\<open>update\<close> fails if the document is gone (\<open>NOT_FOUND\<close>).\<close>

definition view_revoke :: "string \<Rightarrow> string \<Rightarrow> string \<Rightarrow> ('z viewworld_scheme, view_declaration option) eff" where
  "view_revoke tenantId viewName revokedBy =
     (let i = view_docId tenantId viewName in
      bnd (rread (\<lambda>s. map_of (view_docs s) i)) (\<lambda>doc. case doc of
          None \<Rightarrow> ret None
        | Some data \<Rightarrow>
            bnd (gets now) (\<lambda>t.
            bnd (rtxn (\<lambda>s. case map_of (view_docs s) i of
                   None \<Rightarrow> (Inl (CodeErr 5), s)
                 | Some d \<Rightarrow> (Inr (), set_doc i (revoked_doc t revokedBy d) s))) (\<lambda>_.
            ret (Some (revoked_doc t revokedBy data))))))"

section \<open>The service\<close>

record view_service =
  ds_dataset :: string
  ds_batchDecryptFunctionRef :: string
  ds_vault :: "string \<times> string \<times> string"

text \<open>The constructor parses the vault's identifier.\<close>

definition new_view_service :: "string \<Rightarrow> string \<Rightarrow> string \<Rightarrow> exn + view_service" where
  "new_view_service decryptedViewsDataset batchDecryptFunctionRef piiVaultResourceId =
     map_sum id (\<lambda>p. \<lparr>ds_dataset = decryptedViewsDataset, ds_batchDecryptFunctionRef = batchDecryptFunctionRef, ds_vault = p\<rparr>)
       (parseBigQueryResourceId piiVaultResourceId)"

definition piiVaultResourceId :: "view_service \<Rightarrow> string" where
  "piiVaultResourceId S = resourceId_of (ds_vault S)"

definition available_fields :: "string \<Rightarrow> vault_row list \<Rightarrow> string list" where
  "available_fields tenantId rows = sort (remdups (map vr_field_name (filter (\<lambda>r. vr_tenant_id r = tenantId) rows)))"

definition getAvailableFields :: "string \<Rightarrow> ('z vworld_scheme, string list) eff" where
  "getAvailableFields tenantId = rread (\<lambda>s. available_fields tenantId (vault_rows s))"

definition getDistinctSyncedTenantIds :: "nat \<Rightarrow> ('z vworld_scheme, string list) eff" where
  "getDistinctSyncedTenantIds limit = rread (\<lambda>s. take limit (sort (remdups (map vr_tenant_id (vault_rows s)))))"

record declare_view_input =
  dv_tenantId :: string
  dv_viewName :: string
  dv_declaredFields :: "string list"
  dv_businessJustification :: string
  dv_createdBy :: string
  dv_consumerServiceAccount :: string

definition buildViewSql :: "view_service \<Rightarrow> declare_view_input \<Rightarrow> string" where
  "buildViewSql S x = join_with nl
     [''SELECT'', ''  user_id,'', ''  tenant_id,'',
      ''  '' @ join_with ('','' @ nl @ ''  '') (buildPiiVaultPivotColumns (dv_declaredFields x) (ds_batchDecryptFunctionRef S)),
      ''FROM '' @ table_ref (ds_vault S),
      ''WHERE tenant_id = '' @ sq (escapeSqlStringLiteral (dv_tenantId x)),
      ''GROUP BY user_id, tenant_id'']"

definition createTable :: "string \<times> string \<Rightarrow> string \<Rightarrow> ('z viewworld_scheme, unit) eff" where
  "createTable v sql = rtxn (\<lambda>s. case views s v of
       Some _ \<Rightarrow> (Inl (CodeErr 409), s)
     | None \<Rightarrow> (Inr (), s\<lparr>views := (views s)(v \<mapsto> \<lparr>bv_sql = sql, bv_bindings = None\<rparr>)\<rparr>))"

definition viewer_role :: string where
  "viewer_role = ''roles/bigquery.dataViewer''"

fun add_viewer :: "string \<Rightarrow> iam_binding list \<Rightarrow> iam_binding list" where
  "add_viewer member [] = [(viewer_role, Some [member])]"
| "add_viewer member ((role, members) # bs) =
     (if role = viewer_role then
        (let ms = (case members of None \<Rightarrow> [] | Some ms \<Rightarrow> ms) in
         (role, Some (if member \<in> set ms then ms else ms @ [member])) # bs)
      else (role, members) # add_viewer member bs)"

definition grantViewerOnView :: "string \<times> string \<Rightarrow> string \<Rightarrow> ('z viewworld_scheme, unit) eff" where
  "grantViewerOnView v consumerServiceAccount =
     bnd (rcall (\<lambda>s. case views s v of None \<Rightarrow> Inl (CodeErr 404) | Some b \<Rightarrow> Inr (bv_bindings b))) (\<lambda>policy.
     let bindings = add_viewer (''serviceAccount:'' @ consumerServiceAccount) (case policy of None \<Rightarrow> [] | Some bs \<Rightarrow> bs) in
     rtxn (\<lambda>s. case views s v of
         None \<Rightarrow> (Inl (CodeErr 404), s)
       | Some b \<Rightarrow> (Inr (), s\<lparr>views := (views s)(v \<mapsto> b\<lparr>bv_bindings := Some bindings\<rparr>)\<rparr>)))"

definition declare_errors :: "declare_view_input \<Rightarrow> exn + unit" where
  "declare_errors x =
     (if \<not> is_identifier (dv_viewName x) then
        Inl (Err ''View name must be a valid identifier: letters, numbers, underscores, not starting with a number.'')
      else if trim (dv_businessJustification x) = [] then Inl (Err ''businessJustification is required.'')
      else if dv_declaredFields x = [] then Inl (Err ''At least one declared field is required.'')
      else Inr ())"

definition unavailable :: "string list \<Rightarrow> string list \<Rightarrow> exn + unit" where
  "unavailable available declared = (case find (\<lambda>f. f \<notin> set available) declared of
       None \<Rightarrow> Inr ()
     | Some f \<Rightarrow> Inl (Err (''Field '' @ [CHR 0x22] @ f @ [CHR 0x22] @
         '' has no synced rows in pii_vault for this tenant -- check the field name, or that it has actually been synced yet.'')))"

definition view_id :: "declare_view_input \<Rightarrow> string" where
  "view_id x = dv_tenantId x @ ''_'' @ dv_viewName x"

definition new_declaration :: "view_service \<Rightarrow> declare_view_input \<Rightarrow> view_declaration" where
  "new_declaration S x =
     \<lparr>vd_tenant_id = dv_tenantId x, vd_view_name = dv_viewName x, vd_source_resource_id = piiVaultResourceId S,
      vd_declared_fields = dv_declaredFields x, vd_business_justification = dv_businessJustification x, vd_created_by = dv_createdBy x,
      vd_bigquery_dataset = ds_dataset S, vd_bigquery_view_name = view_id x, vd_status = ACTIVE_VIEW, vd_created_at = 0,
      vd_revoked_at = None, vd_revoked_by = None\<rparr>"

definition declareView :: "view_service \<Rightarrow> declare_view_input \<Rightarrow> ('z viewworld_scheme, view_declaration) eff" where
  "declareView S x =
     bnd (lift (declare_errors x)) (\<lambda>_.
     bnd (getAvailableFields (dv_tenantId x)) (\<lambda>available.
     bnd (lift (unavailable available (dv_declaredFields x))) (\<lambda>_.
     let v = (ds_dataset S, view_id x) in
     bnd (createTable v (buildViewSql S x)) (\<lambda>_.
     bnd (grantViewerOnView v (dv_consumerServiceAccount x)) (\<lambda>_.
     view_create (new_declaration S x))))))"

definition delete_view_table :: "string \<times> string \<Rightarrow> ('z viewworld_scheme, unit) eff" where
  "delete_view_table v = rtxn (\<lambda>s. case views s v of
       None \<Rightarrow> (Inl (CodeErr 404), s)
     | Some _ \<Rightarrow> (Inr (), s\<lparr>views := (views s)(v := None)\<rparr>))"

definition revokeView :: "string \<Rightarrow> string \<Rightarrow> string \<Rightarrow> ('z viewworld_scheme, view_declaration option) eff" where
  "revokeView tenantId viewName revokedBy =
     bnd (view_get tenantId viewName) (\<lambda>existing. case existing of
         None \<Rightarrow> ret None
       | Some d \<Rightarrow>
           if vd_status d \<noteq> ACTIVE_VIEW then ret None
           else
             bnd (catch (delete_view_table (vd_bigquery_dataset d, vd_bigquery_view_name d))
                   (\<lambda>e. if e = CodeErr 404 then ret () else throw e)) (\<lambda>_.
             view_revoke tenantId viewName revokedBy))"

section \<open>The routes\<close>

record declare_view_body =
  vb_viewName :: "string option"
  vb_declaredFields :: "string list option"
  vb_businessJustification :: "string option"
  vb_createdBy :: "string option"
  vb_consumerServiceAccount :: "string option"

datatype view_reply =
    ViewError nat string string
  | ViewShown nat view_declaration
  | ViewList "view_declaration list"
  | FieldList "string list" "string list option"

text \<open>\<open>a ?? b\<close>\<close>

definition nullish :: "'a option \<Rightarrow> 'a \<Rightarrow> 'a" where
  "nullish v d = (case v of None \<Rightarrow> d | Some x \<Rightarrow> x)"

definition input_of :: "string \<Rightarrow> declare_view_body \<Rightarrow> declare_view_input" where
  "input_of tenantId b =
     \<lparr>dv_tenantId = tenantId, dv_viewName = nullish (vb_viewName b) [], dv_declaredFields = nullish (vb_declaredFields b) [],
      dv_businessJustification = nullish (vb_businessJustification b) [], dv_createdBy = nullish (vb_createdBy b) ''unknown'',
      dv_consumerServiceAccount = nullish (vb_consumerServiceAccount b) []\<rparr>"

definition post_view :: "view_service \<Rightarrow> http_request \<Rightarrow> declare_view_body \<Rightarrow> ('z viewworld_scheme, view_reply) eff" where
  "post_view S rq b =
     catch (bnd (declareView S (input_of (tenant_of rq) b)) (\<lambda>d. ret (ViewShown 201 d)))
       (\<lambda>e. ret (ViewError 400 ''Failed to declare decrypted view'' (message_of e)))"

definition get_views :: "http_request \<Rightarrow> ('z viewworld_scheme, view_reply) eff" where
  "get_views rq = bnd (view_listByTenant (tenant_of rq)) (\<lambda>ds. ret (ViewList ds))"

definition get_available_fields :: "http_request \<Rightarrow> ('z vworld_scheme, view_reply) eff" where
  "get_available_fields rq =
     (let tenantId = tenant_of rq in
      catch
        (bnd (getAvailableFields tenantId) (\<lambda>fields.
         if fields \<noteq> [] then ret (FieldList fields None)
         else
           bnd (catch (bnd (getDistinctSyncedTenantIds 5) (\<lambda>ts. ret (filter (\<lambda>t. t \<noteq> tenantId) ts))) (\<lambda>_. ret [])) (\<lambda>others.
           ret (FieldList fields (if others \<noteq> [] then Some others else None)))))
        (\<lambda>e. ret (ViewError 500 ''Failed to list available fields'' (message_of e))))"

definition delete_decrypted_view :: "http_request \<Rightarrow> string \<Rightarrow> string option \<Rightarrow> ('z viewworld_scheme, view_reply) eff" where
  "delete_decrypted_view rq viewName revokedBy =
     catch
       (bnd (revokeView (tenant_of rq) viewName (nullish revokedBy ''unknown'')) (\<lambda>revoked. case revoked of
           None \<Rightarrow> ret (ViewError 404 ''Decrypted view not found or already revoked'' [])
         | Some d \<Rightarrow> ret (ViewShown 200 d)))
       (\<lambda>e. ret (ViewError 500 ''Failed to revoke decrypted view'' (message_of e)))"

section \<open>What declaring and revoking do\<close>

abbreviation doc_of :: "'z viewworld_scheme \<Rightarrow> string \<Rightarrow> view_declaration option" where
  "doc_of s i \<equiv> map_of (view_docs s) i"

abbreviation same_views :: "'z viewworld_scheme \<Rightarrow> 'z viewworld_scheme \<Rightarrow> bool" where
  "same_views s w \<equiv> views w = views s \<and> view_docs w = view_docs s \<and> vault_rows w = vault_rows s"

lemma views_next_call [simp]:
  fixes s :: "'z viewworld_scheme"
  shows "views (snd (next_call s)) = views s" "view_docs (snd (next_call s)) = view_docs s"
  by (auto simp: next_call_def split: list.splits)

lemma rows_next_call [simp]:
  fixes s :: "'z vworld_scheme"
  shows "vault_rows (snd (next_call s)) = vault_rows s"
  by (auto simp: next_call_def split: list.splits)

lemma set_doc_simps [simp]:
  "views (set_doc i d s) = views s" "vault_rows (set_doc i d s) = vault_rows s"
  "doc_of (set_doc i d s) = (doc_of s)(i \<mapsto> d)"
  by (simp_all add: set_doc_def update_conv' fun_eq_iff)

lemma getAvailableFields_Inr:
  fixes s :: "'z viewworld_scheme"
  assumes "getAvailableFields t s = (Inr fs, s')"
  shows "fs = available_fields t (vault_rows s) \<and> same_views s s'"
  using rread_Inr[OF assms[unfolded getAvailableFields_def]] by simp

lemma createTable_Inr:
  fixes s :: "'z viewworld_scheme"
  assumes "createTable v sql s = (Inr u, s')"
  shows "views s v = None \<and> views s' = (views s)(v \<mapsto> \<lparr>bv_sql = sql, bv_bindings = None\<rparr>) \<and> view_docs s' = view_docs s"
  using rtxn_Inr[OF assms[unfolded createTable_def]] by (auto split: option.splits)

lemma grant_Inr:
  fixes s :: "'z viewworld_scheme"
  assumes run: "grantViewerOnView v sa s = (Inr u, s')" and new: "views s v = Some \<lparr>bv_sql = sql, bv_bindings = None\<rparr>"
  shows "views s' = (views s)(v \<mapsto> \<lparr>bv_sql = sql, bv_bindings = Some [(viewer_role, Some [''serviceAccount:'' @ sa])]\<rparr>) \<and>
    view_docs s' = view_docs s"
proof -
  obtain p w where p: "rcall (\<lambda>s. case views s v of None \<Rightarrow> Inl (CodeErr 404) | Some b \<Rightarrow> Inr (bv_bindings b)) s = (Inr p, w)"
    and q: "rtxn (\<lambda>s. case views s v of None \<Rightarrow> (Inl (CodeErr 404), s)
       | Some b \<Rightarrow> (Inr (), s\<lparr>views := (views s)(v \<mapsto> b\<lparr>bv_bindings := Some (add_viewer (''serviceAccount:'' @ sa)
            (case p of None \<Rightarrow> [] | Some bs \<Rightarrow> bs))\<rparr>)\<rparr>)) w = (Inr u, s')"
    using run unfolding grantViewerOnView_def Let_def by (rule bnd_InrE)
  show ?thesis using rcall_Inr[OF p] rtxn_Inr[OF q] new by auto
qed

lemma view_create_Inr:
  fixes s :: "'z viewworld_scheme"
  assumes run: "view_create x s = (Inr d, s')"
  defines "i \<equiv> view_docId (vd_tenant_id x) (vd_view_name x)"
  shows "\<exists>t. d = x\<lparr>vd_status := ACTIVE_VIEW, vd_created_at := t, vd_revoked_at := None, vd_revoked_by := None\<rparr> \<and>
    doc_of s' = (doc_of s)(i \<mapsto> d) \<and> views s' = views s \<and> (\<forall>old. doc_of s i = Some old \<longrightarrow> vd_status old = REVOKED_VIEW)"
proof -
  obtain e w where e: "rread (\<lambda>s. doc_of s i) s = (Inr e, w)" and rest: "(if (case e of None \<Rightarrow> False | Some d \<Rightarrow> vd_status d = ACTIVE_VIEW) then
        throw (Err (''Decrypted view '' @ [CHR 0x22] @ vd_view_name x @ [CHR 0x22] @ '' already exists for tenant '' @ vd_tenant_id x))
      else bnd (gets now) (\<lambda>t. let stored = x\<lparr>vd_status := ACTIVE_VIEW, vd_created_at := t, vd_revoked_at := None, vd_revoked_by := None\<rparr> in
        bnd (rwrite (set_doc i stored)) (\<lambda>_. ret stored))) w = (Inr d, s')"
    using run unfolding view_create_def Let_def i_def by (rule bnd_InrE)
  have old: "\<forall>old. doc_of s i = Some old \<longrightarrow> vd_status old = REVOKED_VIEW"
    using rest rread_Inr[OF e] by (auto split: if_splits) (metis view_status.exhaust)
  let ?d = "x\<lparr>vd_status := ACTIVE_VIEW, vd_created_at := now w, vd_revoked_at := None, vd_revoked_by := None\<rparr>"
  have "rwrite (set_doc i ?d) w = (Inr (), s')" "d = ?d"
    using rest by (auto simp: Let_def elim!: bnd_InrE split: if_splits)
  then show ?thesis using rwrite_Inr[of "set_doc i ?d" w "()" s'] rread_Inr[OF e] old by auto
qed

definition vault_fields :: "string \<Rightarrow> vault_row list \<Rightarrow> string set" where
  "vault_fields t rows = {vr_field_name r | r. r \<in> set rows \<and> vr_tenant_id r = t}"

lemma set_available: "set (available_fields t rows) = vault_fields t rows"
  by (auto simp: available_fields_def vault_fields_def)

lemma unavailable_Inr: "unavailable av fs = Inr () \<longleftrightarrow> set fs \<subseteq> set av"
  by (auto simp: unavailable_def find_None_iff find_Some_iff split: option.splits) (metis nth_mem subsetD)+

lemma declare_errors_Inr: "declare_errors x = Inr () \<Longrightarrow> is_identifier (dv_viewName x) \<and> dv_declaredFields x \<noteq> []"
  by (auto simp: declare_errors_def split: if_splits)

lemma declareView_Inr:
  fixes s :: "'z viewworld_scheme"
  assumes run: "declareView S x s = (Inr d, s')"
  defines "i \<equiv> view_docId (dv_tenantId x) (dv_viewName x)" and "v \<equiv> (ds_dataset S, view_id x)"
  shows "declare_errors x = Inr () \<and> set (dv_declaredFields x) \<subseteq> vault_fields (dv_tenantId x) (vault_rows s) \<and>
    views s v = None \<and>
    views s' = (views s)(v \<mapsto> \<lparr>bv_sql = buildViewSql S x, bv_bindings = Some [(viewer_role, Some [''serviceAccount:'' @ dv_consumerServiceAccount x])]\<rparr>) \<and>
    (\<exists>t. d = (new_declaration S x)\<lparr>vd_created_at := t\<rparr>) \<and> doc_of s' = (doc_of s)(i \<mapsto> d) \<and>
    (\<forall>old. doc_of s i = Some old \<longrightarrow> vd_status old = REVOKED_VIEW)"
proof -
  let ?create = "\<lambda>_ :: unit. view_create (new_declaration S x) :: ('z viewworld_scheme, view_declaration) eff"
  obtain fs w where ok: "declare_errors x = Inr ()" and f: "getAvailableFields (dv_tenantId x) s = (Inr fs, w)"
    and av: "unavailable fs (dv_declaredFields x) = Inr ()"
    and r3: "bnd (createTable v (buildViewSql S x)) (\<lambda>_. bnd (grantViewerOnView v (dv_consumerServiceAccount x)) ?create) w = (Inr d, s')"
    using run unfolding declareView_def Let_def v_def by (auto elim!: bnd_InrE[of "lift _"] bnd_InrE[of "getAvailableFields _"])
  obtain y where c: "createTable v (buildViewSql S x) w = (Inr (), y)"
    and r4: "bnd (grantViewerOnView v (dv_consumerServiceAccount x)) ?create y = (Inr d, s')"
    using r3 by (rule bnd_InrE) simp
  obtain z where g: "grantViewerOnView v (dv_consumerServiceAccount x) y = (Inr (), z)" and e: "view_create (new_declaration S x) z = (Inr d, s')"
    using r4 by (rule bnd_InrE) simp
  have same: "fs = available_fields (dv_tenantId x) (vault_rows s)" "same_views s w" using getAvailableFields_Inr[OF f] by simp_all
  have y: "views w v = None" "views y = (views w)(v \<mapsto> \<lparr>bv_sql = buildViewSql S x, bv_bindings = None\<rparr>)" "view_docs y = view_docs w"
    using createTable_Inr[OF c] by simp_all
  have "views y v = Some \<lparr>bv_sql = buildViewSql S x, bv_bindings = None\<rparr>" using y by simp
  from grant_Inr[OF g this] have z: "views z = (views y)(v \<mapsto> \<lparr>bv_sql = buildViewSql S x,
      bv_bindings = Some [(viewer_role, Some [''serviceAccount:'' @ dv_consumerServiceAccount x])]\<rparr>)" "view_docs z = view_docs y" by simp_all
  have decl: "(new_declaration S x)\<lparr>vd_status := ACTIVE_VIEW, vd_created_at := t, vd_revoked_at := None, vd_revoked_by := None\<rparr> =
      (new_declaration S x)\<lparr>vd_created_at := t\<rparr>" for t
    by (simp add: new_declaration_def)
  have i: "view_docId (vd_tenant_id (new_declaration S x)) (vd_view_name (new_declaration S x)) = i"
    by (simp add: new_declaration_def i_def)
  show ?thesis
    using ok av same y z view_create_Inr[OF e, unfolded i decl] by (auto simp: unavailable_Inr set_available)
qed

lemma escape_plain: "CHR 0x27 \<notin> set t \<Longrightarrow> escapeSqlStringLiteral t = t"
  by (induction t) (auto simp: escapeSqlStringLiteral_def)

lemma view_sql_scope:
  assumes "CHR 0x27 \<notin> set (dv_tenantId x)"
  shows "\<exists>pre. buildViewSql S x = pre @ table_ref (ds_vault S) @ nl @ ''WHERE tenant_id = '' @ sq (dv_tenantId x) @ nl @ ''GROUP BY user_id, tenant_id''"
  using assms by (simp add: buildViewSql_def escape_plain)

text \<open>
  C21. A declared view is what the caller may have. POST /decrypted-views answers with a declaration only if
  the name is an identifier, a justification is given and every declared field has rows of the caller's own
  tenant in the vault; then the view is new in BigQuery, reads the vault restricted to the caller's tenant
  (whose id is quoted as it is unless it contains a quote), and is readable through its policy by exactly the named
  service account; the declaration is stored under the tenant and the name, where no active one stood; every other
  view and declaration is as it was.
\<close>

theorem declared_view_scoped:
  fixes s :: "'z viewworld_scheme"
  assumes run: "post_view S rq b s = (Inr (ViewShown c d), s')"
  defines "x \<equiv> input_of (tenant_of rq) b"
  defines "i \<equiv> view_docId (tenant_of rq) (dv_viewName x)" and "v \<equiv> (ds_dataset S, tenant_of rq @ ''_'' @ dv_viewName x)"
  shows "c = 201 \<and> is_identifier (dv_viewName x) \<and> trim (dv_businessJustification x) \<noteq> [] \<and> dv_declaredFields x \<noteq> [] \<and>
    set (dv_declaredFields x) \<subseteq> vault_fields (tenant_of rq) (vault_rows s) \<and>
    vd_tenant_id d = tenant_of rq \<and> vd_declared_fields d = dv_declaredFields x \<and> vd_status d = ACTIVE_VIEW \<and>
    views s v = None \<and>
    views s' = (views s)(v \<mapsto> \<lparr>bv_sql = buildViewSql S x, bv_bindings = Some [(viewer_role, Some [''serviceAccount:'' @ dv_consumerServiceAccount x])]\<rparr>) \<and>
    (CHR 0x27 \<notin> set (tenant_of rq) \<longrightarrow> (\<exists>pre. buildViewSql S x =
       pre @ table_ref (ds_vault S) @ nl @ ''WHERE tenant_id = '' @ sq (tenant_of rq) @ nl @ ''GROUP BY user_id, tenant_id'')) \<and>
    doc_of s' = (doc_of s)(i \<mapsto> d) \<and> (\<forall>old. doc_of s i = Some old \<longrightarrow> vd_status old = REVOKED_VIEW)"
proof -
  have t: "dv_tenantId x = tenant_of rq" by (simp add: x_def input_of_def)
  have "declareView S x s = (Inr d, s')" "c = 201"
    using run by (auto simp: post_view_def x_def bnd_apply catch_apply split: prod.splits sum.splits)
  from declareView_Inr[OF this(1)] this(2) show ?thesis
    using view_sql_scope[of x S]
    by (auto simp: t i_def v_def view_id_def new_declaration_def declare_errors_def split: if_splits)
qed

section \<open>Revoking\<close>

lemma delete_table_run:
  fixes s :: "'z viewworld_scheme"
  assumes "catch (delete_view_table v) (\<lambda>e. if e = CodeErr 404 then ret () else throw e) s = (r, s')"
  shows "view_docs s' = view_docs s \<and> (views s' = views s \<or> views s' = (views s)(v := None)) \<and> (r = Inr () \<longrightarrow> views s' = (views s)(v := None))"
proof -
  obtain oc w where n: "next_call s = (oc, w)" by (cases "next_call s")
  have w: "views w = views s" "view_docs w = view_docs s" using views_next_call[of s] n by simp_all
  show ?thesis
    using assms n w
    by (cases oc; cases "views s v") (auto simp: delete_view_table_def catch_apply rtxn_def split: if_splits)
qed

lemma view_revoke_run:
  fixes s :: "'z viewworld_scheme"
  assumes run: "view_revoke t n by' s = (r, s')"
  defines "i \<equiv> view_docId t n"
  shows "views s' = views s \<and> (doc_of s' = doc_of s \<or> (\<exists>d x. doc_of s i = Some d \<and> doc_of s' = (doc_of s)(i \<mapsto> revoked_doc x by' d))) \<and>
    (\<forall>d'. r = Inr (Some d') \<longrightarrow> (\<exists>d x. doc_of s i = Some d \<and> d' = revoked_doc x by' d \<and> doc_of s' = (doc_of s)(i \<mapsto> d'))) \<and>
    (r = Inr None \<longrightarrow> doc_of s i = None)"
proof -
  obtain o1 w where n1: "next_call s = (o1, w)" by (cases "next_call s")
  obtain o2 y where n2: "next_call w = (o2, y)" by (cases "next_call w")
  have w: "views w = views s" "view_docs w = view_docs s" and y: "views y = views w" "view_docs y = view_docs w"
    using views_next_call[of s] views_next_call[of w] n1 n2 by simp_all
  show ?thesis
  proof (cases "doc_of s i")
    case None
    then show ?thesis using run n1 w by (cases o1) (auto simp: view_revoke_def Let_def bnd_apply rread_def i_def)
  next
    case (Some d)
    show ?thesis
    proof (cases "o1 = Ok")
      case True
      then show ?thesis using run n1 n2 w y Some
        by (cases o2) (auto simp: view_revoke_def Let_def bnd_apply rread_def rtxn_def i_def)
    next
      case False
      then show ?thesis using run n1 w by (cases o1) (auto simp: view_revoke_def Let_def bnd_apply rread_def i_def)
    qed
  qed
qed

lemma revokeView_run:
  fixes s :: "'z viewworld_scheme"
  assumes run: "revokeView t n by' s = (r, s')"
  defines "i \<equiv> view_docId t n"
  shows "(views s' = views s \<and> doc_of s' = doc_of s \<and> (\<forall>d'. r \<noteq> Inr (Some d')) \<and>
      (r = Inr None \<longrightarrow> (\<forall>d. doc_of s i = Some d \<longrightarrow> vd_status d = REVOKED_VIEW))) \<or>
    (\<exists>d. doc_of s i = Some d \<and> vd_status d = ACTIVE_VIEW \<and>
      (views s' = views s \<or> views s' = (views s)((vd_bigquery_dataset d, vd_bigquery_view_name d) := None)) \<and>
      (doc_of s' = doc_of s \<or> (\<exists>x. doc_of s' = (doc_of s)(i \<mapsto> revoked_doc x by' d))) \<and> r \<noteq> Inr None \<and>
      (\<forall>d'. r = Inr (Some d') \<longrightarrow> (\<exists>x. d' = revoked_doc x by' d) \<and> doc_of s' = (doc_of s)(i \<mapsto> d') \<and>
         views s' = (views s)((vd_bigquery_dataset d, vd_bigquery_view_name d) := None)))"
proof -
  obtain oc w where n: "next_call s = (oc, w)" by (cases "next_call s")
  have w: "views w = views s" "view_docs w = view_docs s" using views_next_call[of s] n by simp_all
  obtain e where g: "view_get t n s = (e, w)" and e: "e = Inl IoErr \<or> e = Inr (doc_of s i)"
    using n w by (cases oc) (simp_all add: view_get_def rread_def i_def)
  show ?thesis
  proof (cases "\<exists>d. e = Inr (Some d) \<and> vd_status d = ACTIVE_VIEW")
    case False
    then show ?thesis using run g w e view_status.exhaust
      by (auto simp: revokeView_def bnd_apply split: option.splits if_splits)
  next
    case True
    then obtain d where d: "e = Inr (Some d)" "doc_of s i = Some d" "vd_status d = ACTIVE_VIEW" using e by (metis Inl_Inr_False sum.inject(2))
    let ?v = "(vd_bigquery_dataset d, vd_bigquery_view_name d)"
    obtain q y where q: "catch (delete_view_table ?v) (\<lambda>e. if e = CodeErr 404 then ret () else throw e) w = (q, y)" by fastforce
    note dy = delete_table_run[OF q]
    obtain r2 z where z: "view_revoke t n by' y = (r2, z)" by (cases "view_revoke t n by' y")
    note rz = view_revoke_run[OF z, folded i_def]
    have docs: "doc_of y = doc_of s" using dy w by simp
    show ?thesis
    proof (cases q)
      case (Inl x)
      then have "r = Inl x" "s' = y" using run g d q by (simp_all add: revokeView_def bnd_apply)
      then show ?thesis using d dy w by auto
    next
      case (Inr u)
      then have r: "r = r2" "s' = z" using run g d q z by (simp_all add: revokeView_def bnd_apply)
      have "r2 \<noteq> Inr None" using rz docs d(2) by auto
      moreover have "doc_of s' = doc_of s \<or> (\<exists>x. doc_of s' = (doc_of s)(i \<mapsto> revoked_doc x by' d))"
        using rz r docs d(2) by auto
      moreover have "views s' = (views s)(?v := None)" using rz r dy w Inr by auto
      moreover have "(\<exists>x. d' = revoked_doc x by' d) \<and> doc_of s' = (doc_of s)(i \<mapsto> d')" if "r = Inr (Some d')" for d'
        using rz r docs d(2) that by auto
      ultimately show ?thesis using d r by blast
    qed
  qed
qed

section \<open>Whose declaration a document is\<close>

definition docs_ok :: "'z viewworld_scheme \<Rightarrow> bool" where
  "docs_ok s \<longleftrightarrow> (\<forall>i d. doc_of s i = Some d \<longrightarrow> i = view_docId (vd_tenant_id d) (vd_view_name d) \<and>
     is_identifier (vd_view_name d) \<and> vd_bigquery_view_name d = vd_tenant_id d @ ''_'' @ vd_view_name d)"

lemma docs_ok_timeless: "timeless docs_ok"
  by (simp add: timeless_def docs_ok_def)

lemma docs_ok_set:
  assumes "docs_ok s" and "i = view_docId (vd_tenant_id d) (vd_view_name d)" and "is_identifier (vd_view_name d)"
    and "vd_bigquery_view_name d = vd_tenant_id d @ ''_'' @ vd_view_name d"
  shows "docs_ok (set_doc i d s)"
  using assms by (auto simp: docs_ok_def)

lemma docs_ok_views [simp]: "docs_ok (s\<lparr>views := v\<rparr>) = docs_ok s"
  by (simp add: docs_ok_def)

lemma keeps_bnd_lift: "(\<And>a. r = Inr a \<Longrightarrow> keeps P (f a)) \<Longrightarrow> keeps P (bnd (lift r) f)"
  by (cases r) (simp_all add: keeps_def bnd_apply)

lemma keeps_declareView: "keeps docs_ok (declareView S x)"
  unfolding declareView_def Let_def getAvailableFields_def createTable_def grantViewerOnView_def view_create_def new_declaration_def
  by (intro keeps_bnd_lift keeps_intros docs_ok_timeless keeps_rtxn keeps_rwrite)
    (auto simp: docs_ok_def view_id_def split: option.splits dest: declare_errors_Inr)

lemma keeps_revokeView: "keeps docs_ok (revokeView t n by')"
  unfolding revokeView_def view_get_def delete_view_table_def view_revoke_def Let_def revoked_doc_def
  by (intro keeps_intros docs_ok_timeless keeps_rtxn)
    (auto simp: docs_ok_def split: option.splits if_splits)

text \<open>
  C33. Every document of the collection is the declaration of its own tenant and view: whatever calls fail,
  declaring and revoking keep it that a document stands under the id made of the tenant and the name it
  holds, that this name is an identifier, and that the view it points to is the tenant's.
\<close>

theorem view_docs_invariant:
  "keeps docs_ok (post_view S rq b) \<and> keeps docs_ok (delete_decrypted_view rq n by') \<and> keeps docs_ok (get_views rq) \<and>
   keeps docs_ok (get_available_fields rq)"
  unfolding post_view_def delete_decrypted_view_def get_views_def get_available_fields_def Let_def view_listByTenant_def getAvailableFields_def
    getDistinctSyncedTenantIds_def
  by (intro conjI keeps_intros keeps_declareView keeps_revokeView docs_ok_timeless; simp add: docs_ok_timeless split: option.splits;
      intro keeps_intros allI impI)

lemma docId_own:
  assumes "docs_ok s" and "doc_of s (view_docId t n) = Some d" and "CHR '':'' \<notin> set n"
  shows "vd_tenant_id d = t \<and> vd_view_name d = n"
proof -
  have d: "view_docId t n = view_docId (vd_tenant_id d) (vd_view_name d)" "is_identifier (vd_view_name d)"
    using assms(1,2) unfolding docs_ok_def by auto
  have "CHR '':'' \<notin> set (vd_view_name d)"
    using d(2) by (auto simp: is_identifier_def is_ident_start_def is_ident_char_def char_ranges list_all_iff split: list.splits)
  from last_colon_inject[OF assms(3) this] d(1) show ?thesis by (simp add: view_docId_def)
qed

text \<open>
  C24. A revoked view is gone, and only one's own. DELETE /decrypted-views/:viewName answers with a
  declaration only if an active one stood under that id, the view has been dropped and the declaration is
  stored as revoked with who revoked it; nothing else changed; it is the caller's own if the name
  has no colon. It answers 404 only if no active declaration stands there, and then nothing has changed; after
  any other answer at most that one view and that one declaration differ.
\<close>

theorem view_revocation:
  fixes s :: "'z viewworld_scheme"
  assumes run: "delete_decrypted_view rq n by' s = (Inr r, s')" and ok: "docs_ok s"
  defines "i \<equiv> view_docId (tenant_of rq) n"
  shows "case r of
      ViewShown c d \<Rightarrow> c = 200 \<and> vd_status d = REVOKED_VIEW \<and> vd_revoked_by d = Some (nullish by' ''unknown'') \<and>
        (\<exists>old x. doc_of s i = Some old \<and> vd_status old = ACTIVE_VIEW \<and> d = revoked_doc x (nullish by' ''unknown'') old) \<and>
        views s' = (views s)((vd_bigquery_dataset d, vd_bigquery_view_name d) := None) \<and> doc_of s' = (doc_of s)(i \<mapsto> d) \<and>
        (CHR '':'' \<notin> set n \<longrightarrow> vd_tenant_id d = tenant_of rq \<and> vd_view_name d = n)
    | ViewError c e m \<Rightarrow> c \<in> {404, 500} \<and>
        (c = 404 \<longrightarrow> views s' = views s \<and> doc_of s' = doc_of s \<and> (\<forall>d. doc_of s i = Some d \<longrightarrow> vd_status d = REVOKED_VIEW)) \<and>
        (\<forall>j. j \<noteq> i \<longrightarrow> doc_of s' j = doc_of s j) \<and>
        (\<forall>v. views s' v \<noteq> views s v \<longrightarrow> (\<exists>d. doc_of s i = Some d \<and> v = (vd_bigquery_dataset d, vd_bigquery_view_name d) \<and> views s' v = None))
    | _ \<Rightarrow> False"
proof -
  let ?by = "nullish by' ''unknown''"
  obtain q where q: "revokeView (tenant_of rq) n ?by s = (q, s')" and r: "r = (case q of
      Inl e \<Rightarrow> ViewError 500 ''Failed to revoke decrypted view'' (message_of e)
    | Inr None \<Rightarrow> ViewError 404 ''Decrypted view not found or already revoked'' [] | Inr (Some d) \<Rightarrow> ViewShown 200 d)"
    using run by (auto simp: delete_decrypted_view_def bnd_apply catch_apply split: prod.splits sum.splits option.splits)
  note R = revokeView_run[OF q, folded i_def]
  consider e where "q = Inl e" | "q = Inr None" | d where "q = Inr (Some d)" by (metis obj_sumE option.exhaust)
  then show ?thesis
  proof cases
    case 1
    then show ?thesis using R r by auto
  next
    case 2
    then show ?thesis using R r by auto
  next
    case (3 d)
    then obtain old x where old: "doc_of s i = Some old" "vd_status old = ACTIVE_VIEW" "d = revoked_doc x ?by old"
      "doc_of s' = (doc_of s)(i \<mapsto> d)" "views s' = (views s)((vd_bigquery_dataset old, vd_bigquery_view_name old) := None)"
      using R by auto
    then show ?thesis
      using 3 r docId_own[OF ok old(1)[unfolded i_def]] by (auto simp: revoked_doc_def)
  qed
qed

text \<open>A name with a colon reaches the declaration of another tenant.\<close>

lemma revoke_crosses_tenants:
  "revokeView t (u @ '':'' @ n) by' = revokeView (t @ '':'' @ u) n by'"
  unfolding revokeView_def view_get_def view_revoke_def view_docId_def append.assoc ..

text \<open>
  A view that was created but never recorded (its grant or its record failed) stays: it can neither be declared
  again nor revoked.
\<close>

lemma orphan_stays:
  fixes s :: "'z viewworld_scheme"
  assumes "views s (ds_dataset S, tenant_of rq @ ''_'' @ nullish (vb_viewName b) []) \<noteq> None"
  shows "fst (post_view S rq b s) \<noteq> Inr (ViewShown c d)"
proof
  assume "fst (post_view S rq b s) = Inr (ViewShown c d)"
  then obtain s' where "post_view S rq b s = (Inr (ViewShown c d), s')" by (metis prod.collapse)
  then have "declareView S (input_of (tenant_of rq) b) s = (Inr d, s')"
    by (auto simp: post_view_def bnd_apply catch_apply split: prod.splits sum.splits)
  from declareView_Inr[OF this] assms show False by (simp add: input_of_def view_id_def)
qed

lemma orphan_not_revoked:
  fixes s :: "'z viewworld_scheme"
  assumes "doc_of s (view_docId (tenant_of rq) n) = None"
  shows "views (snd (delete_decrypted_view rq n by' s)) = views s"
proof -
  obtain q s' where q: "revokeView (tenant_of rq) n (nullish by' ''unknown'') s = (q, s')" by fastforce
  have "views s' = views s" using revokeView_run[OF q] assms by auto
  then show ?thesis using q by (auto simp: delete_decrypted_view_def bnd_apply catch_apply split: sum.splits option.splits)
qed

section \<open>A concrete view\<close>

definition toy_views :: view_service where
  "toy_views = \<lparr>ds_dataset = ''views'', ds_batchDecryptFunctionRef = ''p.views.decrypt'', ds_vault = (''p'', ''d'', ''vault'')\<rparr>"

definition toy_viewed :: viewworld where
  "toy_viewed = vworld.extend (toy_vaulted []) (viewworld.fields [] Map.empty)"

definition toy_view_body :: declare_view_body where
  "toy_view_body = \<lparr>vb_viewName = Some ''mail'', vb_declaredFields = Some [''email''], vb_businessJustification = Some ''billing'',
     vb_createdBy = None, vb_consumerServiceAccount = Some ''sa''\<rparr>"

lemma toy_view_facts: "docs_ok toy_viewed" "outcomes toy_viewed = []" "vault_rows toy_viewed = [toy_row []]"
  "view_docs toy_viewed = []" "views toy_viewed = Map.empty"
  by (simp_all add: docs_ok_def toy_viewed_def vworld.defs viewworld.defs toy_vaulted_def)

lemma toy_view_declared:
  "\<exists>d s'. post_view toy_views toy_rq toy_view_body toy_viewed = (Inr (ViewShown 201 d), s') \<and> outcomes s' = []"
  by (simp add: post_view_def declareView_def input_of_def nullish_def toy_view_body_def toy_rq_tenant declare_errors_def
      is_identifier_def is_ident_start_def is_ident_char_def char_ranges trim_def is_space_def
      bnd_apply catch_apply getAvailableFields_def available_fields_def no_faults toy_view_facts toy_row_def unavailable_def
      createTable_def grantViewerOnView_def view_create_def new_declaration_def Let_def set_doc_def)

lemma declared_view_scoped_witness:
  "\<exists>d s'. post_view toy_views toy_rq toy_view_body toy_viewed = (Inr (ViewShown 201 d), s') \<and>
     set [''email''] \<subseteq> vault_fields ''t'' [toy_row []] \<and> vd_tenant_id d = ''t'' \<and> doc_of s' ''t:mail'' = Some d"
proof -
  obtain d s' where run: "post_view toy_views toy_rq toy_view_body toy_viewed = (Inr (ViewShown 201 d), s')"
    using toy_view_declared by blast
  show ?thesis
    using declared_view_scoped[OF run] run
    by (simp add: toy_rq_tenant toy_view_facts input_of_def toy_view_body_def nullish_def view_docId_def)
qed

lemma view_revocation_witness:
  "\<exists>d s s'. docs_ok s \<and> delete_decrypted_view toy_rq ''mail'' None s = (Inr (ViewShown 200 d), s') \<and> vd_status d = REVOKED_VIEW \<and>
     vd_tenant_id d = ''t'' \<and> views (s' :: viewworld) (''views'', ''t_mail'') = None"
proof -
  obtain d s where run: "post_view toy_views toy_rq toy_view_body toy_viewed = (Inr (ViewShown 201 d), s)" and o: "outcomes s = []"
    using toy_view_declared by blast
  have k: "keeps docs_ok (post_view toy_views toy_rq toy_view_body)"
    unfolding post_view_def by (intro keeps_intros keeps_declareView)
  have ok: "docs_ok s" by (rule keepsE[OF k toy_view_facts(1) run])
  have "declareView toy_views (input_of ''t'' toy_view_body) toy_viewed = (Inr d, s)"
    using run by (auto simp: post_view_def toy_rq_tenant bnd_apply catch_apply split: prod.splits sum.splits)
  then obtain t where d: "doc_of s ''t:mail'' = Some d" "d = (new_declaration toy_views (input_of ''t'' toy_view_body))\<lparr>vd_created_at := t\<rparr>"
    using declareView_Inr by (fastforce simp: view_docId_def input_of_def toy_view_body_def nullish_def)
  obtain d' s' where del: "delete_decrypted_view toy_rq ''mail'' None s = (Inr (ViewShown 200 d'), s')" and
    at: "vd_bigquery_dataset d' = ''views''" "vd_bigquery_view_name d' = ''t_mail''"
    using d o by (cases "views s (''views'', ''t_mail'')")
      (simp_all add: delete_decrypted_view_def revokeView_def view_get_def view_docId_def toy_rq_tenant bnd_apply catch_apply no_faults
        new_declaration_def toy_views_def input_of_def toy_view_body_def nullish_def view_id_def delete_view_table_def view_revoke_def Let_def
        revoked_doc_def)
  have "vd_status d' = REVOKED_VIEW \<and> vd_tenant_id d' = ''t'' \<and> views s' (''views'', ''t_mail'') = None"
    using view_revocation[OF del ok] at by (auto simp: toy_rq_tenant)
  then show ?thesis using del ok by blast
qed

end
