(* ===== verification/SyncRuns.thy ===== *)
theory SyncRuns
  imports PiiRoutes
begin

text \<open>
  The progress of a synchronisation: \<open>src/types/sync-run.ts\<close>, \<open>src/gcp/sync-run-repository.ts\<close> and
  \<open>src/routes/sync-runs.ts\<close>. The worker creates a run, reports its chunks in any order and gives the
  number of chunks when it knows it; the console reads the run. The collection is a map from document ids to runs,
  a transaction a single step. The number of chunks is whatever number the request holds, so it need not be whole.
\<close>

section \<open>Runs\<close>

datatype run_status = ENUMERATING | RUNNING | RUN_COMPLETE

record sync_run =
  run_runId :: string
  run_tenantId :: string
  run_resourceId :: "string option"
  run_status :: run_status
  run_chunksTotal :: "rat option"
  run_chunksCompleted :: nat
  run_chunksFailed :: nat
  run_startedAt :: int
  run_completedAt :: "int option"

record syworld = env +
  sync_runs :: "string \<rightharpoonup> sync_run"

datatype chunk_outcome = CHUNK_COMPLETED | CHUNK_FAILED

section \<open>The repository\<close>

definition put_run :: "string \<Rightarrow> sync_run \<Rightarrow> 'z syworld_scheme \<Rightarrow> 'z syworld_scheme" where
  "put_run runId r s = s\<lparr>sync_runs := (sync_runs s)(runId \<mapsto> r)\<rparr>"

definition new_run :: "string \<Rightarrow> string \<Rightarrow> string option \<Rightarrow> int \<Rightarrow> sync_run" where
  "new_run runId tenantId resourceId t =
     \<lparr>run_runId = runId, run_tenantId = tenantId, run_resourceId = (if truthy resourceId then resourceId else None),
      run_status = ENUMERATING, run_chunksTotal = None, run_chunksCompleted = 0, run_chunksFailed = 0,
      run_startedAt = t, run_completedAt = None\<rparr>"

definition create_run :: "string \<Rightarrow> string \<Rightarrow> string option \<Rightarrow> ('z syworld_scheme, sync_run) eff" where
  "create_run runId tenantId resourceId =
     bnd (gets (\<lambda>s. new_run runId tenantId resourceId (now s))) (\<lambda>run.
     bnd (rwrite (put_run runId run)) (\<lambda>_. ret run))"

definition get_run :: "string \<Rightarrow> ('z syworld_scheme, sync_run option) eff" where
  "get_run runId = rread (\<lambda>s. sync_runs s runId)"

definition finalized :: "rat \<Rightarrow> int \<Rightarrow> sync_run \<Rightarrow> sync_run" where
  "finalized chunksTotal t current =
     (let done = chunksTotal \<le> of_nat (run_chunksCompleted current) in
      current\<lparr>run_chunksTotal := Some chunksTotal, run_status := (if done then RUN_COMPLETE else RUNNING),
        run_completedAt := (if done \<and> run_completedAt current = None then Some t else run_completedAt current)\<rparr>)"

definition reported :: "chunk_outcome \<Rightarrow> int \<Rightarrow> sync_run \<Rightarrow> sync_run" where
  "reported oc t current =
     (let chunksCompleted = run_chunksCompleted current + (if oc = CHUNK_COMPLETED then 1 else 0);
          chunksFailed = run_chunksFailed current + (if oc = CHUNK_FAILED then 1 else 0);
          done = (case run_chunksTotal current of None \<Rightarrow> False | Some n \<Rightarrow> n \<le> of_nat chunksCompleted);
          counted = current\<lparr>run_chunksCompleted := chunksCompleted, run_chunksFailed := chunksFailed\<rparr>
      in if done then counted\<lparr>run_status := RUN_COMPLETE, run_completedAt := Some t\<rparr> else counted)"

text \<open>A transaction that reads a run and merges its updates into it; a missing run is left alone.\<close>

definition update_run :: "string \<Rightarrow> (int \<Rightarrow> sync_run \<Rightarrow> sync_run) \<Rightarrow> ('z syworld_scheme, sync_run option) eff" where
  "update_run runId f = rtxn (\<lambda>s. case sync_runs s runId of
       None \<Rightarrow> (Inr None, s)
     | Some current \<Rightarrow> (Inr (Some (f (now s) current)), put_run runId (f (now s) current) s))"

definition finalizeTotal :: "string \<Rightarrow> rat \<Rightarrow> ('z syworld_scheme, sync_run option) eff" where
  "finalizeTotal runId chunksTotal = update_run runId (finalized chunksTotal)"

definition recordChunkOutcome :: "string \<Rightarrow> chunk_outcome \<Rightarrow> ('z syworld_scheme, sync_run option) eff" where
  "recordChunkOutcome runId oc = update_run runId (reported oc)"

section \<open>The routes\<close>

datatype sync_reply = SyncFailure nat string | RunShown nat sync_run | NotRecorded

definition sync_status :: "sync_reply \<Rightarrow> nat" where
  "sync_status r = (case r of SyncFailure c _ \<Rightarrow> c | RunShown c _ \<Rightarrow> c | NotRecorded \<Rightarrow> 200)"

definition sync_requireWriteAuth :: "string option \<Rightarrow> string option \<Rightarrow> sync_reply option" where
  "sync_requireWriteAuth writeToken authorization =
     (if \<not> truthy writeToken then Some (SyncFailure 503 ''Sync run write API is not enabled'')
      else if bearer_of authorization \<noteq> the writeToken then Some (SyncFailure 401 ''Unauthorized'')
      else None)"

definition sync_guarded ::
  "string option \<Rightarrow> string option \<Rightarrow> ('z syworld_scheme, sync_reply) eff \<Rightarrow> ('z syworld_scheme, sync_reply) eff" where
  "sync_guarded writeToken authorization handler =
     (case sync_requireWriteAuth writeToken authorization of Some r \<Rightarrow> ret r | None \<Rightarrow> handler)"

definition post_sync_run :: "string option \<Rightarrow> string option \<Rightarrow> string option \<Rightarrow> ('z syworld_scheme, sync_reply) eff" where
  "post_sync_run runId tenantId resourceId =
     (if \<not> truthy runId \<or> \<not> truthy tenantId then ret (SyncFailure 400 ''runId and tenantId are required'')
      else catch (bnd (create_run (the runId) (the tenantId) resourceId) (\<lambda>run. ret (RunShown 201 run)))
        (\<lambda>_. ret (SyncFailure 500 ''Failed to create sync run'')))"

definition run_or_404 :: "sync_run option \<Rightarrow> sync_reply" where
  "run_or_404 run = (case run of None \<Rightarrow> SyncFailure 404 ''Sync run not found'' | Some r \<Rightarrow> RunShown 200 r)"

definition post_finalize_total :: "string \<Rightarrow> rat option \<Rightarrow> ('z syworld_scheme, sync_reply) eff" where
  "post_finalize_total runId chunksTotal =
     (if chunksTotal = None \<or> the chunksTotal < 0 then ret (SyncFailure 400 ''chunksTotal must be a non-negative number'')
      else catch (bnd (finalizeTotal runId (the chunksTotal)) (\<lambda>run. ret (run_or_404 run)))
        (\<lambda>_. ret (SyncFailure 500 ''Failed to finalize sync run total'')))"

definition outcome_of :: "string option \<Rightarrow> chunk_outcome option" where
  "outcome_of v = (if v = Some ''completed'' then Some CHUNK_COMPLETED
     else if v = Some ''failed'' then Some CHUNK_FAILED else None)"

definition post_progress :: "string \<Rightarrow> string option \<Rightarrow> ('z syworld_scheme, sync_reply) eff" where
  "post_progress runId v =
     (case outcome_of v of
        None \<Rightarrow> ret (SyncFailure 400 (''outcome must be '' @ [CHR 0x27] @ ''completed'' @ [CHR 0x27] @ '' or '' @ [CHR 0x27] @ ''failed'' @ [CHR 0x27]))
      | Some oc \<Rightarrow> catch
          (bnd (recordChunkOutcome runId oc) (\<lambda>run. ret (case run of None \<Rightarrow> NotRecorded | Some r \<Rightarrow> RunShown 200 r)))
          (\<lambda>_. ret (SyncFailure 500 ''Failed to record sync chunk outcome'')))"

definition get_sync_run :: "string \<Rightarrow> ('z syworld_scheme, sync_reply) eff" where
  "get_sync_run runId =
     catch (bnd (get_run runId) (\<lambda>run. ret (run_or_404 run))) (\<lambda>_. ret (SyncFailure 500 ''Failed to fetch sync run''))"

text \<open>The four routes; the writers are given the request's \<open>Authorization\<close> header.\<close>

datatype sync_request =
    CreateRun "string option" "string option" "string option" "string option"
  | FinalizeRun "string option" string "rat option"
  | ReportChunk "string option" string "string option"
  | ShowRun string

definition sync_serve :: "string option \<Rightarrow> sync_request \<Rightarrow> ('z syworld_scheme, sync_reply) eff" where
  "sync_serve W rq = (case rq of
     CreateRun a runId tenantId resourceId \<Rightarrow> sync_guarded W a (post_sync_run runId tenantId resourceId)
   | FinalizeRun a runId chunksTotal \<Rightarrow> sync_guarded W a (post_finalize_total runId chunksTotal)
   | ReportChunk a runId v \<Rightarrow> sync_guarded W a (post_progress runId v)
   | ShowRun runId \<Rightarrow> get_sync_run runId)"

section \<open>A run is complete exactly when it should be\<close>

definition expected_status :: "rat option \<Rightarrow> nat \<Rightarrow> run_status" where
  "expected_status chunksTotal completed =
     (case chunksTotal of None \<Rightarrow> ENUMERATING | Some n \<Rightarrow> if n \<le> of_nat completed then RUN_COMPLETE else RUNNING)"

definition run_ok :: "string \<Rightarrow> sync_run \<Rightarrow> bool" where
  "run_ok i r \<longleftrightarrow> run_runId r = i \<and> run_status r = expected_status (run_chunksTotal r) (run_chunksCompleted r) \<and>
     (run_status r = RUN_COMPLETE \<longrightarrow> run_completedAt r \<noteq> None) \<and>
     (case run_chunksTotal r of None \<Rightarrow> run_completedAt r = None | Some n \<Rightarrow> 0 \<le> n)"

definition runs_ok :: "'z syworld_scheme \<Rightarrow> bool" where
  "runs_ok s \<longleftrightarrow> (\<forall>i r. sync_runs s i = Some r \<longrightarrow> run_ok i r)"

text \<open>The states the routes can bring the collection to, whatever the calls, their senders and their failures.\<close>

inductive sync_reach :: "string option \<Rightarrow> 'z syworld_scheme \<Rightarrow> bool" for W where
  start: "sync_runs s = Map.empty \<Longrightarrow> sync_reach W s"
| serve: "sync_reach W s \<Longrightarrow> sync_serve W rq s = (r, t) \<Longrightarrow> sync_reach W t"

lemma timeless_runs_ok: "timeless runs_ok"
  by (rule timelessI) (simp add: runs_ok_def)

lemma new_run_ok: "run_ok i (new_run i tn rs t)"
  by (simp add: run_ok_def new_run_def expected_status_def)

lemma finalized_ok: "run_ok i r \<Longrightarrow> 0 \<le> n \<Longrightarrow> run_ok i (finalized n t r)"
  by (auto simp: run_ok_def finalized_def expected_status_def Let_def)

lemma reported_ok: "run_ok i r \<Longrightarrow> run_ok i (reported oc t r)"
  by (auto simp: run_ok_def reported_def expected_status_def Let_def split: option.splits if_splits)

lemma runs_ok_put: "runs_ok s \<Longrightarrow> run_ok i r \<Longrightarrow> runs_ok (put_run i r s)"
  by (simp add: runs_ok_def put_run_def)

lemma keeps_update_run:
  assumes "\<And>t r. run_ok i r \<Longrightarrow> run_ok i (f t r)"
  shows "keeps runs_ok (update_run i f)"
  unfolding update_run_def
proof (rule keeps_rtxn[OF timeless_runs_ok])
  fix s :: "'z syworld_scheme" and a t
  assume s: "runs_ok s" and run: "(case sync_runs s i of None \<Rightarrow> (Inr None, s)
    | Some current \<Rightarrow> (Inr (Some (f (now s) current)), put_run i (f (now s) current) s)) = (Inr a, t)"
  show "runs_ok t"
  proof (cases "sync_runs s i")
    case (Some r)
    then have "run_ok i r" using s by (simp add: runs_ok_def)
    then show ?thesis using run s Some by (auto intro!: runs_ok_put assms)
  qed (use run s in simp)
qed

lemma keeps_create_run: "keeps runs_ok (create_run i tn rs)"
proof (rule keepsI)
  fix s :: "'z syworld_scheme" assume s: "runs_ok s"
  let ?r = "new_run i tn rs (now s)"
  have "keeps runs_ok (bnd (rwrite (put_run i ?r)) (\<lambda>_. ret ?r) :: ('z syworld_scheme, sync_run) eff)"
    by (intro keeps_bnd keeps_ret keeps_rwrite timeless_runs_ok runs_ok_put new_run_ok)
  then show "runs_ok (snd (create_run i tn rs s))"
    unfolding create_run_def bnd_gets using s by (rule keepsD)
qed

lemma keeps_serve: "keeps runs_ok (sync_serve W rq :: ('z syworld_scheme, sync_reply) eff)"
proof -
  have g: "keeps runs_ok (sync_guarded W a m)" if "keeps runs_ok m" for a and m :: "('z syworld_scheme, sync_reply) eff"
    using that by (simp add: sync_guarded_def keeps_ret split: option.split)
  show ?thesis
  proof (cases rq)
    case (CreateRun a i tn rs)
    then show ?thesis
      by (simp add: sync_serve_def post_sync_run_def g keeps_ret keeps_catch keeps_bnd keeps_create_run)
  next
    case (FinalizeRun a i n)
    have "keeps runs_ok (finalizeTotal i x :: ('z syworld_scheme, sync_run option) eff)" if "\<not> x < 0" for x
      unfolding finalizeTotal_def using that by (intro keeps_update_run finalized_ok) simp_all
    then show ?thesis using FinalizeRun
      by (simp add: sync_serve_def post_finalize_total_def g keeps_ret keeps_catch keeps_bnd)
  next
    case (ReportChunk a i v)
    have "keeps runs_ok (recordChunkOutcome i oc :: ('z syworld_scheme, sync_run option) eff)" for oc
      unfolding recordChunkOutcome_def by (intro keeps_update_run reported_ok)
    then show ?thesis using ReportChunk
      by (simp add: sync_serve_def post_progress_def g keeps_ret keeps_catch keeps_bnd split: option.split)
  next
    case (ShowRun i)
    then show ?thesis
      by (simp add: sync_serve_def get_sync_run_def get_run_def keeps_ret keeps_catch keeps_bnd keeps_rread timeless_runs_ok)
  qed
qed

lemma reach_runs_ok: "sync_reach W s \<Longrightarrow> runs_ok s"
proof (induction rule: sync_reach.induct)
  case (start s)
  then show ?case by (simp add: runs_ok_def)
next
  case (serve s rq r t)
  then show ?case using keepsE[OF keeps_serve] by blast
qed

text \<open>
  C30. Whatever requests arrive, from whom and with whatever failures, every stored run is in the state that its
  counters determine: it is enumerating until the number of chunks is known, complete exactly when as many chunks
  as that have been reported completed, with the time of completion, and running otherwise.
\<close>

theorem sync_run_invariant:
  assumes "sync_reach W s" and "sync_runs s i = Some r"
  shows "run_runId r = i \<and> run_status r = expected_status (run_chunksTotal r) (run_chunksCompleted r) \<and>
    (run_status r = RUN_COMPLETE \<longrightarrow> run_completedAt r \<noteq> None) \<and> (\<forall>n. run_chunksTotal r = Some n \<longrightarrow> 0 \<le> n)"
  using reach_runs_ok[OF assms(1)] assms(2) by (auto simp: runs_ok_def run_ok_def split: option.splits)

section \<open>The order of the reports does not matter\<close>

definition serve_all :: "string option \<Rightarrow> sync_request list \<Rightarrow> 'z syworld_scheme \<Rightarrow> 'z syworld_scheme" where
  "serve_all W rqs s = foldl (\<lambda>s rq. snd (sync_serve W rq s)) s rqs"

text \<open>What a request asks of a run, if its sender holds the worker's token and it is well formed.\<close>

definition admitted :: "string option \<Rightarrow> string option \<Rightarrow> bool" where
  "admitted W a = (sync_requireWriteAuth W a = None)"

definition reports :: "string option \<Rightarrow> string \<Rightarrow> sync_request \<Rightarrow> chunk_outcome option" where
  "reports W i rq = (case rq of ReportChunk a j v \<Rightarrow> if admitted W a \<and> j = i then outcome_of v else None | _ \<Rightarrow> None)"

definition totals :: "string option \<Rightarrow> string \<Rightarrow> sync_request \<Rightarrow> rat option" where
  "totals W i rq = (case rq of
     FinalizeRun a j n \<Rightarrow> if admitted W a \<and> j = i \<and> n \<noteq> None \<and> 0 \<le> the n then n else None | _ \<Rightarrow> None)"

definition creates :: "string option \<Rightarrow> string \<Rightarrow> sync_request \<Rightarrow> bool" where
  "creates W i rq = (case rq of CreateRun a j tn rs \<Rightarrow> admitted W a \<and> j = Some i | _ \<Rightarrow> False)"

lemma put_run_faults [simp]: "outcomes (put_run i r s) = outcomes s" "sync_runs (put_run i r s) j = (if j = i then Some r else sync_runs s j)"
  by (simp_all add: put_run_def)

lemma update_run_run:
  "outcomes s = [] \<Longrightarrow> update_run j f s = (case sync_runs s j of
     None \<Rightarrow> (Inr None, s) | Some r \<Rightarrow> (Inr (Some (f (now s) r)), put_run j (f (now s) r) s))"
  by (simp add: update_run_def no_faults split: option.split)

lemma serve_faultless: "outcomes s = [] \<Longrightarrow> outcomes (snd (sync_serve W rq s)) = []"
  by (cases rq) (auto simp: sync_serve_def sync_guarded_def post_sync_run_def post_finalize_total_def post_progress_def
      get_sync_run_def get_run_def create_run_def finalizeTotal_def recordChunkOutcome_def catch_apply bnd_apply no_faults
      update_run_run split: option.splits)

text \<open>One request and one run.\<close>

lemma serve_step:
  assumes s: "outcomes s = []" and r: "sync_runs s i = Some r" and c: "\<not> creates W i rq"
  shows "\<exists>r'. sync_runs (snd (sync_serve W rq s)) i = Some r' \<and>
    run_chunksTotal r' = (if totals W i rq = None then run_chunksTotal r else totals W i rq) \<and>
    run_chunksCompleted r' = run_chunksCompleted r + (if reports W i rq = Some CHUNK_COMPLETED then 1 else 0) \<and>
    run_chunksFailed r' = run_chunksFailed r + (if reports W i rq = Some CHUNK_FAILED then 1 else 0)"
proof (cases rq)
  case (CreateRun a j tn rs)
  then show ?thesis using s r c
    by (auto simp: sync_serve_def sync_guarded_def post_sync_run_def create_run_def catch_apply bnd_apply no_faults
        creates_def admitted_def reports_def totals_def truthy_def split: option.splits)
next
  case (FinalizeRun a j n)
  then show ?thesis using s r
    by (auto simp: sync_serve_def sync_guarded_def post_finalize_total_def finalizeTotal_def catch_apply bnd_apply
        update_run_run admitted_def reports_def totals_def finalized_def Let_def not_less split: option.splits)
next
  case (ReportChunk a j v)
  then show ?thesis using s r
    by (auto simp: sync_serve_def sync_guarded_def post_progress_def recordChunkOutcome_def catch_apply bnd_apply
        update_run_run admitted_def reports_def totals_def reported_def Let_def split: option.splits chunk_outcome.splits)
next
  case (ShowRun j)
  then show ?thesis using s r
    by (simp add: sync_serve_def get_sync_run_def get_run_def catch_apply bnd_apply no_faults reports_def totals_def)
qed

definition reported_count :: "string option \<Rightarrow> string \<Rightarrow> chunk_outcome \<Rightarrow> sync_request list \<Rightarrow> nat" where
  "reported_count W i oc rqs = length (filter (\<lambda>rq. reports W i rq = Some oc) rqs)"

lemma serve_all_run:
  "outcomes s = [] \<Longrightarrow> sync_runs s i = Some r \<Longrightarrow> \<forall>rq \<in> set rqs. \<not> creates W i rq \<Longrightarrow>
   \<forall>rq \<in> set rqs. totals W i rq \<in> {None, Some n} \<Longrightarrow>
   \<exists>r'. sync_runs (serve_all W rqs s) i = Some r' \<and>
     run_chunksTotal r' = (if \<exists>rq \<in> set rqs. totals W i rq \<noteq> None then Some n else run_chunksTotal r) \<and>
     run_chunksCompleted r' = run_chunksCompleted r + reported_count W i CHUNK_COMPLETED rqs \<and>
     run_chunksFailed r' = run_chunksFailed r + reported_count W i CHUNK_FAILED rqs"
proof (induction rqs arbitrary: s r)
  case Nil
  then show ?case by (simp add: serve_all_def reported_count_def)
next
  case (Cons rq rqs)
  obtain q where q: "sync_runs (snd (sync_serve W rq s)) i = Some q"
      "run_chunksTotal q = (if totals W i rq = None then run_chunksTotal r else totals W i rq)"
      "run_chunksCompleted q = run_chunksCompleted r + (if reports W i rq = Some CHUNK_COMPLETED then 1 else 0)"
      "run_chunksFailed q = run_chunksFailed r + (if reports W i rq = Some CHUNK_FAILED then 1 else 0)"
    using serve_step[OF Cons.prems(1,2), of W rq] Cons.prems(3) by auto
  have "totals W i rq \<in> {None, Some n}" using Cons.prems(4) by simp
  then show ?case
    using Cons.IH[OF serve_faultless[OF Cons.prems(1)] q(1)] Cons.prems(3,4) q(2-4)
    by (auto simp: serve_all_def reported_count_def)
qed

lemma reach_serve_all: "sync_reach W s \<Longrightarrow> sync_reach W (serve_all W rqs s)"
proof (induction rqs arbitrary: s)
  case (Cons rq rqs)
  have "sync_reach W (snd (sync_serve W rq s))"
    using Cons.prems by (rule sync_reach.serve) (rule prod.collapse[symmetric])
  then show ?case using Cons.IH by (simp add: serve_all_def)
qed (simp add: serve_all_def)

text \<open>
  C28. The progress of a run does not depend on who observes its last chunk: when the worker gives the number of chunks
  somewhere among its reports (once, or again with the same number), the run ends complete exactly when that many
  chunks were reported completed, in whatever order the requests came; only requests with the worker's token count,
  and no failed chunk does.
\<close>

theorem sync_run_settles:
  assumes "outcomes s = []" and "sync_reach W s" and "sync_runs s i = Some r"
    and "\<forall>rq \<in> set rqs. \<not> creates W i rq"
    and "\<forall>rq \<in> set rqs. totals W i rq \<in> {None, Some n}" and "\<exists>rq \<in> set rqs. totals W i rq = Some n"
  shows "\<exists>r'. sync_runs (serve_all W rqs s) i = Some r' \<and> run_chunksTotal r' = Some n \<and>
    run_chunksCompleted r' = run_chunksCompleted r + reported_count W i CHUNK_COMPLETED rqs \<and>
    run_chunksFailed r' = run_chunksFailed r + reported_count W i CHUNK_FAILED rqs \<and>
    run_status r' = (if n \<le> of_nat (run_chunksCompleted r + reported_count W i CHUNK_COMPLETED rqs) then RUN_COMPLETE else RUNNING)"
proof -
  obtain r' where r: "sync_runs (serve_all W rqs s) i = Some r'"
    "run_chunksTotal r' = (if \<exists>rq \<in> set rqs. totals W i rq \<noteq> None then Some n else run_chunksTotal r)"
    "run_chunksCompleted r' = run_chunksCompleted r + reported_count W i CHUNK_COMPLETED rqs"
    "run_chunksFailed r' = run_chunksFailed r + reported_count W i CHUNK_FAILED rqs"
    using serve_all_run[OF assms(1,3-5)] by blast
  have "run_status r' = expected_status (run_chunksTotal r') (run_chunksCompleted r')"
    using reach_runs_ok[OF reach_serve_all[OF assms(2)], of rqs] r(1) by (simp add: runs_ok_def run_ok_def)
  then show ?thesis using r assms(6) by (auto simp: expected_status_def)
qed

section \<open>Runs at work\<close>

definition toy_syworld :: syworld where
  "toy_syworld = \<lparr>now = 5, outcomes = [], sync_runs = Map.empty\<rparr>"

definition worker :: "string option" where
  "worker = Some ''Bearer w''"

definition created :: syworld where
  "created = snd (sync_serve (Some ''w'') (CreateRun worker (Some ''r'') (Some ''t'') None) toy_syworld)"

lemmas sync_run_defs = sync_serve_def sync_guarded_def sync_requireWriteAuth_def post_sync_run_def post_finalize_total_def
  post_progress_def create_run_def finalizeTotal_def recordChunkOutcome_def update_run_def new_run_def put_run_def
  catch_apply bnd_apply truthy_def bearer_of_def worker_def startsWith_def outcome_of_def no_faults

lemma created_run: "sync_runs created = [''r'' \<mapsto> new_run ''r'' ''t'' None 5]" "outcomes created = []"
  by (simp_all add: created_def toy_syworld_def sync_run_defs)

lemma created_reach: "sync_reach (Some ''w'') created"
proof -
  have "sync_reach (Some ''w'') toy_syworld" by (rule sync_reach.start) (simp add: toy_syworld_def)
  then show ?thesis unfolding created_def by (rule sync_reach.serve) (rule prod.collapse[symmetric])
qed

lemma sync_run_invariant_witness:
  "run_status (new_run ''r'' ''t'' None 5) = expected_status None 0"
  using sync_run_invariant[OF created_reach, of "''r''" "new_run ''r'' ''t'' None 5"] by (simp add: created_run new_run_def)

lemma sync_run_settles_witness:
  "\<exists>r'. sync_runs (serve_all (Some ''w'') [ReportChunk worker ''r'' (Some ''completed''), FinalizeRun worker ''r'' (Some 1)] created) ''r'' = Some r' \<and>
     run_status r' = RUN_COMPLETE"
  using sync_run_settles[OF created_run(2) created_reach, of "''r''" "new_run ''r'' ''t'' None 5"
      "[ReportChunk worker ''r'' (Some ''completed''), FinalizeRun worker ''r'' (Some 1)]" 1]
  by (auto simp: created_run creates_def totals_def admitted_def reported_count_def reports_def new_run_def sync_run_defs)

text \<open>A chunk that Pub/Sub delivers twice counts twice: a run of two chunks is complete after its first chunk.\<close>

lemma redelivery_completes:
  "map_option run_status (sync_runs (serve_all (Some ''w'') [FinalizeRun worker ''r'' (Some 2),
     ReportChunk worker ''r'' (Some ''completed''), ReportChunk worker ''r'' (Some ''completed'')] created) ''r'') = Some RUN_COMPLETE"
  by (simp add: serve_all_def created_def toy_syworld_def sync_run_defs finalized_def reported_def)

text \<open>A report that comes after completion, even of a failed chunk, moves the time of completion.\<close>

lemma late_report_moves_completion:
  "run_status r = RUN_COMPLETE \<Longrightarrow> run_ok i r \<Longrightarrow> run_completedAt (reported CHUNK_FAILED t r) = Some t"
  by (auto simp: run_ok_def reported_def expected_status_def Let_def split: option.splits if_splits)

text \<open>Creating a run again forgets its progress.\<close>

lemma create_again_resets:
  "outcomes s = [] \<Longrightarrow> sync_runs (snd (create_run i tn rs s)) i = Some (new_run i tn rs (now s))"
  by (simp add: create_run_def bnd_apply no_faults put_run_def)

end
