(* ===== verification/Federation.thy ===== *)
theory Federation
  imports PiiDeclare
begin

text \<open>
  What the registry is made of when the vault starts: the tables of the dbt package, read from BigQuery
  (\<open>src/gcp/pii-registry-repository.ts\<close>) or Snowflake (\<open>src/snowflake/pii-registry-repository.ts\<close> and
  \<open>src/snowflake/client.ts\<close>), the bundled entries (\<open>src/data/pii-registry.ts\<close>), the declarations, and their
  composition in \<open>src/main.ts\<close>. The tables' answers are an argument. The sources cast the columns that hold an enumeration
  without checking them; here they hold a member of it, and a layer that is none is shown as no layer. Dashes
  in the bundled notes are written as hyphens.
\<close>

section \<open>Rows\<close>

record registry_row =
  rg_resource_id :: string
  rg_model_name :: string
  rg_system :: "pii_system option"
  rg_resource_layer :: "string option"
  rg_owner :: "string option"
  rg_field_name :: string
  rg_classification :: pii_classification
  rg_handling :: pii_handling
  rg_confidence :: confidence
  rg_detection_method :: string
  rg_required_in_mart :: bool
  rg_registry_version :: string

record lineage_row =
  lw_source_resource_id :: string
  lw_field_name :: string
  lw_downstream_model :: string
  lw_hops :: int

definition layer_of :: "string \<Rightarrow> resource_layer option" where
  "layer_of l = map_of [(''RAW'', RAW), (''STAGING'', STAGING), (''INTERMEDIATE'', INTERMEDIATE), (''MART'', MART), (''SAAS'', SAAS)] l"

text \<open>The fields a platform entry has; the others are undefined.\<close>

definition platform_entry ::
  "string \<Rightarrow> string \<Rightarrow> pii_system \<Rightarrow> resource_layer option \<Rightarrow> visibility \<Rightarrow> string option \<Rightarrow> pii_field list \<Rightarrow>
   string \<Rightarrow> string \<Rightarrow> deletion_strategy \<Rightarrow> ghost_scan \<Rightarrow> string \<Rightarrow> string list \<Rightarrow> string option \<Rightarrow> pii_entry" where
  "platform_entry version resourceId system layer vis userIdColumn piiFields owner destination deletion scan policy pointers notes =
     \<lparr>pe_registryVersion = version, pe_resourceId = resourceId, pe_system = system, pe_resourceLayer = layer,
      pe_visibility = Some vis, pe_tenantIdColumn = Some ''tenant_id'', pe_userIdColumn = userIdColumn,
      pe_allowedCaller = None, pe_userIdFieldPath = None, pe_updatedAtColumn = None, pe_lastSyncedAt = None,
      pe_lastSyncAttemptAt = None, pe_piiFields = piiFields, pe_ownerConnector = owner, pe_lineageDestination = destination,
      pe_deletionStrategy = deletion, pe_sourceRedactionStrategy = None, pe_sourceRedactionStrategies = None,
      pe_ghostDataScan = scan, pe_handlingPolicy = policy, pe_evidencePointers = pointers, pe_notes = notes,
      pe_tenantId = None, pe_status = None, pe_createdAt = None, pe_updatedAt = None, pe_declaredBy = None,
      pe_lastModifiedBy = None\<rparr>"

definition dbt_field :: "registry_row \<Rightarrow> pii_field" where
  "dbt_field row =
     \<lparr>pf_name = rg_field_name row, pf_classification = rg_classification row, pf_handling = rg_handling row,
      pf_requiredInMart = rg_required_in_mart row, pf_evidence = Some [''dbt:detection:'' @ rg_detection_method row],
      pf_confidence = Some (rg_confidence row), pf_surrogateId = None\<rparr>"

definition lineage_pointer :: "lineage_row \<Rightarrow> string" where
  "lineage_pointer edge =
     ''lineage:used_in='' @ lw_downstream_model edge @ '':'' @ lw_field_name edge @ ''@'' @ int_str (lw_hops edge) @ ''hops''"

definition toEntry :: "string \<Rightarrow> registry_row list \<Rightarrow> lineage_row list \<Rightarrow> pii_entry" where
  "toEntry resourceId rows lineage =
     (let first = hd rows; layer = or_else (rg_resource_layer first) ''UNKNOWN'';
          isRaw = (layer = ''RAW''); isSaas = (layer = ''SAAS''); isMart = (layer = ''MART'') in
      platform_entry (rg_registry_version first) resourceId
        (case rg_system first of None \<Rightarrow> Bigquery | Some sy \<Rightarrow> sy) (layer_of layer)
        (if isRaw then INTERNAL else CUSTOMER_FACING) (Some ''user_id'') (map dbt_field rows)
        (or_else (rg_owner first) ''dbt'') resourceId
        (if isMart then D_MANUAL_REVIEW else CRYPTO_SHRED)
        (if isRaw \<or> isSaas then \<lparr>gs_enabled = False, gs_scanMode = SCAN_DISABLED, gs_patterns = []\<rparr>
         else \<lparr>gs_enabled = True, gs_scanMode = SCAN_SAMPLED, gs_patterns = [''EMAIL'', ''PHONE'', ''NAME'']\<rparr>)
        (toLowerCase layer @ ''_auto_registry'')
        ((''dbt:model:'' @ rg_model_name first) # map lineage_pointer lineage)
        (Some ''Generated by the chameleon_pii dbt package from warehouse metadata.''))"

section \<open>Grouping\<close>

text \<open>\<open>push\<close> onto the list a \<open>Map\<close> holds for the row's key, or a new list.\<close>

definition push_row :: "('r \<Rightarrow> string) \<Rightarrow> (string \<times> 'r list) list \<Rightarrow> 'r \<Rightarrow> (string \<times> 'r list) list" where
  "push_row key m row = (case map_of m (key row) of
     Some existing \<Rightarrow> AList.update (key row) (existing @ [row]) m
   | None \<Rightarrow> AList.update (key row) [row] m)"

definition group_rows :: "('r \<Rightarrow> string) \<Rightarrow> 'r list \<Rightarrow> (string \<times> 'r list) list" where
  "group_rows key rows = foldl (push_row key) [] rows"

definition assemblePiiRegistryEntries :: "registry_row list \<Rightarrow> lineage_row list \<Rightarrow> pii_entry list" where
  "assemblePiiRegistryEntries registryRows lineageRows =
     (if registryRows = [] then []
      else
        (let byResource = group_rows rg_resource_id registryRows;
             lineageByResource = group_rows lw_source_resource_id lineageRows in
         map (\<lambda>(resourceId, rows). toEntry resourceId rows
               (case map_of lineageByResource resourceId of None \<Rightarrow> [] | Some edges \<Rightarrow> edges)) byResource))"

definition composePiiRegistry :: "pii_entry list \<Rightarrow> pii_entry list \<Rightarrow> pii_entry list \<Rightarrow> pii_entry list" where
  "composePiiRegistry connectorEntries dbtEntries manualEntries =
     (if dbtEntries = [] \<and> manualEntries = [] then connectorEntries
      else
        (let platform = (if dbtEntries = [] then connectorEntries
               else filter (\<lambda>e. pe_ownerConnector e \<noteq> ''dbt'') connectorEntries @ dbtEntries) in
         if manualEntries = [] then platform else platform @ manualEntries))"

section \<open>The two warehouses\<close>

text \<open>
  BigQuery answers a query by the name of its table. Snowflake answers with objects whose keys are in upper case;
  \<open>as\<close> reads a row object as a row.
\<close>

record bq_warehouse =
  bw_registry :: "string \<Rightarrow> exn + registry_row list"
  bw_lineage :: "string \<Rightarrow> exn + lineage_row list"

definition bq_queryRegistry :: "bq_warehouse \<Rightarrow> string \<Rightarrow> string \<Rightarrow> ('z env_scheme, registry_row list) eff" where
  "bq_queryRegistry B project datasetId =
     rcall (\<lambda>_. bw_registry B (''`'' @ project @ ''.'' @ datasetId @ ''.pii_registry`''))"

definition bq_queryLineage :: "bq_warehouse \<Rightarrow> string \<Rightarrow> string \<Rightarrow> ('z env_scheme, lineage_row list) eff" where
  "bq_queryLineage B project datasetId =
     catch (rcall (\<lambda>_. bw_lineage B (''`'' @ project @ ''.'' @ datasetId @ ''.pii_field_lineage`''))) (\<lambda>_. ret [])"

text \<open>\<open>Promise.all\<close> of the two queries: both run, and the entries are those of their rows.\<close>

definition assembled :: "('z env_scheme, registry_row list) eff \<Rightarrow> ('z env_scheme, lineage_row list) eff \<Rightarrow> ('z env_scheme, pii_entry list) eff" where
  "assembled queryRegistry queryLineage s =
     (let (r, t) = queryRegistry s; (l, u) = queryLineage t in
      (case r of Inl e \<Rightarrow> Inl e
       | Inr rows \<Rightarrow> (case l of Inl e \<Rightarrow> Inl e | Inr edges \<Rightarrow> Inr (assemblePiiRegistryEntries rows edges)), u))"

definition bq_loadEntries :: "bq_warehouse \<Rightarrow> string \<Rightarrow> string \<Rightarrow> ('z env_scheme, pii_entry list) eff" where
  "bq_loadEntries B project datasetId = assembled (bq_queryRegistry B project datasetId) (bq_queryLineage B project datasetId)"

definition lowercaseKeys :: "(string \<times> 'v) list \<Rightarrow> (string \<times> 'v) list" where
  "lowercaseKeys row = foldl (\<lambda>out (key, v). AList.update (toLowerCase key) v out) [] row"

record 'v sf_warehouse =
  sw_connect :: "exn + unit"
  sw_execute :: "string \<Rightarrow> exn + (string \<times> 'v) list list option"
  sw_registry_row :: "(string \<times> 'v) list \<Rightarrow> registry_row"
  sw_lineage_row :: "(string \<times> 'v) list \<Rightarrow> lineage_row"

text \<open>The two queries wait for one connection, whose outcome is \<open>conn\<close>.\<close>

definition sf_query :: "'v sf_warehouse \<Rightarrow> exn + unit \<Rightarrow> string \<Rightarrow> ('z env_scheme, (string \<times> 'v) list list) eff" where
  "sf_query F conn sqlText =
     (case conn of Inl e \<Rightarrow> throw e
      | Inr _ \<Rightarrow> bnd (rcall (\<lambda>_. sw_execute F sqlText)) (\<lambda>rows.
          ret (map lowercaseKeys (case rows of None \<Rightarrow> [] | Some rs \<Rightarrow> rs))))"

definition sf_queryRegistry :: "'v sf_warehouse \<Rightarrow> exn + unit \<Rightarrow> string \<Rightarrow> string \<Rightarrow> ('z env_scheme, registry_row list) eff" where
  "sf_queryRegistry F conn database schema =
     bnd (sf_query F conn (database @ ''.'' @ schema @ ''.pii_registry'')) (\<lambda>rows. ret (map (sw_registry_row F) rows))"

definition sf_queryLineage :: "'v sf_warehouse \<Rightarrow> exn + unit \<Rightarrow> string \<Rightarrow> string \<Rightarrow> ('z env_scheme, lineage_row list) eff" where
  "sf_queryLineage F conn database schema =
     catch (bnd (sf_query F conn (database @ ''.'' @ schema @ ''.pii_field_lineage'')) (\<lambda>rows. ret (map (sw_lineage_row F) rows)))
       (\<lambda>_. ret [])"

definition sf_loadEntries :: "'v sf_warehouse \<Rightarrow> string \<Rightarrow> string \<Rightarrow> ('z env_scheme, pii_entry list) eff" where
  "sf_loadEntries F database schema s =
     (let (conn, t) = rcall (\<lambda>_. sw_connect F) s in
      assembled (sf_queryRegistry F conn database schema) (sf_queryLineage F conn database schema) t)"

section \<open>The bundled entries\<close>

definition seed_field ::
  "string \<Rightarrow> pii_classification \<Rightarrow> pii_handling \<Rightarrow> bool \<Rightarrow> string list option \<Rightarrow> string option \<Rightarrow> pii_field" where
  "seed_field name cl h inMart evidence surrogate =
     \<lparr>pf_name = name, pf_classification = cl, pf_handling = h, pf_requiredInMart = inMart, pf_evidence = evidence,
      pf_confidence = Some DECLARED, pf_surrogateId = surrogate\<rparr>"

definition seed_raw_users :: pii_entry where
  "seed_raw_users = platform_entry ''2026-06-21'' ''bigquery:your-gcp-project-id.chameleon_prod.raw_users'' Bigquery (Some RAW) INTERNAL
     (Some ''user_id'') [seed_field ''email_token'' DIRECT_IDENTIFIER TOKENIZE False (Some [''pipeline:ingestion:tokenized-email'']) None,
       seed_field ''encrypted_pii'' SENSITIVE ENCRYPT False (Some [''pipeline:ingestion:encrypted-payload'']) None,
       seed_field ''user_id'' SYSTEM_IDENTIFIER HASH_SURROGATE False None (Some ''user_surrogate_id'')]
     ''pipelines'' ''bigquery:chameleon_prod.raw_users'' CRYPTO_SHRED
     \<lparr>gs_enabled = False, gs_scanMode = SCAN_DISABLED, gs_patterns = []\<rparr>
     ''raw_encrypted_ingestion'' [''lineage:source=key-vault,destination=bigquery:chameleon_prod.raw_users'']
     (Some ''Internal raw landing table for encrypted pipeline ingestion. dbt materializes customer-facing registry models from this source.'')"

definition seed_stg_users :: pii_entry where
  "seed_stg_users = platform_entry ''2026-06-21'' ''bigquery:your-gcp-project-id.chameleon_prod.stg_users'' Bigquery (Some STAGING) CUSTOMER_FACING
     (Some ''user_id'') [seed_field ''email'' DIRECT_IDENTIFIER ENCRYPT False (Some [''scanner:EMAIL'']) None,
       seed_field ''phone'' CONTACT ENCRYPT False (Some [''scanner:PHONE'']) None,
       seed_field ''user_id'' SYSTEM_IDENTIFIER HASH_SURROGATE False None (Some ''user_surrogate_id'')]
     ''dbt'' ''bigquery:chameleon_prod.stg_users'' CRYPTO_SHRED
     \<lparr>gs_enabled = True, gs_scanMode = SCAN_SAMPLED, gs_patterns = [''EMAIL'', ''PHONE'', ''NAME'']\<rparr>
     ''staging_encrypted_pii'' [''dbt:manifest:model.chameleon.stg_users'']
     None"

definition seed_dim_users :: pii_entry where
  "seed_dim_users = platform_entry ''2026-06-24'' ''bigquery:your-gcp-project-id.chameleon_prod.dim_users'' Bigquery (Some MART) CUSTOMER_FACING
     (Some ''user_id'') [seed_field ''user_surrogate_id'' SYSTEM_IDENTIFIER HASH_SURROGATE True None None]
     ''dbt'' ''bigquery:chameleon_prod.dim_users'' CRYPTO_SHRED
     \<lparr>gs_enabled = True, gs_scanMode = SCAN_SAMPLED, gs_patterns = [''EMAIL'', ''PHONE'', ''NAME'']\<rparr>
     ''mart_surrogate_only'' [''dbt:manifest:model.chameleon.dim_users'']
     (Some ''dbt mart - surrogate-keyed user dimension. No raw PII; email replaced by surrogate ID upstream.'')"

definition seed_int_customer_activity :: pii_entry where
  "seed_int_customer_activity = platform_entry ''2026-06-24'' ''bigquery:your-gcp-project-id.chameleon_prod.int_customer_activity'' Bigquery (Some INTERMEDIATE) CUSTOMER_FACING
     (Some ''user_id'') [seed_field ''user_id'' SYSTEM_IDENTIFIER HASH_SURROGATE True None None]
     ''dbt'' ''bigquery:chameleon_prod.int_customer_activity'' CRYPTO_SHRED
     \<lparr>gs_enabled = True, gs_scanMode = SCAN_SAMPLED, gs_patterns = [''EMAIL'', ''PHONE'']\<rparr>
     ''intermediate_surrogate_join'' [''dbt:manifest:model.chameleon.int_customer_activity'']
     (Some ''Per-user activity records with sequence numbering. Intermediate view - no raw PII.'')"

definition seed_mart_customer_metrics :: pii_entry where
  "seed_mart_customer_metrics = platform_entry ''2026-06-24'' ''bigquery:your-gcp-project-id.chameleon_prod.mart_customer_metrics'' Bigquery (Some MART) CUSTOMER_FACING
     None []
     ''dbt'' ''bigquery:chameleon_prod.mart_customer_metrics'' D_MANUAL_REVIEW
     \<lparr>gs_enabled = False, gs_scanMode = SCAN_DISABLED, gs_patterns = []\<rparr>
     ''mart_aggregate_only'' [''dbt:manifest:model.chameleon.mart_customer_metrics'']
     (Some ''Aggregate metrics by tenant and source system - no individual user rows.'')"

definition devPiiRegistry :: "pii_entry list" where
  "devPiiRegistry = [seed_raw_users, seed_stg_users, seed_dim_users, seed_int_customer_activity, seed_mart_customer_metrics]"

section \<open>The start of the vault\<close>

text \<open>The variables that \<open>main\<close> reads for this; a missing required one throws.\<close>

record 'v registry_config =
  rc_projectId :: string
  rc_useBundledSeed :: "string option"
  rc_datasetId :: "string option"
  rc_bigquery :: bq_warehouse
  rc_sf_account :: "string option"
  rc_sf_credentials :: "exn + unit"
  rc_sf_database :: "exn + string"
  rc_sf_schema :: "exn + string"
  rc_snowflake :: "'v sf_warehouse"

definition connectorSeed :: "'v registry_config \<Rightarrow> pii_entry list" where
  "connectorSeed C = (if rc_useBundledSeed C = Some ''true'' then devPiiRegistry else [])"

definition bq_slice :: "'v registry_config \<Rightarrow> ('z env_scheme, pii_entry list) eff" where
  "bq_slice C =
     (if truthy (rc_datasetId C)
      then catch (bq_loadEntries (rc_bigquery C) (rc_projectId C) (the (rc_datasetId C))) (\<lambda>_. ret [])
      else ret [])"

definition sf_slice :: "'v registry_config \<Rightarrow> ('z env_scheme, pii_entry list) eff" where
  "sf_slice C =
     (if truthy (rc_sf_account C)
      then catch
        (bnd (lift (rc_sf_credentials C)) (\<lambda>_.
         bnd (lift (rc_sf_database C)) (\<lambda>database.
         bnd (lift (rc_sf_schema C)) (\<lambda>schema.
         sf_loadEntries (rc_snowflake C) database schema))))
        (\<lambda>_. ret [])
      else ret [])"

definition start_registry :: "'v registry_config \<Rightarrow> ('z pworld_scheme, unit) eff" where
  "start_registry C =
     bnd (bq_slice C) (\<lambda>bqEntries.
     bnd (sf_slice C) (\<lambda>sfEntries.
     bnd (catch loadAll (\<lambda>_. ret [])) (\<lambda>manualEntries.
     modify (\<lambda>s. s\<lparr>registry := newRegistry (composePiiRegistry (connectorSeed C) (bqEntries @ sfEntries) manualEntries)\<rparr>))))"

section \<open>Grouping is filtering\<close>

lemma uniq_snoc: "uniq (xs @ [x]) = (if x \<in> set xs then uniq xs else uniq xs @ [x])"
  by (simp add: uniq_def)

lemma map_of_tabulate: "map_of (map (\<lambda>k. (k, f k)) ks) j = (if j \<in> set ks then Some (f j) else None)"
  by (induction ks) auto

lemma group_rows_eq: "group_rows key rows = map (\<lambda>k. (k, filter (\<lambda>r. key r = k) rows)) (uniq (map key rows))"
proof (induction rows rule: rev_induct)
  case Nil
  then show ?case by (simp add: group_rows_def uniq_def)
next
  case (snoc r rows)
  let ?g = "\<lambda>rs ks. map (\<lambda>k. (k, filter (\<lambda>r. key r = k) rs)) ks"
  let ?ks = "uniq (map key rows)"
  have step: "group_rows key (rows @ [r]) = push_row key (?g rows ?ks) r"
    using snoc by (simp add: group_rows_def)
  have mo: "map_of (?g rows ?ks) (key r) = (if key r \<in> set (map key rows) then Some (filter (\<lambda>x. key x = key r) rows) else None)"
    by (simp add: map_of_tabulate)
  have upd: "AList.update j v (?g rows ks) = map (\<lambda>k. (k, if k = j then v else filter (\<lambda>x. key x = k) rows)) ks @ (if j \<in> set ks then [] else [(j, v)])"
    if "distinct ks" for j v and ks :: "string list"
    using that by (induction ks) auto
  have add: "filter (\<lambda>x. key x = k) (rows @ [r]) = (if k = key r then filter (\<lambda>x. key x = k) rows @ [r] else filter (\<lambda>x. key x = k) rows)" for k
    by simp
  show ?case
  proof (cases "key r \<in> set (map key rows)")
    case True
    then show ?thesis
      unfolding step push_row_def mo using upd[of ?ks "key r" "filter (\<lambda>x. key x = key r) rows @ [r]"]
      by (auto simp: uniq_snoc)
  next
    case False
    then have "filter (\<lambda>x. key x = key r) rows = []" by (simp add: filter_empty_conv) (metis imageI)
    then show ?thesis
      unfolding step push_row_def mo using False upd[of ?ks "key r" "[r]"]
      by (auto simp: uniq_snoc)
  qed
qed

lemma map_of_group: "map_of (group_rows key rows) k = (let rs = filter (\<lambda>r. key r = k) rows in if rs = [] then None else Some rs)"
  by (auto simp: group_rows_eq map_of_tabulate filter_empty_conv Let_def image_iff)

lemma assembly_filters:
  "assemblePiiRegistryEntries rows edges =
     map (\<lambda>i. toEntry i (filter (\<lambda>r. rg_resource_id r = i) rows) (filter (\<lambda>l. lw_source_resource_id l = i) edges))
       (uniq (map rg_resource_id rows))"
proof (cases "rows = []")
  case True
  then show ?thesis by (simp add: assemblePiiRegistryEntries_def uniq_def)
next
  case False
  have edges: "(case map_of (group_rows lw_source_resource_id edges) i of None \<Rightarrow> [] | Some es \<Rightarrow> es) =
      filter (\<lambda>l. lw_source_resource_id l = i) edges" for i
    by (simp add: map_of_group Let_def)
  show ?thesis using False
    unfolding assemblePiiRegistryEntries_def Let_def by (simp add: group_rows_eq[of rg_resource_id] edges comp_def)
qed

text \<open>
  C31. The two maps that group the rows of dbt do what one would specify: there is one entry for each resource of the rows,
  in the order in which the resources first appear, made from exactly the rows and the lineage edges of that resource,
  in their order.
\<close>

theorem assembled_by_resource:
  "assemblePiiRegistryEntries rows edges =
     map (\<lambda>i. toEntry i (filter (\<lambda>r. rg_resource_id r = i) rows) (filter (\<lambda>l. lw_source_resource_id l = i) edges))
       (uniq (map rg_resource_id rows))"
  by (rule assembly_filters)

section \<open>What is served\<close>

lemma newRegistry_lookup:
  "map_of (newRegistry es) k = find (\<lambda>e. keyOf (pe_tenantId e) (pe_resourceId e) = k) (rev es)"
proof (induction es rule: rev_induct)
  case Nil
  then show ?case by (simp add: newRegistry_def)
next
  case (snoc e es)
  then show ?case by (auto simp: newRegistry_def update_conv')
qed

lemma toEntry_fields: "pe_tenantId (toEntry i rs ls) = None" "pe_resourceId (toEntry i rs ls) = i"
  by (simp_all add: toEntry_def platform_entry_def Let_def)

definition dbt_made :: "pii_entry list \<Rightarrow> bool" where
  "dbt_made es \<longleftrightarrow> (\<exists>rows edges. es = assemblePiiRegistryEntries rows edges)"

lemma dbt_made_global: "dbt_made es \<Longrightarrow> e \<in> set es \<Longrightarrow> pe_tenantId e = None"
  by (auto simp: dbt_made_def assembly_filters toEntry_fields)

text \<open>
  What the tables of a warehouse say: the entries of the rows that the registry table answers with, traced by the edges of
  the lineage table when that one is read (\<open>edges\<close>), nothing when the source is off, not configured, or answers with an error.
\<close>

definition answer_or :: "'a \<Rightarrow> exn + 'a \<Rightarrow> 'a" where
  "answer_or d r = (case r of Inl _ \<Rightarrow> d | Inr x \<Rightarrow> x)"

definition bq_says :: "'v registry_config \<Rightarrow> bool \<Rightarrow> pii_entry list" where
  "bq_says C edges =
     (if truthy (rc_datasetId C) then
        (case bw_registry (rc_bigquery C) (''`'' @ rc_projectId C @ ''.'' @ the (rc_datasetId C) @ ''.pii_registry`'') of
           Inl _ \<Rightarrow> []
         | Inr rows \<Rightarrow> assemblePiiRegistryEntries rows
             (if edges
              then answer_or [] (bw_lineage (rc_bigquery C) (''`'' @ rc_projectId C @ ''.'' @ the (rc_datasetId C) @ ''.pii_field_lineage`''))
              else []))
      else [])"

definition sf_table :: "'v sf_warehouse \<Rightarrow> string \<Rightarrow> exn + (string \<times> 'v) list list" where
  "sf_table F t = (case sw_execute F t of Inl e \<Rightarrow> Inl e | Inr None \<Rightarrow> Inr [] | Inr (Some rows) \<Rightarrow> Inr (map lowercaseKeys rows))"

definition sf_says :: "'v registry_config \<Rightarrow> bool \<Rightarrow> pii_entry list" where
  "sf_says C edges =
     (let F = rc_snowflake C in
      if \<not> truthy (rc_sf_account C) then []
      else (case (rc_sf_credentials C, rc_sf_database C, rc_sf_schema C, sw_connect F) of
          (Inr _, Inr d, Inr h, Inr _) \<Rightarrow>
            (case sf_table F (d @ ''.'' @ h @ ''.pii_registry'') of
               Inl _ \<Rightarrow> []
             | Inr rows \<Rightarrow> assemblePiiRegistryEntries (map (sw_registry_row F) rows)
                 (if edges then map (sw_lineage_row F) (answer_or [] (sf_table F (d @ ''.'' @ h @ ''.pii_field_lineage''))) else []))
        | _ \<Rightarrow> []))"

lemma dbt_made_Nil: "dbt_made []"
  by (auto simp: dbt_made_def assemblePiiRegistryEntries_def intro!: exI[of _ "[]"])

lemma dbt_made_says: "dbt_made (bq_says C e)" "dbt_made (sf_says C e)"
  using dbt_made_Nil by (auto simp: bq_says_def sf_says_def Let_def dbt_made_def split: sum.splits prod.splits)

lemma rcall_const:
  obtains r t where "rcall (\<lambda>_. x) s = (r, t)" and "r = x \<or> r = Inl IoErr" and "outcomes s = [] \<Longrightarrow> r = x \<and> t = s"
proof -
  obtain r t where r: "rcall (\<lambda>_. x) s = (r, t)" by fastforce
  show thesis
    by (rule that[OF r]) (use r in \<open>auto simp: rcall_def rtxn_def no_faults split: prod.splits outcome.splits sum.splits\<close>)
qed

text \<open>The two queries run; the entries are there when the first has an answer, with the edges when the second has.\<close>

lemma assembled_runs:
  assumes q: "q s = (rq, t)" "rq = R \<or> isl rq" and l: "l t = (Inr rl, u)" "rl = E \<or> rl = []"
  shows "\<exists>r. assembled q l s = (r, u) \<and>
    (isl r \<or> (\<exists>rows. R = Inr rows \<and> (r = Inr (assemblePiiRegistryEntries rows E) \<or> r = Inr (assemblePiiRegistryEntries rows [])))) \<and>
    (rq = R \<and> rl = E \<longrightarrow> r = (case R of Inl e \<Rightarrow> Inl e | Inr rows \<Rightarrow> Inr (assemblePiiRegistryEntries rows E)))"
  using assms by (cases rq) (auto simp: assembled_def split: sum.splits)

lemma bq_slice_says:
  "\<exists>es t. bq_slice C s = (Inr es, t) \<and> es \<in> {[], bq_says C True, bq_says C False} \<and>
     (outcomes s = [] \<longrightarrow> es = bq_says C True \<and> t = s)"
proof (cases "truthy (rc_datasetId C)")
  case True
  let ?q = "bq_queryRegistry (rc_bigquery C) (rc_projectId C) (the (rc_datasetId C))"
    and ?l = "bq_queryLineage (rc_bigquery C) (rc_projectId C) (the (rc_datasetId C))"
  define R where "R = bw_registry (rc_bigquery C) (''`'' @ rc_projectId C @ ''.'' @ the (rc_datasetId C) @ ''.pii_registry`'')"
  define E where "E = bw_lineage (rc_bigquery C) (''`'' @ rc_projectId C @ ''.'' @ the (rc_datasetId C) @ ''.pii_field_lineage`'')"
  have says: "bq_says C e = (case R of Inl _ \<Rightarrow> [] | Inr rows \<Rightarrow> assemblePiiRegistryEntries rows (if e then answer_or [] E else []))" for e
    by (simp only: bq_says_def R_def E_def True if_True)
  have qd: "?q = rcall (\<lambda>_. R)" and ld: "?l = catch (rcall (\<lambda>_. E)) (\<lambda>_. ret [])"
    by (simp_all add: bq_queryRegistry_def bq_queryLineage_def R_def E_def)
  obtain rq t where q: "?q s = (rq, t)" "rq = R \<or> rq = Inl IoErr" "outcomes s = [] \<Longrightarrow> rq = R \<and> t = s"
    unfolding qd by (rule rcall_const[of R s]) blast
  obtain x u where x: "rcall (\<lambda>_. E) t = (x, u)" "x = E \<or> x = Inl IoErr" "outcomes t = [] \<Longrightarrow> x = E \<and> u = t"
    by (rule rcall_const[of E t]) blast
  have l: "?l t = (Inr (answer_or [] x), u)"
    using x(1) by (cases x) (simp_all add: ld catch_apply answer_or_def)
  have e: "answer_or [] x = answer_or [] E \<or> answer_or [] x = []" using x(2) by (auto simp: answer_or_def)
  have "rq = R \<or> isl rq" using q(2) by auto
  from assembled_runs[where q = ?q and l = ?l, OF q(1) this l e] obtain r where
    r: "assembled ?q ?l s = (r, u)"
    "isl r \<or> (\<exists>rows. R = Inr rows \<and> (r = Inr (assemblePiiRegistryEntries rows (answer_or [] E)) \<or> r = Inr (assemblePiiRegistryEntries rows [])))"
    "rq = R \<and> answer_or [] x = answer_or [] E \<longrightarrow> r = (case R of Inl e \<Rightarrow> Inl e | Inr rows \<Rightarrow> Inr (assemblePiiRegistryEntries rows (answer_or [] E)))"
    by blast
  have run: "bq_slice C s = (Inr (answer_or [] r), u)"
    using True r(1) by (cases r) (simp_all add: bq_slice_def bq_loadEntries_def catch_apply answer_or_def)
  have "answer_or [] r \<in> {[], bq_says C True, bq_says C False}"
    using r(2) by (cases r) (auto simp: says answer_or_def[of _ "Inr z" for z] answer_or_def[of _ "Inl z" for z])
  moreover have "answer_or [] r = bq_says C True \<and> u = s" if "outcomes s = []"
    using r(3) q(3)[OF that] x(3) that by (cases R) (simp_all add: says answer_or_def[of _ "Inr z" for z] answer_or_def[of _ "Inl z" for z])
  ultimately show ?thesis using run by blast
qed (simp add: bq_slice_def bq_says_def)

lemma sf_query_runs:
  obtains r t where "sf_query F (Inr c) tab s = (r, t)" and "r = sf_table F tab \<or> r = Inl IoErr"
    and "outcomes s = [] \<Longrightarrow> r = sf_table F tab \<and> t = s"
proof -
  obtain x t where x: "rcall (\<lambda>_. sw_execute F tab) s = (x, t)" "x = sw_execute F tab \<or> x = Inl IoErr"
    "outcomes s = [] \<Longrightarrow> x = sw_execute F tab \<and> t = s"
    by (rule rcall_const[of "sw_execute F tab" s]) blast
  show thesis
    by (rule that[of "case x of Inl e \<Rightarrow> Inl e | Inr None \<Rightarrow> Inr [] | Inr (Some rows) \<Rightarrow> Inr (map lowercaseKeys rows)" t])
      (use x in \<open>auto simp: sf_query_def bnd_apply sf_table_def split: sum.splits option.splits\<close>)
qed

lemma sf_load_says:
  fixes F :: "'v sf_warehouse"
  defines "R \<equiv> \<lambda>d h. sf_table F (d @ ''.'' @ h @ ''.pii_registry'')" and "E \<equiv> \<lambda>d h. sf_table F (d @ ''.'' @ h @ ''.pii_field_lineage'')"
  shows "\<exists>r t. sf_loadEntries F d h s = (r, t) \<and>
    (isl r \<or> (\<exists>c rows. sw_connect F = Inr c \<and> R d h = Inr rows \<and>
       (r = Inr (assemblePiiRegistryEntries (map (sw_registry_row F) rows) (map (sw_lineage_row F) (answer_or [] (E d h)))) \<or>
        r = Inr (assemblePiiRegistryEntries (map (sw_registry_row F) rows) [])))) \<and>
    (outcomes s = [] \<longrightarrow> t = s \<and> answer_or [] r = (case (sw_connect F, R d h) of
       (Inr _, Inr rows) \<Rightarrow> assemblePiiRegistryEntries (map (sw_registry_row F) rows) (map (sw_lineage_row F) (answer_or [] (E d h)))
     | _ \<Rightarrow> []))"
proof -
  obtain conn s1 where c: "rcall (\<lambda>_. sw_connect F) s = (conn, s1)" "conn = sw_connect F \<or> conn = Inl IoErr"
    "outcomes s = [] \<Longrightarrow> conn = sw_connect F \<and> s1 = s"
    by (rule rcall_const[of "sw_connect F" s]) blast
  show ?thesis
  proof (cases conn)
    case (Inl e)
    then have "sf_loadEntries F d h s = (Inl e, s1)"
      using c(1) by (simp add: sf_loadEntries_def assembled_def sf_queryRegistry_def sf_queryLineage_def sf_query_def bnd_apply catch_apply)
    moreover have "outcomes s = [] \<Longrightarrow> sw_connect F = Inl e \<and> s1 = s" using c(3) Inl by simp
    ultimately show ?thesis by (simp add: answer_or_def)
  next
    case (Inr k)
    then have k: "sw_connect F = Inr k" using c(2) by auto
    obtain x t where x: "sf_query F (Inr k) (d @ ''.'' @ h @ ''.pii_registry'') s1 = (x, t)" "x = R d h \<or> x = Inl IoErr"
      "outcomes s1 = [] \<Longrightarrow> x = R d h \<and> t = s1"
      unfolding R_def by (rule sf_query_runs[of F k "d @ ''.'' @ h @ ''.pii_registry''" s1]) blast
    obtain y u where y: "sf_query F (Inr k) (d @ ''.'' @ h @ ''.pii_field_lineage'') t = (y, u)" "y = E d h \<or> y = Inl IoErr"
      "outcomes t = [] \<Longrightarrow> y = E d h \<and> u = t"
      unfolding E_def by (rule sf_query_runs[of F k "d @ ''.'' @ h @ ''.pii_field_lineage''" t]) blast
    have q: "sf_queryRegistry F conn d h s1 = (map_sum id (map (sw_registry_row F)) x, t)"
      using x(1) Inr by (cases x) (simp_all add: sf_queryRegistry_def bnd_apply)
    have l: "sf_queryLineage F conn d h t = (Inr (map (sw_lineage_row F) (answer_or [] y)), u)"
      using y(1) Inr by (cases y) (simp_all add: sf_queryLineage_def bnd_apply catch_apply answer_or_def)
    have load: "sf_loadEntries F d h s = ((case x of Inl e \<Rightarrow> Inl e | Inr rows \<Rightarrow>
        Inr (assemblePiiRegistryEntries (map (sw_registry_row F) rows) (map (sw_lineage_row F) (answer_or [] y)))), u)"
      using q l by (cases x) (simp_all add: sf_loadEntries_def c(1) assembled_def)
    have e: "answer_or [] y = answer_or [] (E d h) \<or> answer_or [] y = []" using y(2) by (auto simp: answer_or_def)
    show ?thesis
    proof (cases x)
      case (Inl err)
      then show ?thesis using load c(3) x(3) y(3) k by (auto simp: answer_or_def split: sum.splits)
    next
      case (Inr rows)
      then have "R d h = Inr rows" using x(2) by auto
      then show ?thesis using load c(3) y(3) x(3) k Inr e by (auto simp: answer_or_def[of _ "Inr z" for z])
    qed
  qed
qed

lemma sf_slice_says:
  "\<exists>es t. sf_slice C s = (Inr es, t) \<and> es \<in> {[], sf_says C True, sf_says C False} \<and>
     (outcomes s = [] \<longrightarrow> es = sf_says C True \<and> t = s)"
proof (cases "truthy (rc_sf_account C)")
  case True
  note acc = this
  show ?thesis
  proof (cases "\<exists>a d h. rc_sf_credentials C = Inr a \<and> rc_sf_database C = Inr d \<and> rc_sf_schema C = Inr h")
    case False
    then have "sf_slice C s = (Inr [], s)" "sf_says C e = []" for e
      using acc by (cases "rc_sf_credentials C"; cases "rc_sf_database C"; cases "rc_sf_schema C";
          simp add: sf_slice_def sf_says_def catch_apply bnd_apply Let_def)+
    then show ?thesis by simp
  next
    case True
    then obtain a d h where conf: "rc_sf_credentials C = Inr a" "rc_sf_database C = Inr d" "rc_sf_schema C = Inr h" by blast
    let ?F = "rc_snowflake C"
    obtain r t where r: "sf_loadEntries ?F d h s = (r, t)"
      "isl r \<or> (\<exists>c rows. sw_connect ?F = Inr c \<and> sf_table ?F (d @ ''.'' @ h @ ''.pii_registry'') = Inr rows \<and>
       (r = Inr (assemblePiiRegistryEntries (map (sw_registry_row ?F) rows) (map (sw_lineage_row ?F) (answer_or [] (sf_table ?F (d @ ''.'' @ h @ ''.pii_field_lineage''))))) \<or>
        r = Inr (assemblePiiRegistryEntries (map (sw_registry_row ?F) rows) [])))"
      "outcomes s = [] \<longrightarrow> t = s \<and> answer_or [] r = (case (sw_connect ?F, sf_table ?F (d @ ''.'' @ h @ ''.pii_registry'')) of
       (Inr _, Inr rows) \<Rightarrow> assemblePiiRegistryEntries (map (sw_registry_row ?F) rows) (map (sw_lineage_row ?F) (answer_or [] (sf_table ?F (d @ ''.'' @ h @ ''.pii_field_lineage''))))
     | _ \<Rightarrow> [])"
      using sf_load_says[of ?F d h s] by blast
    have run: "sf_slice C s = (Inr (answer_or [] r), t)"
      using acc conf r(1) by (auto simp: sf_slice_def catch_apply bnd_apply answer_or_def split: sum.splits)
    have "answer_or [] r \<in> {[], sf_says C True, sf_says C False}"
      using r(2) acc conf by (auto simp: sf_says_def Let_def answer_or_def[of _ "Inr z" for z] answer_or_def[of _ r] isl_def)
    moreover have "answer_or [] r = sf_says C True \<and> t = s" if "outcomes s = []"
      using r(3) that acc conf by (auto simp: sf_says_def Let_def split: sum.splits)
    ultimately show ?thesis using run by blast
  qed
qed (simp add: sf_slice_def sf_says_def)

lemma find_append: "find P (xs @ ys) = (case find P xs of None \<Rightarrow> find P ys | Some x \<Rightarrow> Some x)"
  by (induction xs) auto

lemma find_filter: "find P (filter Q xs) = find (\<lambda>x. P x \<and> Q x) xs"
  by (induction xs) auto

lemma find_None_iff_all: "(\<And>x. x \<in> set xs \<Longrightarrow> \<not> P x) \<Longrightarrow> find P xs = None"
  by (simp add: find_None_iff)

lemma seed_global: "e \<in> set devPiiRegistry \<Longrightarrow> pe_tenantId e = None"
  by (auto simp: devPiiRegistry_def seed_raw_users_def seed_stg_users_def seed_dim_users_def seed_int_customer_activity_def
      seed_mart_customer_metrics_def platform_entry_def)

text \<open>The lookup in a composed registry whose platform slices are global.\<close>

lemma composed_lookup:
  assumes seed: "\<forall>e \<in> set seed. pe_tenantId e = None" and dbt: "\<forall>e \<in> set dbt. pe_tenantId e = None"
    and man: "\<forall>e \<in> set man. pe_tenantId e \<noteq> None \<and> safe_tenant (pe_tenantId e)" and t: "safe_tenant (Some t)"
  shows "getEntry (newRegistry (composePiiRegistry seed dbt man)) r (Some t) =
    (case find (\<lambda>e. pe_tenantId e = Some t \<and> pe_resourceId e = r) (rev man) of Some e \<Rightarrow> Some e
     | None \<Rightarrow> (case find (\<lambda>e. pe_resourceId e = r) (rev dbt) of Some e \<Rightarrow> Some e
        | None \<Rightarrow> find (\<lambda>e. pe_resourceId e = r \<and> (dbt = [] \<or> pe_ownerConnector e \<noteq> ''dbt'')) (rev seed)))"
proof -
  define plat where "plat = (if dbt = [] then seed else filter (\<lambda>e. pe_ownerConnector e \<noteq> ''dbt'') seed @ dbt)"
  have comp: "composePiiRegistry seed dbt man = plat @ man"
    by (simp add: composePiiRegistry_def plat_def Let_def)
  have pt: "pe_tenantId e = None" if "e \<in> set plat" for e using that seed dbt by (auto simp: plat_def split: if_splits)
  let ?k = "\<lambda>e. keyOf (pe_tenantId e) (pe_resourceId e)"
  have g: "?k e = keyOf None q \<longleftrightarrow> pe_resourceId e = q" "?k e \<noteq> keyOf (Some t) q" if "e \<in> set plat" for e q
    using pt[OF that] keyOf_inject[of None None] keyOf_inject[of None "Some t", OF _ t] by (simp_all add: safe_tenant_def)
  have m: "?k e = keyOf (Some t) q \<longleftrightarrow> pe_tenantId e = Some t \<and> pe_resourceId e = q" "?k e \<noteq> keyOf None q" if "e \<in> set man" for e q
    using man that keyOf_inject[OF _ t] keyOf_inject[of "pe_tenantId e" None] by (auto simp: safe_tenant_def)
  have own: "map_of (newRegistry (plat @ man)) (keyOf (Some t) r) = find (\<lambda>e. pe_tenantId e = Some t \<and> pe_resourceId e = r) (rev man)"
  proof -
    have "find (\<lambda>e. ?k e = keyOf (Some t) r) (rev plat) = None" using g(2) by (intro find_None_iff_all) simp
    moreover have "find (\<lambda>e. ?k e = keyOf (Some t) r) (rev man) = find (\<lambda>e. pe_tenantId e = Some t \<and> pe_resourceId e = r) (rev man)"
      using m(1) by (intro find_cong) auto
    ultimately show ?thesis by (simp add: newRegistry_lookup find_append split: option.split)
  qed
  have "find (\<lambda>e. ?k e = keyOf None r) (rev man) = None" using m(2) by (intro find_None_iff_all) simp
  moreover have "find (\<lambda>e. ?k e = keyOf None r) (rev plat) = find (\<lambda>e. pe_resourceId e = r) (rev plat)"
    using g(1) by (intro find_cong) auto
  ultimately have glob: "map_of (newRegistry (plat @ man)) (keyOf None r) = find (\<lambda>e. pe_resourceId e = r) (rev plat)"
    by (simp add: newRegistry_lookup find_append)
  have "find (\<lambda>e. pe_resourceId e = r) (rev plat) = (case find (\<lambda>e. pe_resourceId e = r) (rev dbt) of Some e \<Rightarrow> Some e
        | None \<Rightarrow> find (\<lambda>e. pe_resourceId e = r \<and> (dbt = [] \<or> pe_ownerConnector e \<noteq> ''dbt'')) (rev seed))"
    by (auto simp: plat_def find_append rev_filter find_filter split: option.split)
  then show ?thesis by (simp add: getEntry_def comp own glob split: option.split)
qed

lemma keeps_assembled [keeps_intros]: "keeps P q \<Longrightarrow> keeps P l \<Longrightarrow> keeps P (assembled q l)"
  by (auto simp: keeps_def assembled_def Let_def split: prod.splits)

text \<open>A property that remote calls keep.\<close>

definition quiet :: "('z env_scheme \<Rightarrow> bool) \<Rightarrow> bool" where
  "quiet P \<longleftrightarrow> (\<forall>s. P s \<longrightarrow> P (snd (next_call s)))"

lemma keeps_quiet_rcall: "quiet P \<Longrightarrow> keeps P (rcall f)"
proof (rule keepsI)
  fix s assume "quiet P" and "P s"
  moreover have "snd (rcall f s) = snd (next_call s)"
    by (auto simp: rcall_def rtxn_def split: prod.splits outcome.splits sum.splits)
  ultimately show "P (snd (rcall f s))" by (simp add: quiet_def)
qed

lemma quiet_timeless: "timeless P \<Longrightarrow> quiet P"
  by (simp add: quiet_def next_call_timeless)

lemma quiet_faultless: "quiet (\<lambda>s. outcomes s = [])"
  by (simp add: quiet_def)

lemma keeps_slices:
  fixes P :: "'z env_scheme \<Rightarrow> bool"
  assumes "quiet P"
  shows "keeps P (bq_slice C)" and "keeps P (sf_slice C)"
proof -
  show "keeps P (bq_slice C)"
    unfolding bq_slice_def bq_loadEntries_def bq_queryRegistry_def bq_queryLineage_def
    by (intro keeps_if keeps_catch keeps_assembled keeps_quiet_rcall keeps_ret assms)
  have q: "keeps P (sf_query (rc_snowflake C) conn x)" for conn x
    unfolding sf_query_def by (intro keeps_sum keeps_bnd keeps_quiet_rcall keeps_ret keeps_throw assms)
  have a: "keeps P (assembled (sf_queryRegistry (rc_snowflake C) conn d h) (sf_queryLineage (rc_snowflake C) conn d h))" for conn d h
    unfolding sf_queryRegistry_def sf_queryLineage_def by (intro keeps_assembled keeps_catch keeps_bnd q keeps_ret)
  have "keeps P (sf_loadEntries (rc_snowflake C) d h)" for d h
  proof (rule keepsI)
    fix s assume "P s"
    obtain conn t where c: "rcall (\<lambda>_. sw_connect (rc_snowflake C)) s = (conn, t)" by fastforce
    have "P t" using keepsE[OF keeps_quiet_rcall[OF assms] \<open>P s\<close> c] .
    then show "P (snd (sf_loadEntries (rc_snowflake C) d h s))" using keepsD[OF a] by (simp add: sf_loadEntries_def c)
  qed
  then show "keeps P (sf_slice C)"
    unfolding sf_slice_def by (intro keeps_if keeps_catch keeps_bnd keeps_lift keeps_ret)
qed

lemma start_run:
  fixes s :: "'z pworld_scheme"
  obtains bq sf man s3 where
    "start_registry C s = (Inr (), s3\<lparr>registry := newRegistry (composePiiRegistry (connectorSeed C) (bq @ sf) man)\<rparr>)"
    and "bq \<in> {[], bq_says C True, bq_says C False}" and "sf \<in> {[], sf_says C True, sf_says C False}"
    and "man \<in> {[], map snd (decl_docs s)}" and "decl_docs s3 = decl_docs s"
    and "outcomes s = [] \<longrightarrow> bq = bq_says C True \<and> sf = sf_says C True \<and> man = map snd (decl_docs s)"
proof -
  have docs_kept: "keeps (\<lambda>x. decl_docs x = decl_docs s) (bq_slice C)" "keeps (\<lambda>x. decl_docs x = decl_docs s) (sf_slice C)"
    by (rule keeps_slices, rule quiet_timeless, rule timelessI, simp)+
  obtain bq s1 where bq: "bq_slice C s = (Inr bq, s1)" "bq \<in> {[], bq_says C True, bq_says C False}"
    "outcomes s = [] \<longrightarrow> bq = bq_says C True \<and> s1 = s"
    using bq_slice_says by blast
  obtain sf s2 where sf: "sf_slice C s1 = (Inr sf, s2)" "sf \<in> {[], sf_says C True, sf_says C False}"
    "outcomes s1 = [] \<longrightarrow> sf = sf_says C True \<and> s2 = s1"
    using sf_slice_says by blast
  have d2: "decl_docs s2 = decl_docs s"
    using keepsE[OF docs_kept(2) _ sf(1)] keepsE[OF docs_kept(1) refl bq(1)] by simp
  obtain man s3 where man: "catch loadAll (\<lambda>_. ret []) s2 = (Inr man, s3)" "man \<in> {[], map snd (decl_docs s)}" "decl_docs s3 = decl_docs s"
    "outcomes s = [] \<longrightarrow> man = map snd (decl_docs s)"
  proof -
    obtain oc w where n: "next_call s2 = (oc, w)" by fastforce
    then have "decl_docs w = decl_docs s2" by (auto simp: next_call_def split: list.splits)
    moreover have "outcomes s = [] \<longrightarrow> oc = Ok" using bq(3) sf(3) n by auto
    ultimately show ?thesis using that n d2 by (cases oc) (auto simp: loadAll_def catch_apply rread_def)
  qed
  have run: "start_registry C s = (Inr (), s3\<lparr>registry := newRegistry (composePiiRegistry (connectorSeed C) (bq @ sf) man)\<rparr>)"
    by (simp add: start_registry_def bnd_apply bq(1) sf(1) man(1))
  have "outcomes s = [] \<longrightarrow> bq = bq_says C True \<and> sf = sf_says C True \<and> man = map snd (decl_docs s)"
    using bq(3) sf(3) man(4) by simp
  from that[OF run bq(2) sf(2) man(2,3) this] show thesis .
qed

lemma says_made: "es \<in> {[], bq_says C True, bq_says C False} \<Longrightarrow> dbt_made es" "es \<in> {[], sf_says C True, sf_says C False} \<Longrightarrow> dbt_made es"
  using dbt_made_Nil dbt_made_says by blast+

lemma seed_slice_global: "\<forall>e \<in> set (connectorSeed C). pe_tenantId e = None"
  by (auto simp: connectorSeed_def dest: seed_global split: if_splits)

lemma dbt_slices_global: "dbt_made bq \<Longrightarrow> dbt_made sf \<Longrightarrow> \<forall>e \<in> set (bq @ sf). pe_tenantId e = None"
  by (auto dest: dbt_made_global)

text \<open>
  C29. Starting the vault never fails because of the registry, and what it serves afterwards is determined by who owns what:
  a tenant sees its own declaration of a resource if it was loaded; otherwise the entry that Snowflake's tables say,
  otherwise the one that BigQuery's say; otherwise the bundled entry, unless that one is dbt's and the tables had
  anything to say. When no call fails, both warehouses count with all their tables say and all declarations are
  loaded; a call that fails takes away a warehouse, its lineage edges, or the declarations, never adds or mixes entries.
\<close>

theorem start_registry_serves:
  fixes s :: "'z pworld_scheme"
  assumes docs: "\<forall>e \<in> snd ` set (decl_docs s). pe_tenantId e \<noteq> None \<and> safe_tenant (pe_tenantId e)" and t: "safe_tenant (Some t)"
  shows "\<exists>bq sf man s'. start_registry C s = (Inr (), s') \<and> decl_docs s' = decl_docs s \<and>
    bq \<in> {[], bq_says C True, bq_says C False} \<and> sf \<in> {[], sf_says C True, sf_says C False} \<and> man \<in> {[], map snd (decl_docs s)} \<and>
    (outcomes s = [] \<longrightarrow> bq = bq_says C True \<and> sf = sf_says C True \<and> man = map snd (decl_docs s)) \<and>
    getEntry (registry s') r (Some t) =
      (case find (\<lambda>e. pe_tenantId e = Some t \<and> pe_resourceId e = r) (rev man) of Some e \<Rightarrow> Some e
       | None \<Rightarrow> (case find (\<lambda>e. pe_resourceId e = r) (rev sf) of Some e \<Rightarrow> Some e
       | None \<Rightarrow> (case find (\<lambda>e. pe_resourceId e = r) (rev bq) of Some e \<Rightarrow> Some e
       | None \<Rightarrow> find (\<lambda>e. pe_resourceId e = r \<and> (bq @ sf = [] \<or> pe_ownerConnector e \<noteq> ''dbt'')) (rev (connectorSeed C)))))"
proof -
  obtain bq sf man s3 where
    run: "start_registry C s = (Inr (), s3\<lparr>registry := newRegistry (composePiiRegistry (connectorSeed C) (bq @ sf) man)\<rparr>)"
    and slices: "bq \<in> {[], bq_says C True, bq_says C False}" "sf \<in> {[], sf_says C True, sf_says C False}"
    and man: "man \<in> {[], map snd (decl_docs s)}" "decl_docs s3 = decl_docs s"
    and calm: "outcomes s = [] \<longrightarrow> bq = bq_says C True \<and> sf = sf_says C True \<and> man = map snd (decl_docs s)"
    by (rule start_run)
  note made = says_made(2)[OF slices(2)] says_made(1)[OF slices(1)]
  let ?reg = "newRegistry (composePiiRegistry (connectorSeed C) (bq @ sf) man)"
  have mn: "pe_tenantId e \<noteq> None \<and> safe_tenant (pe_tenantId e)" if "e \<in> set man" for e
    using that man(1) docs by auto
  have find2: "find P (rev (bq @ sf)) = (case find P (rev sf) of None \<Rightarrow> find P (rev bq) | Some e \<Rightarrow> Some e)" for P
    by (simp add: find_append)
  have look: "getEntry ?reg r (Some t) = (case find (\<lambda>e. pe_tenantId e = Some t \<and> pe_resourceId e = r) (rev man) of Some e \<Rightarrow> Some e
     | None \<Rightarrow> (case find (\<lambda>e. pe_resourceId e = r) (rev (bq @ sf)) of Some e \<Rightarrow> Some e
        | None \<Rightarrow> find (\<lambda>e. pe_resourceId e = r \<and> (bq @ sf = [] \<or> pe_ownerConnector e \<noteq> ''dbt'')) (rev (connectorSeed C))))"
    by (rule composed_lookup[OF seed_slice_global dbt_slices_global[OF made(2,1)] _ t]) (use mn in blast)
  have "getEntry ?reg r (Some t) = (case find (\<lambda>e. pe_tenantId e = Some t \<and> pe_resourceId e = r) (rev man) of Some e \<Rightarrow> Some e
       | None \<Rightarrow> (case find (\<lambda>e. pe_resourceId e = r) (rev sf) of Some e \<Rightarrow> Some e
       | None \<Rightarrow> (case find (\<lambda>e. pe_resourceId e = r) (rev bq) of Some e \<Rightarrow> Some e
       | None \<Rightarrow> find (\<lambda>e. pe_resourceId e = r \<and> (bq @ sf = [] \<or> pe_ownerConnector e \<noteq> ''dbt'')) (rev (connectorSeed C)))))"
    unfolding look find2 by (simp split: option.split)
  then show ?thesis using run slices man calm by (intro exI[of _ bq] exI[of _ sf] exI[of _ man] exI[of _ "s3\<lparr>registry := ?reg\<rparr>"]) simp
qed

lemma seed_policies: "map (\<lambda>e. pv_status (evaluateEntry e)) devPiiRegistry = [PASS, PASS, PASS, PASS, WARN]"
  by code_simp

text \<open>
  The composition keeps the entries of other owners, but the service's map has room for one entry per resource: a dbt row for
  a resource of another connector replaces that connector's entry.
\<close>

lemma dbt_replaces_connector:
  assumes "pe_tenantId a = None" and "pe_tenantId d = None" and "pe_resourceId d = pe_resourceId a" and "pe_ownerConnector a \<noteq> ''dbt''"
  shows "a \<in> set (composePiiRegistry [a] [d] [])" and "getEntries (newRegistry (composePiiRegistry [a] [d] [])) = [d]"
  using assms by (simp_all add: composePiiRegistry_def newRegistry_def getEntries_def)

text \<open>A dbt entry only fails the policy for a direct identifier in a mart that is not aggregated.\<close>

lemma dbt_entry_policy:
  "breaks_policy (toEntry i rows edges) \<longleftrightarrow>
     is_mart (resource_name i) \<and> (\<exists>r \<in> set rows. rg_classification r = DIRECT_IDENTIFIER \<and> rg_handling r \<noteq> ALLOW_AGGREGATE_ONLY)"
  by (auto simp: breaks_policy_def toEntry_def platform_entry_def Let_def truthy_def dbt_field_def)

section \<open>The readers agree\<close>

lemma lower_lower: "toLowerCase (toLowerCase s) = toLowerCase s"
proof -
  have "lower_char (lower_char c) = lower_char c" for c
    by (auto simp: lower_char_def is_upper_def between_def char_code_def)
  then show ?thesis by (simp add: toLowerCase_def)
qed

lemma lowercaseKeys_lookup:
  "distinct (map (\<lambda>(k, v). toLowerCase k) row) \<Longrightarrow> lowercaseKeys row = map (\<lambda>(k, v). (toLowerCase k, v)) row"
proof (induction row rule: rev_induct)
  case Nil
  then show ?case by (simp add: lowercaseKeys_def)
next
  case (snoc c row)
  obtain k v where c: "c = (k, v)" by fastforce
  have "toLowerCase k \<notin> fst ` set (map (\<lambda>(k, v). (toLowerCase k, v)) row)" using snoc.prems c by (auto simp: image_iff)
  then show ?case using snoc c by (simp add: lowercaseKeys_def alist_update_new)
qed

section \<open>A declaration survives a restart\<close>

text \<open>Every document is stored under the identifier of its tenant and resource.\<close>

definition docs_ok :: "'z pworld_scheme \<Rightarrow> bool" where
  "docs_ok s \<longleftrightarrow> distinct (map fst (decl_docs s)) \<and>
     (\<forall>(k, e) \<in> set (decl_docs s). \<exists>t. pe_tenantId e = Some t \<and> safe_tenant (Some t) \<and> k = docId t (pe_resourceId e))"

lemma docs_ok_doc:
  "docs_ok s \<Longrightarrow> (k, e) \<in> set (decl_docs s) \<Longrightarrow>
   \<exists>t. pe_tenantId e = Some t \<and> safe_tenant (Some t) \<and> k = docId t (pe_resourceId e)"
  by (auto simp: docs_ok_def)

lemma docs_ok_put:
  assumes "docs_ok s" and "pe_tenantId e = Some t" and "safe_tenant (Some t)" and "pe_resourceId e = r"
  shows "docs_ok (put_decl t r e s)"
  using assms by (auto simp: docs_ok_def put_decl_def distinct_update dest: set_update_cases)

lemma merge_entry_key: "pe_tenantId (merge_entry e old) = pe_tenantId e" "pe_resourceId (merge_entry e old) = pe_resourceId e"
  by (simp_all add: merge_entry_def Let_def)

lemma keeps_docs_ok_upsert: "safe_tenant (pe_tenantId e) \<Longrightarrow> keeps docs_ok (repo_upsert m e :: ('z pworld_scheme, unit) eff)"
proof -
  assume t: "safe_tenant (pe_tenantId e)"
  have w: "keeps docs_ok (rwrite (\<lambda>s. put_decl u (pe_resourceId e) (merge_entry e (decl_of u (pe_resourceId e) s)) s) :: ('z pworld_scheme, unit) eff)"
    if "pe_tenantId e = Some u" for u
    using that t by (intro keeps_rwrite docs_ok_put) (simp_all add: timeless_def docs_ok_def merge_entry_key)
  have m: "keeps docs_ok (record_declaration e :: ('z pworld_scheme, unit) eff)"
    unfolding record_declaration_def insert_row_def by (intro keeps_if keeps_ret keeps_swallow keeps_rwrite) (simp_all add: timeless_def docs_ok_def)
  show ?thesis
    unfolding repo_upsert_def Let_def using w m by (auto intro!: keeps_throw keeps_bnd keeps_ret simp: truthy_def split: option.splits)
qed

lemma find_unique: "d \<in> set xs \<Longrightarrow> P d \<Longrightarrow> \<forall>e \<in> set xs. P e \<longrightarrow> e = d \<Longrightarrow> find P xs = Some d"
proof (induction xs)
  case (Cons x xs)
  show ?case
  proof (cases "P x")
    case True
    then have "x = d" using Cons.prems(3) by (meson list.set_intros(1))
    then show ?thesis using True by simp
  next
    case False
    then have "d \<in> set xs" using Cons.prems(1,2) by auto
    then show ?thesis using Cons.IH[OF _ Cons.prems(2)] Cons.prems(3) False by (metis find.simps(2) list.set_intros(2))
  qed
qed simp

lemma docs_lookup:
  assumes ok: "docs_ok s" and d: "decl_of t r s = Some d"
  shows "find (\<lambda>e. pe_tenantId e = Some t \<and> pe_resourceId e = r) (rev (map snd (decl_docs s))) = Some d"
proof -
  have mem: "(docId t r, d) \<in> set (decl_docs s)" using d by (auto simp: decl_of_def dest: map_of_SomeD)
  obtain u where "pe_tenantId d = Some u" "docId t r = docId u (pe_resourceId d)" using docs_ok_doc[OF ok mem] by blast
  then have here: "pe_tenantId d = Some t" "pe_resourceId d = r" by (simp_all add: docId_inject)
  have only: "e = d" if a: "e \<in> snd ` set (decl_docs s)" "pe_tenantId e = Some t" "pe_resourceId e = r" for e
  proof -
    obtain k where k: "(k, e) \<in> set (decl_docs s)" using a(1) by auto
    then have "k = docId t r" using docs_ok_doc[OF ok k] a(2,3) by auto
    then show ?thesis using k mem ok by (auto simp: docs_ok_def dest: eq_key_imp_eq_value)
  qed
  let ?P = "\<lambda>e. pe_tenantId e = Some t \<and> pe_resourceId e = r"
  have "d \<in> set (rev (map snd (decl_docs s)))" using mem by force
  then show ?thesis by (rule find_unique) (use here only in force)+
qed

text \<open>
  C16. What a tenant declared is what it is served after a restart: if a declaration returned, then when the vault starts
  from the documents it left and no call fails, the tenant's entry for the resource is the stored merge of the declaration,
  whatever dbt, Snowflake and the bundled entries say of that resource.
\<close>

theorem declaration_survives_restart:
  fixes s :: "'z pworld_scheme"
  assumes "docs_ok s" and "safe_tenant (Some t)" and "pe_tenantId e = Some t"
    and "upsertEntry (Some (firestore_store mirrored)) e s = (Inr v, s')" and "outcomes s' = []"
  shows "\<exists>s''. start_registry C s' = (Inr (), s'') \<and>
    getEntry (registry s'') (pe_resourceId e) (Some t) = Some (merge_entry e (decl_of t (pe_resourceId e) s))"
proof -
  have st: "decl_of t (pe_resourceId e) s' = Some (merge_entry e (decl_of t (pe_resourceId e) s))"
    using declaration_durable[OF assms(4)] assms(3) by auto
  have ok: "docs_ok s'"
  proof -
    have "keeps docs_ok (upsertEntry (Some (firestore_store mirrored)) e :: ('z pworld_scheme, pii_entry) eff)"
      unfolding upsertEntry_def firestore_store_def set_entry_def using assms(2,3)
      by (auto intro!: keeps_throw keeps_bnd keeps_ret keeps_docs_ok_upsert keeps_modify simp: docs_ok_def)
    then show ?thesis using assms(1,4) by (rule keepsE)
  qed
  obtain bq sf man s3 where
    run: "start_registry C s' = (Inr (), s3\<lparr>registry := newRegistry (composePiiRegistry (connectorSeed C) (bq @ sf) man)\<rparr>)"
    and slices: "bq \<in> {[], bq_says C True, bq_says C False}" "sf \<in> {[], sf_says C True, sf_says C False}"
    and man: "outcomes s' = [] \<longrightarrow> bq = bq_says C True \<and> sf = sf_says C True \<and> man = map snd (decl_docs s')"
    by (rule start_run)
  note made = says_made(2)[OF slices(2)] says_made(1)[OF slices(1)]
  have m: "man = map snd (decl_docs s')" using man assms(5) by simp
  have mn: "\<forall>x \<in> set man. pe_tenantId x \<noteq> None \<and> safe_tenant (pe_tenantId x)"
    using ok by (auto simp: m dest: docs_ok_doc)
  have "getEntry (newRegistry (composePiiRegistry (connectorSeed C) (bq @ sf) man)) (pe_resourceId e) (Some t) =
      Some (merge_entry e (decl_of t (pe_resourceId e) s))"
    using docs_lookup[OF ok st] by (subst composed_lookup[OF seed_slice_global dbt_slices_global[OF made(2,1)] mn assms(2)]) (simp add: m)
  then show ?thesis using run by (intro exI[of _ "s3\<lparr>registry := newRegistry (composePiiRegistry (connectorSeed C) (bq @ sf) man)\<rparr>"]) simp
qed

section \<open>Starting at a concrete input\<close>

definition toy_dbt_row :: "string \<Rightarrow> string \<Rightarrow> registry_row" where
  "toy_dbt_row resourceId f =
     \<lparr>rg_resource_id = resourceId, rg_model_name = ''m'', rg_system = None, rg_resource_layer = Some ''STAGING'', rg_owner = None,
      rg_field_name = f, rg_classification = CONTACT, rg_handling = ENCRYPT, rg_confidence = INFERRED_HIGH,
      rg_detection_method = ''name'', rg_required_in_mart = False, rg_registry_version = ''1''\<rparr>"

definition toy_config :: "unit registry_config" where
  "toy_config = \<lparr>rc_projectId = ''p'', rc_useBundledSeed = Some ''true'', rc_datasetId = Some ''d'',
     rc_bigquery = \<lparr>bw_registry = (\<lambda>_. Inr [toy_dbt_row ''bigquery:p.d.t'' ''email'']), bw_lineage = (\<lambda>_. Inl (Err ''no table''))\<rparr>,
     rc_sf_account = None, rc_sf_credentials = Inr (), rc_sf_database = Inr ''db'', rc_sf_schema = Inr ''s'',
     rc_snowflake = \<lparr>sw_connect = Inr (), sw_execute = (\<lambda>_. Inr None), sw_registry_row = (\<lambda>_. toy_dbt_row [] []),
       sw_lineage_row = (\<lambda>_. \<lparr>lw_source_resource_id = [], lw_field_name = [], lw_downstream_model = [], lw_hops = 0\<rparr>)\<rparr>\<rparr>"

lemma toy_entry_key [simp]: "pe_tenantId toy_entry = Some ''acme''" "pe_resourceId toy_entry = ''bigquery:p.d.t''"
  by (simp_all add: toy_entry_def manual_entry_def toy_declaration_def)

lemma toy_tables:
  "bq_says toy_config True = [toEntry ''bigquery:p.d.t'' [toy_dbt_row ''bigquery:p.d.t'' ''email''] []]" "sf_says toy_config True = []"
  by (simp_all add: bq_says_def sf_says_def toy_config_def truthy_def assembly_filters answer_or_def uniq_def toy_dbt_row_def)

text \<open>One tenant is served its declaration of a resource, another one what BigQuery says of it.\<close>

lemma start_registry_serves_witness:
  "\<exists>s'. start_registry toy_config (toy_registry_world [(''k'', toy_entry)] []) = (Inr (), s') \<and>
     getEntry (registry s') ''bigquery:p.d.t'' (Some ''acme'') = Some toy_entry \<and>
     getEntry (registry s') ''bigquery:p.d.t'' (Some ''beta'') =
       Some (toEntry ''bigquery:p.d.t'' [toy_dbt_row ''bigquery:p.d.t'' ''email''] [])"
proof -
  let ?w = "toy_registry_world [(''k'', toy_entry)] []"
  have w: "outcomes ?w = []" "decl_docs ?w = [(''k'', toy_entry)]"
    by (simp_all add: toy_registry_world_def pworld.defs rworld.defs toy_requests_def jworld.defs toy_saas_def)
  have d: "\<forall>e \<in> snd ` set (decl_docs ?w). pe_tenantId e \<noteq> None \<and> safe_tenant (pe_tenantId e)"
    by (simp add: w(2) safe_tenant_def)
  have t: "safe_tenant (Some ''acme'')" "safe_tenant (Some ''beta'')" by (simp_all add: safe_tenant_def)
  from start_registry_serves[OF d t(1), of toy_config "''bigquery:p.d.t''"] obtain s1 where
    1: "start_registry toy_config ?w = (Inr (), s1)" "getEntry (registry s1) ''bigquery:p.d.t'' (Some ''acme'') = Some toy_entry"
    by (elim exE conjE) (simp add: w)
  from start_registry_serves[OF d t(2), of toy_config "''bigquery:p.d.t''"] obtain s2 where
    2: "start_registry toy_config ?w = (Inr (), s2)" "getEntry (registry s2) ''bigquery:p.d.t'' (Some ''beta'') =
       Some (toEntry ''bigquery:p.d.t'' [toy_dbt_row ''bigquery:p.d.t'' ''email''] [])"
    by (elim exE conjE) (simp add: w toy_tables toEntry_fields)
  show ?thesis using 1 2 by simp
qed

lemma declaration_survives_restart_witness:
  "\<exists>s' s''. upsertEntry (Some (firestore_store False)) toy_entry (toy_registry_world [] []) = (Inr toy_entry, s') \<and>
     start_registry toy_config s' = (Inr (), s'') \<and>
     getEntry (registry s'') ''bigquery:p.d.t'' (Some ''acme'') = Some (merge_entry toy_entry None)"
proof -
  let ?s = "toy_registry_world [] []"
  note w = toy_registry_world_def pworld.defs rworld.defs toy_requests_def jworld.defs toy_saas_def
  have "\<exists>s'. upsertEntry (Some (firestore_store False)) toy_entry ?s = (Inr toy_entry, s') \<and> outcomes s' = []"
    by (simp add: upsertEntry_def firestore_store_def repo_upsert_def toy_entry_def manual_entry_def truthy_def no_faults
        set_entry_def bnd_apply Let_def put_decl_def w)
  then obtain s' where run: "upsertEntry (Some (firestore_store False)) toy_entry ?s = (Inr toy_entry, s')" "outcomes s' = []"
    by blast
  have "docs_ok ?s" "decl_of ''acme'' ''bigquery:p.d.t'' ?s = None" by (simp_all add: docs_ok_def decl_of_def w)
  then show ?thesis
    using declaration_survives_restart[OF _ _ toy_entry_key(1) run, of toy_config] run(1) by (simp add: safe_tenant_def)
qed

end
