(* ===== verification/SignerServer.thy ===== *)
theory SignerServer
  imports CertText
begin

text \<open>
  The certificate signer as a server of its own: \<open>src/certificate-signer/server.ts\<close>, the check of its callers
  (\<open>src/certificate-signer/auth.ts\<close>) and the credentials it gives itself (\<open>src/certificate-signer/gcp-credentials.ts\<close>).
  What the token library answers is an argument, as is the cast of a body to the input of \<open>generateClaims\<close>; reading a body
  yields its JSON value (the empty object when it is empty) or the error of the parser.
\<close>

section \<open>Callers\<close>

record id_payload =
  ip_email :: "string option"
  ip_email_verified :: bool

text \<open>The library: the payload of a token of Google for an audience, or the error it throws.\<close>

type_synonym jwt_library = "string \<Rightarrow> string list \<Rightarrow> string \<Rightarrow> exn + id_payload"

definition google_issuers :: "string list" where
  "google_issuers = [''accounts.google.com'', ''https://accounts.google.com'']"

text \<open>The result is the message of the \<open>UnauthorizedError\<close> that \<open>verify\<close> throws, if any.\<close>

definition verify_caller ::
  "jwt_library \<Rightarrow> string option \<Rightarrow> string \<Rightarrow> string \<Rightarrow> ('z env_scheme, string option) eff" where
  "verify_caller V authorizationHeader expectedAudience expectedCallerEmail =
     (case authorizationHeader of
        None \<Rightarrow> ret (Some ''Missing bearer token'')
      | Some h \<Rightarrow>
          if \<not> startsWith ''Bearer '' h then ret (Some ''Missing bearer token'')
          else
            (let token = drop (length ''Bearer '') h in
             catch
               (bnd (rcall (\<lambda>_. V token google_issuers expectedAudience)) (\<lambda>payload.
                ret (if ip_email payload \<noteq> Some expectedCallerEmail \<or> \<not> ip_email_verified payload
                     then Some (''Unexpected caller identity: '' @
                       (case ip_email payload of None \<Rightarrow> ''undefined'' | Some m \<Rightarrow> m))
                     else None)))
               (\<lambda>err. ret (Some (''Invalid ID token: '' @ message_of err)))))"

section \<open>The server\<close>

record server_config =
  vc_idTokenAudience :: string
  vc_allowedCallerEmail :: string

record signer_server =
  vs_signer :: signer
  vs_verifier :: jwt_library
  vs_config :: server_config
  vs_input :: "json \<Rightarrow> claims_input"

record server_request =
  vq_method :: string
  vq_url :: string
  vq_authorization :: "string option"
  vq_body :: "exn + json"

datatype server_reply =
    Healthy
  | Unauthenticated
  | ClaimsSent base_claims
  | CertificateSent signed
  | CacheInvalidated
  | NoSuchRoute
  | RequestFailed string

definition server_status :: "server_reply \<Rightarrow> nat" where
  "server_status r = (case r of Unauthenticated \<Rightarrow> 401 | NoSuchRoute \<Rightarrow> 404 | RequestFailed _ \<Rightarrow> 400 | _ \<Rightarrow> 200)"

text \<open>\<open>signClaims\<close> on a body: what is signed is the text of whatever JSON value it holds.\<close>

definition sign_payload :: "signer \<Rightarrow> json \<Rightarrow> ('z cworld_scheme, signed) eff" where
  "sign_payload G claims =
     bnd (signer_getCurrentSigningKeyVersion G) (\<lambda>keyVersionPath.
     let unsignedToken = unsigned_token keyVersionPath claims in
     bnd (asymmetricSign (sg_kms G) (sg_sha G) unsignedToken keyVersionPath) (\<lambda>signature.
     let certificate = unsignedToken @ ''.'' @ b64url signature in
     ret \<lparr>sd_certificate = certificate, sd_certificateHash = hex_of (sg_sha G (utf8 certificate))\<rparr>))"

definition server_route :: "signer_server \<Rightarrow> server_request \<Rightarrow> ('z cworld_scheme, server_reply) eff" where
  "server_route S rq =
     (if vq_method rq = ''POST'' \<and> vq_url rq = ''/v1/generate-claims'' then
        bnd (lift (vq_body rq)) (\<lambda>j. bnd (generateClaims (vs_signer S) (vs_input S j)) (\<lambda>claims. ret (ClaimsSent claims)))
      else if vq_method rq = ''POST'' \<and> vq_url rq = ''/v1/sign-claims'' then
        bnd (lift (vq_body rq)) (\<lambda>j. bnd (sign_payload (vs_signer S) j) (\<lambda>result. ret (CertificateSent result)))
      else if vq_method rq = ''POST'' \<and> vq_url rq = ''/v1/invalidate-signing-key-cache'' then
        bnd invalidateSigningKeyCache (\<lambda>_. ret CacheInvalidated)
      else ret NoSuchRoute)"

definition handleRequest :: "signer_server \<Rightarrow> server_request \<Rightarrow> ('z cworld_scheme, server_reply) eff" where
  "handleRequest S rq =
     (if vq_method rq = ''GET'' \<and> vq_url rq = ''/healthz'' then ret Healthy
      else
        bnd (verify_caller (vs_verifier S) (vq_authorization rq) (vc_idTokenAudience (vs_config S))
               (vc_allowedCallerEmail (vs_config S))) (\<lambda>refused.
        if refused \<noteq> None then ret Unauthenticated
        else catch (server_route S rq) (\<lambda>err. ret (RequestFailed (message_of err)))))"

section \<open>The credentials of the process\<close>

definition DEFAULT_ATTESTATION_TOKEN_PATH :: string where
  "DEFAULT_ATTESTATION_TOKEN_PATH = ''/run/container_launcher/attestation_verifier_claims_token''"

definition credentials_config :: "string \<Rightarrow> json" where
  "credentials_config workloadIdentityProvider =
     JObj [(''type'', JStr ''external_account''),
       (''audience'', JStr (''//iam.googleapis.com/'' @ workloadIdentityProvider)),
       (''subject_token_type'', JStr ''urn:ietf:params:oauth:token-type:jwt''),
       (''token_url'', JStr ''https://sts.googleapis.com/v1/token''),
       (''credential_source'', JObj [(''file'', JStr DEFAULT_ATTESTATION_TOKEN_PATH)])]"

text \<open>The file written and the value of \<open>GOOGLE_APPLICATION_CREDENTIALS\<close> afterwards; \<open>tmp\<close> is the temporary directory.\<close>

definition configureWorkloadIdentityCredentialsIfPresent ::
  "string \<Rightarrow> string option \<Rightarrow> (string \<rightharpoonup> string) \<times> string option \<Rightarrow> (string \<rightharpoonup> string) \<times> string option" where
  "configureWorkloadIdentityCredentialsIfPresent tmp workloadIdentityProvider = (\<lambda>(files, credentials).
     if \<not> truthy workloadIdentityProvider then (files, credentials)
     else
       (let credentialsPath = tmp @ ''/workload-identity-credentials.json'' in
        (files(credentialsPath \<mapsto> stringify (credentials_config (the workloadIdentityProvider))), Some credentialsPath)))"

section \<open>Who gets what\<close>

text \<open>The caller the server was told to accept.\<close>

definition accepted_caller :: "signer_server \<Rightarrow> string option \<Rightarrow> bool" where
  "accepted_caller S h \<longleftrightarrow> (\<exists>token p. h = Some (''Bearer '' @ token) \<and>
     vs_verifier S token google_issuers (vc_idTokenAudience (vs_config S)) = Inr p \<and>
     ip_email p = Some (vc_allowedCallerEmail (vs_config S)) \<and> ip_email_verified p)"

lemma verify_caller_cases:
  obtains r t where "verify_caller V h a m s = (Inr r, t)" and "t = s \<or> t = snd (next_call s)"
    and "r = None \<Longrightarrow> \<exists>token p. h = Some (''Bearer '' @ token) \<and> V token google_issuers a = Inr p \<and>
      ip_email p = Some m \<and> ip_email_verified p"
proof (cases "\<exists>token. h = Some (''Bearer '' @ token)")
  case False
  have "\<not> startsWith ''Bearer '' x" if "h = Some x" for x
  proof
    assume "startsWith ''Bearer '' x"
    then have "x = ''Bearer '' @ drop (length ''Bearer '') x"
      unfolding startsWith_def by (metis append_take_drop_id)
    then show False using False that by blast
  qed
  then have "verify_caller V h a m s = (Inr (Some ''Missing bearer token''), s)"
    by (cases h) (simp_all add: verify_caller_def)
  then show thesis using that by simp
next
  case True
  then obtain token where h: "h = Some (''Bearer '' @ token)" by blast
  obtain oc w where n: "next_call s = (oc, w)" by fastforce
  define f where "f = V token google_issuers a"
  have run: "verify_caller V h a m s = (case rcall (\<lambda>_. f) s of
      (Inl e, t) \<Rightarrow> (Inr (Some (''Invalid ID token: '' @ message_of e)), t)
    | (Inr p, t) \<Rightarrow> (Inr (if ip_email p \<noteq> Some m \<or> \<not> ip_email_verified p then Some (''Unexpected caller identity: '' @
           (case ip_email p of None \<Rightarrow> ''undefined'' | Some m \<Rightarrow> m)) else None), t))"
    by (auto simp: verify_caller_def h startsWith_def Let_def bnd_apply catch_apply f_def split: sum.splits prod.splits)
  have snd: "snd (rcall (\<lambda>_. f) s) = w" using n by (cases oc) (auto simp: rcall_def rtxn_def split: sum.splits)
  obtain r t where rc: "rcall (\<lambda>_. f) s = (r, t)" by fastforce
  have t: "t = snd (next_call s)" using snd rc n by simp
  show thesis
  proof (cases r)
    case (Inl e)
    then show thesis using that run rc t by simp
  next
    case (Inr p)
    then have "f = Inr p" using rcall_Inr[OF rc[unfolded Inr]] by simp
    define msg where "msg = ''Unexpected caller identity: '' @ (case ip_email p of None \<Rightarrow> ''undefined'' | Some m \<Rightarrow> m)"
    have go: "verify_caller V h a m s = (Inr (if ip_email p = Some m \<and> ip_email_verified p then None else Some msg), t)"
      using run by (auto simp: rc Inr msg_def)
    show thesis
    proof (rule that[OF go])
      assume "(if ip_email p = Some m \<and> ip_email_verified p then None else Some msg) = None"
      then show "\<exists>token p. h = Some (''Bearer '' @ token) \<and> V token google_issuers a = Inr p \<and> ip_email p = Some m \<and> ip_email_verified p"
        using h \<open>f = Inr p\<close> f_def by (metis option.distinct(1))
    qed (use t in simp)
  qed
qed

lemma sign_payload_claims: "sign_payload G (claims_json num c p n) = signClaims num G c p n"
  by (simp add: sign_payload_def signClaims_def Let_def)

lemma server_route_claims:
  assumes "server_route S rq s = (Inr (ClaimsSent c), t)"
  shows "\<exists>j. vq_body rq = Inr j \<and> generateClaims (vs_signer S) (vs_input S j) s = (Inr c, t)"
  using assms by (auto simp: server_route_def split: if_splits elim!: bnd_InrE)

text \<open>What the signer never writes: documents and the like; only its own two caches and the clock change.\<close>

lemma keeps_sign_payload: "signer_free P \<Longrightarrow> keeps P (sign_payload G j)"
  unfolding sign_payload_def Let_def asymmetricSign_def
  by (intro keeps_bnd keeps_ret keeps_signer_version keeps_rcall keeps_option keeps_throw signer_free_timeless)

lemma keeps_server_route: "signer_free P \<Longrightarrow> keeps P (server_route S rq)"
  unfolding server_route_def invalidateSigningKeyCache_def
  by (intro keeps_if keeps_bnd keeps_lift keeps_ret keeps_generateClaims keeps_sign_payload keeps_modify)
    (simp_all add: signer_free_def)

text \<open>
  C14. The signer answers every request, and sends claims or a signature, or drops its cached key version, only for a caller
  whose token Google's library accepts for the configured audience and whose verified email is the configured one; other
  requests leave the world as it was, up to the time they took, and no request changes a document. Claims are only sent
  for a user whose key is destroyed, and only over a deletion request that is complete: the one the body names, or, when
  it names none, one of that user and tenant. That a named request is this user's, or this tenant's, is not checked by the
  signer; its caller has to see to that.
\<close>

theorem signer_server_gated:
  fixes s :: "'z cworld_scheme"
  shows "\<exists>r t. handleRequest S rq s = (Inr r, t) \<and> core t = core s \<and>
    (accepted_caller S (vq_authorization rq) \<or> r \<in> {Healthy, Unauthenticated} \<and> (t = s \<or> t = snd (next_call s))) \<and>
    (\<forall>c. r = ClaimsSent c \<longrightarrow> (\<exists>j kd d. vq_body rq = Inr j \<and>
       cl_sub c = gi_userId (vs_input S j) \<and> cl_tenantId c = gi_tenantId (vs_input S j) \<and>
       keys s (getDocId (cl_tenantId c) (cl_sub c)) = Some kd \<and> kd_status kd \<in> {SHREDDED, DELETED} \<and>
       (if truthy (gi_deletionRequestId (vs_input S j))
        then map_of (requests s) (the (gi_deletionRequestId (vs_input S j))) = Some d
        else d \<in> snd ` set (requests s) \<and> q_user_id d = cl_sub c \<and> q_tenant_id d = Some (cl_tenantId c)) \<and>
       q_status d \<in> {CASCADE_COMPLETE, CERTIFICATE_ISSUED} \<and> cl_lineageSummary c = lineage_items (q_wipes d)))"
proof (cases "vq_method rq = ''GET'' \<and> vq_url rq = ''/healthz''")
  case True
  then show ?thesis by (simp add: handleRequest_def)
next
  case False
  obtain refused u where v: "verify_caller (vs_verifier S) (vq_authorization rq) (vc_idTokenAudience (vs_config S))
        (vc_allowedCallerEmail (vs_config S)) s = (Inr refused, u)" and u: "u = s \<or> u = snd (next_call s)"
    and ok: "refused = None \<Longrightarrow> accepted_caller S (vq_authorization rq)"
    by (rule verify_caller_cases[of "vs_verifier S" "vq_authorization rq" "vc_idTokenAudience (vs_config S)" "vc_allowedCallerEmail (vs_config S)" s])
      (auto simp: accepted_caller_def)
  have cu: "core u = core s" using u by auto
  show ?thesis
  proof (cases "refused = None")
    case False
    then have "handleRequest S rq s = (Inr Unauthenticated, u)"
      using \<open>\<not> (vq_method rq = ''GET'' \<and> vq_url rq = ''/healthz'')\<close> v by (auto simp: handleRequest_def bnd_apply)
    then show ?thesis using cu u by auto
  next
    case True
    obtain r t where rt: "server_route S rq u = (r, t)" by fastforce
    have ct: "core t = core s" using keepsE[OF keeps_server_route[OF keeps_core] refl rt] cu by simp
    have run: "handleRequest S rq s = (Inr (case r of Inl e \<Rightarrow> RequestFailed (message_of e) | Inr x \<Rightarrow> x), t)"
      using False True v rt by (auto simp: handleRequest_def bnd_apply catch_apply split: sum.split)
    have claims: "\<exists>j kd d. vq_body rq = Inr j \<and>
       cl_sub c = gi_userId (vs_input S j) \<and> cl_tenantId c = gi_tenantId (vs_input S j) \<and>
       keys s (getDocId (cl_tenantId c) (cl_sub c)) = Some kd \<and> kd_status kd \<in> {SHREDDED, DELETED} \<and>
       (if truthy (gi_deletionRequestId (vs_input S j))
        then map_of (requests s) (the (gi_deletionRequestId (vs_input S j))) = Some d
        else d \<in> snd ` set (requests s) \<and> q_user_id d = cl_sub c \<and> q_tenant_id d = Some (cl_tenantId c)) \<and>
       q_status d \<in> {CASCADE_COMPLETE, CERTIFICATE_ISSUED} \<and> cl_lineageSummary c = lineage_items (q_wipes d)"
      if sent: "r = Inr (ClaimsSent c)" for c
    proof -
      obtain j where j: "vq_body rq = Inr j" "generateClaims (vs_signer S) (vs_input S j) u = (Inr c, t)"
        using server_route_claims[OF rt[unfolded sent]] by blast
      have "keys u = keys s" "requests u = requests s" using cu by (simp_all add: core_def)
      then obtain kd d where "keys s (getDocId (gi_tenantId (vs_input S j)) (gi_userId (vs_input S j))) = Some kd"
        "request_for (vs_input S j) (requests s) d" "\<exists>t. claims_of (vs_input S j) kd d (map snd (decl_docs u)) t c"
        using generateClaims_Inr[OF j(2)] by metis
      then have "cl_sub c = gi_userId (vs_input S j) \<and> cl_tenantId c = gi_tenantId (vs_input S j) \<and>
          keys s (getDocId (cl_tenantId c) (cl_sub c)) = Some kd \<and> kd_status kd \<in> {SHREDDED, DELETED} \<and>
          (if truthy (gi_deletionRequestId (vs_input S j))
           then map_of (requests s) (the (gi_deletionRequestId (vs_input S j))) = Some d
           else d \<in> snd ` set (requests s) \<and> q_user_id d = cl_sub c \<and> q_tenant_id d = Some (cl_tenantId c)) \<and>
          q_status d \<in> {CASCADE_COMPLETE, CERTIFICATE_ISSUED} \<and> cl_lineageSummary c = lineage_items (q_wipes d)"
        by (auto simp: claims_of_def request_for_def image_iff Bex_def)
      then show ?thesis using j(1) by blast
    qed
    show ?thesis using run ct ok[OF True] claims by (cases r) auto
  qed
qed

text \<open>
  The other half of the signer has no such guard: an accepted caller gets a signature over whatever JSON it sends, also in a
  world without a single destroyed key.
\<close>

lemma signs_anything:
  assumes "rcall (\<lambda>_. vs_verifier S token google_issuers (vc_idTokenAudience (vs_config S))) s = (Inr p, s)"
    and "ip_email p = Some (vc_allowedCallerEmail (vs_config S))" and "ip_email_verified p" and "outcomes s = []"
    and "signer_version_cache s = Some (v, e)" and "now s < e" and "kms_sign (sg_kms (vs_signer S)) v (sg_sha (vs_signer S) (utf8 (unsigned_token v claims))) = Some g"
    and "keys s = Map.empty"
  shows "\<exists>h. fst (handleRequest S \<lparr>vq_method = ''POST'', vq_url = ''/v1/sign-claims'', vq_authorization = Some (''Bearer '' @ token), vq_body = Inr claims\<rparr> s) =
    Inr (CertificateSent \<lparr>sd_certificate = unsigned_token v claims @ ''.'' @ b64url g, sd_certificateHash = h\<rparr>)"
  using assms by (simp add: handleRequest_def verify_caller_def startsWith_def bnd_apply catch_apply server_route_def sign_payload_def
      signer_getCurrentSigningKeyVersion_def asymmetricSign_def no_faults Let_def)

section \<open>A server at work\<close>

definition toy_server :: signer_server where
  "toy_server = \<lparr>vs_signer = toy_signer,
     vs_verifier = (\<lambda>token _ _. if token = ''g'' then Inr \<lparr>ip_email = Some ''kv'', ip_email_verified = True\<rparr> else Inl (Err ''bad'')),
     vs_config = \<lparr>vc_idTokenAudience = ''aud'', vc_allowedCallerEmail = ''kv''\<rparr>, vs_input = (\<lambda>_. toy_input ''u'')\<rparr>"

definition toy_call :: "string \<Rightarrow> string \<Rightarrow> server_request" where
  "toy_call token url = \<lparr>vq_method = ''POST'', vq_url = url, vq_authorization = Some (''Bearer '' @ token), vq_body = Inr JNull\<rparr>"

lemma toy_server_claims:
  "\<exists>c. handleRequest toy_server (toy_call ''g'' ''/v1/generate-claims'')
      (toy_cworld [getDocId ''t'' ''u'' \<mapsto> shredded_doc] [(''r1'', finished_request)] []) =
    (Inr (ClaimsSent c), toy_cworld [getDocId ''t'' ''u'' \<mapsto> shredded_doc] [(''r1'', finished_request)] [])"
proof -
  let ?w = "toy_cworld [getDocId ''t'' ''u'' \<mapsto> shredded_doc] [(''r1'', finished_request)] []"
  obtain c where c: "generateClaims toy_signer (toy_input ''u'') ?w = (Inr c, ?w)"
    using toy_claims[of "[getDocId ''t'' ''u'' \<mapsto> shredded_doc]" "''u''" "[(''r1'', finished_request)]" "[]"] by auto
  have "outcomes ?w = []" by (simp add: toy_cworld_defs)
  then show ?thesis
    by (simp add: handleRequest_def toy_call_def toy_server_def verify_caller_def startsWith_def bnd_apply catch_apply
        server_route_def no_faults c)
qed

lemma signer_server_gated_witness:
  "\<exists>c t. handleRequest toy_server (toy_call ''g'' ''/v1/generate-claims'')
      (toy_cworld [getDocId ''t'' ''u'' \<mapsto> shredded_doc] [(''r1'', finished_request)] []) = (Inr (ClaimsSent c), t) \<and>
     accepted_caller toy_server (Some ''Bearer g'') \<and>
     (\<exists>d. map_of [(''r1'', finished_request)] ''r1'' = Some d \<and> cl_lineageSummary c = lineage_items (q_wipes d))"
proof -
  let ?w = "toy_cworld [getDocId ''t'' ''u'' \<mapsto> shredded_doc] [(''r1'', finished_request)] []"
  obtain c where run: "handleRequest toy_server (toy_call ''g'' ''/v1/generate-claims'') ?w = (Inr (ClaimsSent c), ?w)"
    using toy_server_claims by blast
  have w: "requests ?w = [(''r1'', finished_request)]" by (simp add: toy_cworld_defs)
  show ?thesis
    using signer_server_gated[of toy_server "toy_call ''g'' ''/v1/generate-claims''" ?w] run
    by (auto simp: toy_call_def w request_for_def toy_server_def toy_input_def truthy_def)
qed

end
