(* ===== verification/EvidenceVerify.thy ===== *)
theory EvidenceVerify
  imports Witnesses
begin

text \<open>
  Checking the outside evidence of a certificate without trusting what was stored about it: the time stamp
  (\<open>src/crypto/tsa-verify.ts\<close>) and the entry of the transparency log (\<open>src/crypto/rekor-verify.ts\<close>). What the ASN.1
  library reads, X.509, the hash and signature functions, HTTP and the JSON parser are arguments; the text of an error
  of the language itself is indicative. Properties of the clients of theory Witnesses and of these checks are put together.
\<close>

section \<open>What the libraries read\<close>

record signer_info =
  si_digestAlgorithm :: string
  si_signatureAlgorithm :: string
  si_signedAttrs :: "(string \<times> bytes list) list option"
  si_signature :: bytes

record signed_data =
  cms_eContent :: "bytes option"
  cms_signerInfos :: "signer_info list"
  cms_certificates :: "bytes option list option"

record x509 =
  xc_publicKey :: bytes
  xc_validFrom :: int
  xc_validTo :: int

text \<open>A node of a BER encoding: class, tag number, children and its own bytes.\<close>

datatype ber = Ber (ber_class: nat) (ber_tag: nat) (ber_children: "ber list") (ber_raw: bytes)

record tsa_library =
  tv_response :: "bytes \<Rightarrow> exn + int \<times> bytes option"
  tv_contentInfo :: "bytes \<Rightarrow> exn + string \<times> bytes"
  tv_signedData :: "bytes \<Rightarrow> exn + signed_data"
  tv_tst :: "bytes \<Rightarrow> exn + tst_info"
  tv_fromBER :: "bytes \<Rightarrow> ber option"
  tv_octets :: "bytes \<Rightarrow> bytes option"
  tv_certificate :: "bytes \<Rightarrow> exn + x509"
  tv_pem :: "string \<Rightarrow> exn + x509"
  tv_hash :: "string \<Rightarrow> bytes \<Rightarrow> bytes"
  tv_verify :: "string \<Rightarrow> bytes \<Rightarrow> bytes \<Rightarrow> bytes \<Rightarrow> exn + bool"
  tv_issued :: "x509 \<Rightarrow> x509 \<Rightarrow> bool"
  tv_certVerify :: "x509 \<Rightarrow> bytes \<Rightarrow> bool"

definition MESSAGE_DIGEST_ATTR_OID :: string where
  "MESSAGE_DIGEST_ATTR_OID = ''1.2.840.113549.1.9.4''"

definition OID_TO_DIGEST_NAME :: "(string \<times> string) list" where
  "OID_TO_DIGEST_NAME =
     [(''2.16.840.1.101.3.4.2.1'', ''sha256''), (''2.16.840.1.101.3.4.2.2'', ''sha384''), (''2.16.840.1.101.3.4.2.3'', ''sha512''),
      (''1.2.840.10045.4.3.2'', ''sha256''), (''1.2.840.10045.4.3.3'', ''sha384''), (''1.2.840.10045.4.3.4'', ''sha512''),
      (''1.2.840.113549.1.1.11'', ''sha256''), (''1.2.840.113549.1.1.12'', ''sha384''), (''1.2.840.113549.1.1.13'', ''sha512'')]"

section \<open>The signed attributes\<close>

definition findChildByContextTag :: "ber \<Rightarrow> nat \<Rightarrow> ber option" where
  "findChildByContextTag n tagNumber = find (\<lambda>child. ber_class child = 3 \<and> ber_tag child = tagNumber) (ber_children n)"

text \<open>\<open>node.valueBlock.value[i]\<close>, whose members cannot be read when there is none.\<close>

definition child :: "ber \<Rightarrow> nat \<Rightarrow> exn + ber" where
  "child n i = (case nth_opt (ber_children n) i of None \<Rightarrow> Inl (Err ''undefined has no members'') | Some c \<Rightarrow> Inr c)"

definition last_child :: "ber \<Rightarrow> exn + ber" where
  "last_child n = (if ber_children n = [] then Inl (Err ''undefined has no members'') else Inr (last (ber_children n)))"

definition and_then :: "exn + 'a \<Rightarrow> ('a \<Rightarrow> exn + 'b) \<Rightarrow> exn + 'b" where
  "and_then r f = (case r of Inl e \<Rightarrow> Inl e | Inr a \<Rightarrow> f a)"

definition extractReencodedSignedAttrs :: "tsa_library \<Rightarrow> bytes \<Rightarrow> exn + bytes" where
  "extractReencodedSignedAttrs L responseBytes =
     (case tv_fromBER L responseBytes of
        None \<Rightarrow> Inl (Err ''failed to parse TimeStampResp DER'')
      | Some respSeq \<Rightarrow>
          and_then (child respSeq 1) (\<lambda>contentInfoSeq.
          and_then (child contentInfoSeq 1) (\<lambda>explicitContentWrapper.
          and_then (child explicitContentWrapper 0) (\<lambda>signedDataSeq.
          and_then (last_child signedDataSeq) (\<lambda>signerInfosSet.
          and_then (child signerInfosSet 0) (\<lambda>firstSignerInfo.
            case findChildByContextTag firstSignerInfo 0 of
              None \<Rightarrow> Inl (Err ''SignerInfo has no [0] signedAttrs element'')
            | Some node \<Rightarrow> Inr ((ber_raw node)[0 := 0x31])))))))"

section \<open>Time stamps\<close>

datatype tsa_verdict = TsaValid int | TsaInvalid string | TsaAbsent | TsaRecordedFailure

text \<open>The signature of the token, the trust anchor, and the time.\<close>

definition check_leaf :: "tsa_library \<Rightarrow> string \<Rightarrow> string \<Rightarrow> signer_info \<Rightarrow> int \<Rightarrow> bytes \<Rightarrow> bytes \<Rightarrow> exn + tsa_verdict" where
  "check_leaf L pinnedRootCaPem sigAlgName signerInfo genTime attrs der =
     and_then (tv_certificate L der) (\<lambda>leafCert.
     and_then (tv_verify L sigAlgName attrs (xc_publicKey leafCert) (si_signature signerInfo)) (\<lambda>signatureValid.
     if \<not> signatureValid then Inr (TsaInvalid ''CMS signature verification failed'')
     else
       and_then (tv_pem L pinnedRootCaPem) (\<lambda>rootCert.
       if \<not> tv_issued L leafCert rootCert \<or> \<not> tv_certVerify L leafCert (xc_publicKey rootCert)
       then Inr (TsaInvalid ''leaf certificate does not chain to the pinned root CA'')
       else if genTime < xc_validFrom leafCert \<or> genTime > xc_validTo leafCert
       then Inr (TsaInvalid ''genTime falls outside the validity window of the signing certificate'')
       else Inr (TsaValid genTime))))"

definition check_chain ::
  "tsa_library \<Rightarrow> string \<Rightarrow> bytes \<Rightarrow> string \<Rightarrow> signer_info \<Rightarrow> signed_data \<Rightarrow> int \<Rightarrow> exn + tsa_verdict" where
  "check_chain L pinnedRootCaPem responseBytes sigAlgName signerInfo signedData genTime =
     and_then (extractReencodedSignedAttrs L responseBytes) (\<lambda>attrs.
     if cms_certificates signedData = None \<or> cms_certificates signedData = Some []
     then Inr (TsaInvalid ''no signing certificate embedded in token'')
     else (case hd (the (cms_certificates signedData)) of
         None \<Rightarrow> Inr (TsaInvalid ''embedded certificate is not a plain X.509 Certificate'')
       | Some der \<Rightarrow> check_leaf L pinnedRootCaPem sigAlgName signerInfo genTime attrs der))"

definition check_attributes ::
  "tsa_library \<Rightarrow> string \<Rightarrow> bytes \<Rightarrow> signer_info \<Rightarrow> bytes \<Rightarrow> signed_data \<Rightarrow> int \<Rightarrow> exn + tsa_verdict" where
  "check_attributes L pinnedRootCaPem responseBytes signerInfo eContent signedData genTime =
     (case (map_of OID_TO_DIGEST_NAME (si_digestAlgorithm signerInfo), map_of OID_TO_DIGEST_NAME (si_signatureAlgorithm signerInfo)) of
        (Some digestAlgName, Some sigAlgName) \<Rightarrow>
          if si_signedAttrs signerInfo = None \<or> si_signedAttrs signerInfo = Some []
          then Inr (TsaInvalid ''SignerInfo has no signedAttrs'')
          else (case map_of (the (si_signedAttrs signerInfo)) MESSAGE_DIGEST_ATTR_OID of
            None \<Rightarrow> Inr (TsaInvalid ''signedAttrs missing messageDigest attribute'')
          | Some [] \<Rightarrow> Inl (Err ''attrValues[0] is undefined'')
          | Some (v # _) \<Rightarrow> (case tv_octets L v of
              None \<Rightarrow> Inr (TsaInvalid ''could not parse messageDigest attribute value'')
            | Some storedDigest \<Rightarrow>
                if storedDigest \<noteq> tv_hash L digestAlgName eContent
                then Inr (TsaInvalid ''messageDigest attribute does not match hash(eContent)'')
                else check_chain L pinnedRootCaPem responseBytes sigAlgName signerInfo signedData genTime))
      | _ \<Rightarrow> Inr (TsaInvalid (''unsupported algorithm OID (digest='' @ si_digestAlgorithm signerInfo @ '', signature='' @
               si_signatureAlgorithm signerInfo @ '')'')))"

definition check_token :: "tsa_library \<Rightarrow> string \<Rightarrow> string \<Rightarrow> bytes \<Rightarrow> bytes \<Rightarrow> exn + tsa_verdict" where
  "check_token L certificateJwt pinnedRootCaPem responseBytes token =
     and_then (tv_contentInfo L token) (\<lambda>(contentType, content).
     if contentType \<noteq> ''1.2.840.113549.1.7.2'' then Inr (TsaInvalid (''unexpected contentType '' @ contentType))
     else
       and_then (tv_signedData L content) (\<lambda>signedData.
       case cms_eContent signedData of
         None \<Rightarrow> Inr (TsaInvalid ''no TSTInfo content in token'')
       | Some eContent \<Rightarrow>
           and_then (tv_tst L eContent) (\<lambda>tstInfo.
           if tv_hash L ''sha256'' (utf8 certificateJwt) \<noteq> tst_imprint tstInfo
           then Inr (TsaInvalid ''messageImprint does not match sha256(certificate)'')
           else if length (cms_signerInfos signedData) \<noteq> 1
           then Inr (TsaInvalid (''expected exactly 1 signerInfo, found '' @ nat_str (length (cms_signerInfos signedData))))
           else check_attributes L pinnedRootCaPem responseBytes (hd (cms_signerInfos signedData)) eContent signedData
                  (tst_genTime tstInfo))))"

definition verifyTsaTimestamp :: "tsa_library \<Rightarrow> string \<Rightarrow> tsa_info option \<Rightarrow> string \<Rightarrow> tsa_verdict" where
  "verifyTsaTimestamp L certificateJwt tsaTimestamp pinnedRootCaPem =
     (case tsaTimestamp of
        None \<Rightarrow> TsaAbsent
      | Some ts \<Rightarrow>
          if ti_status ts = TSA_FAILED then TsaRecordedFailure
          else if \<not> truthy (ti_token ts) then TsaInvalid ''status OBTAINED but no token stored''
          else
            (let responseBytes = b64_decode (the (ti_token ts)) in
             case and_then (tv_response L responseBytes) (\<lambda>(status, token).
                 if status \<noteq> 0 \<and> status \<noteq> 1 then Inr (TsaInvalid (''stored token has non-granted PKIStatus '' @ int_str status))
                 else (case token of
                   None \<Rightarrow> Inr (TsaInvalid ''stored token has no timeStampToken'')
                 | Some tok \<Rightarrow> check_token L certificateJwt pinnedRootCaPem responseBytes tok)) of
               Inl e \<Rightarrow> TsaInvalid (message_of e)
             | Inr verdict \<Rightarrow> verdict))"

section \<open>The transparency log\<close>

text \<open>
  An answer of the log: the status, and its data as entries by key, each \<open>null\<close> or with its body, if any.
\<close>

record rekor_library =
  rl_get :: "string \<Rightarrow> exn + nat \<times> (string \<times> string option option) list"
  rl_parse :: "bytes \<Rightarrow> exn + json"
  rl_sha :: "bytes \<Rightarrow> bytes"

datatype rekor_verdict =
    RekorValid string "int option" string
  | RekorInvalid string
  | RekorAbsent
  | RekorRecordedFailure

text \<open>\<open>j?.k\<close> on what the parser returns, and whether a value is truthy; \<open>None\<close> is \<open>undefined\<close>.\<close>

definition jget :: "string \<Rightarrow> json option \<Rightarrow> json option" where
  "jget k j = (case j of Some (JObj fs) \<Rightarrow> map_of fs k | _ \<Rightarrow> None)"

definition jtruthy :: "json option \<Rightarrow> bool" where
  "jtruthy j = (case j of None \<Rightarrow> False | Some JNull \<Rightarrow> False | Some (JBool b) \<Rightarrow> b | Some (JNum n) \<Rightarrow> n \<noteq> 0 | Some (JStr x) \<Rightarrow> x \<noteq> [] | _ \<Rightarrow> True)"

definition jtext :: "json \<Rightarrow> string" where
  "jtext j = (case j of JStr x \<Rightarrow> x | _ \<Rightarrow> stringify j)"

text \<open>\<open>res.data?.[uuid] ?? Object.values(res.data ?? {})[0]\<close>\<close>

definition rekor_entry_of :: "(string \<times> string option option) list \<Rightarrow> string \<Rightarrow> string option option" where
  "rekor_entry_of data uuid = (case map_of data uuid of Some (Some e) \<Rightarrow> Some e | _ \<Rightarrow> (case data of [] \<Rightarrow> None | (_, v) # _ \<Rightarrow> v))"

definition hash_mismatch :: string where
  "hash_mismatch = ''Rekor entry's recorded hash does not match sha256({certificateHash, previousCertificateHash}) for this certificate -- '' @
     ''either a different certificate was published under this uuid, or the log entry was tampered with''"

definition check_rekor_hash :: "rekor_library \<Rightarrow> string \<Rightarrow> string option \<Rightarrow> rekor_info \<Rightarrow> json \<Rightarrow> rekor_verdict" where
  "check_rekor_hash L certificateHash previousCertificateHash e decoded =
     (let storedHash = jget ''hash'' (jget ''data'' (jget ''spec'' (Some decoded)));
          algorithm = jget ''algorithm'' storedHash; val = jget ''value'' storedHash in
      if \<not> jtruthy algorithm \<or> \<not> jtruthy val then RekorInvalid ''Rekor entry body missing spec.data.hash''
      else if algorithm \<noteq> Some (JStr ''sha256'')
      then RekorInvalid (''unexpected hash algorithm '' @ jtext (the algorithm) @ '' (expected sha256)'')
      else if val \<noteq> Some (JStr (hex_of (rl_sha L (utf8 (rekor_payload certificateHash previousCertificateHash)))))
      then RekorInvalid hash_mismatch
      else RekorValid (the (ri_entryUuid e)) (ri_logIndex e) (ri_url e))"

definition verifyRekorEntry ::
  "rekor_library \<Rightarrow> string \<Rightarrow> string option \<Rightarrow> rekor_info option \<Rightarrow> ('z env_scheme, rekor_verdict) eff" where
  "verifyRekorEntry L certificateHash previousCertificateHash rekorEntry =
     (case rekorEntry of
        None \<Rightarrow> ret RekorAbsent
      | Some e \<Rightarrow>
          if ri_status e = REKOR_FAILED then ret RekorRecordedFailure
          else if \<not> truthy (ri_entryUuid e) then ret (RekorInvalid ''status PUBLISHED but no entryUuid stored'')
          else
            (let uuid = the (ri_entryUuid e) in
             catch
               (bnd (rcall (\<lambda>_. rl_get L (ri_url e @ ''/api/v1/log/entries/'' @ uuid))) (\<lambda>(status, data).
                if status \<noteq> 200
                then ret (RekorInvalid (''Rekor lookup returned HTTP '' @ nat_str status @ '' for entry '' @ uuid))
                else
                  (let text = Option.bind (rekor_entry_of data uuid) (\<lambda>x. x) in
                   if \<not> truthy text then ret (RekorInvalid ''Rekor entry response missing body'')
                   else
                     bnd (lift (rl_parse L (b64_decode (the text)))) (\<lambda>decoded.
                     ret (check_rekor_hash L certificateHash previousCertificateHash e decoded)))))
               (\<lambda>err. ret (RekorInvalid (message_of err)))))"

section \<open>What a valid time stamp says\<close>

lemma and_then_Inr: "and_then r f = Inr b \<longleftrightarrow> (\<exists>a. r = Inr a \<and> f a = Inr b)"
  by (cases r) (simp_all add: and_then_def)

lemma check_leaf_valid:
  assumes "check_leaf L pem sigAlg si g attrs der = Inr (TsaValid g')"
  shows "g' = g \<and> (\<exists>leaf root. tv_certificate L der = Inr leaf \<and>
    tv_verify L sigAlg attrs (xc_publicKey leaf) (si_signature si) = Inr True \<and> tv_pem L pem = Inr root \<and>
    tv_issued L leaf root \<and> tv_certVerify L leaf (xc_publicKey root) \<and> xc_validFrom leaf \<le> g \<and> g \<le> xc_validTo leaf)"
  using assms by (fastforce simp: check_leaf_def and_then_Inr split: if_splits)

lemma check_chain_valid:
  assumes "check_chain L pem raw sigAlg si sd g = Inr (TsaValid g')"
  shows "\<exists>attrs der rest. extractReencodedSignedAttrs L raw = Inr attrs \<and> cms_certificates sd = Some (Some der # rest) \<and>
    check_leaf L pem sigAlg si g attrs der = Inr (TsaValid g')"
proof (cases "cms_certificates sd")
  case None
  then show ?thesis using assms by (auto simp: check_chain_def and_then_Inr)
next
  case (Some certs)
  then show ?thesis using assms by (cases certs; cases "hd certs") (auto simp: check_chain_def and_then_Inr)
qed

lemma check_attributes_valid:
  assumes "check_attributes L pem raw si e sd g = Inr (TsaValid g')"
  shows "\<exists>dn sn. map_of OID_TO_DIGEST_NAME (si_digestAlgorithm si) = Some dn \<and> map_of OID_TO_DIGEST_NAME (si_signatureAlgorithm si) = Some sn \<and>
    (\<exists>as v vs. si_signedAttrs si = Some as \<and> map_of as MESSAGE_DIGEST_ATTR_OID = Some (v # vs) \<and> tv_octets L v = Some (tv_hash L dn e)) \<and>
    check_chain L pem raw sn si sd g = Inr (TsaValid g')"
  using assms by (auto simp: check_attributes_def split: option.splits if_splits list.splits)

lemma check_token_valid:
  assumes "check_token L cert pem raw tok = Inr (TsaValid g)"
  shows "\<exists>content sd e tst si. tv_contentInfo L tok = Inr (''1.2.840.113549.1.7.2'', content) \<and> tv_signedData L content = Inr sd \<and>
    cms_eContent sd = Some e \<and> tv_tst L e = Inr tst \<and> tst_imprint tst = tv_hash L ''sha256'' (utf8 cert) \<and>
    cms_signerInfos sd = [si] \<and> check_attributes L pem raw si e sd (tst_genTime tst) = Inr (TsaValid g)"
  using assms by (auto simp: check_token_def and_then_Inr length_Suc_conv split: option.splits if_splits)

lemma verify_valid:
  assumes "verifyTsaTimestamp L cert ts pem = TsaValid g"
  shows "\<exists>i st tok. ts = Some i \<and> ti_status i = OBTAINED \<and> st \<in> {0, 1} \<and>
    tv_response L (b64_decode (the (ti_token i))) = Inr (st, Some tok) \<and>
    check_token L cert pem (b64_decode (the (ti_token i))) tok = Inr (TsaValid g)"
proof -
  obtain i where i: "ts = Some i" "ti_status i \<noteq> TSA_FAILED"
    using assms by (auto simp: verifyTsaTimestamp_def split: option.splits if_splits)
  then have "ti_status i = OBTAINED" by (cases "ti_status i") simp_all
  then show ?thesis using assms i
    by (auto simp: verifyTsaTimestamp_def Let_def and_then_def split: if_splits sum.splits option.splits prod.splits)
qed

text \<open>The client and the check read a reply with the same library.\<close>

definition same_library :: "tsa_client \<Rightarrow> tsa_library \<Rightarrow> bool" where
  "same_library T L \<longleftrightarrow> tv_response L = ta_response T \<and> tv_tst L = ta_tst T \<and>
     (\<forall>tok. ta_content T tok = and_then (tv_contentInfo L tok) (\<lambda>(_, content).
        and_then (tv_signedData L content) (\<lambda>sd. Inr (cms_eContent sd))))"

text \<open>
  C22. A time stamp obtained for one certificate is evidence for that one only: if the check calls it valid, whatever certificate it is
  shown with, then (with a collision-free hash) the certificate is the stamped one; the instant it reports is the one the token
  states; and the signature over the re-encoded attributes, which contain the digest of the token's content, verified under a
  certificate that the pinned authority issued and that was valid at that instant.
\<close>

theorem tsa_evidence_binds:
  assumes "same_library T L" and "inj_on (tv_hash L ''sha256'') {utf8 cert, utf8 cert'}"
    and "requestTimestamp T (hex_of (tv_hash L ''sha256'' (utf8 cert))) s = (Inr i, s')" and "ti_status i = OBTAINED"
    and "verifyTsaTimestamp L cert' (Some i) pem = TsaValid g"
  shows "cert' = cert \<and> (\<exists>e tst (si :: signer_info) dn sn as v vs attrs der leaf root.
    ta_tst T e = Inr tst \<and> tst_imprint tst = tv_hash L ''sha256'' (utf8 cert) \<and> tst_genTime tst = g \<and>
    map_of OID_TO_DIGEST_NAME (si_digestAlgorithm si) = Some dn \<and> map_of OID_TO_DIGEST_NAME (si_signatureAlgorithm si) = Some sn \<and>
    si_signedAttrs si = Some as \<and> map_of as MESSAGE_DIGEST_ATTR_OID = Some (v # vs) \<and> tv_octets L v = Some (tv_hash L dn e) \<and>
    extractReencodedSignedAttrs L (b64_decode (the (ti_token i))) = Inr attrs \<and> tv_certificate L der = Inr leaf \<and>
    tv_verify L sn attrs (xc_publicKey leaf) (si_signature si) = Inr True \<and> tv_pem L pem = Inr root \<and>
    tv_issued L leaf root \<and> tv_certVerify L leaf (xc_publicKey root) \<and> xc_validFrom leaf \<le> g \<and> g \<le> xc_validTo leaf)"
proof -
  let ?raw = "b64_decode (the (ti_token i))"
  obtain pki tok c tst where stamped: "ta_response T ?raw = Inr (pki, Some tok)" "ta_content T tok = Inr (Some c)"
      "ta_tst T c = Inr tst" "tst_imprint tst = tv_hash L ''sha256'' (utf8 cert)"
    using timestamp_obtained_only_if_ours[of T "tv_hash L ''sha256'' (utf8 cert)" s] assms(3,4) by auto
  obtain tok' where t': "tv_response L ?raw = Inr (fst (the (Some (pki, tok))), Some tok')"
      "check_token L cert' pem ?raw tok' = Inr (TsaValid g)"
    using verify_valid[OF assms(5)] stamped(1) assms(1) by (auto simp: same_library_def)
  then have tok: "tok' = tok" using stamped(1) assms(1) by (auto simp: same_library_def)
  obtain content sd e tst' si where ct: "tv_contentInfo L tok = Inr (''1.2.840.113549.1.7.2'', content)" "tv_signedData L content = Inr sd"
      "cms_eContent sd = Some e" "tv_tst L e = Inr tst'" "tst_imprint tst' = tv_hash L ''sha256'' (utf8 cert')"
      "check_attributes L pem ?raw si e sd (tst_genTime tst') = Inr (TsaValid g)"
    using check_token_valid[OF t'(2)[unfolded tok]] by blast
  have "ta_content T tok = Inr (Some e)" using assms(1) ct(1-3) by (simp add: same_library_def and_then_def)
  then have "e = c" using stamped(2) by simp
  then have "tst' = tst" using ct(4) stamped(3) assms(1) by (simp add: same_library_def)
  then have same: "tv_hash L ''sha256'' (utf8 cert') = tv_hash L ''sha256'' (utf8 cert)" using ct(5) stamped(4) by simp
  have "utf8 cert' = utf8 cert" by (rule inj_onD[OF assms(2)], rule same) simp_all
  then have "cert' = cert" by simp
  obtain dn sn as v vs where at: "map_of OID_TO_DIGEST_NAME (si_digestAlgorithm si) = Some dn" "map_of OID_TO_DIGEST_NAME (si_signatureAlgorithm si) = Some sn"
      "si_signedAttrs si = Some as" "map_of as MESSAGE_DIGEST_ATTR_OID = Some (v # vs)" "tv_octets L v = Some (tv_hash L dn e)"
      "check_chain L pem ?raw sn si sd (tst_genTime tst') = Inr (TsaValid g)"
    using check_attributes_valid[OF ct(6)] by blast
  obtain attrs der where ch: "extractReencodedSignedAttrs L ?raw = Inr attrs"
      "check_leaf L pem sn si (tst_genTime tst') attrs der = Inr (TsaValid g)"
    using check_chain_valid[OF at(6)] by blast
  have g: "tst_genTime tst' = g" using check_leaf_valid[OF ch(2)] by simp
  obtain leaf root where lf: "tv_certificate L der = Inr leaf" "tv_verify L sn attrs (xc_publicKey leaf) (si_signature si) = Inr True"
      "tv_pem L pem = Inr root" "tv_issued L leaf root" "tv_certVerify L leaf (xc_publicKey root)" "xc_validFrom leaf \<le> g" "g \<le> xc_validTo leaf"
    using check_leaf_valid[OF ch(2)] unfolding g by blast
  have "ta_tst T e = Inr tst'" using ct(4) assms(1) by (simp add: same_library_def)
  moreover have "tst_imprint tst' = tv_hash L ''sha256'' (utf8 cert)" using ct(5) \<open>cert' = cert\<close> by simp
  ultimately show ?thesis using \<open>cert' = cert\<close> g at(1-5) ch(1) lf by blast
qed

section \<open>What a valid entry of the log says\<close>

lemma stringify_jopt_inject: "stringify (jopt p) = stringify (jopt p') \<Longrightarrow> p = p'"
proof (cases p)
  case None
  assume "stringify (jopt p) = stringify (jopt p')"
  then show ?thesis using None by (cases p') (simp_all add: jopt_def json_quote_def)
next
  case (Some x)
  assume eq: "stringify (jopt p) = stringify (jopt p')"
  then obtain y where y: "p' = Some y" using Some by (cases p') (simp_all add: jopt_def json_quote_def)
  have "json_quote x @ [] = json_quote y @ []" using eq Some y by (simp add: jopt_def)
  from json_quote_cancel[OF this] show ?thesis using Some y by simp
qed

lemma rekor_payload_inject: "rekor_payload h p = rekor_payload h' p' \<longleftrightarrow> h = h' \<and> p = p'"
proof
  let ?q = "\<lambda>p. stringify (jopt p) @ [CHR 0x7D]"
  have printed: "rekor_payload h p = [CHR 0x7B] @ json_quote ''certificateHash'' @ '':'' @ json_quote h @ '','' @
      json_quote ''previousCertificateHash'' @ '':'' @ ?q p" for h p
    by (simp add: rekor_payload_def)
  assume "rekor_payload h p = rekor_payload h' p'"
  then have "json_quote h @ '','' @ json_quote ''previousCertificateHash'' @ '':'' @ ?q p =
      json_quote h' @ '','' @ json_quote ''previousCertificateHash'' @ '':'' @ ?q p'"
    unfolding printed by simp
  then have h: "h = h'" and "?q p = ?q p'" by (auto dest: json_quote_cancel)
  then have "stringify (jopt p) = stringify (jopt p')" by simp
  then have "p = p'" by (rule stringify_jopt_inject)
  with h show "h = h' \<and> p = p'" by simp
qed simp

text \<open>
  What Rekor documents: an entry accepted with status 201 is answered under its identifier as the only member of an object,
  its body base64 encoded. The body is a canonical form of what was posted: the members may come in another order and the
  signature and its key in another encoding, but kind, version and the hash are those of the posted entry.
\<close>

definition member_at :: "string list \<Rightarrow> json \<Rightarrow> json option" where
  "member_at path j = foldl (\<lambda>v k. jget k v) (Some j) path"

definition canonical_form :: "json \<Rightarrow> json \<Rightarrow> bool" where
  "canonical_form posted stored \<longleftrightarrow>
     (\<forall>path \<in> {[''kind''], [''apiVersion''], [''spec'', ''data'', ''hash'', ''algorithm''], [''spec'', ''data'', ''hash'', ''value'']}.
        member_at path stored = member_at path posted)"

definition log_keeps :: "rekor_client \<Rightarrow> rekor_library \<Rightarrow> bool" where
  "log_keeps R L \<longleftrightarrow> (\<forall>signature pem d data uuid.
     rk_post R (rk_url R @ ''/api/v1/log/entries'') (rekor_body signature pem d) = Inr (201, data) \<and> first_of (map fst data) = Some uuid \<longrightarrow>
     uuid \<noteq> [] \<and> (\<exists>key bs entry. bs \<noteq> [] \<and>
       rl_get L (rk_url R @ ''/api/v1/log/entries/'' @ uuid) = Inr (200, [(key, Some (Some (b64_encode bs)))]) \<and>
       rl_parse L bs = Inr entry \<and> canonical_form (rekor_body signature pem d) entry))"

lemma published_posted:
  assumes "publishCertificateHash R h p s = (Inr i, s')" and "ri_status i = PUBLISHED"
  shows "\<exists>sig pem data. rk_post R (rk_url R @ ''/api/v1/log/entries'')
      (rekor_body sig pem (hex_of (rk_sha R (utf8 (rekor_payload h p))))) = Inr (201, data) \<and>
    ri_entryUuid i = first_of (map fst data) \<and> ri_url i = rk_url R"
proof -
  define m :: "('a cworld_scheme, rekor_info) eff" where
    "m = (let payload = rekor_payload h p; payloadDigestHex = hex_of (rk_sha R (utf8 payload)) in
        bnd (rekor_version_path R) (\<lambda>keyVersionPath.
        bnd (asymmetricSign (rk_kms R) (rk_sha R) payload keyVersionPath) (\<lambda>signature.
        bnd (getPublicKey (rk_kms R) keyVersionPath) (\<lambda>publicKeyPem.
        bnd (rcall (\<lambda>_. rk_post R (rk_url R @ ''/api/v1/log/entries'') (rekor_body signature publicKeyPem payloadDigestHex)))
          (\<lambda>(status, data). ret (rekor_reply R (isoString (now s)) status data))))))"
  have run: "catch m (\<lambda>e. ret (rekor_failed R (isoString (now s)) (message_of e))) s = (Inr i, s')"
    using assms(1) by (simp add: publishCertificateHash_def m_def Let_def)
  have "m s = (Inr i, s')"
  proof (cases "fst (m s)")
    case (Inl e)
    then have "i = rekor_failed R (isoString (now s)) (message_of e)" using run by (cases "m s") (auto simp: catch_apply)
    then show ?thesis using assms(2) by (simp add: rekor_failed_def)
  next
    case (Inr x)
    then show ?thesis using run by (cases "m s") (auto simp: catch_apply)
  qed
  then obtain sig pem status data where
    post: "rk_post R (rk_url R @ ''/api/v1/log/entries'') (rekor_body sig pem (hex_of (rk_sha R (utf8 (rekor_payload h p))))) = Inr (status, data)"
    and i: "i = rekor_reply R (isoString (now s)) status data"
    unfolding m_def Let_def by (auto elim!: bnd_InrE dest!: rcall_Inr split: prod.splits)
  have "status = 201" using assms(2) i by (auto simp: rekor_reply_def rekor_failed_def split: if_splits)
  then show ?thesis using post i by (auto simp: rekor_reply_def Let_def)
qed

lemma check_published:
  assumes "inj_on (rl_sha L) {utf8 (rekor_payload h p), utf8 (rekor_payload h' p')}" and "rl_sha L (utf8 (rekor_payload h p)) \<noteq> []"
    and "canonical_form (rekor_body sig pem (hex_of (rl_sha L (utf8 (rekor_payload h p))))) entry"
  shows "check_rekor_hash L h' p' e entry =
    (if h' = h \<and> p' = p then RekorValid (the (ri_entryUuid e)) (ri_logIndex e) (ri_url e) else RekorInvalid hash_mismatch)"
proof -
  let ?d = "\<lambda>h p. hex_of (rl_sha L (utf8 (rekor_payload h p)))"
  have eq: "?d h p = ?d h' p' \<longleftrightarrow> h' = h \<and> p' = p"
    using assms(1) by (auto simp: inj_on_def rekor_payload_inject)
  have ne: "?d h p \<noteq> []" using assms(2) by (auto simp: hex_of_def)
  have "jget ''algorithm'' (jget ''hash'' (jget ''data'' (jget ''spec'' (Some entry)))) = Some (JStr ''sha256'')"
    "jget ''value'' (jget ''hash'' (jget ''data'' (jget ''spec'' (Some entry)))) = Some (JStr (?d h p))"
    using assms(3) by (simp_all add: canonical_form_def member_at_def rekor_body_def jget_def[of k "Some (JObj fs)" for k fs])
  then show ?thesis using ne eq unfolding check_rekor_hash_def Let_def by (simp add: jtruthy_def)
qed

text \<open>
  C23. The entry of the log binds a certificate to its place in the chain: what the client published for a certificate hash and
  its predecessor, and the log kept as it documents (in canonical form), is judged valid for exactly this pair. A certificate
  shown with another hash, or with another predecessor (also with none), is told that the entry does not match.
\<close>

theorem rekor_evidence_binds:
  assumes "publishCertificateHash R h p s = (Inr i, s')" and "ri_status i = PUBLISHED" and "ri_entryUuid i \<noteq> None"
    and "log_keeps R L" and "rl_sha L = rk_sha R" and "rk_sha R (utf8 (rekor_payload h p)) \<noteq> []"
    and "inj_on (rk_sha R) {utf8 (rekor_payload h p), utf8 (rekor_payload h' p')}" and "outcomes u = []"
  shows "verifyRekorEntry L h' p' (Some i) u =
    (Inr (if h' = h \<and> p' = p then RekorValid (the (ri_entryUuid i)) (ri_logIndex i) (ri_url i)
          else RekorInvalid hash_mismatch), u)"
proof -
  obtain sig pem data where post: "rk_post R (rk_url R @ ''/api/v1/log/entries'')
      (rekor_body sig pem (hex_of (rk_sha R (utf8 (rekor_payload h p))))) = Inr (201, data)"
    and i: "ri_entryUuid i = first_of (map fst data)" "ri_url i = rk_url R"
    using published_posted[OF assms(1,2)] by blast
  obtain uuid where uuid: "ri_entryUuid i = Some uuid" using assms(3) by blast
  obtain key bs entry where kept: "uuid \<noteq> []" "bs \<noteq> []"
      "rl_get L (rk_url R @ ''/api/v1/log/entries/'' @ uuid) = Inr (200, [(key, Some (Some (b64_encode bs)))])"
      "rl_parse L bs = Inr entry" "canonical_form (rekor_body sig pem (hex_of (rk_sha R (utf8 (rekor_payload h p))))) entry"
    using assms(4) post i(1) uuid unfolding log_keeps_def by metis
  have ne: "b64_encode bs \<noteq> []" using kept(2) by simp
  have verdict: "check_rekor_hash L h' p' i entry =
      (if h' = h \<and> p' = p then RekorValid (the (ri_entryUuid i)) (ri_logIndex i) (ri_url i) else RekorInvalid hash_mismatch)"
    using check_published[of L h p h' p' sig pem entry i] assms(6,7) kept(5) unfolding assms(5) by blast
  have found: "rekor_entry_of [(key, Some (Some x))] uuid = Some (Some x)" for x
    by (simp add: rekor_entry_of_def)
  show ?thesis
    using assms(2,8) i(2) uuid kept(1,3,4) ne verdict found
    by (simp add: verifyRekorEntry_def truthy_def no_faults bnd_apply catch_apply Let_def)
qed

text \<open>
  The check asks whatever address the stored record names, and looks at the recorded hash only: a server of the record's own
  choosing, answering under any key with nothing but the digest, passes for the log.
\<close>

lemma any_answer_valid:
  assumes "ri_status e = PUBLISHED" and "ri_entryUuid e = Some uuid" and "uuid \<noteq> []" and "outcomes s = []" and "k \<noteq> uuid"
    and "rl_get L (ri_url e @ ''/api/v1/log/entries/'' @ uuid) = Inr (200, [(k, Some (Some answer))])" and "answer \<noteq> []"
    and "rl_sha L (utf8 (rekor_payload h p)) \<noteq> []"
    and "rl_parse L (b64_decode answer) = Inr (JObj [(''spec'', JObj [(''data'', JObj [(''hash'',
      JObj [(''algorithm'', JStr ''sha256''), (''value'', JStr (hex_of (rl_sha L (utf8 (rekor_payload h p)))))])])])])"
  shows "verifyRekorEntry L h p (Some e) s = (Inr (RekorValid uuid (ri_logIndex e) (ri_url e)), s)"
proof -
  have "hex_of (rl_sha L (utf8 (rekor_payload h p))) \<noteq> []" using assms(8) by (auto simp: hex_of_def)
  then show ?thesis using assms
    by (simp add: verifyRekorEntry_def truthy_def no_faults bnd_apply catch_apply Let_def rekor_entry_of_def check_rekor_hash_def
        jget_def jtruthy_def)
qed

section \<open>Evidence at work\<close>

definition toy_ber :: ber where
  "toy_ber = (let x = Ber 1 16 [] []; si = Ber 1 16 [x, Ber 3 0 [] [0xA0, 1]] []; sd = Ber 1 16 [x, Ber 1 17 [si] []] [] in
     Ber 1 16 [x, Ber 1 16 [x, Ber 3 0 [sd] []] []] [])"

definition toy_tsa_library :: tsa_library where
  "toy_tsa_library = \<lparr>tv_response = ta_response toy_tsa, tv_contentInfo = (\<lambda>b. Inr (''1.2.840.113549.1.7.2'', b)),
     tv_signedData = (\<lambda>b. Inr \<lparr>cms_eContent = Some b,
       cms_signerInfos = [\<lparr>si_digestAlgorithm = ''2.16.840.1.101.3.4.2.1'', si_signatureAlgorithm = ''1.2.840.10045.4.3.2'',
         si_signedAttrs = Some [(MESSAGE_DIGEST_ATTR_OID, [[9]])], si_signature = [5]\<rparr>],
       cms_certificates = Some [Some [7]]\<rparr>),
     tv_tst = ta_tst toy_tsa, tv_fromBER = (\<lambda>_. Some toy_ber), tv_octets = (\<lambda>_. Some [1, 2]),
     tv_certificate = (\<lambda>_. Inr \<lparr>xc_publicKey = [3], xc_validFrom = -1, xc_validTo = 1\<rparr>),
     tv_pem = (\<lambda>_. Inr \<lparr>xc_publicKey = [4], xc_validFrom = -1, xc_validTo = 1\<rparr>), tv_hash = (\<lambda>_ _. [1, 2]),
     tv_verify = (\<lambda>_ a _ g. Inr (a = [0x31, 1] \<and> g = [5])), tv_issued = (\<lambda>_ _. True), tv_certVerify = (\<lambda>_ _. True)\<rparr>"

lemma toy_stamp:
  "\<exists>i s'. requestTimestamp toy_tsa (hex_of [1, 2]) (toy_cworld Map.empty [] []) = (Inr i, s') \<and> ti_status i = OBTAINED \<and>
     ti_token i = Some (b64_encode [1, 2, 0x7F, 0xFF, 0xFF, 0xFF, 0xFF, 0xFF, 0xFF, 0xFF])"
proof -
  have r: "replicate 8 (0xFF :: 8 word) = [0xFF, 0xFF, 0xFF, 0xFF, 0xFF, 0xFF, 0xFF, 0xFF]"
    by (simp add: eval_nat_numeral)
  show ?thesis
    by (simp add: requestTimestamp_def Let_def bnd_apply catch_apply toy_tsa_def toy_cworld_defs no_faults check_reply_def
        check_tst_def r positive_nonce_def)
qed

lemma toy_stamp_valid:
  assumes "ti_status i = OBTAINED" and "ti_token i = Some (b64_encode (1 # 2 # bs))"
  shows "verifyTsaTimestamp toy_tsa_library cert (Some i) pem = TsaValid 0"
proof -
  have attrs: "extractReencodedSignedAttrs toy_tsa_library raw = Inr [0x31, 1]" for raw
    by (simp add: extractReencodedSignedAttrs_def toy_tsa_library_def toy_ber_def Let_def and_then_def child_def nth_opt_def
        last_child_def findChildByContextTag_def)
  have oids: "map_of OID_TO_DIGEST_NAME ''2.16.840.1.101.3.4.2.1'' = Some ''sha256''"
    "map_of OID_TO_DIGEST_NAME ''1.2.840.10045.4.3.2'' = Some ''sha256''"
    by (simp_all add: OID_TO_DIGEST_NAME_def)
  have "check_token toy_tsa_library cert pem raw (1 # 2 # bs) = Inr (TsaValid 0)" for raw
    by (simp add: check_token_def check_attributes_def check_chain_def check_leaf_def attrs oids and_then_def
        toy_tsa_library_def[unfolded toy_tsa_def])
      (simp add: attrs[unfolded toy_tsa_library_def toy_tsa_def, simplified] and_then_def)
  then show ?thesis using assms
    by (simp add: verifyTsaTimestamp_def truthy_def Let_def and_then_def) (simp add: toy_tsa_library_def toy_tsa_def)
qed

lemma tsa_evidence_binds_witness:
  "\<exists>i s'. requestTimestamp toy_tsa (hex_of [1, 2]) (toy_cworld Map.empty [] []) = (Inr i, s') \<and>
     verifyTsaTimestamp toy_tsa_library ''cert'' (Some i) ''pem'' = TsaValid 0 \<and>
     (\<exists>e tst. ta_tst toy_tsa e = Inr tst \<and> tst_imprint tst = [1, 2] \<and> tst_genTime tst = 0)"
proof -
  obtain i s' where run: "requestTimestamp toy_tsa (hex_of [1, 2]) (toy_cworld Map.empty [] []) = (Inr i, s')"
    and i: "ti_status i = OBTAINED" "ti_token i = Some (b64_encode [1, 2, 0x7F, 0xFF, 0xFF, 0xFF, 0xFF, 0xFF, 0xFF, 0xFF])"
    using toy_stamp by blast
  have h: "tv_hash toy_tsa_library x y = [1, 2]" for x y by (simp add: toy_tsa_library_def)
  have lib: "same_library toy_tsa toy_tsa_library"
    by (simp add: same_library_def toy_tsa_library_def toy_tsa_def and_then_def)
  note v = toy_stamp_valid[OF i, of "''cert''" "''pem''"]
  have "inj_on (tv_hash toy_tsa_library ''sha256'') {utf8 ''cert'', utf8 ''cert''}" by simp
  from tsa_evidence_binds[OF lib this, unfolded h, OF run i(1) v] run v show ?thesis by blast
qed

definition toy_posted :: json where
  "toy_posted = rekor_body (utf8 (rekor_payload ''h'' None)) ''pem'' (hex_of (utf8 (rekor_payload ''h'' None)))"

definition toy_rekor :: rekor_client where
  "toy_rekor = \<lparr>rk_url = ''r'', rk_kms = sg_kms toy_signer, rk_client = sg_client toy_signer, rk_sha = (\<lambda>b. b),
     rk_versions = [\<lparr>kv_name = Some ''k/1'', kv_state = ENABLED\<rparr>],
     rk_post = (\<lambda>_ j. if j = toy_posted then Inr (201, [(''u'', Some 7)]) else Inr (400, []))\<rparr>"

text \<open>The log sorts the members.\<close>

definition toy_stored :: json where
  "toy_stored =
     JObj [(''apiVersion'', JStr ''0.0.1''), (''kind'', JStr ''hashedrekord''),
       (''spec'', JObj [
         (''data'', JObj [(''hash'', JObj [(''algorithm'', JStr ''sha256''), (''value'', JStr (hex_of (utf8 (rekor_payload ''h'' None))))])]),
         (''signature'', JObj [(''content'', JStr ''c2ln''), (''publicKey'', JObj [(''content'', JStr ''cGVt'')])])])]"

definition toy_log :: rekor_library where
  "toy_log = \<lparr>rl_get = (\<lambda>_. Inr (200, [(''u'', Some (Some (b64_encode (utf8 (stringify toy_stored)))))])),
     rl_parse = (\<lambda>_. Inr toy_stored), rl_sha = (\<lambda>b. b)\<rparr>"

lemma toy_published:
  "\<exists>i s'. publishCertificateHash toy_rekor ''h'' None (toy_cworld Map.empty [] []) = (Inr i, s') \<and>
     ri_status i = PUBLISHED \<and> ri_entryUuid i = Some ''u''"
proof -
  have v: "\<exists>v. getNewestEnabledVersion (getCryptoKeyPath (sg_client toy_signer)) [\<lparr>kv_name = Some ''k/1'', kv_state = ENABLED\<rparr>] = Inr v"
    by (simp add: getNewestEnabledVersion_def toy_signer_def Let_def listEnabledVersions_def truthy_def split: option.split)
  then obtain v where v: "getNewestEnabledVersion (getCryptoKeyPath (sg_client toy_signer)) [\<lparr>kv_name = Some ''k/1'', kv_state = ENABLED\<rparr>] = Inr v"
    by blast
  have w: "outcomes (toy_cworld Map.empty [] []) = []" by (simp add: toy_cworld_defs)
  have k: "kms_sign (sg_kms toy_signer) v d = Some d" "kms_pem (sg_kms toy_signer) v = Some ''pem''" for d
    by (simp_all add: toy_signer_def)
  show ?thesis using v w k
    by (simp add: publishCertificateHash_def Let_def bnd_apply catch_apply rekor_version_path_def toy_rekor_def no_faults
        asymmetricSign_def getPublicKey_def or_else_def toy_posted_def[symmetric] rekor_reply_def first_of_def truthy_def)
qed

lemma rekor_evidence_binds_witness:
  "\<exists>i s'. publishCertificateHash toy_rekor ''h'' None (toy_cworld Map.empty [] []) = (Inr i, s') \<and>
     (\<exists>n u. verifyRekorEntry toy_log ''h'' None (Some i) (toy_cworld Map.empty [] []) = (Inr (RekorValid ''u'' n u), toy_cworld Map.empty [] [])) \<and>
     (\<exists>m. verifyRekorEntry toy_log ''h'' (Some ''g'') (Some i) (toy_cworld Map.empty [] []) = (Inr (RekorInvalid m), toy_cworld Map.empty [] []))"
proof -
  let ?w = "toy_cworld Map.empty [] []"
  obtain i s' where run: "publishCertificateHash toy_rekor ''h'' None ?w = (Inr i, s')" "ri_status i = PUBLISHED" and u: "ri_entryUuid i = Some ''u''"
    using toy_published by blast
  have form: "canonical_form toy_posted toy_stored"
    by (simp add: canonical_form_def member_at_def toy_posted_def toy_stored_def rekor_body_def jget_def)
  have "utf8 (stringify toy_stored) \<noteq> []" by (simp add: toy_stored_def utf8_def)
  then have keeps: "log_keeps toy_rekor toy_log"
    using form by (auto simp: log_keeps_def toy_rekor_def toy_log_def first_of_def split: if_splits)
  have sha: "rl_sha toy_log = rk_sha toy_rekor" "rk_sha toy_rekor = (\<lambda>b. b)" by (simp_all add: toy_log_def toy_rekor_def)
  have ne: "rk_sha toy_rekor (utf8 (rekor_payload ''h'' None)) \<noteq> []" by (simp add: sha(2) rekor_payload_def utf8_def)
  have w: "outcomes ?w = []" by (simp add: toy_cworld_defs)
  have inj: "inj_on (rk_sha toy_rekor) A" for A by (simp add: sha(2))
  have "ri_entryUuid i \<noteq> None" using u by simp
  note r = rekor_evidence_binds[OF run this keeps sha(1) ne inj w]
  from r[of "''h''" None] r[of "''h''" "Some ''g''"] show ?thesis using run(1) u by auto
qed

end
