(* ===== verification/Platform.thy ===== *)
theory Platform
  imports EvidenceVerify CertService
begin

text \<open>
  What surrounds the vault's own logic: required environment variables (\<open>src/config/env.ts\<close>), the health check
  (\<open>src/routes/health.ts\<close>), the version routes (\<open>src/routes/version.ts\<close>, \<open>src/gcp/source-staleness-checker.ts\<close>), the
  metadata secret (\<open>src/gcp/secret-manager.ts\<close>), the dispatch of the JWKS snapshot
  (\<open>src/gcp/github-actions-client.ts\<close>), the mirror of the log (\<open>src/logging/index.ts\<close>,
  \<open>src/logging/cloud-logging.ts\<close>) and the script that checks a certificate (\<open>verify-cert.ts\<close>). Secrets, dispatches and log
  entries are part of the world; the JSON parser, the remote answers and the token library are arguments.
\<close>

section \<open>Environment variables\<close>

type_synonym environment = "string \<rightharpoonup> string"

definition getRequiredEnv :: "environment \<Rightarrow> string \<Rightarrow> string option \<Rightarrow> exn + string" where
  "getRequiredEnv environ name testDefault =
     (let val = environ name in
      if truthy val then Inr (the val)
      else if environ ''NODE_ENV'' = Some ''test'' \<and> testDefault \<noteq> None then Inr (the testDefault)
      else Inl (Err (''Missing required environment variable: '' @ name)))"

section \<open>Health\<close>

definition CHECK_TIMEOUT_MS :: int where
  "CHECK_TIMEOUT_MS = 3000"

datatype check_result = CheckOk | CheckFailed string

text \<open>
  The race of a check with the timer; when both are due in the same millisecond, \<open>tie\<close> says whether the check comes first.
\<close>

definition withTimeout :: "bool \<Rightarrow> ('z env_scheme, unit) eff \<Rightarrow> string \<Rightarrow> 'z env_scheme \<Rightarrow> check_result \<times> 'z env_scheme" where
  "withTimeout tie promise label = (\<lambda>s.
     case promise s of (r, t) \<Rightarrow>
       let elapsed = now t - now s in
       if elapsed < CHECK_TIMEOUT_MS \<or> elapsed = CHECK_TIMEOUT_MS \<and> tie
       then (case r of Inr _ \<Rightarrow> CheckOk | Inl e \<Rightarrow> CheckFailed (message_of e), t)
       else (CheckFailed (label @ '' check timed out after '' @ int_str CHECK_TIMEOUT_MS @ ''ms''),
             t\<lparr>now := now s + CHECK_TIMEOUT_MS\<rparr>))"

text \<open>Two promises side by side: the second starts when the first does, and both are awaited.\<close>

definition both :: "('z env_scheme \<Rightarrow> 'a \<times> 'z env_scheme) \<Rightarrow> ('z env_scheme \<Rightarrow> 'b \<times> 'z env_scheme) \<Rightarrow> 'z env_scheme \<Rightarrow> ('a \<times> 'b) \<times> 'z env_scheme" where
  "both f g = (\<lambda>s. case f s of (a, t) \<Rightarrow> (case g (t\<lparr>now := now s\<rparr>) of (b, u) \<Rightarrow> ((a, b), u\<lparr>now := max (now t) (now u)\<rparr>)))"

definition check_json :: "check_result \<Rightarrow> json" where
  "check_json r = JObj (case r of CheckOk \<Rightarrow> [(''ok'', JBool True)] | CheckFailed e \<Rightarrow> [(''ok'', JBool False), (''error'', JStr e)])"

definition get_health :: "bool \<Rightarrow> kms_client \<Rightarrow> 'z kmsworld_scheme \<Rightarrow> reply \<times> 'z kmsworld_scheme" where
  "get_health tie kms = (\<lambda>s.
     case both (withTimeout tie ping_registry ''Firestore'') (withTimeout tie (ping_kms kms) ''KMS'') s of
       ((firestoreResult, kmsResult), t) \<Rightarrow>
         let healthy = firestoreResult = CheckOk \<and> kmsResult = CheckOk in
         (send (if healthy then 200 else 503)
            [(''status'', JStr (if healthy then ''ok'' else ''degraded'')), (''timestamp'', JStr (isoString (now t))),
             (''service'', JStr ''chameleon-key-vault''), (''version'', JStr ''0.1.0''),
             (''dependencies'', JObj [(''firestore'', check_json firestoreResult), (''kms'', check_json kmsResult)])], t))"

section \<open>Secrets\<close>

datatype secret_data = NoData | TextData string | BytesData bytes

text \<open>The versions of each secret, oldest first; the bodies of the dispatches GitHub received; the log.\<close>

record dispatch =
  dp_url :: string
  dp_authorization :: string
  dp_newKid :: string
  dp_baseUrl :: string

datatype severity = DEFAULT | DEBUG | INFO | NOTICE | WARNING | ERROR | CRITICAL | ALERT | EMERGENCY

record cloud_entry =
  ce_severity :: severity
  ce_payload :: "(string \<times> json) list"

record platform = env +
  secrets :: "string \<rightharpoonup> secret_data list"
  checker_url :: "string option"
  dispatches :: "dispatch list"
  cloud_log :: "cloud_entry list"

definition secretPath :: "string \<Rightarrow> string \<Rightarrow> string" where
  "secretPath project secretName = ''projects/'' @ project @ ''/secrets/'' @ secretName"

definition accessLatest :: "string \<Rightarrow> ('z platform_scheme, secret_data) eff" where
  "accessLatest path = rcall (\<lambda>s. case secrets s path of
     None \<Rightarrow> Inl (CodeErr 5)
   | Some vs \<Rightarrow> if vs = [] then Inl (CodeErr 5) else Inr (last vs))"

definition addSecretVersion :: "string \<Rightarrow> secret_data \<Rightarrow> ('z platform_scheme, unit) eff" where
  "addSecretVersion path d = rtxn (\<lambda>s. case secrets s path of
     None \<Rightarrow> (Inl (CodeErr 5), s)
   | Some vs \<Rightarrow> (Inr (), s\<lparr>secrets := (secrets s)(path \<mapsto> vs @ [d])\<rparr>))"

text \<open>\<open>data ?? ''\<close> as text\<close>

definition secret_text :: "secret_data \<Rightarrow> string" where
  "secret_text d = (case d of NoData \<Rightarrow> [] | TextData x \<Rightarrow> x | BytesData b \<Rightarrow> of_utf8 b)"

record CMEKMetadata =
  cm_regionalKeyRingName :: string
  cm_bigqueryKeyRingName :: string
  cm_bigqueryKeyName :: string
  cm_firestoreKeyName :: string
  cm_gcsKeyName :: string
  cm_rotationPeriod :: string
  cm_environment :: string

definition cmek_json :: "CMEKMetadata \<Rightarrow> json" where
  "cmek_json m = JObj
     [(''regionalKeyRingName'', JStr (cm_regionalKeyRingName m)), (''bigqueryKeyRingName'', JStr (cm_bigqueryKeyRingName m)),
      (''bigqueryKeyName'', JStr (cm_bigqueryKeyName m)), (''firestoreKeyName'', JStr (cm_firestoreKeyName m)),
      (''gcsKeyName'', JStr (cm_gcsKeyName m)), (''rotationPeriod'', JStr (cm_rotationPeriod m)),
      (''environment'', JStr (cm_environment m))]"

text \<open>The value read is cast to the metadata without a check, so it is any JSON value.\<close>

definition getCMEKMetadata :: "(string \<Rightarrow> exn + json) \<Rightarrow> string \<Rightarrow> string \<Rightarrow> ('z platform_scheme, json) eff" where
  "getCMEKMetadata parse project secretName =
     bnd (accessLatest (secretPath project secretName)) (\<lambda>d.
     if d = NoData \<or> d = TextData [] then throw (Err ''Secret Manager returned empty payload'')
     else lift (parse (secret_text d)))"

definition updateCMEKMetadata :: "string \<Rightarrow> string \<Rightarrow> CMEKMetadata \<Rightarrow> ('z platform_scheme, unit) eff" where
  "updateCMEKMetadata project secretName metadata =
     addSecretVersion (secretPath project secretName) (BytesData (utf8 (stringify (cmek_json metadata))))"

section \<open>Versions\<close>

definition SOURCE_SHAS_KEY :: string where
  "SOURCE_SHAS_KEY = ''key-vault''"

definition or_null :: "json option \<Rightarrow> json" where
  "or_null j = (case j of None \<Rightarrow> JNull | Some x \<Rightarrow> x)"

definition get_version :: "environment \<Rightarrow> (string \<Rightarrow> exn + json) \<Rightarrow> ('z platform_scheme, reply) eff" where
  "get_version environ parse =
     (let project = environ ''GCP_PROJECT_ID'' in
      bnd (if truthy project then
             catch
               (bnd (accessLatest (secretPath (the project) ''chameleon-source-shas'')) (\<lambda>d.
                bnd (lift (parse (secret_text d))) (\<lambda>j. ret (Some j))))
               (\<lambda>_. ret None)
           else ret None) (\<lambda>sources.
      ret (send 200
        [(''service'', JStr ''chameleon-key-vault''), (''sourceSha'', or_null (jget SOURCE_SHAS_KEY sources)),
         (''builtAt'', or_null (jget ''builtAt'' sources)), (''sources'', or_null sources)])))"

record staleness_checker =
  sc_projectId :: string
  sc_region :: string
  sc_serviceName :: string
  sc_uri :: "string \<Rightarrow> string option"
  sc_result :: "string \<Rightarrow> exn + json"

definition checker_resolve :: "staleness_checker \<Rightarrow> ('z platform_scheme, string) eff" where
  "checker_resolve W =
     bnd (gets checker_url) (\<lambda>cached.
     if truthy cached then ret (the cached)
     else
       bnd (rread (\<lambda>_. ())) (\<lambda>_.
       bnd (rread (\<lambda>_. sc_uri W (''https://run.googleapis.com/v2/projects/'' @ sc_projectId W @ ''/locations/'' @ sc_region W @
              ''/services/'' @ sc_serviceName W))) (\<lambda>uri.
       if \<not> truthy uri then throw (Err (''Cloud Run Admin API returned no uri for service '' @ sc_serviceName W))
       else bnd (modify (\<lambda>s. s\<lparr>checker_url := uri\<rparr>)) (\<lambda>_. ret (the uri)))))"

definition check_staleness :: "staleness_checker \<Rightarrow> ('z platform_scheme, json) eff" where
  "check_staleness W =
     bnd (checker_resolve W) (\<lambda>workerUrl.
     bnd (rread (\<lambda>_. ())) (\<lambda>_.
     rcall (\<lambda>_. sc_result W (workerUrl @ ''/api/v1/source-staleness-check''))))"

definition get_source_staleness :: "staleness_checker option \<Rightarrow> ('z platform_scheme, reply) eff" where
  "get_source_staleness sourceStalenessChecker =
     (case sourceStalenessChecker of
        None \<Rightarrow> ret (send 200 [(''status'', JStr ''not_applicable''), (''reason'', JStr ''PII Ingestor Worker not configured'')])
      | Some W \<Rightarrow>
          catch (bnd (check_staleness W) (\<lambda>result. ret \<lparr>code = 200, body = result\<rparr>))
            (\<lambda>_. ret (send 502 [(''status'', JStr ''error''), (''reason'', JStr ''Failed to reach the PII Ingestor Worker'')])))"

section \<open>The dispatch of a snapshot\<close>

record github_config =
  gh_token :: string
  gh_owner :: string
  gh_repo :: string
  gh_workflowFile :: string

text \<open>\<open>answer\<close> is the status GitHub answers with; a status below 300 means the dispatch was taken. Both outcomes are only logged.\<close>

definition dispatchJwksSnapshot :: "github_config \<Rightarrow> nat \<Rightarrow> string \<Rightarrow> string \<Rightarrow> ('z platform_scheme, unit) eff" where
  "dispatchJwksSnapshot G answer newKid baseUrl =
     swallow
       (bnd (rwrite (\<lambda>s. if answer \<ge> 300 then s else s\<lparr>dispatches := dispatches s @
          [\<lparr>dp_url = ''https://api.github.com/repos/'' @ gh_owner G @ ''/'' @ gh_repo G @ ''/actions/workflows/'' @ gh_workflowFile G @ ''/dispatches'',
            dp_authorization = ''Bearer '' @ gh_token G, dp_newKid = newKid, dp_baseUrl = baseUrl\<rparr>]\<rparr>)) (\<lambda>_. ret ()))"

section \<open>The mirror of the log\<close>

text \<open>An argument of a log call: a plain object, a string, or anything else with the text \<open>String\<close> gives it.\<close>

datatype log_arg = LObj "(string \<times> json) list" | LText string | LOther string

definition log_string :: "log_arg \<Rightarrow> string" where
  "log_string a = (case a of LObj _ \<Rightarrow> ''[object Object]'' | LText x \<Rightarrow> x | LOther x \<Rightarrow> x)"

definition mapPinoLevelToCloudSeverity :: "nat \<Rightarrow> severity" where
  "mapPinoLevelToCloudSeverity level =
     (case map_of [(10, DEBUG), (20, DEBUG), (30, INFO), (40, WARNING), (50, ERROR), (60, CRITICAL)] level of
        None \<Rightarrow> DEFAULT | Some v \<Rightarrow> v)"

text \<open>\<open>\<lbrace>message, ...data\<rbrace>\<close>\<close>

definition spread :: "(string \<times> json) list \<Rightarrow> (string \<times> json) list \<Rightarrow> (string \<times> json) list" where
  "spread fs data = foldl (\<lambda>acc (k, v). AList.update k v acc) fs data"

definition writeLog :: "environment \<Rightarrow> severity \<Rightarrow> string \<Rightarrow> (string \<times> json) list \<Rightarrow> ('z platform_scheme, unit) eff" where
  "writeLog environ sev message data =
     (if environ ''NODE_ENV'' \<noteq> Some ''production'' then ret ()
      else
        swallow
          (bnd (if truthy (environ ''LOG_PROJECT_ID'') then ret (the (environ ''LOG_PROJECT_ID''))
                else lift (getRequiredEnv environ ''GCP_PROJECT_ID'' (Some ''test-project''))) (\<lambda>project.
           rwrite (\<lambda>s. s\<lparr>cloud_log := cloud_log s @
             [\<lparr>ce_severity = sev, ce_payload = spread [(''message'', JStr message)] data\<rparr>]\<rparr>))))"

definition log_message :: "log_arg list \<Rightarrow> string" where
  "log_message inputArgs =
     (let rest = join_with '' '' (map log_string (drop 1 inputArgs));
          own = (case inputArgs of LObj fs # _ \<Rightarrow> (case map_of fs ''msg'' of Some (JStr m) \<Rightarrow> m | _ \<Rightarrow> []) | LText x # _ \<Rightarrow> x | _ \<Rightarrow> []) in
      if rest \<noteq> [] then rest else if own \<noteq> [] then own else ''Log entry'')"

definition logMethod :: "environment \<Rightarrow> log_arg list \<Rightarrow> nat \<Rightarrow> ('z platform_scheme, unit) eff" where
  "logMethod environ inputArgs level =
     (if environ ''NODE_ENV'' = Some ''production'' \<and> level \<ge> 30 then
        swallow (writeLog environ (mapPinoLevelToCloudSeverity level) (log_message inputArgs)
          (case inputArgs of LObj fs # _ \<Rightarrow> fs | _ \<Rightarrow> []))
      else ret ())"

section \<open>The verification script\<close>

text \<open>What the token library throws: its code, if any, and its message.\<close>

record jose_error =
  je_code :: "string option"
  je_message :: string

datatype script_result = MissingToken | Verified json "json option" "json option" | VerificationFailed string

text \<open>\<open>jwtVerify\<close> takes the token, the address of the keys, the issuer and the algorithms.\<close>

definition verifyCertificate ::
  "(string \<Rightarrow> string \<Rightarrow> string \<Rightarrow> string list \<Rightarrow> jose_error + json) \<Rightarrow> string option \<Rightarrow> string option \<Rightarrow> script_result" where
  "verifyCertificate jwtVerify token base =
     (if \<not> truthy token then MissingToken
      else
        (let baseUrl = or_else base ''http://localhost:8080'' in
         case jwtVerify (the token) (baseUrl @ ''/.well-known/jwks.json'') ''Chameleon Key Vault'' [''PS256''] of
           Inr payload \<Rightarrow> Verified payload (jget ''sub'' (Some payload)) (jget ''shredDate'' (Some payload))
         | Inl e \<Rightarrow> VerificationFailed
             (if je_code e = Some ''ERR_JWT_SIGNATURE_VERIFICATION_FAILED'' then ''The signature does not match the public key.''
              else if je_code e = Some ''ERR_JWKS_NO_MATCHING_KEY'' then ''No matching key found in JWKS (Check the kid header).''
              else je_message e)))"

definition exit_code :: "script_result \<Rightarrow> nat" where
  "exit_code r = (case r of Verified _ _ _ \<Rightarrow> 0 | _ \<Rightarrow> 1)"

section \<open>What the health check says\<close>

text \<open>A call as the world has it in store: whether it succeeds, and how long it takes.\<close>

definition in_time :: "bool \<Rightarrow> nat \<Rightarrow> bool" where
  "in_time tie dt \<longleftrightarrow> int dt < CHECK_TIMEOUT_MS \<or> int dt = CHECK_TIMEOUT_MS \<and> tie"

lemma withTimeout_ping_registry:
  fixes s :: "'z kworld_scheme"
  assumes "outcomes s = (oc, dt) # ocs"
  shows "\<exists>r t. withTimeout tie ping_registry label s = (r, t) \<and> (r = CheckOk \<longleftrightarrow> oc = Ok \<and> in_time tie dt) \<and>
    t = s\<lparr>outcomes := ocs, now := now s + min (int dt) CHECK_TIMEOUT_MS\<rparr>"
  using assms by (cases oc) (auto simp: withTimeout_def ping_registry_def in_time_def CHECK_TIMEOUT_MS_def rread_def next_call_def bnd_apply Let_def)

lemma withTimeout_ping_kms:
  fixes s :: "'z kmsworld_scheme"
  assumes "outcomes s = (oc, dt) # ocs"
  shows "\<exists>r t. withTimeout tie (ping_kms kms) label s = (r, t) \<and>
    (r = CheckOk \<longleftrightarrow> oc = Ok \<and> in_time tie dt \<and> getKeyPath kms None \<in> set (kms_keys s)) \<and>
    t = s\<lparr>outcomes := ocs, now := now s + min (int dt) CHECK_TIMEOUT_MS\<rparr>"
  using assms by (cases oc) (auto simp: withTimeout_def ping_kms_def key_exists_def in_time_def CHECK_TIMEOUT_MS_def rcall_def rtxn_def next_call_def Let_def
      split: if_splits)

text \<open>
  The health check never takes longer than three seconds, whatever its dependencies do. It answers 200 exactly when both
  calls come back in time and the KMS key exists, and the two calls overlap: the time it takes is that of the slower one.
\<close>

lemma health_truthful:
  fixes s :: "'z kmsworld_scheme"
  assumes "outcomes s = (oc1, d1) # (oc2, d2) # ocs"
  shows "\<exists>r t. get_health tie kms s = (r, t) \<and> code r \<in> {200, 503} \<and>
    (code r = 200 \<longleftrightarrow> oc1 = Ok \<and> in_time tie d1 \<and> oc2 = Ok \<and> in_time tie d2 \<and> getKeyPath kms None \<in> set (kms_keys s)) \<and>
    t = s\<lparr>outcomes := ocs, now := now s + min (max (int d1) (int d2)) CHECK_TIMEOUT_MS\<rparr>"
proof -
  obtain r1 t1 where f: "withTimeout tie ping_registry ''Firestore'' s = (r1, t1)" "r1 = CheckOk \<longleftrightarrow> oc1 = Ok \<and> in_time tie d1"
    and t1: "t1 = s\<lparr>outcomes := (oc2, d2) # ocs, now := now s + min (int d1) CHECK_TIMEOUT_MS\<rparr>"
    using withTimeout_ping_registry[OF assms] by metis
  define u where "u = t1\<lparr>now := now s\<rparr>"
  have u: "outcomes u = (oc2, d2) # ocs" "kms_keys u = kms_keys s" "now u = now s" by (simp_all add: u_def t1)
  obtain r2 t2 where g: "withTimeout tie (ping_kms kms) ''KMS'' u = (r2, t2)"
    "r2 = CheckOk \<longleftrightarrow> oc2 = Ok \<and> in_time tie d2 \<and> getKeyPath kms None \<in> set (kms_keys s)"
    and t2: "t2 = u\<lparr>outcomes := ocs, now := now u + min (int d2) CHECK_TIMEOUT_MS\<rparr>"
    using withTimeout_ping_kms[OF u(1), of tie kms "''KMS''"] u(2) by metis
  have "now s + min (max (int d1) (int d2)) CHECK_TIMEOUT_MS = max (now t1) (now t2)"
    using u(3) by (simp add: t1 t2)
  then show ?thesis
    using f g by (simp add: get_health_def both_def u_def[symmetric] Let_def) (auto simp: t2 u_def t1)
qed

section \<open>What the other routes say\<close>

lemma keeps_accessLatest: "timeless P \<Longrightarrow> keeps P (accessLatest path)"
  unfolding accessLatest_def by (rule keeps_rcall)

text \<open>A version is always answered; what it shows is the newest version of the secret, or nothing.\<close>

lemma version_always_answered:
  fixes s :: "'z platform_scheme"
  obtains r t where "get_version environ parse s = (Inr r, t)" and "code r = 200" and "t = s \<or> t = snd (next_call s)"
    and "field ''sources'' r \<in> {None, Some JNull} \<or> (\<exists>vs. secrets s (secretPath (the (environ ''GCP_PROJECT_ID'')) ''chameleon-source-shas'') = Some vs \<and>
      vs \<noteq> [] \<and> parse (secret_text (last vs)) = Inr (the (field ''sources'' r)))"
proof -
  define path where "path = secretPath (the (environ ''GCP_PROJECT_ID'')) ''chameleon-source-shas''"
  define answer where "answer sources = send 200
      [(''service'', JStr ''chameleon-key-vault''), (''sourceSha'', or_null (jget SOURCE_SHAS_KEY sources)),
       (''builtAt'', or_null (jget ''builtAt'' sources)), (''sources'', or_null sources)]" for sources
  have src: "field ''sources'' (answer j) = Some (or_null j)" and c: "code (answer j) = 200" for j by (simp_all add: answer_def)
  show thesis
  proof (cases "truthy (environ ''GCP_PROJECT_ID'')")
    case False
    then have "get_version environ parse s = (Inr (answer None), s)"
      by (simp add: get_version_def answer_def Let_def bnd_apply)
    then show thesis using that c src by (simp add: or_null_def)
  next
    case True
    obtain a t where acc: "accessLatest path s = (a, t)" by fastforce
    have t: "t = snd (next_call s)"
      using acc by (auto simp: accessLatest_def rcall_def rtxn_def split: prod.splits outcome.splits sum.splits option.splits if_splits)
    have ss: "secrets t = secrets s" unfolding t by (auto simp: next_call_def split: list.splits)
    have run: "get_version environ parse s =
        (Inr (answer (case a of Inl _ \<Rightarrow> None | Inr d \<Rightarrow> (case parse (secret_text d) of Inl _ \<Rightarrow> None | Inr j \<Rightarrow> Some j))), t)"
      using True acc by (auto simp: get_version_def path_def[symmetric] answer_def Let_def bnd_apply catch_apply split: sum.splits)
    show thesis
    proof (rule that[OF run c])
      show "t = s \<or> t = snd (next_call s)" using t by simp
      show "field ''sources'' (answer (case a of Inl _ \<Rightarrow> None | Inr d \<Rightarrow> (case parse (secret_text d) of Inl _ \<Rightarrow> None | Inr j \<Rightarrow> Some j)))
          \<in> {None, Some JNull} \<or> (\<exists>vs. secrets s (secretPath (the (environ ''GCP_PROJECT_ID'')) ''chameleon-source-shas'') = Some vs \<and>
          vs \<noteq> [] \<and> parse (secret_text (last vs)) = Inr (the (field ''sources''
            (answer (case a of Inl _ \<Rightarrow> None | Inr d \<Rightarrow> (case parse (secret_text d) of Inl _ \<Rightarrow> None | Inr j \<Rightarrow> Some j))))))"
      proof (cases a)
        case (Inr d)
        then have "\<exists>vs. secrets s path = Some vs \<and> vs \<noteq> [] \<and> d = last vs"
          using acc ss by (auto simp: accessLatest_def dest!: rcall_Inr split: option.splits if_splits)
        then show ?thesis using Inr unfolding src path_def
          by (cases "parse (secret_text d)") (auto simp: or_null_def)
      qed (simp add: src or_null_def)
    qed
  qed
qed

text \<open>The dispatch never fails the caller, and sends at most one request, for the key it was given.\<close>

lemma dispatch_never_fails:
  fixes s :: "'z platform_scheme"
  shows "\<exists>t. dispatchJwksSnapshot G answer newKid baseUrl s = (Inr (), t) \<and> secrets t = secrets s \<and>
    (dispatches t = dispatches s \<or> (\<exists>d. dispatches t = dispatches s @ [d] \<and> dp_newKid d = newKid \<and> dp_baseUrl d = baseUrl \<and> answer < 300))"
proof -
  obtain oc w where n: "next_call s = (oc, w)" by fastforce
  then have "dispatches w = dispatches s" "secrets w = secrets s" by (auto simp: next_call_def split: list.splits)
  then show ?thesis using n
    by (cases oc) (auto simp: dispatchJwksSnapshot_def swallow_def catch_apply bnd_apply rwrite_def rtxn_def)
qed

text \<open>Metadata that was written is what is read next, given a parser that reads the text of this object back.\<close>

lemma cmek_roundtrip:
  fixes s :: "'z platform_scheme"
  assumes up: "updateCMEKMetadata project name m s = (Inr (), t)"
    and parse: "parse (stringify (cmek_json m)) = Inr (cmek_json m)" and quiet: "outcomes t = []"
  shows "getCMEKMetadata parse project name t = (Inr (cmek_json m), t)"
proof -
  obtain vs where "secrets t (secretPath project name) = Some (vs @ [BytesData (utf8 (stringify (cmek_json m)))])"
    using rtxn_Inr[OF up[unfolded updateCMEKMetadata_def addSecretVersion_def]] by (auto split: option.splits)
  then show ?thesis
    using parse quiet by (simp add: getCMEKMetadata_def accessLatest_def rcall_no_faults bnd_apply secret_text_def)
qed

text \<open>Logging never fails the code that logs; below level 30, or outside production, nothing is mirrored.\<close>

lemma logging_never_fails:
  fixes s :: "'z platform_scheme"
  shows "\<exists>t. logMethod environ args level s = (Inr (), t) \<and>
    (cloud_log t = cloud_log s \<or> environ ''NODE_ENV'' = Some ''production'' \<and> 30 \<le> level \<and>
      (\<exists>e. cloud_log t = cloud_log s @ [e] \<and> ce_severity e = mapPinoLevelToCloudSeverity level))"
proof (cases "environ ''NODE_ENV'' = Some ''production'' \<and> 30 \<le> level")
  case True
  obtain oc w where n: "next_call s = (oc, w)" by fastforce
  then have "cloud_log w = cloud_log s" by (auto simp: next_call_def split: list.splits)
  then show ?thesis using n True
    by (cases oc; cases "getRequiredEnv environ ''GCP_PROJECT_ID'' (Some ''test-project'')"; cases "truthy (environ ''LOG_PROJECT_ID'')")
      (auto simp: logMethod_def writeLog_def swallow_def catch_apply bnd_apply rwrite_def rtxn_def)
qed (auto simp: logMethod_def)

text \<open>A field of the logged object named \<open>message\<close> takes the place of the message itself.\<close>

lemma logged_message_replaced:
  "map_of (spread [(''message'', JStr text)] [(''message'', JStr other)]) ''message'' = Some (JStr other)"
  by (simp add: spread_def)

text \<open>The script shows subject and date of a certificate of this vault whenever the library accepts its claims.\<close>

lemma script_shows_certificate:
  assumes "token \<noteq> []" and "jwtVerify token (or_else base ''http://localhost:8080'' @ ''/.well-known/jwks.json'') ''Chameleon Key Vault'' [''PS256''] =
    Inr (claims_json num c p n)"
  shows "verifyCertificate jwtVerify (Some token) base =
    Verified (claims_json num c p n) (Some (JStr (cl_sub c))) (Some (JStr (cl_shredDate c)))"
  using assms by (simp add: verifyCertificate_def truthy_def Let_def) (simp add: jget_def claims_json_def)

end
