(* ===== verification/Startup.thy ===== *)
theory Startup
  imports Platform Auth
begin

text \<open>
  How the vault is put together: the settings that \<open>src/main.ts\<close> and \<open>src/certificate-signer/entrypoint.ts\<close> read from the
  environment before they serve anything, and the routes that are registered under them. With the hooks of
  \<open>src/middleware/auth.ts\<close> this gives the surface a caller without the shared key has. A registered pattern is matched as
  the framework documents it: segment by segment, a parameter taking a non-empty segment; of two patterns that take one path
  (\<open>/certificate/latest\<close> and \<open>/certificate/:userId\<close>) it prefers the literal one. The registry that is read at the
  start is the subject of theory Federation.
\<close>

section \<open>Settings\<close>

record view_settings =
  vw_dataset :: string
  vw_collection :: string
  vw_functionRef :: string
  vw_vaultResourceId :: string
  vw_allowedCaller :: string

record vault_settings =
  st_projectId :: string
  st_kmsRegion :: string
  st_kmsKeyRing :: string
  st_kmsKeyName :: string
  st_signingKeyRing :: string
  st_signingKeyName :: string
  st_firestoreCollection :: string
  st_deletionCollection :: string
  st_databaseId :: "string option"
  st_declarationCollection :: string
  st_dlqTopic :: string
  st_auditBucket :: string
  st_chainCollection :: string
  st_tsaUrl :: "string option"
  st_rekor :: "(string \<times> string) option"
  st_github :: "github_config option"
  st_auditMirror :: "(string \<times> string) option"
  st_writeToken :: "string option"
  st_syncRunCollection :: string
  st_worker :: "(string \<times> string) option"
  st_redaction :: "string option \<times> string option"
  st_analystCollection :: string
  st_views :: "view_settings option"
  st_apiKey :: "string option"
  st_contentFindings :: "string option"
  st_vaultResourceId :: "string option"
  st_port :: string

definition req :: "environment \<Rightarrow> string \<Rightarrow> exn + string" where
  "req environ name = getRequiredEnv environ name None"

definition dlq_topic :: "environment \<Rightarrow> string" where
  "dlq_topic environ = or_else (environ ''JANITOR_DLQ_TOPIC_ID'')
     (''janitor-dead-letter-queue-'' @ (if environ ''NODE_ENV'' = Some ''production'' then ''prod'' else ''dev''))"

definition tsa_setting :: "environment \<Rightarrow> string option" where
  "tsa_setting environ =
     (if environ ''TSA_ENABLED'' = Some ''true'' then Some (or_else (environ ''TSA_URL'') ''https://freetsa.org/tsr'') else None)"

definition rekor_setting :: "environment \<Rightarrow> exn + (string \<times> string) option" where
  "rekor_setting environ =
     (if environ ''REKOR_ENABLED'' = Some ''true'' then
        and_then (req environ ''CLOUD_KMS_REKOR_SIGNING_KEY_NAME'') (\<lambda>key.
        Inr (Some (or_else (environ ''REKOR_URL'') ''https://rekor.sigstore.dev'', key)))
      else Inr None)"

definition github_setting :: "environment \<Rightarrow> github_config option" where
  "github_setting environ =
     (let githubActionsDispatchToken = environ ''GITHUB_ACTIONS_DISPATCH_TOKEN'' in
      if truthy githubActionsDispatchToken then
        Some \<lparr>gh_token = the githubActionsDispatchToken,
          gh_owner = or_else (environ ''GITHUB_ACTIONS_REPO_OWNER'') ''BrechtVanBuggenhout'',
          gh_repo = or_else (environ ''GITHUB_ACTIONS_REPO_NAME'') ''chameleon-key-vault'',
          gh_workflowFile = ''publish-jwks-snapshot.yml''\<rparr>
      else None)"

definition mirror_setting :: "environment \<Rightarrow> (string \<times> string) option" where
  "mirror_setting environ =
     (let auditDatasetId = environ ''PII_AUDIT_DATASET_ID'' in
      if truthy auditDatasetId then Some (the auditDatasetId, or_else (environ ''PII_AUDIT_TABLE_ID'') ''pii_metadata_registry'') else None)"

definition worker_setting :: "environment \<Rightarrow> (string \<times> string) option" where
  "worker_setting environ =
     (if truthy (environ ''PII_INGESTOR_WORKER_SERVICE_NAME'') \<and> truthy (environ ''PII_INGESTOR_WORKER_REGION'')
      then Some (the (environ ''PII_INGESTOR_WORKER_REGION''), the (environ ''PII_INGESTOR_WORKER_SERVICE_NAME'')) else None)"

definition views_setting :: "environment \<Rightarrow> exn + view_settings option" where
  "views_setting environ =
     (let decryptedViewsDataset = environ ''DECRYPTED_VIEWS_DATASET'' in
      if truthy decryptedViewsDataset then
        and_then (req environ ''DECRYPTED_VIEWS_BATCH_DECRYPT_FUNCTION_REF'') (\<lambda>fn.
        and_then (req environ ''PII_VAULT_RESOURCE_ID'') (\<lambda>vault.
        Inr (Some \<lparr>vw_dataset = the decryptedViewsDataset,
          vw_collection = or_else (environ ''FIRESTORE_DECRYPTED_VIEWS_COLLECTION'') ''decrypted_views'',
          vw_functionRef = fn, vw_vaultResourceId = vault,
          vw_allowedCaller = or_else (environ ''DECRYPTED_VIEWS_CONNECTION_SA_UNIQUE_ID'') []\<rparr>)))
      else Inr None)"

text \<open>What is present and not empty.\<close>

definition set_var :: "environment \<Rightarrow> string \<Rightarrow> string option" where
  "set_var environ name = (if truthy (environ name) then environ name else None)"

definition read_settings :: "environment \<Rightarrow> exn + vault_settings" where
  "read_settings environ =
     and_then (req environ ''GCP_PROJECT_ID'') (\<lambda>project.
     and_then (req environ ''CLOUD_KMS_REGION'') (\<lambda>kmsRegion.
     and_then (req environ ''CLOUD_KMS_KEY_RING'') (\<lambda>kmsKeyRing.
     and_then (req environ ''CLOUD_KMS_KEY_NAME'') (\<lambda>kmsKeyName.
     and_then (req environ ''CLOUD_KMS_SIGNING_KEY_RING'') (\<lambda>signingKmsKeyRing.
     and_then (req environ ''CLOUD_KMS_SIGNING_KEY_NAME'') (\<lambda>signingKmsKeyName.
     and_then (req environ ''FIRESTORE_COLLECTION'') (\<lambda>firestoreCollection.
     and_then (req environ ''FIRESTORE_DELETION_REQUEST_COLLECTION'') (\<lambda>firestoreDeletionRequestCollection.
     and_then (req environ ''GCP_AUDIT_BUCKET_NAME'') (\<lambda>auditBucket.
     and_then (rekor_setting environ) (\<lambda>rekor.
     and_then (views_setting environ) (\<lambda>views.
     Inr \<lparr>st_projectId = project, st_kmsRegion = kmsRegion, st_kmsKeyRing = kmsKeyRing, st_kmsKeyName = kmsKeyName,
       st_signingKeyRing = signingKmsKeyRing, st_signingKeyName = signingKmsKeyName, st_firestoreCollection = firestoreCollection,
       st_deletionCollection = firestoreDeletionRequestCollection, st_databaseId = environ ''FIRESTORE_DATABASE_ID'',
       st_declarationCollection = or_else (environ ''FIRESTORE_PII_DECLARATION_COLLECTION'') ''pii_registry_declarations'',
       st_dlqTopic = dlq_topic environ, st_auditBucket = auditBucket,
       st_chainCollection = or_else (environ ''FIRESTORE_CERTIFICATE_CHAIN_COLLECTION'') ''certificate_chains'',
       st_tsaUrl = tsa_setting environ, st_rekor = rekor, st_github = github_setting environ, st_auditMirror = mirror_setting environ,
       st_writeToken = environ ''PII_REGISTRY_WRITE_TOKEN'',
       st_syncRunCollection = or_else (environ ''FIRESTORE_SYNC_RUN_COLLECTION'') ''sync_runs'', st_worker = worker_setting environ,
       st_redaction = (environ ''PII_VAULT_RESOURCE_ID'', environ ''DECRYPTED_VIEWS_BATCH_DECRYPT_FUNCTION_REF''),
       st_analystCollection = or_else (environ ''FIRESTORE_ANALYST_ACCESS_COLLECTION'') ''analyst_access'', st_views = views,
       st_apiKey = environ ''VAULT_API_KEY'', st_contentFindings = set_var environ ''PII_CONTENT_FINDINGS_RESOURCE_ID'',
       st_vaultResourceId = set_var environ ''PII_VAULT_RESOURCE_ID'', st_port = or_else (environ ''PORT'') ''8080''\<rparr>)))))))))))"

section \<open>The signer's own settings\<close>

record signer_settings =
  ss_projectId :: string
  ss_kmsRegion :: string
  ss_signingKeyRing :: string
  ss_signingKeyName :: string
  ss_firestoreCollection :: string
  ss_deletionCollection :: string
  ss_databaseId :: "string option"
  ss_declarationCollection :: string
  ss_idTokenAudience :: string
  ss_allowedCallerEmail :: string
  ss_port :: string

definition read_signer_settings :: "environment \<Rightarrow> exn + signer_settings" where
  "read_signer_settings environ =
     and_then (req environ ''GCP_PROJECT_ID'') (\<lambda>project.
     and_then (req environ ''CLOUD_KMS_REGION'') (\<lambda>kmsRegion.
     and_then (req environ ''CLOUD_KMS_SIGNING_KEY_RING'') (\<lambda>signingKmsKeyRing.
     and_then (req environ ''CLOUD_KMS_SIGNING_KEY_NAME'') (\<lambda>signingKmsKeyName.
     and_then (req environ ''FIRESTORE_COLLECTION'') (\<lambda>firestoreCollection.
     and_then (req environ ''FIRESTORE_DELETION_REQUEST_COLLECTION'') (\<lambda>firestoreDeletionRequestCollection.
     and_then (req environ ''ID_TOKEN_AUDIENCE'') (\<lambda>idTokenAudience.
     and_then (req environ ''ALLOWED_CALLER_EMAIL'') (\<lambda>allowedCallerEmail.
     Inr \<lparr>ss_projectId = project, ss_kmsRegion = kmsRegion, ss_signingKeyRing = signingKmsKeyRing, ss_signingKeyName = signingKmsKeyName,
       ss_firestoreCollection = firestoreCollection, ss_deletionCollection = firestoreDeletionRequestCollection,
       ss_databaseId = environ ''FIRESTORE_DATABASE_ID'',
       ss_declarationCollection = or_else (environ ''FIRESTORE_PII_DECLARATION_COLLECTION'') ''pii_registry_declarations'',
       ss_idTokenAudience = idTokenAudience, ss_allowedCallerEmail = allowedCallerEmail,
       ss_port = (case environ ''PORT'' of None \<Rightarrow> ''8080'' | Some p \<Rightarrow> p)\<rparr>))))))))"

section \<open>Routes\<close>

text \<open>Method and pattern, in the order of registration, one list for each plugin.\<close>

type_synonym route = "string \<times> string"

definition health_table :: "route list" where
  "health_table = [(''GET'', ''/health'')]"

definition version_table :: "route list" where
  "version_table = [(''GET'', ''/version''), (''GET'', ''/version/source-staleness'')]"

definition crypto_table :: "route list" where
  "crypto_table =
     [(''POST'', ''/key/generate''), (''POST'', ''/keys/batch-generate''), (''POST'', ''/keys/batch-encryption-context''),
      (''POST'', ''/encrypt''), (''POST'', ''/decrypt''), (''GET'', ''/key-status/:userId''), (''DELETE'', ''/key/shred''),
      (''GET'', ''/key/:userId/encryption-context''), (''GET'', ''/keys/:userId/encryption-context''), (''POST'', ''/key/rotate'')]"

definition lineage_table :: "route list" where
  "lineage_table =
     [(''POST'', ''/lineage/events''), (''GET'', ''/lineage/user/:userId''), (''GET'', ''/lineage/deletion-plan/:userId'')]"

definition deletion_table :: "route list" where
  "deletion_table =
     [(''POST'', ''/deletion-requests''), (''GET'', ''/deletion-requests/:deletionRequestId''),
      (''POST'', ''/deletion-requests/:deletionRequestId/advance'')]"

definition certificate_table :: "route list" where
  "certificate_table =
     [(''GET'', ''/certificate/:userId''), (''GET'', ''/certificate/latest''), (''GET'', ''/certificate-chain/by-hash/:hash''),
      (''GET'', ''/public-key''),
      (''GET'', ''/rekor-signing-public-key''), (''GET'', ''/.well-known/jwks.json''), (''POST'', ''/admin/signing-key/rotate'')]"

definition registry_table :: "route list" where
  "registry_table =
     [(''GET'', ''/pii-registry/resources''), (''GET'', ''/pii-registry/resources/:resourceId''), (''GET'', ''/pii-registry/policy''),
      (''GET'', ''/pii-registry/coverage''), (''GET'', ''/pii-registry/discovery''), (''GET'', ''/pii-registry/schema''),
      (''POST'', ''/pii-registry/sync-now''), (''POST'', ''/pii-registry/resources''), (''PUT'', ''/pii-registry/resources/:resourceId''),
      (''DELETE'', ''/pii-registry/resources/:resourceId''), (''POST'', ''/pii-registry/resources/:resourceId/mark-synced''),
      (''POST'', ''/pii-registry/resources/:resourceId/mark-sync-attempted'')]"

definition sync_runs_table :: "route list" where
  "sync_runs_table =
     [(''POST'', ''/pii-registry/sync-runs''), (''POST'', ''/pii-registry/sync-runs/:runId/finalize-total''),
      (''POST'', ''/pii-registry/sync-runs/:runId/progress''), (''GET'', ''/pii-registry/sync-runs/:runId'')]"

definition analyst_claims_table :: "route list" where
  "analyst_claims_table =
     [(''POST'', ''/admin/analyst-claims''), (''POST'', ''/admin/auditor-claims''), (''POST'', ''/admin/analyst-claims/:token/claim'')]"

definition session_table :: "route list" where
  "session_table = [(''POST'', ''/admin/session-credentials'')]"

definition auditor_table :: "route list" where
  "auditor_table = [(''GET'', ''/audit/key-status/:userId'')]"

definition service_table :: "route list" where
  "service_table = [(''POST'', ''/admin/service-credentials''), (''POST'', ''/admin/service-credentials/revoke'')]"

definition audit_table :: "route list" where
  "audit_table = [(''GET'', ''/audit/actor/:email''), (''GET'', ''/audit/resource/:resourceId''), (''GET'', ''/audit/deletion-evidence'')]"

definition views_table :: "route list" where
  "views_table =
     [(''POST'', ''/decrypted-views''), (''GET'', ''/decrypted-views''), (''GET'', ''/decrypted-views/available-fields''),
      (''DELETE'', ''/decrypted-views/:viewName'')]"

definition batch_decrypt_table :: "route list" where
  "batch_decrypt_table = [(''POST'', ''/internal/decrypted-views/batch-decrypt'')]"

definition vault_table :: "route list" where
  "vault_table = [(''POST'', ''/pii-vault/decrypt'')]"

definition always_registered :: "route list" where
  "always_registered = health_table @ version_table @ crypto_table @ lineage_table @ deletion_table @ certificate_table @
     registry_table @ sync_runs_table @ analyst_claims_table @ session_table @ auditor_table @ service_table @ audit_table"

definition registered :: "vault_settings \<Rightarrow> route list" where
  "registered c = always_registered @
     (if st_views c \<noteq> None then views_table @ batch_decrypt_table else []) @
     (if st_vaultResourceId c \<noteq> None then vault_table else [])"

text \<open>The framework: which paths a pattern takes.\<close>

datatype seg = Lit string | Param

definition seg_of :: "string \<Rightarrow> seg" where
  "seg_of x = (if startsWith '':'' x then Param else Lit x)"

definition pattern_of :: "string \<Rightarrow> seg list" where
  "pattern_of url = map seg_of (tl (split_on (CHR ''/'') url))"

fun matches :: "seg list \<Rightarrow> string \<Rightarrow> bool" where
  "matches [] path = (path = [])"
| "matches (Lit x # ps) path = (startsWith (CHR ''/'' # x) path \<and> matches ps (drop (Suc (length x)) path))"
| "matches (Param # ps) path =
     (startsWith ''/'' path \<and> takeWhile (\<lambda>c. c \<noteq> CHR ''/'') (tl path) \<noteq> [] \<and> matches ps (dropWhile (\<lambda>c. c \<noteq> CHR ''/'') (tl path)))"

section \<open>Who reaches which route\<close>

definition public_routes :: "route list" where
  "public_routes =
     [(''GET'', ''/health''), (''GET'', ''/version''), (''POST'', ''/admin/analyst-claims/:token/claim''),
      (''POST'', ''/internal/decrypted-views/batch-decrypt''), (''GET'', ''/public-key''), (''GET'', ''/rekor-signing-public-key''),
      (''GET'', ''/.well-known/jwks.json''), (''GET'', ''/certificate-chain/by-hash/:hash'')]"

definition analyst_routes :: "route list" where
  "analyst_routes =
     [(''POST'', ''/encrypt''), (''POST'', ''/decrypt''), (''POST'', ''/deletion-requests''), (''POST'', ''/pii-vault/decrypt''),
      (''GET'', ''/pii-registry/resources''), (''POST'', ''/pii-registry/resources''), (''GET'', ''/pii-registry/resources/:resourceId''),
      (''PUT'', ''/pii-registry/resources/:resourceId''), (''DELETE'', ''/pii-registry/resources/:resourceId'')]"

definition auditor_routes :: "route list" where
  "auditor_routes = [(''GET'', ''/audit/key-status/:userId'')]"

text \<open>
  No comment of the code names \<open>/certificate/latest\<close> for services: the pattern that lets them read a user's certificate
  takes the word \<open>latest\<close> too.
\<close>

definition service_routes :: "route list" where
  "service_routes =
     [(''POST'', ''/deletion-requests''), (''GET'', ''/deletion-requests/:deletionRequestId''),
      (''POST'', ''/deletion-requests/:deletionRequestId/advance''), (''GET'', ''/certificate/:userId''), (''GET'', ''/certificate/latest'')]"

definition credential_routes :: "access_role \<Rightarrow> access_kind option \<Rightarrow> route list" where
  "credential_routes role kind = (if role = AUDITOR then auditor_routes else if kind = Some SERVICE_KIND then service_routes else analyst_routes)"

lemma startsWith_rec:
  "startsWith [] s" "startsWith (a # p) (b # s) \<longleftrightarrow> a = b \<and> startsWith p s" "\<not> startsWith (a # p) []"
  by (auto simp: startsWith_def)

lemma segment_path_rec:
  "segment_path (a # p) suf (b # s) \<longleftrightarrow> a = b \<and> segment_path p suf s"
  "\<not> segment_path (a # p) suf []"
  "segment_path [] suf s \<longleftrightarrow> takeWhile (\<lambda>c. c \<noteq> CHR ''/'') s \<noteq> [] \<and> dropWhile (\<lambda>c. c \<noteq> CHR ''/'') s = suf"
  by (auto simp: segment_path_def startsWith_def)

lemma matches_start: "matches ps r \<Longrightarrow> r = [] \<or> (\<exists>q. r = CHR ''/'' # q)"
  by (cases "(ps, r)" rule: matches.cases; cases r) (auto simp: startsWith_rec)

lemma matches_Lit: "matches (Lit x # ps) path \<longleftrightarrow> (\<exists>r. path = CHR ''/'' # x @ r \<and> matches ps r)"
proof
  assume m: "matches (Lit x # ps) path"
  then have "take (Suc (length x)) path = CHR ''/'' # x" by (simp add: startsWith_def)
  then have "path = CHR ''/'' # x @ drop (Suc (length x)) path" by (metis append_Cons append_take_drop_id)
  then show "\<exists>r. path = CHR ''/'' # x @ r \<and> matches ps r" using m by auto
qed (auto simp: startsWith_def)

lemma matches_Param:
  "matches (Param # ps) path \<longleftrightarrow> (\<exists>x r. path = CHR ''/'' # x @ r \<and> x \<noteq> [] \<and> CHR ''/'' \<notin> set x \<and> matches ps r)"
proof
  assume m: "matches (Param # ps) path"
  then obtain p where p: "path = CHR ''/'' # p" by (cases path) (auto simp: startsWith_def)
  let ?x = "takeWhile (\<lambda>c. c \<noteq> CHR ''/'') p" and ?r = "dropWhile (\<lambda>c. c \<noteq> CHR ''/'') p"
  have "p = ?x @ ?r" by simp
  moreover have "CHR ''/'' \<notin> set ?x" by (auto dest: set_takeWhileD)
  ultimately show "\<exists>x r. path = CHR ''/'' # x @ r \<and> x \<noteq> [] \<and> CHR ''/'' \<notin> set x \<and> matches ps r"
    using m p by (intro exI[of _ ?x] exI[of _ ?r]) auto
next
  assume "\<exists>x r. path = CHR ''/'' # x @ r \<and> x \<noteq> [] \<and> CHR ''/'' \<notin> set x \<and> matches ps r"
  then obtain x r where x: "path = CHR ''/'' # x @ r" "x \<noteq> []" "CHR ''/'' \<notin> set x" "matches ps r" by blast
  have "\<forall>c \<in> set x. c \<noteq> CHR ''/''" using x(3) by auto
  then have "takeWhile (\<lambda>c. c \<noteq> CHR ''/'') (x @ r) = x @ takeWhile (\<lambda>c. c \<noteq> CHR ''/'') r"
    "dropWhile (\<lambda>c. c \<noteq> CHR ''/'') (x @ r) = dropWhile (\<lambda>c. c \<noteq> CHR ''/'') r" by simp_all
  moreover have "takeWhile (\<lambda>c. c \<noteq> CHR ''/'') r = []" "dropWhile (\<lambda>c. c \<noteq> CHR ''/'') r = r" using matches_start[OF x(4)] by auto
  ultimately show "matches (Param # ps) path" using x by (simp add: startsWith_def)
qed

lemma param_span:
  assumes "CHR ''/'' \<notin> set x" and "r = [] \<or> hd r = CHR ''/''"
  shows "takeWhile (\<lambda>c. c \<noteq> CHR ''/'') (x @ r) = x" and "dropWhile (\<lambda>c. c \<noteq> CHR ''/'') (x @ r) = r"
proof -
  have x: "\<forall>c \<in> set x. c \<noteq> CHR ''/''" using assms(1) by auto
  have "takeWhile (\<lambda>c. c \<noteq> CHR ''/'') r = []" "dropWhile (\<lambda>c. c \<noteq> CHR ''/'') r = r" using assms(2) by (cases r; simp)+
  then show "takeWhile (\<lambda>c. c \<noteq> CHR ''/'') (x @ r) = x" "dropWhile (\<lambda>c. c \<noteq> CHR ''/'') (x @ r) = r" using x by simp_all
qed

lemma param_alone:
  assumes "CHR ''/'' \<notin> set x"
  shows "takeWhile (\<lambda>c. c \<noteq> CHR ''/'') x = x" and "dropWhile (\<lambda>c. c \<noteq> CHR ''/'') x = []"
  using param_span[OF assms, of "[]"] by simp_all

text \<open>A route is treated as its pattern deserves, whatever its parameters are.\<close>

definition scoped_as_listed :: "route \<Rightarrow> string \<Rightarrow> bool" where
  "scoped_as_listed r path \<longleftrightarrow>
     (isExemptFromAuth path \<longleftrightarrow> r \<in> set public_routes) \<and> (isAnalystCredentialAllowedPath path \<longleftrightarrow> r \<in> set analyst_routes) \<and>
     (isAuditorCredentialAllowedPath path \<longleftrightarrow> r \<in> set auditor_routes) \<and> (isServiceCredentialAllowedPath path \<longleftrightarrow> r \<in> set service_routes)"

declare matches.simps(2,3) [simp del]

lemma all_Lit: "(\<forall>path. matches (Lit x # ps) path \<longrightarrow> P path) \<longleftrightarrow> (\<forall>r. matches ps r \<longrightarrow> P (CHR ''/'' # x @ r))"
  by (auto simp: matches_Lit)

lemma all_Param:
  "(\<forall>path. matches (Param # ps) path \<longrightarrow> P path) \<longleftrightarrow>
   (\<forall>x. x \<noteq> [] \<longrightarrow> CHR ''/'' \<notin> set x \<longrightarrow> (\<forall>r. matches ps r \<longrightarrow> P (CHR ''/'' # x @ r)))"
  by (auto simp: matches_Param)

lemmas matching = all_Lit all_Param matches.simps(1) pattern_of_def seg_of_def startsWith_rec
lemmas scoping = scoped_as_listed_def isExemptFromAuth_def isAnalystCredentialAllowedPath_def isAuditorCredentialAllowedPath_def
  isServiceCredentialAllowedPath_def analyst_paths_def segment_path_rec param_span param_alone
  public_routes_def analyst_routes_def auditor_routes_def service_routes_def

definition scoped :: "route \<Rightarrow> bool" where
  "scoped r \<longleftrightarrow> (\<forall>path. matches (pattern_of (snd r)) path \<longrightarrow> scoped_as_listed r path)"

lemma scoped_small: "list_all scoped (health_table @ version_table @ session_table @ auditor_table @ service_table)"
  by (simp add: scoped_def health_table_def version_table_def session_table_def auditor_table_def service_table_def matching scoping)

lemma scoped_crypto: "list_all scoped crypto_table"
  by (simp add: scoped_def crypto_table_def matching scoping)

lemma scoped_lineage: "list_all scoped (lineage_table @ audit_table)"
  by (simp add: scoped_def lineage_table_def audit_table_def matching scoping)

lemma scoped_deletion: "list_all scoped deletion_table"
  by (simp add: scoped_def deletion_table_def matching scoping)

lemma scoped_certificate: "list_all scoped certificate_table"
  by (simp add: scoped_def certificate_table_def matching scoping)

lemma scoped_registry: "list_all scoped registry_table"
  by (simp add: scoped_def registry_table_def matching scoping)

lemma scoped_sync_runs: "list_all scoped sync_runs_table"
  by (simp add: scoped_def sync_runs_table_def matching scoping)

lemma scoped_claims: "list_all scoped analyst_claims_table"
  by (simp add: scoped_def analyst_claims_table_def matching scoping)

lemma scoped_views: "list_all scoped (views_table @ batch_decrypt_table @ vault_table)"
  by (simp add: scoped_def views_table_def batch_decrypt_table_def vault_table_def matching scoping)

lemma registered_scoped: "list_all scoped (registered c)"
  using scoped_small scoped_crypto scoped_lineage scoped_deletion scoped_certificate scoped_registry scoped_sync_runs scoped_claims scoped_views
  by (simp add: registered_def always_registered_def)

lemma registered_treated:
  assumes "r \<in> set (registered c)" and "matches (pattern_of (snd r)) path"
  shows "isExemptFromAuth path \<longleftrightarrow> r \<in> set public_routes"
    and "isAllowedForCredential role kind path \<longleftrightarrow> r \<in> set (credential_routes role kind)"
proof -
  have "scoped_as_listed r path" using assms registered_scoped[of c] by (auto simp: list_all_iff scoped_def)
  then show "isExemptFromAuth path \<longleftrightarrow> r \<in> set public_routes"
    and "isAllowedForCredential role kind path \<longleftrightarrow> r \<in> set (credential_routes role kind)"
    unfolding scoped_as_listed_def isAllowedForCredential_def credential_routes_def by (auto split: if_splits)
qed

section \<open>What the environment decides\<close>

lemma req_Inr: "req environ name = Inr v \<longleftrightarrow> environ name = Some v \<and> v \<noteq> []"
  by (auto simp: req_def getRequiredEnv_def Let_def truthy_def split: option.splits)

definition required_names :: "environment \<Rightarrow> string list" where
  "required_names environ =
     [''GCP_PROJECT_ID'', ''CLOUD_KMS_REGION'', ''CLOUD_KMS_KEY_RING'', ''CLOUD_KMS_KEY_NAME'', ''CLOUD_KMS_SIGNING_KEY_RING'',
      ''CLOUD_KMS_SIGNING_KEY_NAME'', ''FIRESTORE_COLLECTION'', ''FIRESTORE_DELETION_REQUEST_COLLECTION'', ''GCP_AUDIT_BUCKET_NAME''] @
     (if environ ''REKOR_ENABLED'' = Some ''true'' then [''CLOUD_KMS_REKOR_SIGNING_KEY_NAME''] else []) @
     (if truthy (environ ''DECRYPTED_VIEWS_DATASET'') then [''DECRYPTED_VIEWS_BATCH_DECRYPT_FUNCTION_REF'', ''PII_VAULT_RESOURCE_ID''] else [])"

text \<open>The vault starts exactly when nothing it needs is missing; a subsystem that is off needs nothing.\<close>

lemma req_ok: "(\<exists>v. req environ name = Inr v) \<longleftrightarrow> truthy (environ name)"
  by (auto simp: req_Inr truthy_def split: option.splits)

lemma and_then_ok: "(\<exists>b. and_then r f = Inr b) \<longleftrightarrow> (\<exists>a. r = Inr a \<and> (\<exists>b. f a = Inr b))"
  by (auto simp: and_then_Inr)

lemma rekor_ok: "(\<exists>v. rekor_setting environ = Inr v) \<longleftrightarrow>
    (environ ''REKOR_ENABLED'' = Some ''true'' \<longrightarrow> truthy (environ ''CLOUD_KMS_REKOR_SIGNING_KEY_NAME''))"
  by (cases "environ ''REKOR_ENABLED'' = Some ''true''") (simp_all add: rekor_setting_def and_then_ok req_ok)

lemma views_ok: "(\<exists>v. views_setting environ = Inr v) \<longleftrightarrow> (truthy (environ ''DECRYPTED_VIEWS_DATASET'') \<longrightarrow>
    truthy (environ ''DECRYPTED_VIEWS_BATCH_DECRYPT_FUNCTION_REF'') \<and> truthy (environ ''PII_VAULT_RESOURCE_ID''))"
  by (cases "truthy (environ ''DECRYPTED_VIEWS_DATASET'')") (simp_all add: views_setting_def and_then_ok req_ok Let_def)

lemma starts_iff: "(\<exists>c. read_settings environ = Inr c) \<longleftrightarrow> (\<forall>n \<in> set (required_names environ). truthy (environ n))"
  by (auto simp: read_settings_def and_then_ok req_ok rekor_ok views_ok required_names_def)

lemma views_present: "views_setting environ = Inr v \<Longrightarrow> v \<noteq> None \<longleftrightarrow> truthy (environ ''DECRYPTED_VIEWS_DATASET'')"
  by (auto simp: views_setting_def and_then_Inr Let_def split: if_splits)

lemma settings_of:
  assumes "read_settings environ = Inr c"
  shows "st_apiKey c = environ ''VAULT_API_KEY''" and "st_views c \<noteq> None \<longleftrightarrow> truthy (environ ''DECRYPTED_VIEWS_DATASET'')"
    and "st_vaultResourceId c = set_var environ ''PII_VAULT_RESOURCE_ID''"
  using assms by (auto simp: read_settings_def and_then_Inr dest: views_present)

text \<open>Two processes with one environment work on the same documents and the same signing key.\<close>

lemma signer_agrees:
  assumes "read_settings environ = Inr c" and "read_signer_settings environ = Inr g"
  shows "ss_projectId g = st_projectId c \<and> ss_kmsRegion g = st_kmsRegion c \<and> ss_signingKeyRing g = st_signingKeyRing c \<and>
    ss_signingKeyName g = st_signingKeyName c \<and> ss_firestoreCollection g = st_firestoreCollection c \<and>
    ss_deletionCollection g = st_deletionCollection c \<and> ss_databaseId g = st_databaseId c \<and>
    ss_declarationCollection g = st_declarationCollection c"
  using assms by (auto simp: read_settings_def read_signer_settings_def and_then_Inr)

text \<open>Without a shared key every request reaches its handler.\<close>

lemma open_without_key: "\<not> truthy (st_apiKey c) \<Longrightarrow> \<exists>rq t. admit A (st_apiKey c) uuid H s = (Inr (Some rq), t)"
  by (simp add: admit_def on_request_def bnd_apply pre_handler_def)

text \<open>
  C11. The surface of a vault that started with a shared key: on every route it registers, a request reaches its handler
  only if the route is one of the eight public ones, or the request carries that key, or a recorded credential, neither revoked nor
  expired, of the request's tenant, for which the route is listed: analysts have encryption, decryption, resources and new
  deletion requests, services the deletion requests, a user's certificate and the tenant's latest, auditors the key status.
\<close>

theorem surface_as_listed:
  assumes "read_settings environ = Inr c" and "environ ''VAULT_API_KEY'' = Some k" and "k \<noteq> []"
    and "r \<in> set (registered c)" and "matches (pattern_of (snd r)) (path_of H)"
    and "admit A (st_apiKey c) uuid H s = (Inr (Some rq), s')"
  shows "r \<in> set public_routes \<or> provided_key H = Some k \<or>
    (\<exists>key d. provided_key H = Some key \<and> d \<in> snd ` set (access s) \<and> grants A key (path_of H) (request_tenant H) (now s') d \<and>
      r \<in> set (credential_routes (role_of d) (ac_kind d)))"
proof (cases "isExemptFromAuth (path_of H)")
  case True
  then show ?thesis using registered_treated(1)[OF assms(4,5)] by simp
next
  case False
  have "admit A (Some k) uuid H s = (Inr (Some rq), s')" using assms(6) settings_of(1)[OF assms(1)] assms(2) by simp
  note right = admitted_right[OF this assms(3) False]
  have "r \<in> set (credential_routes (role_of d) (ac_kind d))" if "grants A key (path_of H) tenantId t d" for key tenantId t d
    using that registered_treated(2)[OF assms(4,5)] unfolding grants_def by blast
  then show ?thesis using right by metis
qed

definition toy_environment :: environment where
  "toy_environment = map_of
     [(''GCP_PROJECT_ID'', ''p''), (''CLOUD_KMS_REGION'', ''r''), (''CLOUD_KMS_KEY_RING'', ''kr''), (''CLOUD_KMS_KEY_NAME'', ''k''),
      (''CLOUD_KMS_SIGNING_KEY_RING'', ''kr''), (''CLOUD_KMS_SIGNING_KEY_NAME'', ''s''), (''FIRESTORE_COLLECTION'', ''keys''),
      (''FIRESTORE_DELETION_REQUEST_COLLECTION'', ''requests''), (''GCP_AUDIT_BUCKET_NAME'', ''b''), (''VAULT_API_KEY'', ''master'')]"

lemma toy_starts: "\<exists>c. read_settings toy_environment = Inr c"
  unfolding starts_iff by (simp add: required_names_def toy_environment_def truthy_def)

lemma surface_as_listed_witness:
  "\<exists>c rq s' d. read_settings toy_environment = Inr c \<and>
     admit toy_access (st_apiKey c) ''uuid'' toy_headers (toy_aworld toy_session) = (Inr (Some rq), s') \<and>
     d \<in> snd ` set toy_session \<and> (''POST'', ''/encrypt'') \<in> set (credential_routes (role_of d) (ac_kind d))"
proof -
  obtain c where c: "read_settings toy_environment = Inr c" using toy_starts by blast
  have key: "toy_environment ''VAULT_API_KEY'' = Some ''master''" by (simp add: toy_environment_def)
  obtain rq s' where run: "admit toy_access (st_apiKey c) ''uuid'' toy_headers (toy_aworld toy_session) = (Inr (Some rq), s')"
    using toy_admitted settings_of(1)[OF c] key by auto
  have r: "(''POST'', ''/encrypt'') \<in> set (registered c)" by (simp add: registered_def always_registered_def crypto_table_def)
  have path: "path_of toy_headers = ''/encrypt''" "provided_key toy_headers = Some ''key''"
    by (simp_all add: path_of_def provided_key_def toy_headers_def)
  have m: "matches (pattern_of (snd (''POST'', ''/encrypt''))) (path_of toy_headers)" unfolding path by code_simp
  have "(''POST'', ''/encrypt'') \<notin> set public_routes" by (simp add: public_routes_def)
  then show ?thesis
    using surface_as_listed[OF c key _ r m run] c run path by auto
qed

end
