(* ===== verification/Spec2Isabelle.thy ===== *)
theory Spec2Isabelle
  imports AuditRoutes LineageRoutes DecryptedViews SyncRuns Federation SignerServer EvidenceVerify Platform Startup
begin

text \<open>
  \<^bold>\<open>Chameleon Key Vault.\<close> The vault keeps one data encryption key for each user of each tenant. Personal data is stored
  elsewhere only under such a key, so deleting a person is destroying the key (crypto-shredding), wiping the copies that SaaS
  systems hold in clear, redacting the customer's own tables, and issuing a signed certificate that this was done. The
  development is a model of the TypeScript sources under \<open>src/\<close>, one theory for each component. A class of the source is a
  group of definitions over a record of its state, a handler is one definition with the branches of the code, and names are
  those of the source where the logic has no constant of that name.

  \<^bold>\<open>How code is rendered.\<close> An \<open>async\<close> method is a function of type \<open>('s, 'a) eff\<close>: from the world to a thrown value or a
  result, and the new world (theory Prelude). The world is a record that grows along the imports: the clock and the outcomes of
  the remote calls still to come (\<open>env\<close>), the key documents (\<open>kworld\<close>), the key service, the lineage, the contacts of the
  SaaS systems, the deletion requests, the declarations, the ledger of certificates, credentials, the vault table, the views,
  the runs. Every remote call consumes one outcome: it succeeds, it is lost, or it takes effect and its answer is lost, and it
  takes time. An exhausted list means success. So a statement about every world is one about every pattern of failures, and
  what other processes may do in between appears as the world a step starts in. \<open>throw\<close>, \<open>try\<close> and early returns are the
  branches of a sum; a JavaScript object with string keys is an association list or a map, an enumeration a datatype, an
  \<open>undefined\<close> field \<open>None\<close>, a byte an \<open>8 word\<close>, a number of the score a rational rounded as doubles are (theory Doubles).

  \<^bold>\<open>Keys and encryption.\<close> Base64 and Crypto: encodings and \<open>src/crypto/\<close> (the two ciphers). KeyRegistry:
  \<open>src/gcp/firestore-registry.ts\<close>. Kms: \<open>src/gcp/cloud-kms.ts\<close> and the signer's client. CryptoRoutes: \<open>src/routes/crypto.ts\<close>
  with its part of \<open>src/middleware/validation.ts\<close>. Shown: the invariant of the key documents under every operation and
  failure, what is encrypted is decrypted again also after rotations, no key material is readable after a shred, waiting for a
  key version ends, every handler answers.

  \<^bold>\<open>Deletion.\<close> Lineage (\<open>src/gcp/bigquery-lineage.ts\<close>), Connectors (\<open>src/services/connectors/\<close>), Janitor
  (\<open>src/services/janitor.ts\<close>, the dead-letter queue), DeletionRepo (\<open>src/gcp/deletion-request-repository.ts\<close>), SourceRedaction
  (\<open>src/services/source-redaction-service.ts\<close> and the SQL it writes), DeletionService
  (\<open>src/services/deletion-request-service.ts\<close>), DeletionRoutes (\<open>src/routes/deletion-requests.ts\<close>, \<open>DELETE /key/shred\<close>) and
  LineageRoutes (\<open>src/routes/lineage.ts\<close>). The routes advance a request; the service claims the transition by compare and set,
  runs its effect and rolls back when that throws; the cascade runs the janitor over the recorded destinations and the
  redaction over the declared tables. Shown: the advances refine an abstract life cycle of a request, a failed wipe or
  redaction withholds completion and certificate, a cascade settles, no transition is claimed twice, every SaaS copy of a
  user with a completed wipe is gone, redaction stays in the declared tables and in the tenant, and a shred ends decryption
  on every path of the vault.

  \<^bold>\<open>Certificates.\<close> CertSigner and SignerServer (\<open>src/certificate-signer/\<close>), CertText (what the printed token determines),
  Witnesses (\<open>src/gcp/tsa-client.ts\<close>, \<open>src/gcp/rekor-client.ts\<close>), CertChain (\<open>src/gcp/certificate-chain-repository.ts\<close>),
  CertService (\<open>src/services/certificate-service.ts\<close> with \<open>src/routes/certificate.ts\<close>), EvidenceVerify
  (\<open>src/crypto/tsa-verify.ts\<close>, \<open>src/crypto/rekor-verify.ts\<close>). Shown: the signer certifies only destroyed keys, over a
  completed request, and serves only its configured caller, issuing keeps the ledger a hash chain whose positions have no gaps, an
  issued certificate is stored and walks back to the first, and accepted evidence is about this very certificate.

  \<^bold>\<open>Registry of personal data.\<close> PiiRegistry, PiiDeclare, Federation (what the registry is made of at the start),
  PiiCoverage (the score, with Doubles), PiiRoutes (\<open>src/routes/pii-registry.ts\<close>) and SyncRuns. Dates prints and reads instants.
  Shown: declarations are accepted exactly when they satisfy the stated rules, and what is saved carries what was submitted,
  reaches the store and survives a restart, a start serves what the tables of the warehouses say, writes need the token, a score
  lies between 0 and 100 with the counts adding up, the rows of the warehouse are grouped by resource as a direct
  definition says, and the progress of a run is consistent in every reachable state.

  \<^bold>\<open>Reading the vault.\<close> PiiVault (\<open>src/services/pii-vault-decryptor.ts\<close> and the two routes that decrypt), DecryptedViews and
  AuditRoutes. Shown: values come back under the version they were stored with, batches are answered only for the
  configured service account, a view shows only declared fields of its tenant, the trail of a person is complete.

  \<^bold>\<open>Access.\<close> AnalystAccess (claim links and credentials), Auth (\<open>src/middleware/auth.ts\<close> and the hooks of \<open>src/main.ts\<close>), Startup
  (the settings and the routes registered under them) and Platform (health, versions, secrets, log mirror, environment).
  Shown: a link yields one credential, revoking cuts it off, a request gets past the hooks only with a right, and for every
  registered route and every path it takes, who reaches it is the listed set. The health check answers within three seconds.

  \<^bold>\<open>Interfaces.\<close> Six locales state what one component relies on in another: \<open>key_store\<close> (registry), \<open>wipe_connector\<close> and
  its extension \<open>wiping\<close> (the connectors under the janitor), \<open>cas_store\<close> (claims of transitions), \<open>chain_port\<close> (the signing
  callback of the ledger) and \<open>declaration_port\<close> (the store of declarations). Each is interpreted on the model's own
  definitions in the theory that provides them. Step relations with rule induction are \<open>claim_step\<close>, \<open>lifecycle\<close> and
  \<open>sync_reach\<close>.

  \<^bold>\<open>Bounds.\<close> No definition carries fuel. Loops recurse on lists or on the attempts left: three for a wipe, five for the
  transaction of the ledger, as in the code and its client library. The loop that waits for a key version recurses on the time
  to its deadline, which each turn shortens by at least three seconds, and is proved to end with the verdict of its last poll,
  also when a poll fails. A cascade is a finite list of tasks; that it
  settles is proved for every list of outcomes.

  \<^bold>\<open>What stands as an argument.\<close> AES-GCM, SHA-256, signatures, X.509 and ASN.1, the verification of ID tokens and of JSON web
  tokens, parsing JSON, checks of e-mail and UUID syntax, random bytes (a stream), what warehouses and services answer. Laws
  about them are hypotheses where a theorem needs them: decryption inverts encryption, hashes do not collide, the transparency
  log answers with a canonical form of what was posted.

  \<^bold>\<open>Assumptions of the rendering.\<close> A Firestore transaction is one step of the world, except that of the ledger, where
  signing happens between read and commit. Handlers run one at a time; interleavings are those of the steps between which the
  code meets stored state, and a cascade runs in one go after the advance that started it. Strings are lists of bytes, so
  UTF-8 of the model is the identity on them. The path a route takes is matched segment by segment as the framework documents.

  \<^bold>\<open>Not modelled.\<close> The text of log lines at most places (they have no effect on the results), construction of clients, listening on
  the port, rate limits and other plugins of the framework, the Avro encoding of lineage events, the wording of Joi's
  messages, reading the port as a number, zeroing of buffers (values have no storage), and the type declarations of libraries. The
  tests, the API documents and the infrastructure they mention are outside of the model.
\<close>

end
